(* ===== verification/Prelude.thy ===== *)
theory Prelude
  imports Main "HOL-Library.Word"
begin

text \<open>
  Shared ground of the development: the names of the model's basic types (times, durations,
  row identifiers), table operations on lists of rows (a database table is the list of its rows
  in insertion order) with the lemmas every component uses about them, and the collections the
  component proofs draw on.
\<close>

named_theorems table_simps \<open>rewriting of table look-ups, updates and inserts\<close>

text \<open>Times are instants in nanoseconds, as Go's \<open>time.Time\<close>; durations likewise.\<close>

type_synonym time = int
type_synonym duration = int
type_synonym uuid = nat

definition uuid_nil :: uuid where "uuid_nil = 0"

abbreviation millisecond :: duration where "millisecond \<equiv> 1000000"
abbreviation second :: duration where "second \<equiv> 1000000000"
abbreviation minute :: duration where "minute \<equiv> 60000000000"
abbreviation hour :: duration where "hour \<equiv> 3600000000000"

section \<open>Tables\<close>

text \<open>The first row whose key is \<open>k\<close>; with unique keys, the row.\<close>

definition row_with :: "('r \<Rightarrow> 'k) \<Rightarrow> 'k \<Rightarrow> 'r list \<Rightarrow> 'r option" where
  "row_with key k rows = find (\<lambda>r. key r = k) rows"

definition has_key :: "('r \<Rightarrow> 'k) \<Rightarrow> 'k \<Rightarrow> 'r list \<Rightarrow> bool" where
  "has_key key k rows = list_ex (\<lambda>r. key r = k) rows"

text \<open>\<open>UPDATE ... SET f WHERE p\<close> and the number of rows it reports.\<close>

definition update_where :: "('r \<Rightarrow> bool) \<Rightarrow> ('r \<Rightarrow> 'r) \<Rightarrow> 'r list \<Rightarrow> 'r list" where
  "update_where p f rows = map (\<lambda>r. if p r then f r else r) rows"

definition rows_where :: "('r \<Rightarrow> bool) \<Rightarrow> 'r list \<Rightarrow> nat" where
  "rows_where p rows = length (filter p rows)"

lemma row_with_Nil [table_simps]: "row_with key k [] = None"
  by (simp add: row_with_def)

lemma row_with_append [table_simps]:
  "row_with key k (xs @ ys)
     = (case row_with key k xs of Some r \<Rightarrow> Some r | None \<Rightarrow> row_with key k ys)"
  by (induction xs) (auto simp: row_with_def)

lemma row_with_single [table_simps]: "row_with key k [r] = (if key r = k then Some r else None)"
  by (simp add: row_with_def)

lemma row_with_SomeD: "row_with key k rows = Some r \<Longrightarrow> r \<in> set rows \<and> key r = k"
  by (auto simp: row_with_def find_Some_iff)

lemma row_with_None_iff: "row_with key k rows = None \<longleftrightarrow> k \<notin> key ` set rows"
  by (auto simp: row_with_def find_None_iff)

lemma row_with_distinct:
  "distinct (map key rows) \<Longrightarrow> r \<in> set rows \<Longrightarrow> row_with key (key r) rows = Some r"
  by (induction rows) (auto simp: row_with_def image_iff)

lemma row_with_unique:
  "distinct (map key rows) \<Longrightarrow> row_with key k rows = Some r \<longleftrightarrow> r \<in> set rows \<and> key r = k"
  using row_with_SomeD[of key k rows r] row_with_distinct[of key rows r] by auto

lemma has_key_iff: "has_key key k rows \<longleftrightarrow> k \<in> key ` set rows"
  by (auto simp: has_key_def list_ex_iff)

lemma has_key_row_with: "has_key key k rows \<longleftrightarrow> row_with key k rows \<noteq> None"
  by (simp add: has_key_iff row_with_None_iff)

lemma set_update_where: "set (update_where p f rows) = (\<lambda>r. if p r then f r else r) ` set rows"
  by (simp add: update_where_def)

lemma update_where_append [table_simps]:
  "update_where p f (xs @ ys) = update_where p f xs @ update_where p f ys"
  by (simp add: update_where_def)

lemma update_where_Nil [table_simps]: "update_where p f [] = []"
  by (simp add: update_where_def)

lemma update_where_Cons [table_simps]:
  "update_where p f (r # rows) = (if p r then f r else r) # update_where p f rows"
  by (simp add: update_where_def)

lemma update_where_none [table_simps]: "(\<And>r. r \<in> set rows \<Longrightarrow> \<not> p r) \<Longrightarrow> update_where p f rows = rows"
  by (induction rows) (auto simp: update_where_def)

lemma map_update_where [table_simps]:
  "(\<And>r. p r \<Longrightarrow> g (f r) = g r) \<Longrightarrow> map g (update_where p f rows) = map g rows"
  by (simp add: update_where_def)

lemma image_update_where [table_simps]:
  "(\<And>r. p r \<Longrightarrow> g (f r) = g r) \<Longrightarrow> g ` set (update_where p f rows) = g ` set rows"
  by (metis map_update_where set_map)

lemma has_key_update_where [table_simps]:
  "(\<And>r. p r \<Longrightarrow> key (f r) = key r) \<Longrightarrow> has_key key k (update_where p f rows) = has_key key k rows"
  by (simp add: has_key_iff table_simps)

lemma row_with_update_where [table_simps]:
  "(\<And>r. p r \<Longrightarrow> key (f r) = key r) \<Longrightarrow>
     row_with key k (update_where p f rows)
       = map_option (\<lambda>r. if p r then f r else r) (row_with key k rows)"
  by (induction rows) (auto simp: row_with_def update_where_def)

lemma filter_update_where [table_simps]:
  "(\<And>r. p r \<Longrightarrow> q (f r) = q r) \<Longrightarrow> filter q (update_where p f rows) = update_where p f (filter q rows)"
  by (induction rows) (auto simp: update_where_def)

lemma filter_update_where_out:
  "(\<And>r. p r \<Longrightarrow> \<not> q (f r)) \<Longrightarrow> filter q (update_where p f rows) = filter (\<lambda>r. q r \<and> \<not> p r) rows"
  by (induction rows) (auto simp: update_where_def)

lemma bex_update_where:
  assumes "r \<in> set rows" and "P r" and "p r \<Longrightarrow> P (f r)"
  shows "\<exists>r'\<in>set (update_where p f rows). P r'"
  using assms by (intro bexI[of _ "if p r then f r else r"]) (auto simp: set_update_where)

lemma filter_update_where_same:
  "(\<And>r. p r \<Longrightarrow> \<not> q r \<and> \<not> q (f r)) \<Longrightarrow> filter q (update_where p f rows) = filter q rows"
  by (induction rows) (auto simp: update_where_def)

lemma singleton_if_length_1: "length xs = 1 \<Longrightarrow> x \<in> set xs \<Longrightarrow> xs = [x]"
  by (cases xs) auto

lemma rows_where_0 [table_simps]: "rows_where p rows = 0 \<longleftrightarrow> (\<forall>r\<in>set rows. \<not> p r)"
  by (simp add: rows_where_def filter_empty_conv)

lemma rows_where_unique:
  assumes "distinct (map key rows)" and "\<And>r. p r \<Longrightarrow> key r = k"
  shows "rows_where p rows \<le> 1"
proof -
  have "set (map key (filter p rows)) \<subseteq> {k}" using assms(2) by auto
  moreover have "distinct (map key (filter p rows))" using assms(1) by (rule distinct_map_filter)
  ultimately show ?thesis
    using card_mono[of "{k}" "set (map key (filter p rows))"] distinct_card
    unfolding rows_where_def by fastforce
qed

lemma rows_where_pos: "0 < rows_where p rows \<longleftrightarrow> (\<exists>r\<in>set rows. p r)"
  using rows_where_0[of p rows] by auto

lemma rows_where_1D:
  assumes "rows_where p rows = 1"
  obtains r where "r \<in> set rows" "p r" "\<And>x. x \<in> set rows \<Longrightarrow> p x \<Longrightarrow> x = r"
proof -
  from assms obtain r where "filter p rows = [r]"
    unfolding rows_where_def by (metis One_nat_def length_0_conv length_Suc_conv)
  then have "set (filter p rows) = {r}" by simp
  then show thesis using that[of r] by auto
qed

section \<open>Options read as SQL nullable columns and Go \<open>pgtype\<close> values\<close>

abbreviation valid :: "'a option \<Rightarrow> bool" where "valid x \<equiv> x \<noteq> None"

lemma distinct_map_filter_inj:
  "distinct (map f xs) \<Longrightarrow> x \<in> set xs \<Longrightarrow> y \<in> set xs \<Longrightarrow> f x = f y \<Longrightarrow> x = y"
  by (metis inj_onD distinct_map)

section \<open>Newest-first order\<close>

text \<open>
  The order of every listing: \<open>ORDER BY <instant> DESC, id DESC\<close>. Instants may tie; identifiers
  do not, which is what makes the order total and a page boundary unambiguous.
\<close>

datatype newest_first = NewestFirst (nf_at: time) (nf_id: uuid)

instantiation newest_first :: linorder
begin

definition less_eq_newest_first :: "newest_first \<Rightarrow> newest_first \<Rightarrow> bool" where
  "less_eq_newest_first a b \<longleftrightarrow> nf_at b < nf_at a \<or> (nf_at a = nf_at b \<and> nf_id b \<le> nf_id a)"

definition less_newest_first :: "newest_first \<Rightarrow> newest_first \<Rightarrow> bool" where
  "less_newest_first a b \<longleftrightarrow> nf_at b < nf_at a \<or> (nf_at a = nf_at b \<and> nf_id b < nf_id a)"

instance
  by standard (auto simp: less_eq_newest_first_def less_newest_first_def intro: newest_first.expand)

end

section \<open>Rounding up\<close>

definition ceil_div :: "int \<Rightarrow> int \<Rightarrow> int" where
  "ceil_div a b = - ((- a) div b)"

lemma ceil_div_bounds:
  assumes "0 < b"
  shows "a \<le> ceil_div a b * b" and "ceil_div a b * b < a + b"
proof -
  have "- a = ((- a) div b) * b + (- a) mod b" by simp
  moreover have "0 \<le> (- a) mod b" "(- a) mod b < b" using assms by simp_all
  ultimately show "a \<le> ceil_div a b * b" "ceil_div a b * b < a + b"
    unfolding ceil_div_def minus_mult_left[symmetric] by linarith+
qed

lemma ceil_div_nonneg: "0 < b \<Longrightarrow> 0 \<le> a \<Longrightarrow> 0 \<le> ceil_div a b"
  by (simp add: ceil_div_def div_nonpos_pos_le0)

section \<open>Invariants of transition systems\<close>

text \<open>
  The interface between a component that is a transition system and the proofs about all its
  runs: an initial-state predicate, a step relation, and an invariant that holds at the start and
  is kept by every step holds in every reachable state.
\<close>

inductive reachable_from :: "('s \<Rightarrow> bool) \<Rightarrow> ('s \<Rightarrow> 's \<Rightarrow> bool) \<Rightarrow> 's \<Rightarrow> bool" for ini step where
  start: "ini s \<Longrightarrow> reachable_from ini step s"
| next_step: "reachable_from ini step s \<Longrightarrow> step s t \<Longrightarrow> reachable_from ini step t"

locale invariant_system =
  fixes ini :: "'s \<Rightarrow> bool"
    and step :: "'s \<Rightarrow> 's \<Rightarrow> bool"
    and inv :: "'s \<Rightarrow> bool"
  assumes inv_start: "ini s \<Longrightarrow> inv s"
    and inv_step: "inv s \<Longrightarrow> step s t \<Longrightarrow> inv t"
begin

lemma reachable_inv: "reachable_from ini step s \<Longrightarrow> inv s"
  by (induction rule: reachable_from.induct) (auto intro: inv_start inv_step)

lemma steps_inv: "step\<^sup>*\<^sup>* s t \<Longrightarrow> inv s \<Longrightarrow> inv t"
  by (induction rule: rtranclp_induct) (auto intro: inv_step)

end

lemma reachable_steps:
  "step\<^sup>*\<^sup>* s t \<Longrightarrow> reachable_from ini step s \<Longrightarrow> reachable_from ini step t"
  by (induction rule: rtranclp_induct) (auto intro: reachable_from.next_step)

end
