(* ===== verification/AppErrors.thy ===== *)
theory AppErrors
  imports Prelude
begin

text \<open>
  The application error type of \<open>internal/apperror/error.go\<close> and the response the error handler
  of \<open>internal/httpx/error_handler.go\<close> writes for it. Go's \<open>error\<close> values are the trees
  of \<open>go_error\<close>: sentinels, PostgreSQL errors (identified by their constraint name), other
  database faults, Fiber's own errors, wrapping (\<open>fmt.Errorf\<close> with \<open>%w\<close>), \<open>errors.Join\<close>, and
  \<open>AppError\<close> with its optional cause.
\<close>

type_synonym error_field = "string \<times> string"

datatype go_error =
    Sentinel string
  | PgError string
  | DbFault
  | FiberError int string
  | Wrapped string go_error
  | Joined "go_error list"
  | AppError (ae_status: int) (ae_code: string) (ae_message: string)
      (ae_fields: "error_field list") (ae_err: "go_error option") (ae_retry_after: "int option")

text \<open>\<open>pgx.ErrNoRows\<close>.\<close>

definition err_no_rows :: go_error where
  "err_no_rows = Sentinel ''no rows in result set''"

text \<open>
  The depth-first pre-order in which \<open>errors.Is\<close>, \<open>errors.As\<close> and \<open>errors.AsType\<close> visit a tree.
\<close>

fun error_chain :: "go_error \<Rightarrow> go_error list" where
  "error_chain (Wrapped m e) = Wrapped m e # error_chain e"
| "error_chain (Joined es) = Joined es # concat (map error_chain es)"
| "error_chain (AppError st c m fs (Some e) r) = AppError st c m fs (Some e) r # error_chain e"
| "error_chain e = [e]"

definition errors_is :: "go_error \<Rightarrow> go_error \<Rightarrow> bool" where
  "errors_is e target = (target \<in> set (error_chain e))"

definition errors_find :: "(go_error \<Rightarrow> bool) \<Rightarrow> go_error \<Rightarrow> go_error option" where
  "errors_find p e = find p (error_chain e)"

fun is_app_error :: "go_error \<Rightarrow> bool" where
  "is_app_error (AppError _ _ _ _ _ _) = True"
| "is_app_error _ = False"

fun is_fiber_error :: "go_error \<Rightarrow> bool" where
  "is_fiber_error (FiberError _ _) = True"
| "is_fiber_error _ = False"

fun is_pg_error :: "go_error \<Rightarrow> bool" where
  "is_pg_error (PgError _) = True"
| "is_pg_error _ = False"

section \<open>Constructors\<close>

definition code_bad_request :: string where "code_bad_request = ''BAD_REQUEST''"
definition code_unauthorized :: string where "code_unauthorized = ''UNAUTHORIZED''"
definition code_forbidden :: string where "code_forbidden = ''FORBIDDEN''"
definition code_not_found :: string where "code_not_found = ''RESOURCE_NOT_FOUND''"
definition code_conflict :: string where "code_conflict = ''CONFLICT''"
definition code_internal :: string where "code_internal = ''INTERNAL_SERVER_ERROR''"
definition code_validation :: string where "code_validation = ''VALIDATION_ERROR''"
definition code_too_many :: string where "code_too_many = ''TOO_MANY_REQUESTS''"
definition code_unavailable :: string where "code_unavailable = ''SERVICE_UNAVAILABLE''"

lemmas error_code_defs = code_bad_request_def code_unauthorized_def code_forbidden_def
  code_not_found_def code_conflict_def code_internal_def code_validation_def code_too_many_def
  code_unavailable_def

definition new_error :: "int \<Rightarrow> string \<Rightarrow> string \<Rightarrow> go_error option \<Rightarrow> go_error" where
  "new_error status code message err = AppError status code message [] err None"

definition new_with_fields ::
  "int \<Rightarrow> string \<Rightarrow> string \<Rightarrow> error_field list option \<Rightarrow> go_error option \<Rightarrow> go_error" where
  "new_with_fields status code message fields err =
     AppError status code message (case fields of None \<Rightarrow> [] | Some fs \<Rightarrow> fs) err None"

text \<open>Every \<open>...With\<close> constructor falls back to its own code and message when given an empty one.\<close>

definition with_defaults ::
  "int \<Rightarrow> string \<Rightarrow> string \<Rightarrow> string \<Rightarrow> string \<Rightarrow> go_error option \<Rightarrow> go_error" where
  "with_defaults status dcode dmessage code message err =
     new_error status (if code = '''' then dcode else code)
       (if message = '''' then dmessage else message) err"

definition bad_request :: "go_error option \<Rightarrow> go_error" where
  "bad_request err = new_error 400 code_bad_request ''bad request'' err"

definition bad_request_with :: "string \<Rightarrow> string \<Rightarrow> go_error option \<Rightarrow> go_error" where
  "bad_request_with = with_defaults 400 code_bad_request ''bad request''"

definition validation_error :: "error_field list option \<Rightarrow> go_error option \<Rightarrow> go_error" where
  "validation_error fields err =
     new_with_fields 400 code_validation ''request validation failed'' fields err"

definition unauthorized :: "go_error option \<Rightarrow> go_error" where
  "unauthorized err = new_error 401 code_unauthorized ''unauthorized'' err"

definition unauthorized_with :: "string \<Rightarrow> string \<Rightarrow> go_error option \<Rightarrow> go_error" where
  "unauthorized_with = with_defaults 401 code_unauthorized ''unauthorized''"

definition forbidden :: "go_error option \<Rightarrow> go_error" where
  "forbidden err = new_error 403 code_forbidden ''forbidden'' err"

definition forbidden_with :: "string \<Rightarrow> string \<Rightarrow> go_error option \<Rightarrow> go_error" where
  "forbidden_with = with_defaults 403 code_forbidden ''forbidden''"

definition not_found :: "go_error option \<Rightarrow> go_error" where
  "not_found err = new_error 404 code_not_found ''resource not found'' err"

definition not_found_with :: "string \<Rightarrow> string \<Rightarrow> go_error option \<Rightarrow> go_error" where
  "not_found_with = with_defaults 404 code_not_found ''resource not found''"

definition conflict :: "go_error option \<Rightarrow> go_error" where
  "conflict err = new_error 409 code_conflict ''conflict'' err"

definition conflict_with :: "string \<Rightarrow> string \<Rightarrow> go_error option \<Rightarrow> go_error" where
  "conflict_with = with_defaults 409 code_conflict ''conflict''"

definition too_many_requests :: "go_error option \<Rightarrow> go_error" where
  "too_many_requests err = new_error 429 code_too_many ''too many requests'' err"

definition too_many_requests_with :: "string \<Rightarrow> string \<Rightarrow> go_error option \<Rightarrow> go_error" where
  "too_many_requests_with = with_defaults 429 code_too_many ''too many requests''"

definition service_unavailable :: "go_error option \<Rightarrow> go_error" where
  "service_unavailable err = new_error 503 code_unavailable ''service unavailable'' err"

definition service_unavailable_with :: "string \<Rightarrow> string \<Rightarrow> go_error option \<Rightarrow> go_error" where
  "service_unavailable_with = with_defaults 503 code_unavailable ''service unavailable''"

definition internal :: "go_error option \<Rightarrow> go_error" where
  "internal err = new_error 500 code_internal ''internal server error'' err"

definition internal_with :: "string \<Rightarrow> string \<Rightarrow> go_error option \<Rightarrow> go_error" where
  "internal_with = with_defaults 500 code_internal ''internal server error''"

lemmas app_error_defs = new_error_def new_with_fields_def with_defaults_def bad_request_def
  bad_request_with_def validation_error_def unauthorized_def unauthorized_with_def forbidden_def
  forbidden_with_def not_found_def not_found_with_def conflict_def conflict_with_def
  too_many_requests_def too_many_requests_with_def service_unavailable_def
  service_unavailable_with_def internal_def internal_with_def

text \<open>
  \<open>RetryAfterSeconds\<close>: whole seconds, rounded up, never negative. The Go code goes through a
  \<open>float64\<close>; the ceiling is taken here on the exact quotient, which agrees for every duration
  whose whole seconds a \<open>float64\<close> carries with a nanosecond to spare (below \<open>2\<^sup>2\<^sup>3\<close> seconds).
\<close>

definition retry_after_seconds :: "duration \<Rightarrow> int" where
  "retry_after_seconds wait = (let seconds = ceil_div wait second in if seconds < 0 then 0 else seconds)"

definition too_many_requests_with_retry_after :: "string \<Rightarrow> string \<Rightarrow> duration \<Rightarrow> go_error" where
  "too_many_requests_with_retry_after code message wait =
     (case too_many_requests_with code message None of
        AppError st c m fs err _ \<Rightarrow> AppError st c m fs err (Some (retry_after_seconds wait))
      | e \<Rightarrow> e)"

definition service_unavailable_with_retry_after ::
  "string \<Rightarrow> string \<Rightarrow> duration \<Rightarrow> go_error option \<Rightarrow> go_error" where
  "service_unavailable_with_retry_after code message wait err =
     (case service_unavailable_with code message err of
        AppError st c m fs e _ \<Rightarrow> AppError st c m fs e (Some (retry_after_seconds wait))
      | e \<Rightarrow> e)"

section \<open>From an error to a response\<close>

definition from_error :: "go_error \<Rightarrow> go_error" where
  "from_error e = (case errors_find is_app_error e of Some a \<Rightarrow> a | None \<Rightarrow> internal (Some e))"

record http_error_response =
  resp_status :: int
  resp_code :: string
  resp_message :: string
  resp_fields :: "error_field list"
  resp_retry_after :: "int option"

datatype handled = FiberDefault go_error | AppResponse http_error_response

definition error_handler :: "go_error \<Rightarrow> handled" where
  "error_handler e =
     (case errors_find is_fiber_error e of
        Some f \<Rightarrow> FiberDefault f
      | None \<Rightarrow>
          (let a = from_error e in
           AppResponse \<lparr>resp_status = ae_status a, resp_code = ae_code a,
             resp_message = ae_message a, resp_fields = ae_fields a,
             resp_retry_after = ae_retry_after a\<rparr>))"

section \<open>Lemmas\<close>

lemma error_chain_self: "e \<in> set (error_chain e)"
  by (cases e rule: error_chain.cases) auto

lemma errors_find_SomeD: "errors_find p e = Some a \<Longrightarrow> p a \<and> a \<in> set (error_chain e)"
  by (auto simp: errors_find_def find_Some_iff)

lemma errors_find_self: "p e \<Longrightarrow> errors_find p e = Some e"
  by (cases e rule: error_chain.cases) (auto simp: errors_find_def)

lemma from_error_app: "is_app_error e \<Longrightarrow> from_error e = e"
  by (simp add: from_error_def errors_find_self)

lemma from_error_is_app: "is_app_error (from_error e)"
  by (auto simp: from_error_def app_error_defs split: option.split dest: errors_find_SomeD)

lemma retry_after_seconds_nonneg: "0 \<le> retry_after_seconds w"
  by (simp add: retry_after_seconds_def Let_def)

lemma retry_after_seconds_bounds:
  assumes "0 \<le> w"
  shows "w \<le> retry_after_seconds w * second \<and> retry_after_seconds w * second < w + second"
  using ceil_div_bounds[of second w] ceil_div_nonneg[of second w] assms
  by (simp add: retry_after_seconds_def Let_def)

end
