(* ===== verification/DbTx.thy ===== *)
theory DbTx
  imports AppErrors
begin

text \<open>
  How the repositories talk to PostgreSQL. A SQL statement is a function on the tables: an error
  or a value and the new tables. A repository method is a program over a connection, which holds
  the committed tables (\<open>stored\<close>), the tables as the open transaction sees them (\<open>work\<close>), and the
  fate of each coming round trip (\<open>sched\<close>): it works, it fails, or it is carried out and the answer
  is lost (which for a commit means: durable, and reported as an error). Each Go idiom
  \<open>x, err := qtx.Q(...); if err != nil { return onErr(err) }; k(x)\<close> is \<open>exec q on_err k\<close>; a
  statement on the pool, outside a transaction, is \<open>pool\<close>; \<open>defer tx.Rollback\<close> is the rule that
  \<open>work\<close> is dropped when the method returns without a commit.

  Each repository method is one transaction and runs without interleaving: the locking reads
  (\<open>FOR UPDATE\<close>) and the unique indexes are what the code uses to make that so.
\<close>

datatype fate = StmtOk | StmtFails | AckLost

record 'd conn =
  stored :: 'd
  work :: 'd
  sched :: "fate list"

type_synonym ('d, 'a) query = "'d \<Rightarrow> go_error + ('a \<times> 'd)"
type_synonym ('d, 'a) prog = "'d conn \<Rightarrow> (go_error + 'a) \<times> 'd conn"

definition next_fate :: "'d conn \<Rightarrow> fate" where
  "next_fate c = (case sched c of [] \<Rightarrow> StmtOk | f # _ \<Rightarrow> f)"

definition advance :: "'d conn \<Rightarrow> 'd conn" where
  "advance c = c\<lparr>sched := tl (sched c)\<rparr>"

definition ret :: "'a \<Rightarrow> ('d, 'a) prog" where
  "ret x c = (Inr x, c)"

definition fail :: "go_error \<Rightarrow> ('d, 'a) prog" where
  "fail e c = (Inl e, c)"

definition begin_tx :: "(go_error \<Rightarrow> ('d, 'a) prog) \<Rightarrow> ('d, 'a) prog \<Rightarrow> ('d, 'a) prog" where
  "begin_tx on_err k c =
     (case next_fate c of
        StmtOk \<Rightarrow> k ((advance c)\<lparr>work := stored c\<rparr>)
      | _ \<Rightarrow> on_err DbFault (advance c))"

definition exec ::
  "('d, 'a) query \<Rightarrow> (go_error \<Rightarrow> ('d, 'b) prog) \<Rightarrow> ('a \<Rightarrow> ('d, 'b) prog) \<Rightarrow> ('d, 'b) prog" where
  "exec q on_err k c =
     (case next_fate c of
        StmtOk \<Rightarrow>
          (case q (work c) of
             Inl e \<Rightarrow> on_err e (advance c)
           | Inr (x, d) \<Rightarrow> k x ((advance c)\<lparr>work := d\<rparr>))
      | _ \<Rightarrow> on_err DbFault (advance c))"

definition commit :: "(go_error \<Rightarrow> ('d, 'a) prog) \<Rightarrow> ('d, 'a) prog \<Rightarrow> ('d, 'a) prog" where
  "commit on_err k c =
     (case next_fate c of
        StmtOk \<Rightarrow> k ((advance c)\<lparr>stored := work c\<rparr>)
      | StmtFails \<Rightarrow> on_err DbFault (advance c)
      | AckLost \<Rightarrow> on_err DbFault ((advance c)\<lparr>stored := work c\<rparr>))"

definition pool ::
  "('d, 'a) query \<Rightarrow> (go_error \<Rightarrow> ('d, 'b) prog) \<Rightarrow> ('a \<Rightarrow> ('d, 'b) prog) \<Rightarrow> ('d, 'b) prog" where
  "pool q on_err k c =
     (case next_fate c of
        StmtOk \<Rightarrow>
          (case q (stored c) of
             Inl e \<Rightarrow> on_err e (advance c)
           | Inr (x, d) \<Rightarrow> k x ((advance c)\<lparr>stored := d\<rparr>))
      | StmtFails \<Rightarrow> on_err DbFault (advance c)
      | AckLost \<Rightarrow>
          (case q (stored c) of
             Inl e \<Rightarrow> on_err DbFault (advance c)
           | Inr (_, d) \<Rightarrow> on_err DbFault ((advance c)\<lparr>stored := d\<rparr>)))"

text \<open>A service method calling a repository method.\<close>

definition call ::
  "('d, 'a) prog \<Rightarrow> (go_error \<Rightarrow> ('d, 'b) prog) \<Rightarrow> ('a \<Rightarrow> ('d, 'b) prog) \<Rightarrow> ('d, 'b) prog" where
  "call p on_err k c = (case p c of (Inl e, c') \<Rightarrow> on_err e c' | (Inr x, c') \<Rightarrow> k x c')"

text \<open>The error handler of most calls: \<open>return apperror.Internal(err)\<close>.\<close>

definition fail_internal :: "go_error \<Rightarrow> ('d, 'a) prog" where
  "fail_internal e = fail (internal (Some e))"

text \<open>A run from committed tables \<open>d\<close> with no fault, and one with the fates \<open>fs\<close>.\<close>

definition conn_of :: "'d \<Rightarrow> fate list \<Rightarrow> 'd conn" where
  "conn_of d fs = \<lparr>stored = d, work = d, sched = fs\<rparr>"

definition run :: "('d, 'a) prog \<Rightarrow> 'd \<Rightarrow> fate list \<Rightarrow> (go_error + 'a) \<times> 'd" where
  "run p d fs = (case p (conn_of d fs) of (r, c) \<Rightarrow> (r, stored c))"

text \<open>A \<open>:one\<close> query: the first row, or \<open>pgx.ErrNoRows\<close>.\<close>

definition first_row :: "'r list \<Rightarrow> go_error + 'r" where
  "first_row rows = (case rows of [] \<Rightarrow> Inl err_no_rows | r # _ \<Rightarrow> Inr r)"

section \<open>Evaluation without faults\<close>

text \<open>A call of a helper inside a transaction unfolds into the caller's own statements.\<close>

named_theorems call_simps \<open>a call as the statements of the callee\<close>

lemma call_ret [call_simps]: "call (ret x) on_err k = k x"
  by (simp add: fun_eq_iff call_def ret_def)

lemma call_fail [call_simps]: "call (fail e) on_err k = on_err e"
  by (simp add: fun_eq_iff call_def fail_def)

lemma call_fail_internal [call_simps]: "call (fail_internal e) on_err k = on_err (internal (Some e))"
  by (simp add: fail_internal_def call_fail)

lemma call_exec [call_simps]:
  "call (exec q f g) on_err k = exec q (\<lambda>e. call (f e) on_err k) (\<lambda>x. call (g x) on_err k)"
  by (simp add: fun_eq_iff call_def exec_def split: fate.split sum.split prod.split)

lemma call_pool [call_simps]:
  "call (pool q f g) on_err k = pool q (\<lambda>e. call (f e) on_err k) (\<lambda>x. call (g x) on_err k)"
  by (simp add: fun_eq_iff call_def pool_def split: fate.split sum.split prod.split)

lemma call_if [call_simps]:
  "call (if b then p else q) on_err k = (if b then call p on_err k else call q on_err k)"
  by simp


named_theorems run_simps \<open>step-by-step evaluation of repository programs\<close>

lemma advance_sel [run_simps]:
  "stored (advance c) = stored c" "work (advance c) = work c" "sched (advance c) = tl (sched c)"
  by (simp_all add: advance_def)

lemma next_fate_Nil [run_simps]: "sched c = [] \<Longrightarrow> next_fate c = StmtOk"
  by (simp add: next_fate_def)

lemmas prog_defs = ret_def fail_def begin_tx_def exec_def commit_def pool_def call_def
  fail_internal_def next_fate_def advance_def conn_of_def run_def

text \<open>
  \<open>quiet p d r d'\<close>: with no fault ahead, \<open>p\<close> turns the committed tables \<open>d\<close> into \<open>d'\<close> with result
  \<open>r\<close>, whatever an earlier transaction left in \<open>work\<close>.
\<close>

definition quiet :: "('d, 'a) prog \<Rightarrow> 'd \<Rightarrow> go_error + 'a \<Rightarrow> 'd \<Rightarrow> bool" where
  "quiet p d r d' \<longleftrightarrow>
     (\<forall>w. \<exists>w'. p \<lparr>stored = d, work = w, sched = []\<rparr> = (r, \<lparr>stored = d', work = w', sched = []\<rparr>))"

lemma quiet_run: "quiet p d r d' \<Longrightarrow> run p d [] = (r, d')"
  unfolding quiet_def run_def conn_of_def by (metis (mono_tags, lifting) case_prod_conv conn.select_convs(1))

lemma quiet_ret: "quiet (ret x) d (Inr x) d"
  by (simp add: quiet_def ret_def)

lemma quiet_fail: "quiet (fail e) d (Inl e) d"
  by (simp add: quiet_def fail_def)

lemma quiet_pool: "q d = Inr (x, d') \<Longrightarrow> quiet (k x) d' r d'' \<Longrightarrow> quiet (pool q on_err k) d r d''"
  by (simp add: quiet_def pool_def next_fate_def advance_def)

lemma quiet_call: "quiet p d (Inr x) d' \<Longrightarrow> quiet (k x) d' r d'' \<Longrightarrow> quiet (call p on_err k) d r d''"
  unfolding quiet_def call_def by (metis (mono_tags, lifting) case_prod_conv sum.case(2))

lemma quiet_call_error: "quiet p d (Inl e) d' \<Longrightarrow> quiet (on_err e) d' r d'' \<Longrightarrow> quiet (call p on_err k) d r d''"
  unfolding quiet_def call_def by (metis (mono_tags, lifting) case_prod_conv sum.case(1))

section \<open>Reasoning over every fault schedule\<close>

text \<open>
  \<open>wp Q p d w\<close>: started with committed tables \<open>d\<close> and transaction tables \<open>w\<close>, program \<open>p\<close> ends in
  a result and committed tables related by \<open>Q\<close>, whatever the fates of its round trips. The rules
  below are the proof interface: they walk a program statement by statement.
\<close>

definition wp :: "(go_error + 'a \<Rightarrow> 'd \<Rightarrow> bool) \<Rightarrow> ('d, 'a) prog \<Rightarrow> 'd \<Rightarrow> 'd \<Rightarrow> bool" where
  "wp Q p d w \<longleftrightarrow>
     (\<forall>c. stored c = d \<and> work c = w \<longrightarrow> (case p c of (r, c') \<Rightarrow> Q r (stored c')))"

named_theorems wp_intros \<open>rules that walk a program\<close>

lemma wp_ret [wp_intros]: "Q (Inr x) d \<Longrightarrow> wp Q (ret x) d w"
  by (simp add: wp_def ret_def)

lemma wp_fail [wp_intros]: "Q (Inl e) d \<Longrightarrow> wp Q (fail e) d w"
  by (simp add: wp_def fail_def)

lemma wp_fail_internal [wp_intros]: "Q (Inl (internal (Some e))) d \<Longrightarrow> wp Q (fail_internal e) d w"
  by (simp add: fail_internal_def wp_fail)

lemma wpD: "wp Q p (stored c) (work c) \<Longrightarrow> p c = (r, c') \<Longrightarrow> Q r (stored c')"
  by (auto simp: wp_def)

lemma wp_begin_tx [wp_intros]:
  assumes "wp Q (on_err DbFault) d w" and "wp Q k d d"
  shows "wp Q (begin_tx on_err k) d w"
  using assms unfolding wp_def begin_tx_def
  by (auto simp: run_simps split: fate.split)

lemma wp_exec [wp_intros]:
  assumes "wp Q (on_err DbFault) d w"
    and "\<And>e. q w = Inl e \<Longrightarrow> wp Q (on_err e) d w"
    and "\<And>x w'. q w = Inr (x, w') \<Longrightarrow> wp Q (k x) d w'"
  shows "wp Q (exec q on_err k) d w"
  using assms unfolding wp_def exec_def
  by (auto simp: run_simps split: fate.split sum.split)

lemma wp_commit [wp_intros]:
  assumes "wp Q (on_err DbFault) d w" and "wp Q (on_err DbFault) w w" and "wp Q k w w"
  shows "wp Q (commit on_err k) d w"
  using assms unfolding wp_def commit_def
  by (auto simp: run_simps split: fate.split)

lemma wp_pool [wp_intros]:
  assumes "wp Q (on_err DbFault) d w"
    and "\<And>e. q d = Inl e \<Longrightarrow> wp Q (on_err e) d w"
    and "\<And>x d'. q d = Inr (x, d') \<Longrightarrow> wp Q (k x) d' w"
    and "\<And>x d'. q d = Inr (x, d') \<Longrightarrow> wp Q (on_err DbFault) d' w"
  shows "wp Q (pool q on_err k) d w"
  using assms unfolding wp_def pool_def
  by (auto simp: run_simps split: fate.split sum.split)

lemma wp_call:
  assumes "wp (\<lambda>r d'. case r of Inl e \<Rightarrow> (\<forall>w'. wp Q (on_err e) d' w')
                              | Inr x \<Rightarrow> (\<forall>w'. wp Q (k x) d' w')) p d w"
  shows "wp Q (call p on_err k) d w"
  unfolding wp_def
proof (intro allI impI, elim conjE)
  fix c :: "_ conn" assume c: "stored c = d" "work c = w"
  obtain r c' where p: "p c = (r, c')" by (cases "p c")
  from assms c p have "case r of Inl e \<Rightarrow> (\<forall>w'. wp Q (on_err e) (stored c') w')
                                | Inr x \<Rightarrow> (\<forall>w'. wp Q (k x) (stored c') w')"
    by (auto simp: wp_def)
  then have "case r of Inl e \<Rightarrow> wp Q (on_err e) (stored c') (work c')
                     | Inr x \<Rightarrow> wp Q (k x) (stored c') (work c')"
    by (simp split: sum.splits)
  then show "case call p on_err k c of (r, c') \<Rightarrow> Q r (stored c')"
    using p by (cases r) (auto simp: call_def dest: wpD split: prod.split)
qed

lemma wp_if [wp_intros]: "(b \<Longrightarrow> wp Q p d w) \<Longrightarrow> (\<not> b \<Longrightarrow> wp Q q d w) \<Longrightarrow> wp Q (if b then p else q) d w"
  by simp

lemma wp_option [wp_intros]:
  "(x = None \<Longrightarrow> wp Q p d w) \<Longrightarrow> (\<And>y. x = Some y \<Longrightarrow> wp Q (f y) d w) \<Longrightarrow>
     wp Q (case x of None \<Rightarrow> p | Some y \<Rightarrow> f y) d w"
  by (cases x) auto

lemma wp_sum [wp_intros]:
  "(\<And>a. x = Inl a \<Longrightarrow> wp Q (f a) d w) \<Longrightarrow> (\<And>b. x = Inr b \<Longrightarrow> wp Q (g b) d w) \<Longrightarrow>
     wp Q (case x of Inl a \<Rightarrow> f a | Inr b \<Rightarrow> g b) d w"
  by (cases x) auto

lemma wp_prod [wp_intros]:
  "(\<And>a b. x = (a, b) \<Longrightarrow> wp Q (f a b) d w) \<Longrightarrow> wp Q (case x of (a, b) \<Rightarrow> f a b) d w"
  by (cases x) auto

lemma wp_Let [wp_intros]: "wp Q (f x) d w \<Longrightarrow> wp Q (Let x f) d w"
  by (simp add: Let_def)

lemma wp_mono: "wp Q p d w \<Longrightarrow> (\<And>r d'. Q r d' \<Longrightarrow> R r d') \<Longrightarrow> wp R p d w"
  by (fastforce simp: wp_def)

lemma wp_run: "wp Q p d d \<Longrightarrow> run p d fs = (r, d') \<Longrightarrow> Q r d'"
  using wpD[of Q p "conn_of d fs"] by (auto simp: run_def conn_of_def split: prod.splits)

text \<open>Where only an invariant of the tables is at stake.\<close>

lemma wp_run_snd: "wp (\<lambda>_. I) p d d \<Longrightarrow> I (snd (run p d fs))"
  using wp_run[of "\<lambda>_. I" p d fs] by (metis surjective_pairing)

lemma wp_call_inv:
  assumes "wp (\<lambda>_. I) p d w" and "\<And>e d' w'. I d' \<Longrightarrow> wp (\<lambda>_. I) (on_err e) d' w'"
    and "\<And>x d' w'. I d' \<Longrightarrow> wp (\<lambda>_. I) (k x) d' w'"
  shows "wp (\<lambda>_. I) (call p on_err k) d w"
  by (rule wp_call, rule wp_mono[OF assms(1)]) (use assms(2,3) in \<open>auto split: sum.split\<close>)

lemma wp_conj: "wp Q p d w \<Longrightarrow> wp R p d w \<Longrightarrow> wp (\<lambda>r d'. Q r d' \<and> R r d') p d w"
  by (fastforce simp: wp_def)

section \<open>Statements that keep a predicate of the tables\<close>

definition kept :: "('d \<Rightarrow> bool) \<Rightarrow> ('d, 'a) query \<Rightarrow> bool" where
  "kept I q \<longleftrightarrow> (\<forall>d x d'. I d \<longrightarrow> q d = Inr (x, d') \<longrightarrow> I d')"

named_theorems kept_rules \<open>statements that keep an invariant\<close>

lemma keptI: "(\<And>d x d'. I d \<Longrightarrow> q d = Inr (x, d') \<Longrightarrow> I d') \<Longrightarrow> kept I q"
  by (auto simp: kept_def)

lemma keptD: "kept I q \<Longrightarrow> I d \<Longrightarrow> q d = Inr (x, d') \<Longrightarrow> I d'"
  by (auto simp: kept_def)

lemma kept_conj: "kept I q \<Longrightarrow> kept J q \<Longrightarrow> kept (\<lambda>d. I d \<and> J d) q"
  by (auto simp: kept_def)

lemma wp_exec_kept:
  assumes "kept I q" and "I w" and "\<And>e. wp (\<lambda>_. I) (on_err e) d w"
    and "\<And>x w'. q w = Inr (x, w') \<Longrightarrow> I w' \<Longrightarrow> wp (\<lambda>_. I) (k x) d w'"
  shows "wp (\<lambda>_. I) (exec q on_err k) d w"
  by (rule wp_exec) (use assms(2-4) keptD[OF assms(1)] in blast)+

lemma wp_pool_kept:
  assumes "kept I q" and "I d" and "\<And>e d'. I d' \<Longrightarrow> wp (\<lambda>_. I) (on_err e) d' w"
    and "\<And>x d'. I d' \<Longrightarrow> wp (\<lambda>_. I) (k x) d' w"
  shows "wp (\<lambda>_. I) (pool q on_err k) d w"
  by (rule wp_pool) (use assms(2-4) keptD[OF assms(1)] in blast)+

section \<open>The contract of a repository method\<close>

text \<open>
  What a caller may rely on, for every schedule of faults: the method leaves the committed tables
  as they were and reports an error, or commits one of the changes \<open>effect\<close> allows; there is no
  state in between, and success is never reported without the change.
  Invariants that every allowed change keeps survive every call, however it ends.
\<close>

locale repo_method =
  fixes prog :: "('d, 'a) prog"
    and effect :: "'d \<Rightarrow> 'd \<Rightarrow> bool"
  assumes all_or_nothing: "run prog d fs = (r, d') \<Longrightarrow> (d' = d \<and> isl r) \<or> effect d d'"
begin

lemma outcome: "(snd (run prog d fs) = d \<and> isl (fst (run prog d fs))) \<or> effect d (snd (run prog d fs))"
  by (rule all_or_nothing[OF surjective_pairing])

lemma reported: "run prog d fs = (Inr x, d') \<Longrightarrow> effect d d'"
  using all_or_nothing by fastforce

lemma keeps:
  assumes "\<And>d d'. I d \<Longrightarrow> effect d d' \<Longrightarrow> I d'" and "I d" and "run prog d fs = (r, d')"
  shows "I d'"
  using all_or_nothing[OF assms(3)] assms(1,2) by blast

lemma unchanged_if:
  assumes "\<And>d'. \<not> effect d d'" and "run prog d fs = (r, d')"
  shows "d' = d"
  using all_or_nothing[OF assms(2)] assms(1) by blast

end

end
