(* ===== verification/Sessions.thy ===== *)
theory Sessions
  imports DbTx
begin

text \<open>
  Sessions and refresh tokens: \<open>internal/api/auth/session\<close>. The tables \<open>sessions\<close> and
  \<open>refresh_tokens\<close> with their constraints, one definition per SQL statement of the generated
  queries, one per repository method (a transaction) and one per service method.

  \<open>NOW()\<close> (the database clock) and \<open>time.Now()\<close> (the API host's clock) are separate arguments.
  Row ids come from the database's \<open>uuidv7()\<close> and are arguments too; an id already present
  violates the primary key, as it would there. Tokens come from \<open>security.GenerateToken\<close> and are
  hashed by \<open>security.HashToken\<close>; both are arguments of the service methods.
\<close>

section \<open>State\<close>

record session =
  s_id :: uuid
  s_user :: uuid
  s_platform :: string
  s_installation :: "uuid option"
  s_device_name :: "string option"
  s_user_agent :: "string option"
  s_created_at :: time
  s_last_activity_at :: time
  s_absolute_expires_at :: time
  s_revoked_at :: "time option"

record refresh_token =
  t_id :: uuid
  t_session :: uuid
  t_hash :: string
  t_issued_at :: time
  t_replaced_by :: "uuid option"

record session_db =
  users :: "uuid list"
  sessions :: "session list"
  tokens :: "refresh_token list"

record session_metadata =
  md_platform :: string
  md_installation :: "uuid option"
  md_device_name :: "string option"
  md_user_agent :: "string option"

definition session_absolute_lifetime :: duration where
  "session_absolute_lifetime = 90 * 24 * hour"
definition session_idle_lifetime :: duration where
  "session_idle_lifetime = 30 * 24 * hour"
definition access_token_lifetime :: duration where
  "access_token_lifetime = 15 * minute"
definition session_list_default_limit :: int where "session_list_default_limit = 20"
definition session_list_max_limit :: int where "session_list_max_limit = 50"
definition session_cleanup_batch_size :: nat where "session_cleanup_batch_size = 500"
definition session_cleanup_max_batches :: nat where "session_cleanup_max_batches = 100"

section \<open>SQL statements\<close>

definition q_create_session ::
  "time \<Rightarrow> uuid \<Rightarrow> uuid \<Rightarrow> session_metadata \<Rightarrow> time \<Rightarrow> (session_db, session) query" where
  "q_create_session now sid uid md expires db =
     (if has_key s_id sid (sessions db) then Inl (PgError ''sessions_pkey'')
      else if uid \<notin> set (users db) then Inl (PgError ''sessions_user_id_fkey'')
      else
        (let s = \<lparr>s_id = sid, s_user = uid, s_platform = md_platform md,
                  s_installation = md_installation md, s_device_name = md_device_name md,
                  s_user_agent = md_user_agent md, s_created_at = now, s_last_activity_at = now,
                  s_absolute_expires_at = expires, s_revoked_at = None\<rparr>
         in Inr (s, db\<lparr>sessions := sessions db @ [s]\<rparr>)))"

definition q_create_refresh_token ::
  "time \<Rightarrow> uuid \<Rightarrow> uuid \<Rightarrow> string \<Rightarrow> (session_db, refresh_token) query" where
  "q_create_refresh_token now tid sid hash db =
     (if has_key t_id tid (tokens db) then Inl (PgError ''refresh_tokens_pkey'')
      else if has_key t_hash hash (tokens db) then Inl (PgError ''refresh_tokens_token_hash_idx'')
      else if \<not> has_key s_id sid (sessions db) then Inl (PgError ''refresh_tokens_session_id_fkey'')
      else
        (let t = \<lparr>t_id = tid, t_session = sid, t_hash = hash, t_issued_at = now,
                  t_replaced_by = None\<rparr>
         in Inr (t, db\<lparr>tokens := tokens db @ [t]\<rparr>)))"

definition q_get_refresh_token_with_session ::
  "string \<Rightarrow> (session_db, refresh_token \<times> session) query" where
  "q_get_refresh_token_with_session hash db =
     (case row_with t_hash hash (tokens db) of
        None \<Rightarrow> Inl err_no_rows
      | Some t \<Rightarrow>
          (case row_with s_id (t_session t) (sessions db) of
             None \<Rightarrow> Inl err_no_rows
           | Some s \<Rightarrow> Inr ((t, s), db)))"

definition q_replace_refresh_token :: "uuid \<Rightarrow> uuid \<Rightarrow> (session_db, unit) query" where
  "q_replace_refresh_token replaced_by tid db =
     (if has_key t_id tid (tokens db) \<and> \<not> has_key t_id replaced_by (tokens db)
      then Inl (PgError ''refresh_tokens_replaced_by_fkey'')
      else Inr ((), db\<lparr>tokens :=
        update_where (\<lambda>t. t_id t = tid) (\<lambda>t. t\<lparr>t_replaced_by := Some replaced_by\<rparr>) (tokens db)\<rparr>))"

definition q_update_session_activity :: "time \<Rightarrow> uuid \<Rightarrow> (session_db, unit) query" where
  "q_update_session_activity now sid db =
     Inr ((), db\<lparr>sessions :=
       update_where (\<lambda>s. s_id s = sid) (\<lambda>s. s\<lparr>s_last_activity_at := now\<rparr>) (sessions db)\<rparr>)"

definition revoke_matches :: "uuid \<Rightarrow> uuid \<Rightarrow> session \<Rightarrow> bool" where
  "revoke_matches sid uid s \<longleftrightarrow> s_id s = sid \<and> s_user s = uid \<and> s_revoked_at s = None"

definition q_revoke_session :: "time \<Rightarrow> uuid \<Rightarrow> uuid \<Rightarrow> (session_db, unit) query" where
  "q_revoke_session now sid uid db =
     Inr ((), db\<lparr>sessions :=
       update_where (revoke_matches sid uid) (\<lambda>s. s\<lparr>s_revoked_at := Some now\<rparr>) (sessions db)\<rparr>)"

definition q_revoke_session_for_user :: "time \<Rightarrow> uuid \<Rightarrow> uuid \<Rightarrow> (session_db, uuid) query" where
  "q_revoke_session_for_user now sid uid db =
     (if rows_where (revoke_matches sid uid) (sessions db) = 0 then Inl err_no_rows
      else Inr (sid, db\<lparr>sessions :=
        update_where (revoke_matches sid uid) (\<lambda>s. s\<lparr>s_revoked_at := Some now\<rparr>) (sessions db)\<rparr>))"

definition session_order_key :: "session \<Rightarrow> newest_first" where
  "session_order_key s = NewestFirst (s_last_activity_at s) (s_id s)"

definition active_sessions_of :: "uuid \<Rightarrow> session_db \<Rightarrow> session list" where
  "active_sessions_of uid db = filter (\<lambda>s. s_user s = uid \<and> s_revoked_at s = None) (sessions db)"

definition q_list_sessions :: "uuid \<Rightarrow> int \<Rightarrow> int \<Rightarrow> (session_db, session list) query" where
  "q_list_sessions uid lim off db =
     (if lim < 0 then Inl (Sentinel ''LIMIT must not be negative'')
      else if off < 0 then Inl (Sentinel ''OFFSET must not be negative'')
      else Inr (take (nat lim) (drop (nat off)
             (sort_key session_order_key (active_sessions_of uid db))), db))"

definition q_count_sessions :: "uuid \<Rightarrow> (session_db, int) query" where
  "q_count_sessions uid db = Inr (int (length (active_sessions_of uid db)), db)"

text \<open>
  The cleanup statement. \<open>locked\<close> are the rows other transactions hold, which
  \<open>FOR UPDATE SKIP LOCKED\<close> passes over. Deleting a session cascades to its tokens
  (\<open>ON DELETE CASCADE\<close>), and a surviving token that pointed at a deleted one is cleared
  (\<open>ON DELETE SET NULL\<close>).
\<close>

definition cleanup_eligible :: "time \<Rightarrow> duration \<Rightarrow> session \<Rightarrow> bool" where
  "cleanup_eligible now idle s \<longleftrightarrow>
     s_revoked_at s \<noteq> None \<or> s_absolute_expires_at s \<le> now \<or> s_last_activity_at s < now - idle"

definition delete_sessions :: "uuid list \<Rightarrow> session_db \<Rightarrow> session_db" where
  "delete_sessions sids db =
     (let gone = map t_id (filter (\<lambda>t. t_session t \<in> set sids) (tokens db)) in
      db\<lparr>sessions := filter (\<lambda>s. s_id s \<notin> set sids) (sessions db),
         tokens :=
           map (\<lambda>t. if (case t_replaced_by t of None \<Rightarrow> False | Some r \<Rightarrow> r \<in> set gone)
                    then t\<lparr>t_replaced_by := None\<rparr> else t)
             (filter (\<lambda>t. t_session t \<notin> set sids) (tokens db))\<rparr>)"

definition cleanup_batch :: "time \<Rightarrow> uuid list \<Rightarrow> duration \<Rightarrow> nat \<Rightarrow> session_db \<Rightarrow> uuid list" where
  "cleanup_batch now locked idle batch_limit db =
     take batch_limit (sort (map s_id
       (filter (\<lambda>s. cleanup_eligible now idle s \<and> s_id s \<notin> set locked) (sessions db))))"

definition q_delete_cleanup_eligible_sessions ::
  "time \<Rightarrow> uuid list \<Rightarrow> duration \<Rightarrow> nat \<Rightarrow> (session_db, int) query" where
  "q_delete_cleanup_eligible_sessions now locked idle batch_limit db =
     (let sids = cleanup_batch now locked idle batch_limit db
      in Inr (int (length sids), delete_sessions sids db))"

section \<open>Repository\<close>

definition code_refresh_token_invalid :: string where
  "code_refresh_token_invalid = ''REFRESH_TOKEN_INVALID''"
definition code_session_revoked :: string where "code_session_revoked = ''SESSION_REVOKED''"
definition code_session_expired :: string where "code_session_expired = ''SESSION_EXPIRED''"

definition err_refresh_token_invalid :: "go_error \<Rightarrow> go_error" where
  "err_refresh_token_invalid e =
     unauthorized_with code_refresh_token_invalid ''invalid refresh token'' (Some e)"
definition err_session_revoked :: go_error where
  "err_session_revoked = unauthorized_with code_session_revoked ''session has been revoked'' None"
definition err_session_expired :: go_error where
  "err_session_expired = unauthorized_with code_session_expired ''session has expired'' None"

definition repo_create_session ::
  "time \<Rightarrow> uuid \<Rightarrow> uuid \<Rightarrow> uuid \<Rightarrow> session_metadata \<Rightarrow> time \<Rightarrow> string
     \<Rightarrow> (session_db, session \<times> refresh_token) prog" where
  "repo_create_session now sid tid uid md expires hash =
     begin_tx fail_internal
      (exec (q_create_session now sid uid md expires) fail_internal (\<lambda>s.
       exec (q_create_refresh_token now tid (s_id s) hash) fail_internal (\<lambda>t.
       commit fail_internal
        (ret (s, t)))))"

text \<open>
  \<open>RefreshToken\<close>: lock the token and its session, refuse, or rotate. The three refusals that end
  the session commit the revocation before they are reported.
\<close>

definition revoke_and_fail ::
  "time \<Rightarrow> session \<Rightarrow> go_error \<Rightarrow> (session_db, 'a) prog" where
  "revoke_and_fail now s e =
     exec (q_revoke_session now (s_id s) (s_user s)) fail_internal (\<lambda>_.
     commit fail_internal
      (fail e))"

definition repo_refresh_token ::
  "time \<Rightarrow> time \<Rightarrow> uuid \<Rightarrow> string \<Rightarrow> string \<Rightarrow> duration
     \<Rightarrow> (session_db, (refresh_token \<times> session) \<times> refresh_token) prog" where
  "repo_refresh_token db_now app_now new_tid hash new_hash idle =
     begin_tx fail_internal
      (exec (q_get_refresh_token_with_session hash)
        (\<lambda>e. if errors_is e err_no_rows then fail (err_refresh_token_invalid e) else fail_internal e)
        (\<lambda>(t, s).
          if s_revoked_at s \<noteq> None then fail err_session_revoked
          else if t_replaced_by t \<noteq> None then revoke_and_fail db_now s err_session_revoked
          else if app_now > s_absolute_expires_at s then revoke_and_fail db_now s err_session_expired
          else if app_now - s_last_activity_at s > idle then revoke_and_fail db_now s err_session_expired
          else
            exec (q_create_refresh_token db_now new_tid (s_id s) new_hash) fail_internal (\<lambda>new.
            exec (q_replace_refresh_token (t_id new) (t_id t)) fail_internal (\<lambda>_.
            exec (q_update_session_activity db_now (s_id s)) fail_internal (\<lambda>_.
            commit fail_internal
             (ret ((t, s), new)))))))"

definition repo_revoke_session :: "time \<Rightarrow> uuid \<Rightarrow> uuid \<Rightarrow> (session_db, unit) prog" where
  "repo_revoke_session now sid uid = pool (q_revoke_session now sid uid) fail_internal ret"

definition repo_list_sessions :: "uuid \<Rightarrow> int \<Rightarrow> int \<Rightarrow> (session_db, session list) prog" where
  "repo_list_sessions uid off lim = pool (q_list_sessions uid lim off) fail_internal ret"

definition repo_count_sessions :: "uuid \<Rightarrow> (session_db, int) prog" where
  "repo_count_sessions uid = pool (q_count_sessions uid) fail_internal ret"

definition repo_revoke_session_for_user :: "time \<Rightarrow> uuid \<Rightarrow> uuid \<Rightarrow> (session_db, unit) prog" where
  "repo_revoke_session_for_user now sid uid =
     pool (q_revoke_session_for_user now sid uid)
       (\<lambda>e. if errors_is e err_no_rows then fail (not_found (Some e)) else fail_internal e)
       (\<lambda>_. ret ())"

definition repo_delete_cleanup_eligible_sessions ::
  "time \<Rightarrow> uuid list \<Rightarrow> duration \<Rightarrow> nat \<Rightarrow> (session_db, int) prog" where
  "repo_delete_cleanup_eligible_sessions now locked idle batch_limit =
     pool (q_delete_cleanup_eligible_sessions now locked idle batch_limit) fail_internal ret"

section \<open>Service\<close>

text \<open>
  \<open>GenerateToken\<close> either fails or yields a fresh random string; its answer is an argument, as is
  the answer of the access-token generator (a JWT library call), which depends on the session.
\<close>

record create_session_result =
  cr_session :: session
  cr_refresh_token :: string

definition create_session ::
  "(string \<Rightarrow> string) \<Rightarrow> time \<Rightarrow> time \<Rightarrow> uuid \<Rightarrow> uuid \<Rightarrow> go_error + string \<Rightarrow> uuid
     \<Rightarrow> session_metadata \<Rightarrow> (session_db, create_session_result) prog" where
  "create_session hash_token db_now app_now sid tid generated uid md =
     (case generated of
        Inl e \<Rightarrow> fail_internal e
      | Inr token \<Rightarrow>
          call (repo_create_session db_now sid tid uid md (app_now + session_absolute_lifetime)
                 (hash_token token)) fail (\<lambda>(s, _).
          ret \<lparr>cr_session = s, cr_refresh_token = token\<rparr>))"

record refresh_token_result =
  rr_access_token :: string
  rr_refresh_token :: string

definition refresh_token_service ::
  "(string \<Rightarrow> string) \<Rightarrow> (uuid \<Rightarrow> uuid \<Rightarrow> duration \<Rightarrow> go_error + string) \<Rightarrow> time \<Rightarrow> time \<Rightarrow> uuid
     \<Rightarrow> go_error + string \<Rightarrow> string \<Rightarrow> (session_db, refresh_token_result) prog" where
  "refresh_token_service hash_token access_token db_now app_now new_tid generated presented =
     (case generated of
        Inl e \<Rightarrow> fail_internal e
      | Inr new_token \<Rightarrow>
          call (repo_refresh_token db_now app_now new_tid (hash_token presented)
                 (hash_token new_token) session_idle_lifetime) fail (\<lambda>((_, s), _).
          (case access_token (s_user s) (s_id s) access_token_lifetime of
             Inl e \<Rightarrow> fail_internal e
           | Inr access \<Rightarrow> ret \<lparr>rr_access_token = access, rr_refresh_token = new_token\<rparr>)))"

definition logout :: "time \<Rightarrow> uuid \<Rightarrow> uuid \<Rightarrow> (session_db, unit) prog" where
  "logout now uid sid = repo_revoke_session now sid uid"

record list_sessions_result =
  ls_sessions :: "session list"
  ls_page :: int
  ls_limit :: int
  ls_total :: int
  ls_total_pages :: int

text \<open>Go's \<open>int32(x)\<close> keeps the low 32 bits; \<open>int\<close> is 64 bits wide.\<close>

definition to_int32 :: "int \<Rightarrow> int" where
  "to_int32 x = sint (of_int x :: 32 word)"

definition list_offset :: "int \<Rightarrow> int \<Rightarrow> int" where
  "list_offset page lim = to_int32 ((page - 1) * lim)"

definition clamp_page :: "int \<Rightarrow> int" where
  "clamp_page page = (if page < 1 then 1 else page)"

definition clamp_limit :: "int \<Rightarrow> int" where
  "clamp_limit lim =
     (let l = (if lim \<le> 0 then session_list_default_limit else lim)
      in if l > session_list_max_limit then session_list_max_limit else l)"

definition total_pages :: "int \<Rightarrow> int \<Rightarrow> int" where
  "total_pages cnt lim = (if cnt > 0 then (cnt + lim - 1) div lim else 0)"

definition list_sessions :: "uuid \<Rightarrow> int \<Rightarrow> int \<Rightarrow> (session_db, list_sessions_result) prog" where
  "list_sessions uid page0 lim0 =
     (let page = clamp_page page0; lim = clamp_limit lim0 in
      call (repo_list_sessions uid (list_offset page lim) (to_int32 lim)) fail (\<lambda>ss.
      call (repo_count_sessions uid) fail (\<lambda>cnt.
      ret \<lparr>ls_sessions = ss, ls_page = page, ls_limit = lim, ls_total = cnt,
           ls_total_pages = total_pages cnt lim\<rparr>)))"

definition revoke_session_for_user :: "time \<Rightarrow> uuid \<Rightarrow> uuid \<Rightarrow> (session_db, unit) prog" where
  "revoke_session_for_user now uid sid = repo_revoke_session_for_user now sid uid"

record cleanup_result =
  cl_deleted :: int
  cl_batches :: nat
  cl_capped :: bool

text \<open>
  The batch loop. \<open>env i\<close> is what iteration \<open>i\<close> meets: the database clock and the rows locked by
  others. \<open>fuel\<close> counts the iterations the cap still allows, so it is exactly
  \<open>SessionCleanupMaxBatches - batches\<close> and never runs out before the loop does.
\<close>

fun cleanup_loop ::
  "(nat \<Rightarrow> time \<times> uuid list) \<Rightarrow> nat \<Rightarrow> int \<Rightarrow> nat \<Rightarrow> (session_db, int \<times> nat) prog" where
  "cleanup_loop env 0 deleted batches = ret (deleted, batches)"
| "cleanup_loop env (Suc fuel) deleted batches =
     (case env batches of (now, locked) \<Rightarrow>
      call (repo_delete_cleanup_eligible_sessions now locked session_idle_lifetime
              session_cleanup_batch_size) fail (\<lambda>removed.
      if removed < int session_cleanup_batch_size then ret (deleted + removed, Suc batches)
      else cleanup_loop env fuel (deleted + removed) (Suc batches)))"

definition cleanup_sessions :: "(nat \<Rightarrow> time \<times> uuid list) \<Rightarrow> (session_db, cleanup_result) prog" where
  "cleanup_sessions env =
     call (cleanup_loop env session_cleanup_max_batches 0 0) fail (\<lambda>(deleted, batches).
     ret \<lparr>cl_deleted = deleted, cl_batches = batches,
          cl_capped = (batches = session_cleanup_max_batches)\<rparr>)"

section \<open>Invariant\<close>

definition live_tokens :: "uuid \<Rightarrow> session_db \<Rightarrow> refresh_token list" where
  "live_tokens sid db = filter (\<lambda>t. t_session t = sid \<and> t_replaced_by t = None) (tokens db)"

definition replaced_in_session :: "refresh_token \<Rightarrow> refresh_token list \<Rightarrow> bool" where
  "replaced_in_session t ts \<longleftrightarrow>
     (\<forall>r. t_replaced_by t = Some r \<longrightarrow> (\<exists>t'\<in>set ts. t_id t' = r \<and> t_session t' = t_session t))"

definition session_keys_ok :: "session_db \<Rightarrow> bool" where
  "session_keys_ok db \<longleftrightarrow>
     distinct (map s_id (sessions db)) \<and> distinct (map t_id (tokens db)) \<and>
     distinct (map t_hash (tokens db)) \<and>
     s_user ` set (sessions db) \<subseteq> set (users db) \<and>
     t_session ` set (tokens db) \<subseteq> s_id ` set (sessions db) \<and>
     (\<forall>t\<in>set (tokens db). replaced_in_session t (tokens db))"

definition session_inv :: "session_db \<Rightarrow> bool" where
  "session_inv db \<longleftrightarrow> session_keys_ok db \<and> (\<forall>sid \<in> s_id ` set (sessions db). length (live_tokens sid db) = 1)"

lemma session_invI:
  "session_keys_ok db \<Longrightarrow> (\<And>s. s \<in> set (sessions db) \<Longrightarrow> length (live_tokens (s_id s) db) = 1) \<Longrightarrow> session_inv db"
  by (auto simp: session_inv_def)

lemmas session_query_defs = q_create_session_def q_create_refresh_token_def
  q_get_refresh_token_with_session_def q_replace_refresh_token_def q_update_session_activity_def
  q_revoke_session_def q_revoke_session_for_user_def q_list_sessions_def q_count_sessions_def
  q_delete_cleanup_eligible_sessions_def

lemma live_tokens_no_session:
  "session_keys_ok db \<Longrightarrow> \<not> has_key s_id sid (sessions db) \<Longrightarrow> live_tokens sid db = []"
  by (auto simp: live_tokens_def session_keys_ok_def has_key_iff filter_empty_conv)

text \<open>Creating a session with its first token.\<close>

lemma create_inv:
  assumes inv: "session_inv db"
    and s: "q_create_session now sid uid md expires db = Inr (s, db1)"
    and t: "q_create_refresh_token now' tid (s_id s) hash db1 = Inr (t, db2)"
  shows "session_inv db2"
proof -
  have keys: "session_keys_ok db" using inv by (simp add: session_inv_def)
  have no: "live_tokens sid db = []"
    using live_tokens_no_session[OF keys] s by (auto simp: q_create_session_def split: if_splits)
  have ex: "sessions db2 = sessions db @ [s]" "tokens db2 = tokens db @ [t]" "users db2 = users db"
    "s_id s = sid" "t_session t = sid" "t_replaced_by t = None" "t_id t = tid" "t_hash t = hash"
    "s_user s = uid" "uid \<in> set (users db)" "sid \<notin> s_id ` set (sessions db)"
    "tid \<notin> t_id ` set (tokens db)" "hash \<notin> t_hash ` set (tokens db)"
    using s t by (auto simp: session_query_defs has_key_iff Let_def split: if_splits)
  show ?thesis
  proof (rule session_invI)
    show "session_keys_ok db2"
      using keys ex unfolding session_keys_ok_def replaced_in_session_def by (auto; blast)
    fix s' assume "s' \<in> set (sessions db2)"
    then show "length (live_tokens (s_id s') db2) = 1"
      using inv ex no by (auto simp: session_inv_def live_tokens_def)
  qed
qed

text \<open>Changing columns that no key depends on.\<close>

lemma update_sessions_inv:
  assumes "session_inv db" and "\<And>s. s_id (f s) = s_id s" and "\<And>s. s_user (f s) = s_user s"
  shows "session_inv (db\<lparr>sessions := update_where p f (sessions db)\<rparr>)"
  using assms
  by (simp add: session_inv_def session_keys_ok_def live_tokens_def map_update_where image_update_where)

lemma revoke_inv: "session_inv db \<Longrightarrow> q_revoke_session now sid uid db = Inr (x, db') \<Longrightarrow> session_inv db'"
  by (auto simp: q_revoke_session_def intro!: update_sessions_inv)

lemma revoke_for_user_inv:
  "session_inv db \<Longrightarrow> q_revoke_session_for_user now sid uid db = Inr (x, db') \<Longrightarrow> session_inv db'"
  by (auto simp: q_revoke_session_for_user_def intro!: update_sessions_inv split: if_splits)

text \<open>Deleting sessions: the cascade never reaches a surviving token's successor.\<close>

lemma delete_sessions_tokens:
  assumes keys: "session_keys_ok db"
  shows "tokens (delete_sessions sids db) = filter (\<lambda>t. t_session t \<notin> set sids) (tokens db)"
proof -
  define gone where "gone = set (map t_id (filter (\<lambda>t. t_session t \<in> set sids) (tokens db)))"
  have stays: "r \<notin> gone"
    if t: "t \<in> set (tokens db)" "t_session t \<notin> set sids" "t_replaced_by t = Some r" for t r
  proof
    assume "r \<in> gone"
    then obtain u where u: "u \<in> set (tokens db)" "t_id u = r" "t_session u \<in> set sids"
      by (auto simp: gone_def)
    obtain v where v: "v \<in> set (tokens db)" "t_id v = r" "t_session v = t_session t"
      using keys t unfolding session_keys_ok_def replaced_in_session_def by blast
    have "u = v" using keys u v by (auto simp: session_keys_ok_def intro: distinct_map_filter_inj)
    then show False using u v t by simp
  qed
  have "tokens (delete_sessions sids db) =
      map (\<lambda>t. if (case t_replaced_by t of None \<Rightarrow> False | Some r \<Rightarrow> r \<in> gone)
               then t\<lparr>t_replaced_by := None\<rparr> else t)
        (filter (\<lambda>t. t_session t \<notin> set sids) (tokens db))"
    unfolding delete_sessions_def Let_def gone_def by simp
  also have "\<dots> = filter (\<lambda>t. t_session t \<notin> set sids) (tokens db)"
    using stays by (intro map_idI) (auto split: option.splits)
  finally show ?thesis .
qed

lemma replaced_in_session_filter:
  "replaced_in_session t ts \<Longrightarrow> t_session t \<notin> S \<Longrightarrow>
     replaced_in_session t (filter (\<lambda>t. t_session t \<notin> S) ts)"
  by (force simp: replaced_in_session_def)

lemma replaced_in_session_mono:
  "replaced_in_session t ts \<Longrightarrow> (\<lambda>t. (t_id t, t_session t)) ` set ts \<subseteq> (\<lambda>t. (t_id t, t_session t)) ` set ts'
     \<Longrightarrow> replaced_in_session t ts'"
  unfolding replaced_in_session_def by (smt (verit, best) Pair_inject image_iff subset_iff)

lemma delete_sessions_sel:
  "sessions (delete_sessions sids db) = filter (\<lambda>s. s_id s \<notin> set sids) (sessions db)"
  "users (delete_sessions sids db) = users db"
  by (simp_all add: delete_sessions_def Let_def)

lemma delete_sessions_inv:
  assumes inv: "session_inv db"
  shows "session_inv (delete_sessions sids db)"
proof -
  have keys: "session_keys_ok db" using inv by (simp add: session_inv_def)
  note tok = delete_sessions_tokens[OF keys, of sids]
  show ?thesis
  proof (rule session_invI)
    have "t_session ` set (filter (\<lambda>t. t_session t \<notin> set sids) (tokens db))
        \<subseteq> s_id ` set (filter (\<lambda>s. s_id s \<notin> set sids) (sessions db))"
      using keys by (fastforce simp: session_keys_ok_def)
    then show "session_keys_ok (delete_sessions sids db)"
      using keys unfolding session_keys_ok_def tok delete_sessions_sel
      by (auto simp: distinct_map_filter intro!: replaced_in_session_filter)
    fix s assume s: "s \<in> set (sessions (delete_sessions sids db))"
    then have "live_tokens (s_id s) (delete_sessions sids db) = live_tokens (s_id s) db"
      unfolding live_tokens_def tok delete_sessions_sel by (auto intro!: filter_cong)
    then show "length (live_tokens (s_id s) (delete_sessions sids db)) = 1"
      using inv s by (auto simp: session_inv_def delete_sessions_sel)
  qed
qed

text \<open>Rotation: the successor takes over from the consumed token.\<close>

definition rotated :: "time \<Rightarrow> refresh_token \<Rightarrow> refresh_token \<Rightarrow> session_db \<Rightarrow> session_db" where
  "rotated now old new db =
     db\<lparr>tokens := update_where (\<lambda>t. t_id t = t_id old) (\<lambda>t. t\<lparr>t_replaced_by := Some (t_id new)\<rparr>) (tokens db) @ [new],
        sessions := update_where (\<lambda>s. s_id s = t_session old) (\<lambda>s. s\<lparr>s_last_activity_at := now\<rparr>) (sessions db)\<rparr>"

lemma rotation_effect:
  assumes c: "q_create_refresh_token now tid (s_id s) hash db = Inr (new, db1)"
    and r: "q_replace_refresh_token (t_id new) (t_id old) db1 = Inr (x, db2)"
    and u: "q_update_session_activity now' (s_id s) db2 = Inr (y, db3)"
    and old: "old \<in> set (tokens db)" "t_session old = s_id s"
  shows "db3 = rotated now' old new db"
    and "new = \<lparr>t_id = tid, t_session = s_id s, t_hash = hash, t_issued_at = now, t_replaced_by = None\<rparr>"
    and "tid \<notin> t_id ` set (tokens db)" and "hash \<notin> t_hash ` set (tokens db)"
  using assms
  by (auto simp: session_query_defs rotated_def has_key_iff Let_def update_where_append
      update_where_Nil update_where_Cons split: if_splits)

lemma rotated_inv:
  assumes inv: "session_inv db"
    and old: "old \<in> set (tokens db)" "t_replaced_by old = None"
    and new: "t_session new = t_session old" "t_replaced_by new = None"
      "t_id new \<notin> t_id ` set (tokens db)" "t_hash new \<notin> t_hash ` set (tokens db)"
  shows "session_inv (rotated now old new db)"
proof -
  have keys: "session_keys_ok db" using inv by (simp add: session_inv_def)
  have same: "t \<in> set (tokens db) \<Longrightarrow> t_id t = t_id old \<Longrightarrow> t = old" for t
    using keys old by (auto simp: session_keys_ok_def intro: distinct_map_filter_inj)
  have sid: "t_session old \<in> s_id ` set (sessions db)"
    using keys old by (auto simp: session_keys_ok_def)
  have live: "live_tokens sid (rotated now old new db)
      = (if sid = t_session old then [new] else live_tokens sid db)"
    if "sid \<in> s_id ` set (sessions db)" for sid
  proof -
    have split: "live_tokens sid (rotated now old new db)
        = filter (\<lambda>t. t_id t \<noteq> t_id old) (live_tokens sid db) @ (if sid = t_session old then [new] else [])"
      using new by (auto simp: live_tokens_def rotated_def filter_update_where_out conj_ac intro!: filter_cong)
    have one: "length (live_tokens sid db) = 1" using inv that by (auto simp: session_inv_def)
    show ?thesis
    proof (cases "sid = t_session old")
      case True
      then have "live_tokens sid db = [old]"
        using old by (intro singleton_if_length_1[OF one]) (simp add: live_tokens_def)
      with split True show ?thesis by simp
    next
      case False
      then have "filter (\<lambda>t. t_id t \<noteq> t_id old) (live_tokens sid db) = live_tokens sid db"
        using same unfolding live_tokens_def filter_filter by (intro filter_cong) auto
      with split False show ?thesis by simp
    qed
  qed
  show ?thesis
  proof (rule session_invI)
    let ?ts = "tokens (rotated now old new db)"
    have ids: "(\<lambda>t. (t_id t, t_session t)) ` set ?ts
        = insert (t_id new, t_session new) ((\<lambda>t. (t_id t, t_session t)) ` set (tokens db))"
      by (simp add: rotated_def image_update_where image_Un)
    have "replaced_in_session t ?ts" if "t \<in> set ?ts" for t
    proof -
      consider "t \<in> set (tokens db)" | "t = new" | "t = old\<lparr>t_replaced_by := Some (t_id new)\<rparr>"
        using \<open>t \<in> set ?ts\<close> same by (auto simp: rotated_def set_update_where)
      then show ?thesis
      proof cases
        case 1
        then have "replaced_in_session t (tokens db)" using keys by (simp add: session_keys_ok_def)
        then show ?thesis by (rule replaced_in_session_mono) (auto simp: ids)
      next
        case 3
        then show ?thesis using new by (auto simp: replaced_in_session_def rotated_def)
      qed (use new in \<open>simp add: replaced_in_session_def\<close>)
    qed
    then show "session_keys_ok (rotated now old new db)"
      using keys new sid unfolding session_keys_ok_def
      by (simp add: rotated_def map_update_where image_update_where)
    fix s assume "s \<in> set (sessions (rotated now old new db))"
    then have "s_id s \<in> s_id ` set (sessions (rotated now old new db))" by simp
    then have "s_id s \<in> s_id ` set (sessions db)" by (simp add: rotated_def image_update_where)
    then show "length (live_tokens (s_id s) (rotated now old new db)) = 1"
      using live inv by (auto simp: session_inv_def)
  qed
qed


section \<open>Repository methods keep the invariant, whatever fails\<close>

lemma get_token_SomeD:
  "q_get_refresh_token_with_session hash db = Inr ((t, s), db') \<Longrightarrow>
     db' = db \<and> t \<in> set (tokens db) \<and> t_hash t = hash \<and> s \<in> set (sessions db) \<and> s_id s = t_session t"
  by (auto simp: q_get_refresh_token_with_session_def dest!: row_with_SomeD split: option.splits)

lemma create_session_wp:
  assumes "session_inv d"
  shows "wp (\<lambda>_. session_inv) (repo_create_session now sid tid uid md expires hash) d w"
  unfolding repo_create_session_def
  by (intro wp_intros) (use assms create_inv in blast)+

lemma revoke_and_fail_wp:
  assumes "session_inv d" and "session_inv w"
  shows "wp (\<lambda>_. session_inv) (revoke_and_fail now s e) d w"
  unfolding revoke_and_fail_def
  by (intro wp_intros) (use assms revoke_inv in blast)+

lemma refresh_token_wp:
  assumes inv: "session_inv d"
  shows "wp (\<lambda>_. session_inv) (repo_refresh_token db_now app_now new_tid hash new_hash idle) d w"
proof -
  have rot: "session_inv w3"
    if "q_get_refresh_token_with_session hash d = Inr ((t, s), w0)" "t_replaced_by t = None"
      "q_create_refresh_token db_now new_tid (s_id s) new_hash w0 = Inr (new, w1)"
      "q_replace_refresh_token (t_id new) (t_id t) w1 = Inr (x, w2)"
      "q_update_session_activity db_now (s_id s) w2 = Inr (y, w3)" for t s w0 new w1 x w2 y w3
  proof -
    have w0: "w0 = d" and t: "t \<in> set (tokens d)" and s: "t_session t = s_id s"
      using get_token_SomeD[OF that(1)] by auto
    note eff = rotation_effect[OF that(3)[unfolded w0] that(4,5) t s]
    have "w3 = rotated db_now t new d" by (rule eff(1))
    moreover have "session_inv (rotated db_now t new d)"
      using inv t that(2) by (rule rotated_inv) (use eff(2-4) s in simp_all)
    ultimately show ?thesis by simp
  qed
  show ?thesis
    unfolding repo_refresh_token_def
    by (intro wp_intros revoke_and_fail_wp)
      (use inv rot in \<open>auto dest: get_token_SomeD\<close>)
qed

lemma pool_inv:
  assumes "\<And>x d'. q d = Inr (x, d') \<Longrightarrow> I d'" and "I d"
  shows "wp (\<lambda>_. I) (pool q fail_internal ret) d w"
  by (intro wp_intros) (use assms in auto)

lemma cleanup_inv:
  "session_inv db \<Longrightarrow> q_delete_cleanup_eligible_sessions now locked idle n db = Inr (x, db') \<Longrightarrow> session_inv db'"
  by (auto simp: q_delete_cleanup_eligible_sessions_def Let_def intro: delete_sessions_inv)

lemma repo_revoke_session_wp:
  "session_inv d \<Longrightarrow> wp (\<lambda>_. session_inv) (repo_revoke_session now sid uid) d w"
  unfolding repo_revoke_session_def by (rule pool_inv) (auto intro: revoke_inv)

lemma repo_revoke_session_for_user_wp:
  "session_inv d \<Longrightarrow> wp (\<lambda>_. session_inv) (repo_revoke_session_for_user now sid uid) d w"
  unfolding repo_revoke_session_for_user_def
  by (intro wp_intros) (auto dest: revoke_for_user_inv)

lemma repo_list_sessions_wp: "I d \<Longrightarrow> wp (\<lambda>_. I) (repo_list_sessions uid off lim) d w"
  unfolding repo_list_sessions_def by (rule pool_inv) (auto simp: q_list_sessions_def split: if_splits)

lemma repo_count_sessions_wp: "I d \<Longrightarrow> wp (\<lambda>_. I) (repo_count_sessions uid) d w"
  unfolding repo_count_sessions_def by (rule pool_inv) (auto simp: q_count_sessions_def)

lemma repo_cleanup_wp:
  "session_inv d \<Longrightarrow> wp (\<lambda>_. session_inv) (repo_delete_cleanup_eligible_sessions now locked idle n) d w"
  unfolding repo_delete_cleanup_eligible_sessions_def by (rule pool_inv) (auto intro: cleanup_inv)

section \<open>Service methods as operations on the shared tables\<close>

text \<open>
  One operation per service method, with everything it meets as arguments, and the tables it
  leaves when its round trips have the fates \<open>fs\<close>. A run of the component is a sequence of
  operations, in whatever order clients issue them.
\<close>

datatype session_op =
    OpCreateSession time time uuid uuid "go_error + string" uuid session_metadata
  | OpRefreshToken time time uuid "go_error + string" string
  | OpLogout time uuid uuid
  | OpListSessions uuid int int
  | OpRevokeSessionForUser time uuid uuid
  | OpCleanupSessions "nat \<Rightarrow> time \<times> uuid list"

fun apply_op ::
  "(string \<Rightarrow> string) \<Rightarrow> (uuid \<Rightarrow> uuid \<Rightarrow> duration \<Rightarrow> go_error + string) \<Rightarrow> session_op \<times> fate list
     \<Rightarrow> session_db \<Rightarrow> session_db" where
  "apply_op h acc (OpCreateSession n a sid tid gen uid md, fs) db =
     snd (run (create_session h n a sid tid gen uid md) db fs)"
| "apply_op h acc (OpRefreshToken n a tid gen presented, fs) db =
     snd (run (refresh_token_service h acc n a tid gen presented) db fs)"
| "apply_op h acc (OpLogout n uid sid, fs) db = snd (run (logout n uid sid) db fs)"
| "apply_op h acc (OpListSessions uid page lim, fs) db = snd (run (list_sessions uid page lim) db fs)"
| "apply_op h acc (OpRevokeSessionForUser n uid sid, fs) db =
     snd (run (revoke_session_for_user n uid sid) db fs)"
| "apply_op h acc (OpCleanupSessions env, fs) db = snd (run (cleanup_sessions env) db fs)"

fun apply_ops ::
  "(string \<Rightarrow> string) \<Rightarrow> (uuid \<Rightarrow> uuid \<Rightarrow> duration \<Rightarrow> go_error + string)
     \<Rightarrow> (session_op \<times> fate list) list \<Rightarrow> session_db \<Rightarrow> session_db" where
  "apply_ops h acc [] db = db"
| "apply_ops h acc (x # xs) db = apply_ops h acc xs (apply_op h acc x db)"

lemma create_session_service_wp:
  assumes "session_inv d"
  shows "wp (\<lambda>_. session_inv) (create_session h n a sid tid gen uid md) d w"
  unfolding create_session_def
  by (intro wp_intros wp_call_inv create_session_wp) (use assms in auto)

lemma refresh_token_service_wp:
  assumes "session_inv d"
  shows "wp (\<lambda>_. session_inv) (refresh_token_service h acc n a tid gen presented) d w"
  unfolding refresh_token_service_def
  by (intro wp_intros wp_call_inv refresh_token_wp) (use assms in \<open>auto intro!: wp_intros\<close>)

lemma list_sessions_wp:
  assumes "I d"
  shows "wp (\<lambda>_. I) (list_sessions uid page lim) d w"
  unfolding list_sessions_def Let_def
  by (intro wp_call_inv repo_list_sessions_wp repo_count_sessions_wp wp_intros) (use assms in auto)

lemma cleanup_loop_wp:
  assumes "\<And>now locked d w. I d \<Longrightarrow>
      wp (\<lambda>_. I) (repo_delete_cleanup_eligible_sessions now locked session_idle_lifetime
                   session_cleanup_batch_size) d w"
    and "I d"
  shows "wp (\<lambda>_. I) (cleanup_loop env fuel deleted batches) d w"
  using assms(2)
proof (induction fuel arbitrary: d w deleted batches)
  case 0
  then show ?case by (auto intro: wp_intros)
next
  case (Suc fuel)
  then show ?case
    unfolding cleanup_loop.simps by (intro wp_intros wp_call_inv assms(1)) auto
qed

lemma cleanup_sessions_wp:
  assumes "\<And>now locked d w. I d \<Longrightarrow>
      wp (\<lambda>_. I) (repo_delete_cleanup_eligible_sessions now locked session_idle_lifetime
                   session_cleanup_batch_size) d w"
    and "I d"
  shows "wp (\<lambda>_. I) (cleanup_sessions env) d w"
  unfolding cleanup_sessions_def
  by (rule wp_call_inv) (use assms in \<open>auto intro!: cleanup_loop_wp wp_intros\<close>)

lemma apply_op_inv: "session_inv db \<Longrightarrow> session_inv (apply_op h acc x db)"
proof (induction h acc x db rule: apply_op.induct)
qed (auto simp: logout_def revoke_session_for_user_def
    intro!: wp_run_snd create_session_service_wp refresh_token_service_wp repo_revoke_session_wp
      list_sessions_wp repo_revoke_session_for_user_wp cleanup_sessions_wp repo_cleanup_wp)

lemma new_user_inv: "session_inv db \<Longrightarrow> session_inv (db\<lparr>users := uid # users db\<rparr>)"
  by (auto simp: session_inv_def session_keys_ok_def live_tokens_def)

inductive session_step ::
  "(string \<Rightarrow> string) \<Rightarrow> (uuid \<Rightarrow> uuid \<Rightarrow> duration \<Rightarrow> go_error + string) \<Rightarrow> session_db \<Rightarrow> session_db \<Rightarrow> bool"
  for h acc where
  an_operation: "session_step h acc db (apply_op h acc (x, fs) db)"
| a_new_user: "session_step h acc db (db\<lparr>users := uid # users db\<rparr>)"

inductive_cases session_stepE: "session_step h acc db db'"

definition session_start :: "session_db \<Rightarrow> bool" where
  "session_start db \<longleftrightarrow> sessions db = [] \<and> tokens db = []"

interpretation sess: invariant_system session_start "session_step h acc" session_inv for h acc
proof unfold_locales
  show "session_start s \<Longrightarrow> session_inv s" for s
    by (simp add: session_start_def session_inv_def session_keys_ok_def)
  show "session_inv s \<Longrightarrow> session_step h acc s t \<Longrightarrow> session_inv t" for s t
    by (erule session_stepE) (auto intro: apply_op_inv new_user_inv)
qed

end
