(* ===== verification/SessionTokens.thy ===== *)
theory SessionTokens
  imports Sessions
begin

text \<open>
  What the session component promises, over the model of \<^theory_text>\<open>Sessions\<close>: the life of a
  refresh token (spent tokens stay spent, replay ends the session), the full branch table of
  \<open>RefreshToken\<close>, the cleanup run and its relation to refresh, listing and its pages, isolation
  between users, and the all-or-nothing contract of the two multi-statement repository methods.
\<close>

section \<open>Spent and dead tokens\<close>

text \<open>
  A token hash is dead when no row carries it that could still be rotated: every row with it has
  been replaced, or its session is revoked.
\<close>

definition session_revoked :: "uuid \<Rightarrow> session_db \<Rightarrow> bool" where
  "session_revoked sid db \<longleftrightarrow> (\<forall>s\<in>set (sessions db). s_id s = sid \<longrightarrow> s_revoked_at s \<noteq> None)"

definition dead_hash :: "string \<Rightarrow> session_db \<Rightarrow> bool" where
  "dead_hash h db \<longleftrightarrow>
     (\<forall>t\<in>set (tokens db). t_hash t = h \<longrightarrow> t_replaced_by t \<noteq> None \<or> session_revoked (t_session t) db)"

text \<open>The hash a successful operation may put into the tables.\<close>

fun issued_hash :: "(string \<Rightarrow> string) \<Rightarrow> session_op \<Rightarrow> string option" where
  "issued_hash h (OpCreateSession n a sid tid (Inr token) uid md) = Some (h token)"
| "issued_hash h (OpRefreshToken n a tid (Inr token) presented) = Some (h token)"
| "issued_hash h _ = None"

definition no_reissue :: "(string \<Rightarrow> string) \<Rightarrow> string \<Rightarrow> (session_op \<times> fate list) list \<Rightarrow> bool" where
  "no_reissue h x ops \<longleftrightarrow> (\<forall>(p, fs)\<in>set ops. issued_hash h p \<noteq> Some x)"

lemma dead_append:
  assumes dead: "dead_hash x db" and inv: "session_inv db"
    and db': "tokens db' = tokens db @ [t]" "sessions db' = sessions db @ ss"
      "\<forall>s\<in>set ss. s_id s \<notin> s_id ` set (sessions db)" and t: "t_hash t \<noteq> x"
  shows "dead_hash x db'"
proof -
  have "session_revoked (t_session u) db'" if "u \<in> set (tokens db)" "session_revoked (t_session u) db" for u
  proof -
    have "t_session u \<in> s_id ` set (sessions db)"
      using that(1) inv by (auto simp: session_inv_def session_keys_ok_def)
    then show ?thesis using that(2) db'(2,3) by (auto simp: session_revoked_def)
  qed
  then show ?thesis using dead t unfolding dead_hash_def db' by auto
qed

lemma create_dead:
  assumes "dead_hash x db" and "session_inv db" and "hash \<noteq> x"
    and s: "q_create_session now sid uid md expires db = Inr (s, db1)"
    and t: "q_create_refresh_token now' tid (s_id s) hash db1 = Inr (t, db2)"
  shows "dead_hash x db2"
  by (rule dead_append[OF assms(1,2), of db2 t "[s]"])
    (use s t assms(3) in \<open>auto simp: session_query_defs has_key_iff Let_def split: if_splits\<close>)

lemma update_sessions_dead:
  assumes "dead_hash x db" and "\<And>s. s_id (f s) = s_id s"
    and "\<And>s. s_revoked_at s \<noteq> None \<Longrightarrow> s_revoked_at (f s) \<noteq> None"
  shows "dead_hash x (db\<lparr>sessions := update_where p f (sessions db)\<rparr>)"
  using assms by (force simp: dead_hash_def session_revoked_def set_update_where)

lemma rotated_dead:
  assumes "dead_hash x db" and "t_hash new \<noteq> x"
  shows "dead_hash x (rotated now old new db)"
  using assms by (force simp: dead_hash_def session_revoked_def rotated_def set_update_where)

lemma rotation_kills:
  assumes inv: "session_inv db" and old: "old \<in> set (tokens db)"
    and new: "t_hash new \<notin> t_hash ` set (tokens db)"
  shows "dead_hash (t_hash old) (rotated now old new db)"
proof -
  have "t = old" if "t \<in> set (tokens db)" "t_hash t = t_hash old" for t
    using inv old that by (auto simp: session_inv_def session_keys_ok_def intro: distinct_map_filter_inj)
  then show ?thesis
    using new old by (fastforce simp: dead_hash_def rotated_def set_update_where)
qed

lemma delete_dead:
  assumes "dead_hash x db" and "session_inv db"
  shows "dead_hash x (delete_sessions sids db)"
  using assms(1) delete_sessions_tokens[of db sids] assms(2)
  by (auto simp: dead_hash_def session_revoked_def delete_sessions_sel session_inv_def)

lemma revoke_dead: "dead_hash x db \<Longrightarrow> q_revoke_session now sid uid db = Inr (y, db') \<Longrightarrow> dead_hash x db'"
  by (auto simp: q_revoke_session_def intro!: update_sessions_dead)

lemma revoke_for_user_dead:
  "dead_hash x db \<Longrightarrow> q_revoke_session_for_user now sid uid db = Inr (y, db') \<Longrightarrow> dead_hash x db'"
  by (auto simp: q_revoke_session_for_user_def intro!: update_sessions_dead split: if_splits)

text \<open>The invariant together with a dead hash, walked through every operation.\<close>

definition inv_dead :: "string \<Rightarrow> session_db \<Rightarrow> bool" where
  "inv_dead x db \<longleftrightarrow> session_inv db \<and> dead_hash x db"

lemma create_session_dead_wp:
  assumes "inv_dead x d" and "hash \<noteq> x"
  shows "wp (\<lambda>_. inv_dead x) (repo_create_session now sid tid uid md expires hash) d w"
  unfolding repo_create_session_def
  by (intro wp_intros) (use assms create_inv create_dead in \<open>auto simp: inv_dead_def\<close>)

text \<open>What a rotation commits, in one lemma.\<close>

lemma rotation_steps:
  assumes get: "q_get_refresh_token_with_session hash d = Inr ((t, s), w0)"
    and c: "q_create_refresh_token now tid (s_id s) new_hash w0 = Inr (new, w1)"
    and r: "q_replace_refresh_token (t_id new) (t_id t) w1 = Inr (x, w2)"
    and u: "q_update_session_activity now' (s_id s) w2 = Inr (y, w3)"
  shows "w3 = rotated now' t new d \<and> t \<in> set (tokens d) \<and> s \<in> set (sessions d) \<and> t_hash t = hash \<and>
    s_id s = t_session t \<and> t_session new = t_session t \<and> t_replaced_by new = None \<and> t_hash new = new_hash \<and>
    t_id new = tid \<and> t_id new \<notin> t_id ` set (tokens d) \<and> t_hash new \<notin> t_hash ` set (tokens d)"
proof -
  have w0: "w0 = d" and t: "t \<in> set (tokens d)" and s: "t_session t = s_id s"
    using get_token_SomeD[OF get] by auto
  note eff = rotation_effect[OF c[unfolded w0] r u t s]
  then show ?thesis using get_token_SomeD[OF get] by auto
qed

lemma refresh_dead_wp:
  assumes "inv_dead x d" and "new_hash \<noteq> x"
  shows "wp (\<lambda>_. inv_dead x) (repo_refresh_token db_now app_now new_tid hash new_hash idle) d w"
proof -
  have rot: "inv_dead x w3"
    if "q_get_refresh_token_with_session hash d = Inr ((t, s), w0)" "t_replaced_by t = None"
      "q_create_refresh_token db_now new_tid (s_id s) new_hash w0 = Inr (new, w1)"
      "q_replace_refresh_token (t_id new) (t_id t) w1 = Inr (z, w2)"
      "q_update_session_activity db_now (s_id s) w2 = Inr (y, w3)" for t s w0 new w1 z w2 y w3
    using rotation_steps[OF that(1,3,4,5)] that(2) assms
    by (auto simp: inv_dead_def intro: rotated_inv rotated_dead)
  show ?thesis
    unfolding repo_refresh_token_def revoke_and_fail_def
    by (intro wp_intros)
      (use assms rot in \<open>auto simp: inv_dead_def dest: get_token_SomeD revoke_inv revoke_dead\<close>)
qed

lemma apply_op_dead:
  assumes "inv_dead x db" and "issued_hash h op \<noteq> Some x"
  shows "inv_dead x (apply_op h acc (op, fs) db)"
proof (cases op)
  case (OpCreateSession n a sid tid gen uid md)
  show ?thesis
    unfolding OpCreateSession apply_op.simps create_session_def
    by (rule wp_run_snd, intro wp_intros wp_call_inv create_session_dead_wp) (use assms OpCreateSession in auto)
next
  case (OpRefreshToken n a tid gen presented)
  show ?thesis
    unfolding OpRefreshToken apply_op.simps refresh_token_service_def
    by (rule wp_run_snd, intro wp_intros wp_call_inv refresh_dead_wp)
      (use assms OpRefreshToken in \<open>auto intro!: wp_intros\<close>)
next
  case (OpLogout n uid sid)
  show ?thesis
    unfolding OpLogout apply_op.simps logout_def repo_revoke_session_def
    by (rule wp_run_snd, intro wp_intros)
      (use assms in \<open>auto simp: inv_dead_def dest: revoke_inv revoke_dead\<close>)
next
  case (OpListSessions uid page lim)
  show ?thesis unfolding OpListSessions apply_op.simps by (rule wp_run_snd, intro list_sessions_wp assms)
next
  case (OpRevokeSessionForUser n uid sid)
  show ?thesis
    unfolding OpRevokeSessionForUser apply_op.simps revoke_session_for_user_def
      repo_revoke_session_for_user_def
    by (rule wp_run_snd, intro wp_intros)
      (use assms in \<open>auto simp: inv_dead_def dest: revoke_for_user_inv revoke_for_user_dead\<close>)
next
  case (OpCleanupSessions env)
  have step: "inv_dead x d'" if "inv_dead x d"
    "q_delete_cleanup_eligible_sessions now locked idle n d = Inr (y, d')" for d d' now locked idle n y
    using that
    by (auto simp: inv_dead_def q_delete_cleanup_eligible_sessions_def Let_def
        intro: delete_sessions_inv delete_dead)
  show ?thesis
    unfolding OpCleanupSessions apply_op.simps
    by (rule wp_run_snd, rule cleanup_sessions_wp)
      (use assms step in \<open>auto simp: repo_delete_cleanup_eligible_sessions_def intro!: pool_inv\<close>)
qed

lemma apply_ops_dead:
  "inv_dead x db \<Longrightarrow> no_reissue h x ops \<Longrightarrow> inv_dead x (apply_ops h acc ops db)"
  by (induction ops arbitrary: db) (auto simp: no_reissue_def intro: apply_op_dead)

text \<open>A dead hash is refused.\<close>

lemma dead_hashD:
  "dead_hash hash d \<Longrightarrow> q_get_refresh_token_with_session hash d = Inr ((t, s), d') \<Longrightarrow>
     s_revoked_at s = None \<Longrightarrow> t_replaced_by t \<noteq> None"
  using get_token_SomeD[of hash d t s d'] by (fastforce simp: dead_hash_def session_revoked_def)

lemma dead_refused_wp:
  assumes "dead_hash hash d"
  shows "wp (\<lambda>r _. \<exists>e. r = Inl e) (repo_refresh_token db_now app_now new_tid hash new_hash idle) d w"
  unfolding repo_refresh_token_def revoke_and_fail_def
  by (intro wp_intros)
    (use dead_hashD[OF assms] in auto)


lemma rotation_reported_wp:
  assumes "session_inv db"
  shows "wp (\<lambda>r d'. (\<exists>x. r = Inr x) \<longrightarrow> inv_dead hash d')
    (repo_refresh_token now app_now tid hash new_hash idle) db w"
proof -
  have rot: "inv_dead hash w3"
    if "q_get_refresh_token_with_session hash db = Inr ((t, s), w0)" "t_replaced_by t = None"
      "q_create_refresh_token now tid (s_id s) new_hash w0 = Inr (new, w1)"
      "q_replace_refresh_token (t_id new) (t_id t) w1 = Inr (z, w2)"
      "q_update_session_activity now (s_id s) w2 = Inr (y, w3)" for t s w0 new w1 z w2 y w3
    using rotation_steps[OF that(1,3,4,5)] that(2) assms
    by (auto simp: inv_dead_def intro: rotated_inv rotation_kills)
  show ?thesis
    unfolding repo_refresh_token_def revoke_and_fail_def
    by (intro wp_intros) (simp_all add: rot)
qed

section \<open>Every branch of a refresh\<close>

text \<open>
  What \<open>RefreshToken\<close> answers and leaves behind when no round trip fails: one equation per branch.
\<close>

definition revoked :: "time \<Rightarrow> session \<Rightarrow> session_db \<Rightarrow> session_db" where
  "revoked now s db = db\<lparr>sessions :=
     update_where (revoke_matches (s_id s) (s_user s)) (\<lambda>s. s\<lparr>s_revoked_at := Some now\<rparr>) (sessions db)\<rparr>"

lemma revoked_inv: "session_inv db \<Longrightarrow> session_inv (revoked now s db)"
  unfolding revoked_def by (rule update_sessions_inv) simp_all

definition successor :: "time \<Rightarrow> uuid \<Rightarrow> string \<Rightarrow> session \<Rightarrow> refresh_token" where
  "successor now tid hash s =
     \<lparr>t_id = tid, t_session = s_id s, t_hash = hash, t_issued_at = now, t_replaced_by = None\<rparr>"

definition refresh_spec ::
  "time \<Rightarrow> time \<Rightarrow> uuid \<Rightarrow> string \<Rightarrow> string \<Rightarrow> duration \<Rightarrow> session_db
     \<Rightarrow> (go_error + (refresh_token \<times> session) \<times> refresh_token) \<times> session_db" where
  "refresh_spec db_now app_now tid hash new_hash idle db =
     (case q_get_refresh_token_with_session hash db of
        Inl e \<Rightarrow> (Inl (err_refresh_token_invalid err_no_rows), db)
      | Inr ((t, s), _) \<Rightarrow>
          if s_revoked_at s \<noteq> None then (Inl err_session_revoked, db)
          else if t_replaced_by t \<noteq> None then (Inl err_session_revoked, revoked db_now s db)
          else if app_now > s_absolute_expires_at s \<or> app_now - s_last_activity_at s > idle
          then (Inl err_session_expired, revoked db_now s db)
          else if has_key t_id tid (tokens db) then
            (Inl (internal (Some (PgError ''refresh_tokens_pkey''))), db)
          else if has_key t_hash new_hash (tokens db) then
            (Inl (internal (Some (PgError ''refresh_tokens_token_hash_idx''))), db)
          else
            (let new = successor db_now tid new_hash s
             in (Inr ((t, s), new), rotated db_now t new db)))"

lemma get_token_error: "q_get_refresh_token_with_session hash db = Inl e \<Longrightarrow> e = err_no_rows"
  by (auto simp: q_get_refresh_token_with_session_def split: option.splits)

lemma got_session:
  "q_get_refresh_token_with_session hash db = Inr ((t, s), db') \<Longrightarrow> has_key s_id (s_id s) (sessions db)"
  by (frule get_token_SomeD) (force simp: has_key_iff)

lemma rotate_runs:
  assumes got: "q_get_refresh_token_with_session hash db = Inr ((t, s), db')"
    and id: "\<not> has_key t_id tid (tokens db)" and h: "\<not> has_key t_hash new_hash (tokens db)"
    and new: "new = successor now tid new_hash s"
  shows "\<exists>db1 db2. q_create_refresh_token now tid (s_id s) new_hash db = Inr (new, db1) \<and>
      q_replace_refresh_token (t_id new) (t_id t) db1 = Inr ((), db2) \<and>
      q_update_session_activity now (s_id s) db2 = Inr ((), rotated now t new db)"
proof -
  note g = get_token_SomeD[OF got]
  note s = got_session[OF got]
  have "t_id t \<noteq> tid" using g id by (auto simp: has_key_iff)
  then show ?thesis
    using g id h s
    by (auto simp: new successor_def session_query_defs rotated_def has_key_iff table_simps Let_def)
qed

lemma refresh_token_branches:
  "run (repo_refresh_token db_now app_now tid hash new_hash idle) db []
     = refresh_spec db_now app_now tid hash new_hash idle db"
proof (cases "q_get_refresh_token_with_session hash db")
  case (Inl e)
  then show ?thesis
    using get_token_error[OF Inl]
    by (simp add: repo_refresh_token_def refresh_spec_def prog_defs errors_is_def err_no_rows_def)
next
  case (Inr r)
  obtain t s db' where r: "r = ((t, s), db')" by (metis surj_pair)
  have db': "db' = db" using get_token_SomeD[of hash db t s db'] Inr r by simp
  show ?thesis
  proof (cases "s_revoked_at s = None \<and> t_replaced_by t = None \<and> \<not> app_now > s_absolute_expires_at s
      \<and> \<not> app_now - s_last_activity_at s > idle \<and> \<not> has_key t_id tid (tokens db)
      \<and> \<not> has_key t_hash new_hash (tokens db)")
    case True
    then show ?thesis
      using rotate_runs[OF _ _ _ refl, of hash db t s db tid new_hash db_now] Inr r db'
      by (auto simp: repo_refresh_token_def refresh_spec_def prog_defs Let_def)
  next
    case False
    have "has_key s_id (s_id s) (sessions db)"
      using got_session[of hash db t s db'] Inr r by simp
    then show ?thesis
      using False Inr r db'
      by (auto simp: repo_refresh_token_def refresh_spec_def revoke_and_fail_def prog_defs
          q_revoke_session_def revoked_def q_create_refresh_token_def)
  qed
qed


section \<open>Cleanup\<close>

lemma deleted_was_eligible:
  assumes "sid \<in> set (cleanup_batch now locked idle n db)"
  shows "\<exists>s\<in>set (sessions db). s_id s = sid \<and> cleanup_eligible now idle s \<and> sid \<notin> set locked"
  using set_take_subset[of n] assms unfolding cleanup_batch_def by fastforce

text \<open>The number of sessions a run could delete.\<close>

definition eligible_count :: "time \<Rightarrow> uuid list \<Rightarrow> duration \<Rightarrow> session_db \<Rightarrow> nat" where
  "eligible_count now locked idle db =
     length (filter (\<lambda>s. cleanup_eligible now idle s \<and> s_id s \<notin> set locked) (sessions db))"

lemma cleanup_batch_length:
  "length (cleanup_batch now locked idle n db) = min n (eligible_count now locked idle db)"
  by (simp add: cleanup_batch_def eligible_count_def)

lemma filter_not_in_length:
  assumes "distinct (map key rows)" and "set ks \<subseteq> key ` set rows" and "distinct ks"
  shows "length (filter (\<lambda>r. key r \<notin> set ks) rows) = length rows - length ks"
proof -
  have "length rows = length (filter (\<lambda>r. key r \<in> set ks) rows) + length (filter (\<lambda>r. key r \<notin> set ks) rows)"
    by (rule sum_length_filter_compl[symmetric])
  moreover have "length (filter (\<lambda>r. key r \<in> set ks) rows) = card (set (map key (filter (\<lambda>r. key r \<in> set ks) rows)))"
    using distinct_map_filter[OF assms(1)] by (metis distinct_card length_map)
  moreover have "set (map key (filter (\<lambda>r. key r \<in> set ks) rows)) = set ks" using assms(2) by auto
  moreover have "card (set ks) = length ks" using assms(3) by (rule distinct_card)
  ultimately show ?thesis by simp
qed

lemma eligible_after_batch:
  assumes inv: "session_inv db"
  shows "eligible_count now locked idle (delete_sessions (cleanup_batch now locked idle n db) db)
    = eligible_count now locked idle db - length (cleanup_batch now locked idle n db)"
proof -
  let ?p = "\<lambda>s. cleanup_eligible now idle s \<and> s_id s \<notin> set locked"
  let ?rows = "filter ?p (sessions db)" and ?ks = "cleanup_batch now locked idle n db"
  have d: "distinct (map s_id ?rows)"
    using inv by (simp add: session_inv_def session_keys_ok_def distinct_map_filter)
  have "set ?ks \<subseteq> s_id ` set ?rows"
    using set_take_subset unfolding cleanup_batch_def by fastforce
  moreover have "distinct ?ks" using d by (simp add: cleanup_batch_def distinct_take)
  ultimately have "length (filter (\<lambda>r. s_id r \<notin> set ?ks) ?rows) = length ?rows - length ?ks"
    using d by (intro filter_not_in_length)
  moreover have "filter ?p (sessions (delete_sessions ?ks db)) = filter (\<lambda>r. s_id r \<notin> set ?ks) ?rows"
    by (simp add: delete_sessions_sel conj_commute)
  ultimately show ?thesis by (simp add: eligible_count_def)
qed

lemma quiet_cleanup_batch:
  "quiet (repo_delete_cleanup_eligible_sessions now locked idle n) db
     (Inr (int (min n (eligible_count now locked idle db))))
     (delete_sessions (cleanup_batch now locked idle n db) db)"
  unfolding repo_delete_cleanup_eligible_sessions_def
  by (rule quiet_pool[OF _ quiet_ret])
    (simp add: q_delete_cleanup_eligible_sessions_def Let_def cleanup_batch_length)

lemma quiet_cleanup_loop:
  assumes "session_inv db"
  defines "B \<equiv> session_cleanup_batch_size"
  shows "\<exists>db'. quiet (cleanup_loop (\<lambda>_. (now, locked)) fuel deleted batches) db
      (Inr (deleted + int (min (eligible_count now locked session_idle_lifetime db) (fuel * B)),
            batches + min fuel (eligible_count now locked session_idle_lifetime db div B + 1))) db' \<and>
      eligible_count now locked session_idle_lifetime db' =
        eligible_count now locked session_idle_lifetime db - fuel * B"
  using assms(1)
proof (induction fuel arbitrary: db deleted batches)
  case 0
  have "quiet (cleanup_loop (\<lambda>_. (now, locked)) 0 deleted batches) db (Inr (deleted, batches)) db"
    unfolding cleanup_loop.simps by (rule quiet_ret)
  then show ?case by auto
next
  case (Suc fuel)
  let ?E = "eligible_count now locked session_idle_lifetime"
  let ?db1 = "delete_sessions (cleanup_batch now locked session_idle_lifetime B db) db"
  have B: "0 < B" by (simp add: B_def session_cleanup_batch_size_def)
  have inv1: "session_inv ?db1" by (rule delete_sessions_inv[OF Suc.prems])
  have E1: "?E ?db1 = ?E db - B"
    using eligible_after_batch[OF Suc.prems, of now locked session_idle_lifetime B]
    by (simp add: cleanup_batch_length)
  note batch = quiet_cleanup_batch[of now locked session_idle_lifetime B db]
  show ?case
  proof (cases "?E db < B")
    case True
    have "quiet (cleanup_loop (\<lambda>_. (now, locked)) (Suc fuel) deleted batches) db
        (Inr (deleted + int (?E db), Suc batches)) ?db1"
      unfolding cleanup_loop.simps prod.case B_def[symmetric]
      by (rule quiet_call[OF batch]) (use True in \<open>simp add: quiet_ret\<close>)
    then show ?thesis using True E1 by (intro exI[of _ ?db1]) (simp add: div_less)
  next
    case False
    obtain db' where db': "quiet (cleanup_loop (\<lambda>_. (now, locked)) fuel (deleted + int B) (Suc batches)) ?db1
        (Inr (deleted + int B + int (min (?E ?db1) (fuel * B)),
              Suc batches + min fuel (?E ?db1 div B + 1))) db'"
      and left: "?E db' = ?E ?db1 - fuel * B"
      using Suc.IH[OF inv1, of "deleted + int B" "Suc batches"] by blast
    have "quiet (cleanup_loop (\<lambda>_. (now, locked)) (Suc fuel) deleted batches) db
        (Inr (deleted + int B + int (min (?E ?db1) (fuel * B)),
              Suc batches + min fuel (?E ?db1 div B + 1))) db'"
      unfolding cleanup_loop.simps prod.case B_def[symmetric]
      by (rule quiet_call[OF batch]) (use False db' in \<open>simp add: min_absorb1\<close>)
    moreover have "?E ?db1 div B + 1 = ?E db div B"
      using False B by (simp add: E1 le_div_geq)
    moreover have "int B + int (min (?E ?db1) (fuel * B)) = int (min (?E db) (Suc fuel * B))"
    proof -
      have "B + min (e - B) F = min e (B + F)" if "B \<le> e" for e F :: nat
        using that by arith
      from this[of "?E db" "fuel * B"] False show ?thesis by (simp add: E1 flip: of_nat_add)
    qed
    ultimately show ?thesis
      using left by (intro exI[of _ db']) (simp add: E1 add.assoc)
  qed
qed


section \<open>Properties\<close>

text \<open>Tables with one user, one session and one refresh token, for the concrete instances below.\<close>

definition demo_session :: session where
  "demo_session = \<lparr>s_id = 7, s_user = 1, s_platform = ''web'', s_installation = None,
     s_device_name = None, s_user_agent = None, s_created_at = 0, s_last_activity_at = 0,
     s_absolute_expires_at = session_absolute_lifetime, s_revoked_at = None\<rparr>"

definition demo_token :: refresh_token where
  "demo_token = \<lparr>t_id = 3, t_session = 7, t_hash = ''h0'', t_issued_at = 0, t_replaced_by = None\<rparr>"

definition demo_db :: session_db where
  "demo_db = \<lparr>users = [1, 2], sessions = [demo_session], tokens = [demo_token]\<rparr>"

lemmas demo_defs = demo_db_def demo_session_def demo_token_def session_absolute_lifetime_def
  session_idle_lifetime_def

lemma demo_inv: "session_inv demo_db"
  by (simp add: session_inv_def session_keys_ok_def replaced_in_session_def live_tokens_def demo_defs)

text \<open>
  C3. In every state the service can reach, by any sequence of session operations of any users and
  whatever round trips fail: ids and token hashes are unique, every token belongs to an existing
  session, a replaced token points at a token of the same session, and every session has exactly
  one token that has not been replaced.
\<close>

theorem sessions_have_one_live_token:
  assumes "reachable_from session_start (session_step h acc) db"
  shows "session_inv db"
  using assms by (rule sess.reachable_inv)

theorem sessions_have_one_live_token_witness:
  "session_inv (apply_op (\<lambda>x. x) (\<lambda>_ _ _. Inr ''jwt'')
     (OpCreateSession 0 0 7 3 (Inr ''h0'') 1 \<lparr>md_platform = ''web'', md_installation = None,
        md_device_name = None, md_user_agent = None\<rparr>, [StmtOk, StmtOk, StmtOk, AckLost])
     \<lparr>users = [1], sessions = [], tokens = []\<rparr>)"
proof -
  have "reachable_from session_start (session_step (\<lambda>x. x) (\<lambda>_ _ _. Inr ''jwt''))
      \<lparr>users = [1], sessions = [], tokens = []\<rparr>"
    by (rule reachable_from.start) (simp add: session_start_def)
  then show ?thesis
    by (intro sessions_have_one_live_token) (rule reachable_from.next_step, assumption, rule an_operation)
qed


text \<open>
  C1. A refresh token is single use: once a rotation that consumed it has been reported, no later
  presentation of it succeeds, after any sequence of operations with any faults, as long as the
  token generator does not issue the same hash again.
\<close>

theorem refresh_token_single_use:
  assumes "session_inv db"
    and "run (repo_refresh_token n1 a1 tid1 hash new1 idle) db fs = (Inr x, db1)"
    and "no_reissue h hash ops"
    and "run (repo_refresh_token n2 a2 tid2 hash new2 idle2) (apply_ops h acc ops db1) fs2 = (r, db2)"
  shows "\<exists>e. r = Inl e"
proof -
  have "inv_dead hash db1"
    using wp_run[OF rotation_reported_wp[OF assms(1)] assms(2)] by blast
  then have "inv_dead hash (apply_ops h acc ops db1)" using assms(3) by (rule apply_ops_dead)
  then show ?thesis using wp_run[OF dead_refused_wp assms(4)] by (simp add: inv_dead_def)
qed

theorem refresh_token_single_use_witness:
  "\<exists>e. fst (run (repo_refresh_token 2 2 5 ''h0'' ''h2'' session_idle_lifetime)
        (snd (run (repo_refresh_token 1 1 4 ''h0'' ''h1'' session_idle_lifetime) demo_db [])) []) = Inl e"
proof -
  let ?p = "repo_refresh_token 1 1 4 ''h0'' ''h1'' session_idle_lifetime"
  have "\<exists>x. fst (run ?p demo_db []) = Inr x"
    by (simp add: refresh_token_branches refresh_spec_def q_get_refresh_token_with_session_def
        row_with_def has_key_def Let_def demo_defs)
  then obtain x where "run ?p demo_db [] = (Inr x, snd (run ?p demo_db []))" by (metis prod.collapse)
  from refresh_token_single_use[OF demo_inv this, of id "[]" _ _ _ _ _ "\<lambda>_ _ _. Inr ''''", OF _ surjective_pairing]
  show ?thesis by (simp add: no_reissue_def)
qed

text \<open>
  C2. Replay ends the whole session. When a token that was already replaced is presented and no
  round trip fails, the session is revoked before the refusal is reported, and from then on every
  token of that session, the newest included, is refused after any sequence of operations.
\<close>

theorem replay_revokes_the_family:
  assumes "session_inv db" and "old \<in> set (tokens db)" and "t_replaced_by old \<noteq> None"
    and "run (repo_refresh_token n1 a1 tid1 (t_hash old) new1 idle) db [] = (r1, db1)"
    and "t \<in> set (tokens db)" and "t_session t = t_session old"
    and "no_reissue h (t_hash t) ops"
    and "run (repo_refresh_token n2 a2 tid2 (t_hash t) new2 idle2) (apply_ops h acc ops db1) fs2 = (r2, db2)"
  shows "r1 = Inl err_session_revoked \<and> (\<exists>e. r2 = Inl e)"
proof -
  have keys: "distinct (map t_hash (tokens db))" "distinct (map s_id (sessions db))"
    "t_session old \<in> s_id ` set (sessions db)"
    using assms(1,2) by (auto simp: session_inv_def session_keys_ok_def)
  then obtain s where s: "s \<in> set (sessions db)" "s_id s = t_session old" by auto
  have got: "q_get_refresh_token_with_session (t_hash old) db = Inr ((old, s), db)"
    using keys s assms(2) row_with_distinct[of t_hash "tokens db" old] row_with_distinct[of s_id "sessions db" s]
    by (simp add: q_get_refresh_token_with_session_def)
  have r1: "r1 = Inl err_session_revoked" and db1: "db1 = (if s_revoked_at s \<noteq> None then db else revoked n1 s db)"
    using assms(3,4) got unfolding refresh_token_branches refresh_spec_def
    by (cases "s_revoked_at s"; auto)+
  have only: "u = s" if "u \<in> set (sessions db)" "s_id u = t_session old" for u
    using keys(2) s that by (auto intro: distinct_map_filter_inj)
  have uniq: "t' = t" if "t' \<in> set (tokens db)" "t_hash t' = t_hash t" for t'
    using keys(1) assms(5) that by (auto intro: distinct_map_filter_inj)
  have gone: "session_revoked (t_session old) db1"
    using s(2) db1
    by (cases "s_revoked_at s")
      (auto simp: session_revoked_def revoked_def set_update_where revoke_matches_def dest!: only)
  have "tokens db1 = tokens db" using db1 by (simp add: revoked_def)
  then have "dead_hash (t_hash t) db1"
    unfolding dead_hash_def using uniq gone assms(6) by metis
  moreover have "session_inv db1"
    using db1 assms(1) by (simp add: revoked_inv)
  ultimately have "inv_dead (t_hash t) (apply_ops h acc ops db1)"
    using apply_ops_dead[OF _ assms(7)] by (simp add: inv_dead_def)
  then show ?thesis
    using r1 wp_run[OF dead_refused_wp assms(8)] by (simp add: inv_dead_def)
qed

theorem replay_revokes_the_family_witness:
  "fst (run (repo_refresh_token 2 2 5 ''h0'' ''h2'' 9) (rotated 1 demo_token (successor 1 4 ''h1'' demo_session) demo_db) [])
     = Inl err_session_revoked \<and>
   (\<exists>e. fst (run (repo_refresh_token 3 3 6 ''h1'' ''h3'' 9)
      (snd (run (repo_refresh_token 2 2 5 ''h0'' ''h2'' 9) (rotated 1 demo_token (successor 1 4 ''h1'' demo_session) demo_db) [])) [])
      = Inl e)"
proof -
  let ?db = "rotated 1 demo_token (successor 1 4 ''h1'' demo_session) demo_db"
  let ?old = "demo_token\<lparr>t_replaced_by := Some 4\<rparr>" and ?t = "successor 1 4 ''h1'' demo_session"
  have "session_inv ?db"
    by (rule rotated_inv[OF demo_inv]) (simp_all add: demo_defs successor_def)
  moreover have "?old \<in> set (tokens ?db)" "?t \<in> set (tokens ?db)"
    by (simp_all add: rotated_def demo_defs successor_def update_where_def)
  ultimately show ?thesis
    using replay_revokes_the_family[of ?db ?old 2 2 5 "''h2''" 9 _ _ ?t id "[]" 3 3 6 "''h3''" 9
        "\<lambda>_ _ _. Inr ''''" "[]", OF _ _ _ surjective_pairing _ _ _ surjective_pairing]
    by (simp add: demo_token_def demo_session_def successor_def no_reissue_def)
qed

text \<open>
  The cleanup run, with the rows it may touch fixed: it deletes every eligible session up to
  100 batches of 500, reports how many, leaves exactly the rest, stops in the batch that comes back
  short, and says it was capped when it used all its batches.
\<close>

theorem cleanup_drains_up_to_the_cap:
  fixes now :: time and locked :: "uuid list"
  assumes "session_inv db"
  defines "E \<equiv> eligible_count now locked session_idle_lifetime"
  shows "\<exists>db'. run (cleanup_sessions (\<lambda>_. (now, locked))) db [] =
      (Inr \<lparr>cl_deleted = int (min (E db) 50000), cl_batches = min 100 (E db div 500 + 1),
            cl_capped = (49500 \<le> E db)\<rparr>, db') \<and> E db' = E db - 50000"
proof -
  obtain db' where loop: "quiet (cleanup_loop (\<lambda>_. (now, locked)) session_cleanup_max_batches 0 0) db
      (Inr (int (min (E db) 50000), min 100 (E db div 500 + 1))) db'" and left: "E db' = E db - 50000"
    using quiet_cleanup_loop[OF assms(1), of now locked session_cleanup_max_batches 0 0]
    by (auto simp: E_def session_cleanup_batch_size_def session_cleanup_max_batches_def)
  have cap: "min 100 (E db div 500 + 1) = 100 \<longleftrightarrow> 49500 \<le> E db" by (auto simp: min_def) 
  have "quiet (cleanup_sessions (\<lambda>_. (now, locked))) db
      (Inr \<lparr>cl_deleted = int (min (E db) 50000), cl_batches = min 100 (E db div 500 + 1),
            cl_capped = (49500 \<le> E db)\<rparr>) db'"
    unfolding cleanup_sessions_def
    by (rule quiet_call[OF loop])
      (simp only: prod.case session_cleanup_max_batches_def cap quiet_ret)
  from quiet_run[OF this] left show ?thesis by blast
qed

theorem cleanup_drains_up_to_the_cap_witness:
  "fst (run (cleanup_sessions (\<lambda>_. (200 * 24 * hour, []))) demo_db [])
     = Inr \<lparr>cl_deleted = 1, cl_batches = 1, cl_capped = False\<rparr>"
proof -
  have "eligible_count (200 * 24 * hour) [] session_idle_lifetime demo_db = 1"
    by (simp add: eligible_count_def cleanup_eligible_def demo_defs)
  with cleanup_drains_up_to_the_cap[OF demo_inv, of "200 * 24 * hour" "[]"] show ?thesis by auto
qed

section \<open>Cleanup and refresh\<close>

lemma eligible_is_refused:
  assumes got: "q_get_refresh_token_with_session hash db = Inr ((t, s), db')"
    and "cleanup_eligible now idle s" and "now < app_now"
  shows "\<exists>e. fst (refresh_spec db_now app_now tid hash new_hash idle db) = Inl e"
  using assms by (auto simp: refresh_spec_def cleanup_eligible_def)

section \<open>Listing\<close>

lemma to_int32_id: "- (2 ^ 31) \<le> x \<Longrightarrow> x < 2 ^ 31 \<Longrightarrow> to_int32 x = x"
  by (simp add: to_int32_def sint_sbintrunc' signed_take_bit_int_eq_self)

lemma clamp_limit_bounds: "1 \<le> clamp_limit l \<and> clamp_limit l \<le> 50"
  by (simp add: clamp_limit_def session_list_default_limit_def session_list_max_limit_def Let_def)

definition listed_sessions :: "uuid \<Rightarrow> session_db \<Rightarrow> session list" where
  "listed_sessions uid db = sort_key session_order_key (active_sessions_of uid db)"

lemma list_page_quiet:
  assumes "0 \<le> (clamp_page page - 1) * clamp_limit lim" "(clamp_page page - 1) * clamp_limit lim < 2 ^ 31"
  shows "quiet (list_sessions uid page lim) db
    (Inr \<lparr>ls_sessions = take (nat (clamp_limit lim))
             (drop (nat ((clamp_page page - 1) * clamp_limit lim)) (listed_sessions uid db)),
          ls_page = clamp_page page, ls_limit = clamp_limit lim,
          ls_total = int (length (listed_sessions uid db)),
          ls_total_pages = total_pages (int (length (listed_sessions uid db))) (clamp_limit lim)\<rparr>) db"
proof -
  have off: "list_offset (clamp_page page) (clamp_limit lim) = (clamp_page page - 1) * clamp_limit lim"
    using assms by (simp add: list_offset_def to_int32_id)
  have lim: "to_int32 (clamp_limit lim) = clamp_limit lim"
    using clamp_limit_bounds[of lim] by (intro to_int32_id) simp_all
  show ?thesis
    unfolding list_sessions_def Let_def off lim
    apply (rule quiet_call[of _ _ "take (nat (clamp_limit lim))
             (drop (nat ((clamp_page page - 1) * clamp_limit lim)) (listed_sessions uid db))" db])
    subgoal unfolding repo_list_sessions_def
      by (rule quiet_pool[OF _ quiet_ret])
        (use assms clamp_limit_bounds[of lim] in \<open>simp add: q_list_sessions_def listed_sessions_def\<close>)
    apply (rule quiet_call[of _ _ "int (length (listed_sessions uid db))" db])
    subgoal unfolding repo_count_sessions_def
      by (rule quiet_pool[OF _ quiet_ret]) (simp add: q_count_sessions_def listed_sessions_def)
    by (rule quiet_ret)
qed

lemma concat_pages: "concat (map (\<lambda>i. take n (drop (i * n) xs)) [0..<k]) = take (k * n) xs"
  by (induction k) (simp_all add: take_add[symmetric] add.commute)

lemma total_pages_cover:
  assumes "0 < L" shows "int c \<le> total_pages (int c) L * L \<and> 0 \<le> total_pages (int c) L"
proof -
  have "(int c + L - 1) mod L < L" using assms by simp
  moreover have "(int c + L - 1) = (int c + L - 1) div L * L + (int c + L - 1) mod L" by simp
  ultimately have "int c \<le> (int c + L - 1) div L * L" by linarith
  then show ?thesis using assms by (simp add: total_pages_def pos_imp_zdiv_nonneg_iff)
qed

lemma total_pages_offset:
  assumes "0 < L" and "i < nat (total_pages (int c) L)"
  shows "int i * L < int c"
proof -
  have "int i + 1 \<le> (int c + L - 1) div L" using assms by (simp add: total_pages_def split: if_splits)
  then have "(int i + 1) * L \<le> (int c + L - 1) div L * L" using assms(1) by simp
  moreover have "(int c + L - 1) div L * L \<le> int c + L - 1"
    using assms(1) by (metis mod_int_pos_iff minus_mod_eq_div_mult diff_le_eq le_add_same_cancel1 less_imp_le not_less)
  ultimately show ?thesis by (simp add: distrib_right)
qed

text \<open>
  Page by page, a user sees every active session of theirs exactly once, newest activity first:
  the pages from 1 to the reported number of pages, put together, are the ordered list.
\<close>

theorem session_pages_partition:
  assumes "length (active_sessions_of uid db) < 2 ^ 31"
  shows "concat (map (\<lambda>i. case fst (run (list_sessions uid (int i + 1) lim) db []) of
             Inr r \<Rightarrow> ls_sessions r | Inl e \<Rightarrow> [])
           [0..<nat (total_pages (int (length (active_sessions_of uid db))) (clamp_limit lim))])
         = listed_sessions uid db"
proof -
  let ?L = "clamp_limit lim" and ?xs = "listed_sessions uid db"
  let ?k = "nat (total_pages (int (length (active_sessions_of uid db))) ?L)"
  have L: "0 < ?L" using clamp_limit_bounds[of lim] by linarith
  have len: "length ?xs = length (active_sessions_of uid db)" by (simp add: listed_sessions_def)
  have "(case fst (run (list_sessions uid (int i + 1) lim) db []) of
             Inr r \<Rightarrow> ls_sessions r | Inl e \<Rightarrow> []) = take (nat ?L) (drop (i * nat ?L) ?xs)"
    if "i < ?k" for i
  proof -
    have "int i * ?L < 2 ^ 31" using total_pages_offset[OF L that] assms by simp
    then have "quiet (list_sessions uid (int i + 1) lim) db (Inr \<lparr>ls_sessions = take (nat ?L)
             (drop (nat (int i * ?L)) ?xs), ls_page = int i + 1, ls_limit = ?L,
          ls_total = int (length ?xs), ls_total_pages = total_pages (int (length ?xs)) ?L\<rparr>) db"
      using list_page_quiet[of "int i + 1" lim uid db] L by (simp add: clamp_page_def)
    then show ?thesis using L by (simp add: quiet_run nat_mult_distrib)
  qed
  then have "concat (map (\<lambda>i. case fst (run (list_sessions uid (int i + 1) lim) db []) of
             Inr r \<Rightarrow> ls_sessions r | Inl e \<Rightarrow> []) [0..<?k]) = take (?k * nat ?L) ?xs"
    unfolding concat_pages[symmetric] by (intro arg_cong[of _ _ concat] map_cong) simp_all
  also have "\<dots> = ?xs"
  proof (rule take_all)
    have "int (length ?xs) \<le> int (?k * nat ?L)"
      using total_pages_cover[OF L, of "length ?xs"] L by (simp add: len)
    then show "length ?xs \<le> ?k * nat ?L" by linarith
  qed
  finally show ?thesis .
qed

theorem session_pages_partition_witness:
  "concat (map (\<lambda>i. case fst (run (list_sessions 1 (int i + 1) 20) demo_db []) of
      Inr r \<Rightarrow> ls_sessions r | Inl e \<Rightarrow> []) [0..<1]) = [demo_session]"
  using session_pages_partition[of 1 demo_db 20]
  by (simp add: active_sessions_of_def listed_sessions_def demo_defs total_pages_def clamp_limit_def
      session_list_max_limit_def)

text \<open>
  The page number is multiplied in 64 bits and then cut to 32: page 214748366 of 20 entries
  starts again at entry 4 of the list and reports success, and page 107374184 asks the database
  for a negative offset, which it refuses, so a request that passed validation ends in a 500.
\<close>

theorem session_page_offset_wraps:
  "list_offset 214748366 20 = 4 \<and>
   (\<exists>r. fst (run (list_sessions uid 214748366 20) db []) = Inr r \<and>
        ls_sessions r = take 20 (drop 4 (listed_sessions uid db))) \<and>
   (\<exists>e. fst (run (list_sessions uid 107374184 20) db []) = Inl e \<and> ae_status e = 500)"
proof -
  have a: "list_offset 214748366 20 = 4" and b: "list_offset 107374184 20 = -2147483636"
    by (simp_all add: list_offset_def to_int32_def)
  have l: "to_int32 20 = 20" by (simp add: to_int32_def)
  show ?thesis
    by (simp add: a b l list_sessions_def clamp_page_def clamp_limit_def session_list_default_limit_def
        session_list_max_limit_def repo_list_sessions_def repo_count_sessions_def q_list_sessions_def
        q_count_sessions_def prog_defs listed_sessions_def internal_def new_error_def)
qed

definition others_untouched :: "uuid \<Rightarrow> uuid \<Rightarrow> session_db \<Rightarrow> session_db \<Rightarrow> bool" where
  "others_untouched uid sid db d \<longleftrightarrow> tokens d = tokens db \<and> users d = users db \<and>
     map (\<lambda>s. s\<lparr>s_revoked_at := None\<rparr>) (sessions d) = map (\<lambda>s. s\<lparr>s_revoked_at := None\<rparr>) (sessions db) \<and>
     filter (\<lambda>s. \<not> (s_user s = uid \<and> s_id s = sid)) (sessions d)
       = filter (\<lambda>s. \<not> (s_user s = uid \<and> s_id s = sid)) (sessions db)"

lemma others_untouched_refl: "others_untouched uid sid db db"
  by (simp add: others_untouched_def)

lemma others_untouched_revoke:
  "others_untouched uid sid db (db\<lparr>sessions :=
     update_where (revoke_matches sid uid) (\<lambda>s. s\<lparr>s_revoked_at := Some now\<rparr>) (sessions db)\<rparr>)"
proof -
  have "map (\<lambda>s. s\<lparr>s_revoked_at := None\<rparr>)
      (update_where (revoke_matches sid uid) (\<lambda>s. s\<lparr>s_revoked_at := Some now\<rparr>) xs)
    = map (\<lambda>s. s\<lparr>s_revoked_at := None\<rparr>) xs" for xs
    by (rule map_update_where) simp
  moreover have "filter (\<lambda>s. \<not> (s_user s = uid \<and> s_id s = sid))
      (update_where (revoke_matches sid uid) (\<lambda>s. s\<lparr>s_revoked_at := Some now\<rparr>) xs)
    = filter (\<lambda>s. \<not> (s_user s = uid \<and> s_id s = sid)) xs" for xs
    by (induction xs) (auto simp: update_where_def revoke_matches_def)
  ultimately show ?thesis by (simp add: others_untouched_def)
qed

text \<open>
  Revoking is confined to the caller: whatever fails, \<open>RevokeSessionForUser\<close> and \<open>Logout\<close>
  set at most the revocation time of the named session, and only if it is the caller's.
\<close>

theorem revocation_is_confined:
  "others_untouched uid sid db (snd (run (revoke_session_for_user now uid sid) db fs)) \<and>
   others_untouched uid sid db (snd (run (logout now uid sid) db fs))"
proof
  show "others_untouched uid sid db (snd (run (revoke_session_for_user now uid sid) db fs))"
    unfolding revoke_session_for_user_def repo_revoke_session_for_user_def
    by (rule wp_run_snd, intro wp_intros)
      (auto simp: q_revoke_session_for_user_def others_untouched_refl others_untouched_revoke split: if_splits)
  show "others_untouched uid sid db (snd (run (logout now uid sid) db fs))"
    unfolding logout_def repo_revoke_session_def
    by (rule wp_run_snd, intro wp_intros)
      (auto simp: q_revoke_session_def others_untouched_refl others_untouched_revoke)
qed

section \<open>The contracts of the two transactions\<close>

definition session_created ::
  "time \<Rightarrow> uuid \<Rightarrow> uuid \<Rightarrow> uuid \<Rightarrow> session_metadata \<Rightarrow> time \<Rightarrow> string \<Rightarrow> session_db \<Rightarrow> session_db \<Rightarrow> bool" where
  "session_created now sid tid uid md expires hash db d \<longleftrightarrow>
     uid \<in> set (users db) \<and> sid \<notin> s_id ` set (sessions db) \<and>
     tid \<notin> t_id ` set (tokens db) \<and> hash \<notin> t_hash ` set (tokens db) \<and>
     d = db\<lparr>sessions := sessions db @ [\<lparr>s_id = sid, s_user = uid, s_platform = md_platform md,
              s_installation = md_installation md, s_device_name = md_device_name md,
              s_user_agent = md_user_agent md, s_created_at = now, s_last_activity_at = now,
              s_absolute_expires_at = expires, s_revoked_at = None\<rparr>],
            tokens := tokens db @ [\<lparr>t_id = tid, t_session = sid, t_hash = hash, t_issued_at = now,
              t_replaced_by = None\<rparr>]\<rparr>"

lemma create_session_effect:
  assumes s: "q_create_session now sid uid md expires db = Inr (s, db1)"
    and t: "q_create_refresh_token now tid (s_id s) hash db1 = Inr (t, db2)"
  shows "session_created now sid tid uid md expires hash db db2"
  using assms by (auto simp: session_query_defs session_created_def has_key_iff Let_def split: if_splits)

lemma create_session_contract_wp:
  "wp (\<lambda>r d'. (d' = d \<and> isl r) \<or> session_created now sid tid uid md expires hash d d')
     (repo_create_session now sid tid uid md expires hash) d w"
  unfolding repo_create_session_def
  by (intro wp_intros) (auto dest: create_session_effect)

definition refresh_effect ::
  "time \<Rightarrow> uuid \<Rightarrow> string \<Rightarrow> string \<Rightarrow> session_db \<Rightarrow> session_db \<Rightarrow> bool" where
  "refresh_effect now tid hash new_hash db d \<longleftrightarrow>
     (\<exists>t s. t \<in> set (tokens db) \<and> s \<in> set (sessions db) \<and> t_hash t = hash \<and> s_id s = t_session t \<and>
        s_revoked_at s = None \<and>
        (d = revoked now s db \<or>
         t_replaced_by t = None \<and> d = rotated now t (successor now tid new_hash s) db))"

lemma rotation_is_effect:
  assumes "q_get_refresh_token_with_session hash d = Inr ((t, s), w0)" "s_revoked_at s = None"
    "t_replaced_by t = None"
    "q_create_refresh_token now tid (s_id s) new_hash w0 = Inr (new, w1)"
    "q_replace_refresh_token (t_id new) (t_id t) w1 = Inr (x, w2)"
    "q_update_session_activity now (s_id s) w2 = Inr (y, w3)"
  shows "refresh_effect now tid hash new_hash d w3"
proof -
  have w0: "w0 = d" and t: "t \<in> set (tokens d)" "t_session t = s_id s" "s \<in> set (sessions d)" "t_hash t = hash"
    using get_token_SomeD[OF assms(1)] by auto
  note eff = rotation_effect[OF assms(4)[unfolded w0] assms(5,6) t(1,2)]
  show ?thesis
    unfolding refresh_effect_def using t assms(2,3) eff(1,2)
    by (intro exI[of _ t] exI[of _ s]) (simp add: successor_def)
qed

lemma revocation_is_effect:
  assumes "q_get_refresh_token_with_session hash d = Inr ((t, s), w0)" "s_revoked_at s = None"
    and "q_revoke_session now (s_id s) (s_user s) w0 = Inr (x, w1)"
  shows "refresh_effect now tid hash new_hash d w1"
  using get_token_SomeD[OF assms(1)] assms(2,3) unfolding refresh_effect_def
  by (intro exI[of _ t] exI[of _ s]) (auto simp: q_revoke_session_def revoked_def)

lemma refresh_contract_wp:
  "wp (\<lambda>r d'. (d' = d \<and> isl r) \<or> refresh_effect db_now new_tid hash new_hash d d')
     (repo_refresh_token db_now app_now new_tid hash new_hash idle) d w"
  unfolding repo_refresh_token_def revoke_and_fail_def
  by (intro wp_intros) (auto dest: get_token_SomeD intro: rotation_is_effect revocation_is_effect)

interpretation create_tx: repo_method "repo_create_session now sid tid uid md expires hash"
  "session_created now sid tid uid md expires hash" for now sid tid uid md expires hash
  by unfold_locales (use wp_run[OF create_session_contract_wp] in blast)

interpretation refresh_tx: repo_method "repo_refresh_token db_now app_now new_tid hash new_hash idle"
  "refresh_effect db_now new_tid hash new_hash" for db_now app_now new_tid hash new_hash idle
  by unfold_locales (use wp_run[OF refresh_contract_wp] in blast)

text \<open>
  Both transactions are all or nothing under every schedule of faults, a lost commit answer
  included: a login's session and its first token appear together or not at all, and a refresh
  leaves the tables alone, revokes the session, or makes the complete rotation.
\<close>

theorem session_transactions_are_atomic:
  "(case run (repo_create_session now sid tid uid md expires hash) db fs of (r, d) \<Rightarrow>
      (d = db \<and> isl r) \<or> session_created now sid tid uid md expires hash db d) \<and>
   (case run (repo_refresh_token db_now app_now new_tid old_hash new_hash idle) db fs' of (r, d) \<Rightarrow>
      (d = db \<and> isl r) \<or> refresh_effect db_now new_tid old_hash new_hash db d)"
  unfolding case_prod_beta using create_tx.outcome refresh_tx.outcome by (intro conjI)

text \<open>
  Cleanup against refresh: a session the database may delete at one instant is refused by
  every refresh whose clock reads later.
\<close>

theorem cleanup_spares_usable_sessions:
  assumes "session_inv db" and "sid \<in> set (cleanup_batch now locked session_idle_lifetime n db)"
    and "t \<in> set (tokens db)" and "t_session t = sid" and "now < app_now"
  shows "\<exists>e. fst (run (repo_refresh_token db_now app_now tid (t_hash t) new_hash session_idle_lifetime) db [])
               = Inl e"
proof -
  obtain s where s: "s \<in> set (sessions db)" "s_id s = sid" "cleanup_eligible now session_idle_lifetime s"
    using deleted_was_eligible[OF assms(2)] by blast
  have "q_get_refresh_token_with_session (t_hash t) db = Inr ((t, s), db)"
    using assms(1,3,4) s row_with_distinct[of t_hash "tokens db" t] row_with_distinct[of s_id "sessions db" s]
    by (simp add: q_get_refresh_token_with_session_def session_inv_def session_keys_ok_def)
  then show ?thesis
    unfolding refresh_token_branches by (rule eligible_is_refused) (use s assms(5) in auto)
qed

theorem cleanup_spares_usable_sessions_witness:
  "\<exists>e. fst (run (repo_refresh_token 0 (200 * 24 * hour + 1) 4 ''h0'' ''h1'' session_idle_lifetime) demo_db []) = Inl e"
  using cleanup_spares_usable_sessions[OF demo_inv, of 7 "200 * 24 * hour" "[]" 500 demo_token "200 * 24 * hour + 1"]
  by (simp add: cleanup_batch_def cleanup_eligible_def demo_defs)

text \<open>
  At the very instant a session's absolute lifetime ends the two disagree: a refresh at that
  instant succeeds, and a cleanup at that instant deletes the session (\<open>After\<close> is strict, the
  statement compares with \<open>\<le>\<close>).
\<close>

theorem cleanup_deletes_a_usable_session:
  "let now = session_absolute_lifetime;
       db = demo_db\<lparr>sessions := [demo_session\<lparr>s_last_activity_at := now\<rparr>]\<rparr> in
   (\<exists>x. fst (run (repo_refresh_token now now 4 ''h0'' ''h1'' session_idle_lifetime) db []) = Inr x) \<and>
   sessions (snd (run (repo_delete_cleanup_eligible_sessions now [] session_idle_lifetime 500) db [])) = []"
  unfolding Let_def refresh_token_branches
  by (simp add: refresh_spec_def q_get_refresh_token_with_session_def row_with_def has_key_def demo_defs
      repo_delete_cleanup_eligible_sessions_def q_delete_cleanup_eligible_sessions_def Let_def prog_defs
      cleanup_batch_def cleanup_eligible_def delete_sessions_def)

end
