(* ===== verification/PasswordWork.thy ===== *)
theory PasswordWork
  imports AppErrors
begin

text \<open>
  The password-work limiter of \<open>internal/security/password_work.go\<close>: at most \<open>maxConcurrent\<close>
  derivations in flight, each caller waiting a bounded time. The state is the count under the
  mutex, the one-element channel \<open>changed\<close>, and where each call of \<open>Acquire\<close> stands; one event is one
  atomic action (a critical section, a channel operation, a timer or a cancellation), so a run is any
  interleaving of the calls.

  A send on \<open>changed\<close> goes straight to a call already blocked in its \<open>select\<close> if there is one, else
  into the buffer if that is empty, else it is dropped (the \<open>default\<close> branch).
\<close>

section \<open>State and steps\<close>

datatype where_at =
    Idle | Queued | Parked | Woken | Holding | Announcing | Released | TimedOut | CtxEnded

record waiter =
  w_at :: where_at
  w_cancelled :: bool

record limiter =
  changed :: bool
  held :: nat
  waiters :: "waiter list"

definition err_password_work_capacity_timeout :: go_error where
  "err_password_work_capacity_timeout =
     Sentinel ''password work capacity was not available within the wait''"

definition new_password_work_limiter :: "int \<Rightarrow> duration \<Rightarrow> go_error + nat \<times> duration" where
  "new_password_work_limiter max_concurrent wait =
     (if max_concurrent < 1 then Inl (Sentinel ''password work concurrency must be positive'')
      else if wait < 0 then Inl (Sentinel ''password work wait must not be negative'')
      else Inr (nat max_concurrent, wait))"

definition try_acquire :: "nat \<Rightarrow> limiter \<Rightarrow> bool \<times> limiter" where
  "try_acquire mx l = (if held l \<ge> mx then (False, l) else (True, l\<lparr>held := held l + 1\<rparr>))"

definition goes :: "nat \<Rightarrow> where_at \<Rightarrow> limiter \<Rightarrow> limiter" where
  "goes i p l = l\<lparr>waiters := (waiters l)[i := (waiters l ! i)\<lparr>w_at := p\<rparr>]\<rparr>"

text \<open>After a try: in possession of a slot, or (back) to the \<open>select\<close>.\<close>

definition try_then_wait :: "nat \<Rightarrow> nat \<Rightarrow> limiter \<Rightarrow> limiter" where
  "try_then_wait mx i l =
     (case try_acquire mx l of (got, l') \<Rightarrow> goes i (if got then Holding else Queued) l')"

text \<open>The locked part of \<open>release\<close>, and whether there is something to announce.\<close>

definition release_slot :: "limiter \<Rightarrow> bool \<times> limiter" where
  "release_slot l = (held l \<noteq> 0, if held l > 0 then l\<lparr>held := held l - 1\<rparr> else l)"

definition is_parked :: "nat \<Rightarrow> limiter \<Rightarrow> bool" where
  "is_parked j l \<longleftrightarrow> j < length (waiters l) \<and> w_at (waiters l ! j) = Parked"

definition any_at :: "where_at \<Rightarrow> limiter \<Rightarrow> bool" where
  "any_at p l \<longleftrightarrow> list_ex (\<lambda>w. w_at w = p) (waiters l)"

datatype pw_event =
    Cancel nat | Enter nat | SelectDone nat | SelectChanged nat | SelectTimer nat | Park nat
  | Retry nat | Release nat | ReleaseAgain nat | Announce nat "nat option"

fun pw_step :: "nat \<Rightarrow> pw_event \<Rightarrow> limiter \<Rightarrow> limiter option" where
  "pw_step mx (Cancel i) l =
     (if i < length (waiters l)
      then Some (l\<lparr>waiters := (waiters l)[i := (waiters l ! i)\<lparr>w_cancelled := True\<rparr>]\<rparr>) else None)"
| "pw_step mx (Enter i) l =
     (if i < length (waiters l) \<and> w_at (waiters l ! i) = Idle then
        Some (if w_cancelled (waiters l ! i) then goes i CtxEnded l else try_then_wait mx i l)
      else None)"
| "pw_step mx (SelectDone i) l =
     (if i < length (waiters l) \<and> w_at (waiters l ! i) \<in> {Queued, Parked} \<and> w_cancelled (waiters l ! i)
      then Some (goes i CtxEnded l) else None)"
| "pw_step mx (SelectChanged i) l =
     (if i < length (waiters l) \<and> w_at (waiters l ! i) = Queued \<and> changed l
      then Some (goes i Woken (l\<lparr>changed := False\<rparr>)) else None)"
| "pw_step mx (SelectTimer i) l =
     (if i < length (waiters l) \<and> w_at (waiters l ! i) \<in> {Queued, Parked}
      then Some (goes i (if w_cancelled (waiters l ! i) then CtxEnded else TimedOut) l) else None)"
| "pw_step mx (Park i) l =
     (if i < length (waiters l) \<and> w_at (waiters l ! i) = Queued \<and> \<not> changed l
         \<and> \<not> w_cancelled (waiters l ! i)
      then Some (goes i Parked l) else None)"
| "pw_step mx (Retry i) l =
     (if i < length (waiters l) \<and> w_at (waiters l ! i) = Woken then Some (try_then_wait mx i l) else None)"
| "pw_step mx (Release i) l =
     (if i < length (waiters l) \<and> w_at (waiters l ! i) = Holding then
        (case release_slot l of (announce, l') \<Rightarrow> Some (goes i (if announce then Announcing else Released) l'))
      else None)"
| "pw_step mx (ReleaseAgain i) l =
     (if i < length (waiters l) \<and> w_at (waiters l ! i) \<in> {Announcing, Released} then Some l else None)"
| "pw_step mx (Announce i target) l =
     (if i < length (waiters l) \<and> w_at (waiters l ! i) = Announcing then
        (case target of
           Some j \<Rightarrow> if is_parked j l then Some (goes j Woken (goes i Released l)) else None
         | None \<Rightarrow> if any_at Parked l then None else Some (goes i Released (l\<lparr>changed := True\<rparr>)))
      else None)"

fun pw_run :: "nat \<Rightarrow> pw_event list \<Rightarrow> limiter \<Rightarrow> limiter option" where
  "pw_run mx [] l = Some l"
| "pw_run mx (e # es) l = (case pw_step mx e l of None \<Rightarrow> None | Some l' \<Rightarrow> pw_run mx es l')"

inductive pw_next :: "nat \<Rightarrow> limiter \<Rightarrow> limiter \<Rightarrow> bool" for mx where
  pw_event: "pw_step mx e l = Some l' \<Longrightarrow> pw_next mx l l'"

inductive_cases pw_nextE: "pw_next mx l l'"

definition pw_start :: "limiter \<Rightarrow> bool" where
  "pw_start l \<longleftrightarrow> held l = 0 \<and> \<not> changed l \<and> (\<forall>w\<in>set (waiters l). w_at w = Idle)"

section \<open>Invariant\<close>

definition holders :: "limiter \<Rightarrow> nat" where
  "holders l = length (filter (\<lambda>w. w_at w = Holding) (waiters l))"

definition waiting :: "limiter \<Rightarrow> bool" where
  "waiting l \<longleftrightarrow> any_at Queued l \<or> any_at Parked l"

text \<open>Someone is about to look at the count again, or will be told to.\<close>

definition wakeup_in_flight :: "limiter \<Rightarrow> bool" where
  "wakeup_in_flight l \<longleftrightarrow> changed l \<or> any_at Announcing l \<or> any_at Woken l"

definition pw_inv :: "nat \<Rightarrow> limiter \<Rightarrow> bool" where
  "pw_inv mx l \<longleftrightarrow> held l = holders l \<and> held l \<le> mx \<and> (changed l \<longrightarrow> \<not> any_at Parked l)
     \<and> (waiting l \<longrightarrow> held l = 0 \<longrightarrow> wakeup_in_flight l)"

lemma any_at_nth: "any_at p l \<longleftrightarrow> (\<exists>j<length (waiters l). w_at (waiters l ! j) = p)"
  by (auto simp: any_at_def list_ex_iff in_set_conv_nth Bex_def)

lemma goes_sel [simp]:
  "held (goes i p l) = held l" "changed (goes i p l) = changed l"
  "length (waiters (goes i p l)) = length (waiters l)"
  by (simp_all add: goes_def)

lemma goes_nth:
  "j < length (waiters l) \<Longrightarrow>
     waiters (goes i p l) ! j = (if i = j then (waiters l ! i)\<lparr>w_at := p\<rparr> else waiters l ! j)"
  by (simp add: goes_def nth_list_update)

text \<open>Some other call than \<open>i\<close> is at \<open>q\<close>.\<close>

definition other_at :: "nat \<Rightarrow> where_at \<Rightarrow> limiter \<Rightarrow> bool" where
  "other_at i q l \<longleftrightarrow> (\<exists>j<length (waiters l). j \<noteq> i \<and> w_at (waiters l ! j) = q)"

lemma any_at_split:
  assumes "i < length (waiters l)"
  shows "any_at q l \<longleftrightarrow> w_at (waiters l ! i) = q \<or> other_at i q l"
  using assms unfolding any_at_nth other_at_def by blast

lemma any_at_goes:
  assumes "i < length (waiters l)"
  shows "any_at q (goes i p l) \<longleftrightarrow> q = p \<or> other_at i q l"
proof -
  have "other_at i q (goes i p l) \<longleftrightarrow> other_at i q l" by (auto simp: other_at_def goes_nth)
  then show ?thesis using any_at_split[of i "goes i p l" q] assms by (auto simp: goes_nth)
qed

lemma other_at_sel [simp]:
  "other_at i q (l\<lparr>held := n\<rparr>) = other_at i q l" "other_at i q (l\<lparr>changed := b\<rparr>) = other_at i q l"
  by (simp_all add: other_at_def)

lemma any_at_sel [simp]:
  "any_at p (l\<lparr>held := n\<rparr>) = any_at p l" "any_at p (l\<lparr>changed := b\<rparr>) = any_at p l"
  by (simp_all add: any_at_def)

lemma filter_update_length:
  "i < length xs \<Longrightarrow> length (filter P (xs[i := x])) + (if P (xs ! i) then 1 else 0)
     = length (filter P xs) + (if P x then 1 else 0)"
proof (induction xs arbitrary: i)
  case (Cons a xs)
  then show ?case using Cons.IH[of "i - 1"] by (cases i) auto
qed simp

lemma holders_goes:
  "i < length (waiters l) \<Longrightarrow>
     holders (goes i p l) + (if w_at (waiters l ! i) = Holding then 1 else 0)
       = holders l + (if p = Holding then 1 else 0)"
  using filter_update_length[of i "waiters l" "\<lambda>w. w_at w = Holding" "(waiters l ! i)\<lparr>w_at := p\<rparr>"]
  by (simp add: holders_def goes_def)

lemma holders_sel [simp]:
  "holders (l\<lparr>held := n\<rparr>) = holders l" "holders (l\<lparr>changed := b\<rparr>) = holders l"
  by (simp_all add: holders_def)

lemma waiters_sel [simp]:
  "waiters (l\<lparr>held := n\<rparr>) = waiters l" "waiters (l\<lparr>changed := b\<rparr>) = waiters l"
  by simp_all

lemmas pw_inv_defs = pw_inv_def waiting_def wakeup_in_flight_def

text \<open>One lemma per kind of step.\<close>

lemma cancel_inv:
  assumes "pw_inv mx l" and "i < length (waiters l)"
  shows "pw_inv mx (l\<lparr>waiters := (waiters l)[i := (waiters l ! i)\<lparr>w_cancelled := True\<rparr>]\<rparr>)"
proof -
  let ?l = "l\<lparr>waiters := (waiters l)[i := (waiters l ! i)\<lparr>w_cancelled := True\<rparr>]\<rparr>"
  have "any_at p ?l = any_at p l" for p
    using assms(2) by (auto simp: any_at_nth nth_list_update)
  moreover have "holders ?l = holders l"
    using filter_update_length[OF assms(2), of "\<lambda>w. w_at w = Holding" "(waiters l ! i)\<lparr>w_cancelled := True\<rparr>"]
    by (simp add: holders_def split: if_splits)
  ultimately show ?thesis using assms(1) by (simp add: pw_inv_defs)
qed

lemma leave_inv:
  assumes inv: "pw_inv mx l" and i: "i < length (waiters l)"
    and at: "w_at (waiters l ! i) \<in> {Idle, Queued, Parked}" and p: "p \<in> {CtxEnded, TimedOut}"
  shows "pw_inv mx (goes i p l)"
proof -
  have "holders (goes i p l) = holders l" using holders_goes[OF i, of p] at p by auto
  moreover have "any_at q (goes i p l) \<longrightarrow> any_at q l" if "q \<in> {Queued, Parked}" for q
    using that p any_at_goes[OF i, of q p] any_at_split[OF i, of q] by auto
  moreover have "any_at q (goes i p l) \<longleftrightarrow> any_at q l" if "q \<in> {Announcing, Woken}" for q
    using that p at any_at_goes[OF i, of q p] any_at_split[OF i, of q] by auto
  ultimately show ?thesis using inv by (simp add: pw_inv_defs) blast
qed

lemma park_inv:
  assumes inv: "pw_inv mx l" and i: "i < length (waiters l)" and at: "w_at (waiters l ! i) = Queued"
    and "\<not> changed l"
  shows "pw_inv mx (goes i Parked l)"
proof -
  have "holders (goes i Parked l) = holders l" using holders_goes[OF i, of Parked] at by simp
  moreover have "any_at q (goes i Parked l) \<longleftrightarrow> any_at q l" if "q \<in> {Announcing, Woken}" for q
    using that at any_at_goes[OF i, of q Parked] any_at_split[OF i, of q] by auto
  moreover have "waiting l" using any_at_split[OF i, of Queued] at by (simp add: waiting_def)
  ultimately show ?thesis
    using inv \<open>\<not> changed l\<close> by (simp add: pw_inv_def wakeup_in_flight_def)
qed

lemma take_wakeup_inv:
  assumes inv: "pw_inv mx l" and i: "i < length (waiters l)" and at: "w_at (waiters l ! i) = Queued"
  shows "pw_inv mx (goes i Woken (l\<lparr>changed := False\<rparr>))"
  using inv holders_goes[of i "l\<lparr>changed := False\<rparr>" Woken] i at
  by (simp add: pw_inv_def any_at_goes wakeup_in_flight_def)

lemma try_inv:
  assumes inv: "pw_inv mx l" and i: "i < length (waiters l)" and at: "w_at (waiters l ! i) \<in> {Idle, Woken}"
    and mx: "0 < mx"
  shows "pw_inv mx (try_then_wait mx i l)"
proof (cases "held l \<ge> mx")
  case True
  then have "try_then_wait mx i l = goes i Queued l" by (simp add: try_then_wait_def try_acquire_def)
  moreover have "holders (goes i Queued l) = holders l" using holders_goes[OF i, of Queued] at by auto
  ultimately show ?thesis
    using inv True mx any_at_split[OF i, of Parked] by (simp add: pw_inv_def any_at_goes[OF i])
next
  case False
  let ?l = "l\<lparr>held := held l + 1\<rparr>"
  have "try_then_wait mx i l = goes i Holding ?l"
    using False by (simp add: try_then_wait_def try_acquire_def)
  moreover have "holders (goes i Holding ?l) = holders l + 1" using holders_goes[of i ?l Holding] i at by auto
  ultimately show ?thesis
    using inv False any_at_split[OF i, of Parked] i by (simp add: pw_inv_def any_at_goes)
qed

lemma release_inv:
  assumes inv: "pw_inv mx l" and i: "i < length (waiters l)" and at: "w_at (waiters l ! i) = Holding"
  shows "case release_slot l of (announce, l') \<Rightarrow> pw_inv mx (goes i (if announce then Announcing else Released) l')"
proof -
  let ?l = "l\<lparr>held := held l - 1\<rparr>"
  have h: "holders (goes i Announcing ?l) + 1 = holders l" using holders_goes[of i ?l Announcing] i at by simp
  then have "held l \<noteq> 0" using inv by (simp add: pw_inv_def)
  then show ?thesis
    using inv h any_at_split[OF i, of Parked] i
    by (auto simp: pw_inv_def release_slot_def any_at_goes wakeup_in_flight_def)
qed

lemma announce_buffer_inv:
  assumes inv: "pw_inv mx l" and i: "i < length (waiters l)" and at: "w_at (waiters l ! i) = Announcing"
    and "\<not> any_at Parked l"
  shows "pw_inv mx (goes i Released (l\<lparr>changed := True\<rparr>))"
  using assms(1,4) holders_goes[of i "l\<lparr>changed := True\<rparr>" Released] any_at_split[OF i, of Parked] i at
  by (simp add: pw_inv_def any_at_goes wakeup_in_flight_def)

lemma announce_handoff_inv:
  assumes "pw_inv mx l" and "i < length (waiters l)" and "w_at (waiters l ! i) = Announcing"
    and "is_parked j l"
  shows "pw_inv mx (goes j Woken (goes i Released l))"
proof -
  have "i \<noteq> j" and j: "j < length (waiters (goes i Released l))" and "any_at Parked l"
    using assms by (auto simp: is_parked_def any_at_nth)
  then have "w_at (waiters (goes i Released l) ! j) = Parked" using assms by (simp add: goes_nth is_parked_def)
  then have "holders (goes j Woken (goes i Released l)) = holders l"
    using holders_goes[OF j, of Woken] holders_goes[OF assms(2), of Released] assms(3) by simp
  moreover have "any_at Woken (goes j Woken (goes i Released l))" using j by (simp add: any_at_goes)
  ultimately show ?thesis using assms(1) \<open>any_at Parked l\<close> by (simp add: pw_inv_defs)
qed

lemma pw_step_inv: "pw_inv mx l \<Longrightarrow> 0 < mx \<Longrightarrow> pw_step mx e l = Some l' \<Longrightarrow> pw_inv mx l'"
proof (induction mx e l rule: pw_step.induct)
  case (8 mx i l)
  then show ?case using release_inv[of mx l i] by (auto split: if_splits prod.splits)
qed (auto split: if_splits option.splits intro: cancel_inv leave_inv park_inv take_wakeup_inv try_inv
    announce_buffer_inv announce_handoff_inv)

text \<open>The constructor refuses a maximum below one; \<open>Suc m\<close> is a maximum it accepts.\<close>

interpretation pw: invariant_system pw_start "pw_next (Suc m)" "pw_inv (Suc m)" for m
proof unfold_locales
  show "pw_start l \<Longrightarrow> pw_inv (Suc m) l" for l
    by (auto simp: pw_start_def pw_inv_defs holders_def any_at_def list_ex_iff filter_empty_conv)
  show "pw_inv (Suc m) l \<Longrightarrow> pw_next (Suc m) l l' \<Longrightarrow> pw_inv (Suc m) l'" for l l'
    by (erule pw_nextE) (auto intro: pw_step_inv)
qed

section \<open>Properties\<close>

lemma pw_run_reachable:
  "pw_run mx es l = Some l' \<Longrightarrow> reachable_from pw_start (pw_next mx) l
     \<Longrightarrow> reachable_from pw_start (pw_next mx) l'"
proof (induction es arbitrary: l)
  case (Cons e es)
  then obtain l1 where l1: "pw_step mx e l = Some l1" "pw_run mx es l1 = Some l'"
    by (auto split: option.splits)
  have "reachable_from pw_start (pw_next mx) l1"
    using Cons.prems(2) by (rule reachable_from.next_step) (rule pw_event[OF l1(1)])
  then show ?case by (rule Cons.IH[OF l1(2)])
qed simp

definition fresh_limiter :: "nat \<Rightarrow> limiter" where
  "fresh_limiter n = \<lparr>changed = False, held = 0, waiters = replicate n \<lparr>w_at = Idle, w_cancelled = False\<rparr>\<rparr>"

lemma fresh_reachable: "reachable_from pw_start (pw_next mx) (fresh_limiter n)"
  by (rule reachable_from.start) (simp add: pw_start_def fresh_limiter_def)

text \<open>
  C32. However the calls interleave, cancel, time out and release (twice, or late), the number of
  calls in possession of a slot is exactly the count under the mutex and never exceeds the maximum.
\<close>

theorem password_work_never_exceeds_capacity:
  assumes "reachable_from pw_start (pw_next (Suc m)) l"
  shows "holders l = held l \<and> holders l \<le> Suc m"
  using pw.reachable_inv[OF assms] by (simp add: pw_inv_def)

theorem password_work_never_exceeds_capacity_witness:
  "\<exists>l. pw_run (Suc 0) [Enter 0, Enter 1, Park 1, Release 0, ReleaseAgain 0, Announce 0 (Some 1), Retry 1, ReleaseAgain 0]
         (fresh_limiter 2) = Some l \<and> holders l = held l \<and> holders l \<le> Suc 0"
proof -
  let ?es = "[Enter 0, Enter 1, Park 1, Release 0, ReleaseAgain 0, Announce 0 (Some 1), Retry 1, ReleaseAgain 0]"
  have "pw_run (Suc 0) ?es (fresh_limiter 2) \<noteq> None" by code_simp
  then obtain l where "pw_run (Suc 0) ?es (fresh_limiter 2) = Some l" by blast
  then show ?thesis
    using password_work_never_exceeds_capacity[OF pw_run_reachable[OF _ fresh_reachable]] by blast
qed

text \<open>
  No call is left waiting while no slot is in use: then a wakeup is buffered, about to be sent, or
  taken by a call that is about to look at the count. With a maximum of one this is every free slot.
\<close>

theorem password_work_no_waiter_stranded_when_idle:
  assumes "reachable_from pw_start (pw_next (Suc m)) l" and "waiting l" and "holders l = 0"
  shows "wakeup_in_flight l"
  using pw.reachable_inv[OF assms(1)] assms(2,3) by (simp add: pw_inv_def)

theorem password_work_no_waiter_stranded_when_idle_witness:
  "\<exists>l. pw_run (Suc 0) [Enter 0, Enter 1, Release 0] (fresh_limiter 2) = Some l \<and> waiting l \<and>
     holders l = 0 \<and> wakeup_in_flight l"
proof -
  let ?es = "[Enter 0, Enter 1, Release 0]"
  have "case pw_run (Suc 0) ?es (fresh_limiter 2) of Some l \<Rightarrow> waiting l \<and> holders l = 0 | None \<Rightarrow> False"
    by code_simp
  then obtain l where "pw_run (Suc 0) ?es (fresh_limiter 2) = Some l" "waiting l" "holders l = 0"
    by (auto split: option.splits)
  then show ?thesis
    using password_work_no_waiter_stranded_when_idle[OF pw_run_reachable[OF _ fresh_reachable]] by blast
qed

text \<open>
  With a maximum of two a wakeup is lost: two releases before the two waiters have reached their
  \<open>select\<close> leave one signal; one waiter takes it, the other blocks with a slot free, no wakeup in
  flight, and is turned away by its timer.
\<close>

theorem password_work_loses_a_wakeup:
  "case pw_run 2 [Enter 0, Enter 1, Enter 2, Enter 3, Release 0, Announce 0 None, Release 1,
                 Announce 1 None, SelectChanged 2, Retry 2, Park 3] (fresh_limiter 4) of
     None \<Rightarrow> False
   | Some l \<Rightarrow> is_parked 3 l \<and> holders l < 2 \<and> \<not> wakeup_in_flight l \<and>
       (case pw_step 2 (SelectTimer 3) l of None \<Rightarrow> False | Some l' \<Rightarrow> w_at (waiters l' ! 3) = TimedOut)"
  by code_simp

end
