(* ===== verification/Redis.thy ===== *)
theory Redis
  imports DbTx
begin

text \<open>
  The part of Redis the Lua scripts of \<open>internal/ratelimit\<close> call: a keyspace of counters and
  sorted sets with optional expiry, and one definition per command, as documented. All times are
  the server's clock in milliseconds; it does not move during a script. A key whose expiry has come
  is gone. A sorted set that loses its last member is gone. Sorted-set scores are the integers the
  scripts store.

  A script's error leaves the keyspace as it was: in both scripts that write, the first command is
  the only one that can find the wrong type.
\<close>

datatype redis_value = RCounter int | RZset "(string \<times> int) list"

record redis_entry =
  e_value :: redis_value
  e_expire_at :: "int option"

type_synonym keyspace = "string \<Rightarrow> redis_entry option"

datatype reply = RInt int | RTable "int list"

definition wrongtype :: go_error where
  "wrongtype = Sentinel ''WRONGTYPE Operation against a key holding the wrong kind of value''"

definition redis_overflow :: go_error where
  "redis_overflow = Sentinel ''ERR increment or decrement would overflow''"

definition expired :: "int \<Rightarrow> redis_entry \<Rightarrow> bool" where
  "expired t e = (case e_expire_at e of None \<Rightarrow> False | Some x \<Rightarrow> x \<le> t)"

definition live :: "int \<Rightarrow> keyspace \<Rightarrow> string \<Rightarrow> redis_entry option" where
  "live t ks k = (case ks k of None \<Rightarrow> None | Some e \<Rightarrow> if expired t e then None else Some e)"

section \<open>Counters\<close>

definition incr :: "int \<Rightarrow> string \<Rightarrow> keyspace \<Rightarrow> go_error + int \<times> keyspace" where
  "incr t k ks =
     (case live t ks k of
        None \<Rightarrow> Inr (1, ks(k \<mapsto> \<lparr>e_value = RCounter 1, e_expire_at = None\<rparr>))
      | Some e \<Rightarrow>
          (case e_value e of
             RZset _ \<Rightarrow> Inl wrongtype
           | RCounter n \<Rightarrow>
               if n + 1 \<ge> 2 ^ 63 then Inl redis_overflow
               else Inr (n + 1, ks(k \<mapsto> e\<lparr>e_value := RCounter (n + 1)\<rparr>))))"

definition decr :: "int \<Rightarrow> string \<Rightarrow> keyspace \<Rightarrow> go_error + int \<times> keyspace" where
  "decr t k ks =
     (case live t ks k of
        None \<Rightarrow> Inr (-1, ks(k \<mapsto> \<lparr>e_value = RCounter (-1), e_expire_at = None\<rparr>))
      | Some e \<Rightarrow>
          (case e_value e of
             RZset _ \<Rightarrow> Inl wrongtype
           | RCounter n \<Rightarrow>
               if n - 1 < - (2 ^ 63) then Inl redis_overflow
               else Inr (n - 1, ks(k \<mapsto> e\<lparr>e_value := RCounter (n - 1)\<rparr>))))"

definition get_number :: "int \<Rightarrow> string \<Rightarrow> keyspace \<Rightarrow> go_error + int option" where
  "get_number t k ks =
     (case live t ks k of
        None \<Rightarrow> Inr None
      | Some e \<Rightarrow> (case e_value e of RZset _ \<Rightarrow> Inl wrongtype | RCounter n \<Rightarrow> Inr (Some n)))"

definition key_exists :: "int \<Rightarrow> string \<Rightarrow> keyspace \<Rightarrow> bool" where
  "key_exists t k ks = (live t ks k \<noteq> None)"

section \<open>Expiry\<close>

definition pexpire :: "int \<Rightarrow> string \<Rightarrow> int \<Rightarrow> keyspace \<Rightarrow> keyspace" where
  "pexpire t k ms ks =
     (case live t ks k of
        None \<Rightarrow> ks
      | Some e \<Rightarrow> if ms \<le> 0 then ks(k := None) else ks(k \<mapsto> e\<lparr>e_expire_at := Some (t + ms)\<rparr>))"

definition expire :: "int \<Rightarrow> string \<Rightarrow> int \<Rightarrow> keyspace \<Rightarrow> keyspace" where
  "expire t k secs = pexpire t k (secs * 1000)"

definition pttl :: "int \<Rightarrow> string \<Rightarrow> keyspace \<Rightarrow> int" where
  "pttl t k ks =
     (case live t ks k of
        None \<Rightarrow> -2
      | Some e \<Rightarrow> (case e_expire_at e of None \<Rightarrow> -1 | Some x \<Rightarrow> x - t))"

section \<open>Sorted sets\<close>

definition zset_at :: "int \<Rightarrow> string \<Rightarrow> keyspace \<Rightarrow> go_error + (string \<times> int) list" where
  "zset_at t k ks =
     (case live t ks k of
        None \<Rightarrow> Inr []
      | Some e \<Rightarrow> (case e_value e of RCounter _ \<Rightarrow> Inl wrongtype | RZset zs \<Rightarrow> Inr zs))"

text \<open>Storing what is left of a set keeps its expiry; storing nothing removes the key.\<close>

definition put_zset :: "int \<Rightarrow> string \<Rightarrow> (string \<times> int) list \<Rightarrow> keyspace \<Rightarrow> keyspace" where
  "put_zset t k zs ks =
     (if zs = [] then ks(k := None)
      else case live t ks k of
        None \<Rightarrow> ks(k \<mapsto> \<lparr>e_value = RZset zs, e_expire_at = None\<rparr>)
      | Some e \<Rightarrow> ks(k \<mapsto> e\<lparr>e_value := RZset zs\<rparr>))"

definition zremrangebyscore :: "int \<Rightarrow> string \<Rightarrow> int \<Rightarrow> keyspace \<Rightarrow> go_error + keyspace" where
  "zremrangebyscore t k cutoff ks =
     (case zset_at t k ks of
        Inl e \<Rightarrow> Inl e
      | Inr zs \<Rightarrow> Inr (put_zset t k (filter (\<lambda>(m, s). \<not> s \<le> cutoff) zs) ks))"

definition zcard :: "int \<Rightarrow> string \<Rightarrow> keyspace \<Rightarrow> go_error + int" where
  "zcard t k ks = (case zset_at t k ks of Inl e \<Rightarrow> Inl e | Inr zs \<Rightarrow> Inr (int (length zs)))"

definition lowest_score :: "int \<Rightarrow> string \<Rightarrow> keyspace \<Rightarrow> go_error + int option" where
  "lowest_score t k ks =
     (case zset_at t k ks of
        Inl e \<Rightarrow> Inl e
      | Inr zs \<Rightarrow> Inr (if zs = [] then None else Some (min_list (map snd zs))))"

definition zadd :: "int \<Rightarrow> string \<Rightarrow> int \<Rightarrow> string \<Rightarrow> keyspace \<Rightarrow> go_error + keyspace" where
  "zadd t k score m ks =
     (case zset_at t k ks of
        Inl e \<Rightarrow> Inl e
      | Inr zs \<Rightarrow> Inr (put_zset t k (filter (\<lambda>(m', s). m' \<noteq> m) zs @ [(m, score)]) ks))"

definition zrem :: "int \<Rightarrow> string \<Rightarrow> string \<Rightarrow> keyspace \<Rightarrow> go_error + int \<times> keyspace" where
  "zrem t k m ks =
     (case zset_at t k ks of
        Inl e \<Rightarrow> Inl e
      | Inr zs \<Rightarrow>
          if m \<in> fst ` set zs then Inr (1, put_zset t k (filter (\<lambda>(m', s). m' \<noteq> m) zs) ks)
          else Inr (0, ks))"

section \<open>A script call over the network\<close>

text \<open>
  A call is answered, does not reach the server, or is carried out and its answer lost; the client
  cannot tell the last two apart.
\<close>

definition run_script ::
  "fate \<Rightarrow> (keyspace \<Rightarrow> go_error + reply \<times> keyspace) \<Rightarrow> keyspace \<Rightarrow> (go_error + reply) \<times> keyspace" where
  "run_script f script ks =
     (case f of
        StmtFails \<Rightarrow> (Inl DbFault, ks)
      | AckLost \<Rightarrow> (Inl DbFault, case script ks of Inl e \<Rightarrow> ks | Inr (r, ks') \<Rightarrow> ks')
      | StmtOk \<Rightarrow> (case script ks of Inl e \<Rightarrow> (Inl e, ks) | Inr (r, ks') \<Rightarrow> (Inr r, ks')))"

section \<open>Lemmas\<close>

named_theorems redis_simps \<open>what each command does to each key\<close>

lemma live_upd_other [redis_simps]: "k' \<noteq> k \<Longrightarrow> live t (ks(k := x)) k' = live t ks k'"
  by (simp add: live_def)

lemma live_upd_same [redis_simps]:
  "live t (ks(k := x)) k = (case x of None \<Rightarrow> None | Some e \<Rightarrow> if expired t e then None else Some e)"
  by (simp add: live_def split: option.splits)

lemma live_SomeD: "live t ks k = Some e \<Longrightarrow> ks k = Some e \<and> \<not> expired t e"
  by (auto simp: live_def split: option.splits if_splits)

lemma live_mono: "live t ks k = None \<Longrightarrow> t \<le> t' \<Longrightarrow> live t' ks k = None"
  by (auto simp: live_def expired_def split: option.splits if_splits)

lemma expired_no_ttl [redis_simps]: "e_expire_at e = None \<Longrightarrow> \<not> expired t e"
  by (simp add: expired_def)

lemma expired_ttl [redis_simps]: "e_expire_at e = Some x \<Longrightarrow> expired t e \<longleftrightarrow> x \<le> t"
  by (simp add: expired_def)

lemma expired_value [redis_simps]: "expired t (e\<lparr>e_value := v\<rparr>) = expired t e"
  by (simp add: expired_def)

lemma pexpire_other [redis_simps]: "k' \<noteq> k \<Longrightarrow> live t' (pexpire t k ms ks) k' = live t' ks k'"
  by (auto simp: pexpire_def live_def split: option.splits if_splits)

lemma put_zset_other [redis_simps]: "k' \<noteq> k \<Longrightarrow> live t' (put_zset t k zs ks) k' = live t' ks k'"
  by (auto simp: put_zset_def live_def split: option.splits if_splits)

lemma zset_at_put [redis_simps]: "zset_at t k (put_zset t k zs ks) = Inr zs"
  by (auto simp: zset_at_def put_zset_def redis_simps split: option.splits dest: live_SomeD)

lemma zset_at_pexpire [redis_simps]: "0 < ms \<Longrightarrow> zset_at t k (pexpire t k ms ks) = zset_at t k ks"
  by (auto simp: zset_at_def pexpire_def redis_simps split: option.splits)

end
