(* ===== verification/FixedWindow.thy ===== *)
theory FixedWindow
  imports Redis
begin

text \<open>
  The fixed-window limiter of \<open>internal/ratelimit/limiter.go\<close>: the two Lua scripts, \<open>Policy.Validate\<close>,
  \<open>Allow\<close>, \<open>Release\<close>, and the derivation of keys. HMAC-SHA256 is a parameter \<open>mac\<close> from secret
  and subject to bytes.
\<close>

section \<open>Keys\<close>

definition hex_digit :: "nat \<Rightarrow> char" where
  "hex_digit n = ''0123456789abcdef'' ! n"

definition hex_encode :: "nat list \<Rightarrow> string" where
  "hex_encode bytes = concat (map (\<lambda>b. [hex_digit (b mod 256 div 16), hex_digit (b mod 16)]) bytes)"

definition derive_key :: "(string \<Rightarrow> string \<Rightarrow> nat list) \<Rightarrow> string \<Rightarrow> string \<Rightarrow> string \<Rightarrow> string \<Rightarrow> string" where
  "derive_key mac prefix namespace secret subject =
     prefix @ '':'' @ namespace @ '':'' @ hex_encode (mac secret subject)"

definition key_prefix :: string where "key_prefix = ''rl''"

definition limiter_key :: "(string \<Rightarrow> string \<Rightarrow> nat list) \<Rightarrow> string \<Rightarrow> string \<Rightarrow> string \<Rightarrow> string" where
  "limiter_key mac secret namespace subject = derive_key mac key_prefix namespace secret subject"

section \<open>Scripts\<close>

definition increment_with_ttl :: "int \<Rightarrow> string \<Rightarrow> int \<Rightarrow> keyspace \<Rightarrow> go_error + reply \<times> keyspace" where
  "increment_with_ttl t k secs ks =
     (case incr t k ks of
        Inl e \<Rightarrow> Inl e
      | Inr (n, ks1) \<Rightarrow>
          (let ks2 = (if n = 1 then expire t k secs ks1 else ks1);
               ttl = pttl t k ks2 in
           if ttl < 0 then Inr (RTable [n, secs * 1000], expire t k secs ks2)
           else Inr (RTable [n, ttl], ks2)))"

definition release_one :: "int \<Rightarrow> string \<Rightarrow> keyspace \<Rightarrow> go_error + reply \<times> keyspace" where
  "release_one t k ks =
     (if \<not> key_exists t k ks then Inr (RInt 0, ks)
      else case get_number t k ks of
        Inl e \<Rightarrow> Inl e
      | Inr current \<Rightarrow>
          if current = None \<or> the current \<le> 0 then Inr (RInt 0, ks)
          else case decr t k ks of Inl e \<Rightarrow> Inl e | Inr (n, ks') \<Rightarrow> Inr (RInt n, ks'))"

section \<open>The limiter\<close>

record policy =
  p_max :: int
  p_window :: duration

definition policy_error :: "policy \<Rightarrow> go_error option" where
  "policy_error p =
     (if p_max p \<le> 0 then Some (Sentinel ''rate limit max must be positive'')
      else if p_window p < second then Some (Sentinel ''rate limit window must be at least one second'')
      else None)"

record rl_result =
  r_count :: int
  r_allowed :: bool
  r_retry_after :: duration

text \<open>
  \<open>int64(Window.Seconds())\<close>; the quotient is taken exactly, which the \<open>float64\<close> reaches for
  every window below \<open>2\<^sup>2\<^sup>2\<close> seconds.
\<close>

definition window_seconds :: "policy \<Rightarrow> int" where
  "window_seconds p = p_window p div second"

definition retry_after :: "int \<Rightarrow> duration" where
  "retry_after ttl_millis = (if ttl_millis \<le> 0 then 0 else (ttl_millis + 999) div 1000 * second)"

definition allow ::
  "(string \<Rightarrow> string \<Rightarrow> nat list) \<Rightarrow> string \<Rightarrow> fate \<Rightarrow> int \<Rightarrow> string \<Rightarrow> string \<Rightarrow> policy \<Rightarrow> keyspace
     \<Rightarrow> (go_error + rl_result) \<times> keyspace" where
  "allow mac secret f t namespace subject pol ks =
     (case policy_error pol of
        Some e \<Rightarrow> (Inl e, ks)
      | None \<Rightarrow>
          (case run_script f (increment_with_ttl t (limiter_key mac secret namespace subject) (window_seconds pol)) ks of
             (Inl e, ks') \<Rightarrow> (Inl (Wrapped (''incrementing rate limit counter for namespace '' @ namespace) e), ks')
           | (Inr (RTable [n, ttl]), ks') \<Rightarrow>
               (Inr \<lparr>r_count = n, r_allowed = (n \<le> p_max pol), r_retry_after = retry_after ttl\<rparr>, ks')
           | (Inr _, ks') \<Rightarrow> (Inl (Sentinel ''rate limit script returned an unexpected reply''), ks')))"

definition release ::
  "(string \<Rightarrow> string \<Rightarrow> nat list) \<Rightarrow> string \<Rightarrow> fate \<Rightarrow> int \<Rightarrow> string \<Rightarrow> string \<Rightarrow> keyspace
     \<Rightarrow> (go_error + rl_result) \<times> keyspace" where
  "release mac secret f t namespace subject ks =
     (case run_script f (release_one t (limiter_key mac secret namespace subject)) ks of
        (Inl e, ks') \<Rightarrow> (Inl (Wrapped (''releasing rate limit counter for namespace '' @ namespace) e), ks')
      | (Inr (RInt n), ks') \<Rightarrow> (Inr \<lparr>r_count = n, r_allowed = True, r_retry_after = 0\<rparr>, ks')
      | (Inr _, ks') \<Rightarrow> (Inl (Sentinel ''unexpected reply type''), ks'))"

section \<open>Keys do not collide\<close>

lemma hex_digit_not_colon: "n < 16 \<Longrightarrow> hex_digit n \<noteq> CHR '':''"
  by (simp add: hex_digit_def nth_Cons split: nat.splits)

lemma hex_encode_no_colon: "CHR '':'' \<notin> set (hex_encode bs)"
  by (auto simp: hex_encode_def hex_digit_not_colon[symmetric] dest: sym[of "CHR '':''"])

lemma split_at_first:
  "a @ x # b = c @ x # d \<Longrightarrow> x \<notin> set a \<Longrightarrow> x \<notin> set c \<Longrightarrow> a = c \<and> b = d"
  by (induction a arbitrary: c) (auto simp: Cons_eq_append_conv append_eq_Cons_conv)

lemma split_at_last:
  "a @ x # b = c @ x # d \<Longrightarrow> x \<notin> set b \<Longrightarrow> x \<notin> set d \<Longrightarrow> a = c \<and> b = d"
  using split_at_first[of "rev b" x "rev a" "rev d" "rev c"]
  by (metis rev_append rev_rev_ident set_rev rev.simps(2) append_assoc append_Cons append_Nil)

lemma derive_key_inj:
  assumes "derive_key mac p ns s x = derive_key mac' p' ns' s' x'"
    and "CHR '':'' \<notin> set p" and "CHR '':'' \<notin> set p'"
  shows "p = p' \<and> ns = ns' \<and> hex_encode (mac s x) = hex_encode (mac' s' x')"
proof -
  have "p = p' \<and> ns @ CHR '':'' # hex_encode (mac s x) = ns' @ CHR '':'' # hex_encode (mac' s' x')"
    using split_at_first[of p "CHR '':''" _ p'] assms by (simp add: derive_key_def)
  then show ?thesis using split_at_last hex_encode_no_colon by metis
qed

section \<open>What the scripts do to a counter\<close>

definition counter_at :: "int \<Rightarrow> keyspace \<Rightarrow> string \<Rightarrow> int \<Rightarrow> int option \<Rightarrow> bool" where
  "counter_at t ks k n x \<longleftrightarrow> live t ks k = Some \<lparr>e_value = RCounter n, e_expire_at = x\<rparr>"

lemmas script_defs = increment_with_ttl_def incr_def expire_def pexpire_def pttl_def Let_def

lemma increment_fresh:
  assumes "live t ks k = None" and "0 < secs"
  shows "\<exists>ks'. increment_with_ttl t k secs ks = Inr (RTable [1, secs * 1000], ks') \<and>
    counter_at t ks' k 1 (Some (t + secs * 1000))"
  using assms by (simp add: script_defs redis_simps counter_at_def expired_def)

lemma increment_counter:
  assumes "counter_at t ks k n (Some x)" and "0 < secs" and "1 \<le> n" and "n + 1 < 2 ^ 63"
  shows "\<exists>ks'. increment_with_ttl t k secs ks = Inr (RTable [n + 1, x - t], ks') \<and>
    counter_at t ks' k (n + 1) (Some x)"
proof -
  have "t < x" using assms(1) by (auto simp: counter_at_def expired_def dest!: live_SomeD)
  then show ?thesis
    using assms by (auto simp: script_defs redis_simps counter_at_def expired_def)
qed

lemma increment_other:
  "increment_with_ttl t k secs ks = Inr (r, ks') \<Longrightarrow> k' \<noteq> k \<Longrightarrow> live t' ks' k' = live t' ks k'"
  by (auto simp: script_defs live_def split: option.splits redis_value.splits if_splits)

lemma release_other:
  "release_one t k ks = Inr (r, ks') \<Longrightarrow> k' \<noteq> k \<Longrightarrow> live t' ks' k' = live t' ks k'"
  by (auto simp: release_one_def decr_def live_def split: option.splits redis_value.splits if_splits sum.splits)

lemma counter_later:
  "counter_at t ks k n (Some x) \<Longrightarrow> t' < x \<Longrightarrow> counter_at t' ks k n (Some x)"
  by (auto simp: counter_at_def live_def expired_def split: option.splits if_splits)

section \<open>Traffic\<close>

text \<open>
  Calls of any number of processes, in the order the server runs them, each with its clock. The
  run returns the answers to the \<open>Allow\<close> calls for one namespace and subject.
\<close>

datatype rl_call =
    CallAllow (call_fate: fate) (call_time: int) (call_ns: string) (call_subject: string) policy
  | CallRelease (call_fate: fate) (call_time: int) (call_ns: string) (call_subject: string)

fun rl_apply :: "(string \<Rightarrow> string \<Rightarrow> nat list) \<Rightarrow> string \<Rightarrow> rl_call \<Rightarrow> keyspace \<Rightarrow> keyspace" where
  "rl_apply mac secret (CallAllow f t ns subj pol) ks = snd (allow mac secret f t ns subj pol ks)"
| "rl_apply mac secret (CallRelease f t ns subj) ks = snd (release mac secret f t ns subj ks)"

fun rl_admits :: "(string \<Rightarrow> string \<Rightarrow> nat list) \<Rightarrow> string \<Rightarrow> string \<Rightarrow> rl_call \<Rightarrow> keyspace \<Rightarrow> bool" where
  "rl_admits mac secret k (CallAllow f t ns subj pol) ks =
     (limiter_key mac secret ns subj = k \<and>
      (case fst (allow mac secret f t ns subj pol ks) of Inr r \<Rightarrow> r_allowed r | Inl e \<Rightarrow> False))"
| "rl_admits mac secret k (CallRelease f t ns subj) ks = False"

text \<open>How many calls for key \<open>k\<close> were told they may proceed.\<close>

fun admitted :: "(string \<Rightarrow> string \<Rightarrow> nat list) \<Rightarrow> string \<Rightarrow> string \<Rightarrow> rl_call list \<Rightarrow> keyspace \<Rightarrow> int" where
  "admitted mac secret k [] ks = 0"
| "admitted mac secret k (c # cs) ks =
     (if rl_admits mac secret k c ks then 1 else 0) + admitted mac secret k cs (rl_apply mac secret c ks)"

text \<open>Calls for \<open>k\<close> are \<open>Allow\<close>s under one valid policy; other keys see anything.\<close>

fun charges_only :: "(string \<Rightarrow> string \<Rightarrow> nat list) \<Rightarrow> string \<Rightarrow> string \<Rightarrow> policy \<Rightarrow> rl_call \<Rightarrow> bool" where
  "charges_only mac secret k pol (CallAllow f t ns subj pol') \<longleftrightarrow>
     (limiter_key mac secret ns subj = k \<longrightarrow> pol' = pol)"
| "charges_only mac secret k pol (CallRelease f t ns subj) \<longleftrightarrow> limiter_key mac secret ns subj \<noteq> k"

lemma run_script_snd:
  "run_script f sc ks = (r, ks') \<Longrightarrow> ks' = ks \<or> (\<exists>r'. sc ks = Inr (r', ks'))"
  by (auto simp: run_script_def split: fate.splits sum.splits)

lemma allow_other:
  "limiter_key mac secret ns subj \<noteq> k \<Longrightarrow> live t' (snd (allow mac secret f t ns subj pol ks)) k = live t' ks k"
  by (auto simp: allow_def increment_other dest!: run_script_snd split: option.splits prod.splits sum.splits
      reply.splits list.splits)

lemma release_other_key:
  "limiter_key mac secret ns subj \<noteq> k \<Longrightarrow> live t' (snd (release mac secret f t ns subj ks)) k = live t' ks k"
  by (auto simp: release_def release_other dest!: run_script_snd split: prod.splits sum.splits reply.splits)

lemma rl_apply_other:
  "(case c of CallAllow f t ns subj p \<Rightarrow> limiter_key mac secret ns subj \<noteq> k
            | CallRelease f t ns subj \<Rightarrow> limiter_key mac secret ns subj \<noteq> k)
     \<Longrightarrow> live t' (rl_apply mac secret c ks) k = live t' ks k \<and> \<not> rl_admits mac secret k c ks"
  by (cases c) (simp_all add: allow_other release_other_key)

lemma window_seconds_pos: "policy_error pol = None \<Longrightarrow> 0 < window_seconds pol"
  by (auto simp: policy_error_def window_seconds_def pos_imp_zdiv_pos_iff split: if_splits)

text \<open>One \<open>Allow\<close> of the key, by the fate of its round trip.\<close>

lemma allow_fresh:
  assumes "live t ks (limiter_key mac secret ns subj) = None" and "policy_error pol = None"
  shows "(\<exists>e. allow mac secret f t ns subj pol ks = (Inl e, ks))
    \<or> counter_at t (snd (allow mac secret f t ns subj pol ks)) (limiter_key mac secret ns subj) 1
        (Some (t + window_seconds pol * 1000))
      \<and> (\<forall>r. fst (allow mac secret f t ns subj pol ks) = Inr r \<longrightarrow>
            r = \<lparr>r_count = 1, r_allowed = True, r_retry_after = retry_after (window_seconds pol * 1000)\<rparr>)"
  using increment_fresh[OF assms(1) window_seconds_pos[OF assms(2)]] assms
  by (cases f) (auto simp: allow_def run_script_def policy_error_def split: if_splits)

lemma allow_counter:
  assumes "counter_at t ks (limiter_key mac secret ns subj) n (Some x)" and "policy_error pol = None"
    and "1 \<le> n" and "n + 1 < 2 ^ 63"
  shows "(\<exists>e. allow mac secret f t ns subj pol ks = (Inl e, ks))
    \<or> counter_at t (snd (allow mac secret f t ns subj pol ks)) (limiter_key mac secret ns subj) (n + 1) (Some x)
      \<and> (\<forall>r. fst (allow mac secret f t ns subj pol ks) = Inr r \<longrightarrow>
            r = \<lparr>r_count = n + 1, r_allowed = (n + 1 \<le> p_max pol), r_retry_after = retry_after (x - t)\<rparr>)"
  using increment_counter[OF assms(1) window_seconds_pos[OF assms(2)] assms(3,4)] assms
  by (cases f) (auto simp: allow_def run_script_def)

text \<open>From a counter at \<open>n\<close>, within its window, at most \<open>max - n\<close> more are admitted.\<close>

lemma admitted_from_counter:
  assumes "policy_error pol = None"
  shows "counter_at t ks k n (Some x) \<Longrightarrow> 1 \<le> n \<Longrightarrow> n + int (length cs) < 2 ^ 63 \<Longrightarrow>
    (\<forall>c\<in>set cs. charges_only mac secret k pol c \<and> call_time c < x) \<Longrightarrow>
    admitted mac secret k cs ks \<le> max 0 (p_max pol - n)"
proof (induction cs arbitrary: ks n t)
  case (Cons c cs)
  let ?ks = "rl_apply mac secret c ks"
  show ?case
  proof (cases "\<exists>f t ns subj pol'. c = CallAllow f t ns subj pol' \<and> limiter_key mac secret ns subj = k")
    case False
    then have other: "live t' ?ks k = live t' ks k \<and> \<not> rl_admits mac secret k c ks" for t'
      using Cons.prems(4) by (intro rl_apply_other) (auto split: rl_call.split)
    then have "admitted mac secret k cs ?ks \<le> max 0 (p_max pol - n)"
      using Cons.prems by (intro Cons.IH[of t]) (auto simp: counter_at_def)
    then show ?thesis using other by simp
  next
    case True
    then obtain f t' ns subj where c: "c = CallAllow f t' ns subj pol" "limiter_key mac secret ns subj = k"
      using Cons.prems(4) by auto
    have now: "counter_at t' ks k n (Some x)"
      using counter_later[OF Cons.prems(1)] Cons.prems(4) c(1) by simp
    consider e where "allow mac secret f t' ns subj pol ks = (Inl e, ks)"
      | "counter_at t' ?ks k (n + 1) (Some x)" "rl_admits mac secret k c ks \<longrightarrow> n + 1 \<le> p_max pol"
      using allow_counter[OF now[folded c(2)] assms] Cons.prems(2,3) c by (fastforce split: sum.splits)
    then show ?thesis
    proof cases
      case 1
      then have "?ks = ks" "\<not> rl_admits mac secret k c ks" using c by simp_all
      then show ?thesis using Cons by simp
    next
      case 2
      have "admitted mac secret k cs ?ks \<le> max 0 (p_max pol - (n + 1))"
        using Cons.prems 2(1) by (intro Cons.IH) auto
      moreover have "rl_admits mac secret k c ks \<longrightarrow> max 0 (p_max pol - (n + 1)) + 1 \<le> max 0 (p_max pol - n)"
        using 2(2) by simp
      moreover have "max 0 (p_max pol - (n + 1)) \<le> max 0 (p_max pol - n)" by simp
      ultimately show ?thesis by (auto simp del: max_def)
    qed
  qed
qed simp

lemma admitted_from_none:
  assumes "policy_error pol = None"
  shows "live t0 ks k = None \<Longrightarrow> int (length cs) + 1 < 2 ^ 63 \<Longrightarrow>
    (\<forall>c\<in>set cs. charges_only mac secret k pol c \<and> t0 \<le> call_time c \<and> call_time c < t0 + window_seconds pol * 1000) \<Longrightarrow>
    admitted mac secret k cs ks \<le> p_max pol"
proof (induction cs arbitrary: ks)
  case Nil
  then show ?case using assms by (simp add: policy_error_def split: if_splits)
next
  case (Cons c cs)
  let ?ks = "rl_apply mac secret c ks"
  show ?case
  proof (cases "\<exists>f t ns subj pol'. c = CallAllow f t ns subj pol' \<and> limiter_key mac secret ns subj = k")
    case False
    then have other: "live t' ?ks k = live t' ks k \<and> \<not> rl_admits mac secret k c ks" for t'
      using Cons.prems(3) by (intro rl_apply_other) (auto split: rl_call.split)
    then show ?thesis using Cons by simp
  next
    case True
    then obtain f t' ns subj where c: "c = CallAllow f t' ns subj pol" "limiter_key mac secret ns subj = k"
      using Cons.prems(3) by auto
    have t': "t0 \<le> t'" using Cons.prems(3) c(1) by simp
    have none: "live t' ks (limiter_key mac secret ns subj) = None"
      using live_mono[OF Cons.prems(1) t'] c(2) by simp
    have max: "1 \<le> p_max pol" using assms by (simp add: policy_error_def split: if_splits)
    consider e where "allow mac secret f t' ns subj pol ks = (Inl e, ks)"
      | "counter_at t' ?ks k 1 (Some (t' + window_seconds pol * 1000))"
      using allow_fresh[OF none assms] c by fastforce
    then show ?thesis
    proof cases
      case 1
      then have "?ks = ks" "\<not> rl_admits mac secret k c ks" using c by simp_all
      then show ?thesis using Cons by simp
    next
      case 2
      have "admitted mac secret k cs ?ks \<le> max 0 (p_max pol - 1)"
        using Cons.prems t' by (intro admitted_from_counter[OF assms 2]) auto
      then show ?thesis using max by simp
    qed
  qed
qed

section \<open>Every branch\<close>

text \<open>What one \<open>Allow\<close> answers and leaves, from what the key holds, when the round trip works.\<close>

definition charged :: "int \<Rightarrow> string \<Rightarrow> policy \<Rightarrow> int \<Rightarrow> int \<Rightarrow> keyspace \<Rightarrow> (go_error + rl_result) \<times> keyspace" where
  "charged t k pol n ttl ks =
     (Inr \<lparr>r_count = n, r_allowed = (n \<le> p_max pol), r_retry_after = retry_after ttl\<rparr>,
      ks(k \<mapsto> \<lparr>e_value = RCounter n, e_expire_at = Some (t + ttl)\<rparr>))"

definition allow_spec :: "int \<Rightarrow> string \<Rightarrow> string \<Rightarrow> policy \<Rightarrow> keyspace \<Rightarrow> (go_error + rl_result) \<times> keyspace" where
  "allow_spec t namespace k pol ks =
     (let fault = (\<lambda>e. (Inl (Wrapped (''incrementing rate limit counter for namespace '' @ namespace) e), ks));
          window = window_seconds pol * 1000 in
      case policy_error pol of
        Some e \<Rightarrow> (Inl e, ks)
      | None \<Rightarrow>
          (case live t ks k of
             None \<Rightarrow> charged t k pol 1 window ks
           | Some e \<Rightarrow>
               (case (e_value e, e_expire_at e) of
                  (RZset _, _) \<Rightarrow> fault wrongtype
                | (RCounter n, None) \<Rightarrow>
                    if n + 1 \<ge> 2 ^ 63 then fault redis_overflow else charged t k pol (n + 1) window ks
                | (RCounter n, Some x) \<Rightarrow>
                    if n + 1 \<ge> 2 ^ 63 then fault redis_overflow
                    else charged t k pol (n + 1) (if n = 0 then window else x - t) ks)))"

definition release_spec :: "int \<Rightarrow> string \<Rightarrow> string \<Rightarrow> keyspace \<Rightarrow> (go_error + rl_result) \<times> keyspace" where
  "release_spec t namespace k ks =
     (let answer = (\<lambda>n. Inr \<lparr>r_count = n, r_allowed = True, r_retry_after = 0\<rparr>) in
      case live t ks k of
        None \<Rightarrow> (answer 0, ks)
      | Some e \<Rightarrow>
          (case e_value e of
             RZset _ \<Rightarrow> (Inl (Wrapped (''releasing rate limit counter for namespace '' @ namespace) wrongtype), ks)
           | RCounter n \<Rightarrow> if n \<le> 0 then (answer 0, ks)
                            else (answer (n - 1), ks(k \<mapsto> e\<lparr>e_value := RCounter (n - 1)\<rparr>))))"

lemma allow_branches:
  "allow mac secret StmtOk t namespace subject pol ks
     = allow_spec t namespace (limiter_key mac secret namespace subject) pol ks"
proof (cases "policy_error pol")
  case None
  let ?k = "limiter_key mac secret namespace subject"
  have w: "0 < window_seconds pol" using None by (rule window_seconds_pos)
  show ?thesis
  proof (cases "live t ks ?k")
    case N: None
    then show ?thesis
      using None w by (simp add: allow_def allow_spec_def run_script_def script_defs redis_simps charged_def expired_def)
  next
    case (Some e)
    have e: "\<not> expired t e" using live_SomeD[OF Some] by simp
    show ?thesis
      using None w Some e
      by (cases e; cases "e_expire_at e")
        (auto simp: allow_def allow_spec_def run_script_def script_defs redis_simps charged_def expired_def
          split: redis_value.splits)
  qed
qed (simp add: allow_def allow_spec_def)

lemma release_branches:
  "release mac secret StmtOk t namespace subject ks
     = release_spec t namespace (limiter_key mac secret namespace subject) ks"
proof -
  let ?k = "limiter_key mac secret namespace subject"
  show ?thesis
  proof (cases "live t ks ?k")
    case (Some e)
    then show ?thesis
      by (auto simp: release_def release_spec_def run_script_def release_one_def get_number_def key_exists_def
          decr_def Let_def split: redis_value.splits)
  qed (simp add: release_def release_spec_def run_script_def release_one_def key_exists_def)
qed

lemma charged_counter: "0 < ttl \<Longrightarrow> counter_at t (snd (charged t k pol n ttl ks)) k n (Some (t + ttl))"
  by (simp add: charged_def counter_at_def redis_simps expired_def)

text \<open>Whatever was there before, an answered \<open>Allow\<close> leaves a counter with an expiry ahead.\<close>

lemma charged_answer:
  "charged t k pol n ttl ks = (Inr r, ks') \<Longrightarrow> 0 < ttl \<Longrightarrow>
     \<exists>ttl>0. counter_at t ks' k (r_count r) (Some (t + ttl)) \<and>
       r_allowed r = (r_count r \<le> p_max pol) \<and> r_retry_after r = retry_after ttl"
  by (auto simp: charged_def counter_at_def redis_simps expired_def)

lemma allow_leaves_expiry:
  assumes "allow mac secret StmtOk t namespace subject pol ks = (Inr r, ks')"
  shows "policy_error pol = None \<and>
    (\<exists>ttl>0. counter_at t ks' (limiter_key mac secret namespace subject) (r_count r) (Some (t + ttl)) \<and>
      r_allowed r = (r_count r \<le> p_max pol) \<and> r_retry_after r = retry_after ttl)"
proof
  show pol: "policy_error pol = None"
    using assms by (simp add: allow_def split: option.splits)
  show "\<exists>ttl>0. counter_at t ks' (limiter_key mac secret namespace subject) (r_count r) (Some (t + ttl)) \<and>
      r_allowed r = (r_count r \<le> p_max pol) \<and> r_retry_after r = retry_after ttl"
    using assms window_seconds_pos[OF pol] pol unfolding allow_branches allow_spec_def
    by (auto simp: Let_def expired_def split: option.splits redis_value.splits if_splits
        dest!: live_SomeD charged_answer)
qed

lemma retry_after_covers: "0 < ttl \<Longrightarrow> ttl \<le> retry_after ttl div 1000000"
proof -
  assume "0 < ttl"
  have "ttl \<le> (ttl + 999) div 1000 * 1000"
    using div_mult_mod_eq[of "ttl + 999" 1000] pos_mod_bound[of 1000 "ttl + 999"] by linarith
  then show ?thesis using \<open>0 < ttl\<close> by (simp add: retry_after_def)
qed

section \<open>Properties\<close>

definition demo_mac :: "string \<Rightarrow> string \<Rightarrow> nat list" where
  "demo_mac secret subject = []"

definition demo_policy :: policy where
  "demo_policy = \<lparr>p_max = 1, p_window = 10 * second\<rparr>"

lemma demo_policy_ok: "policy_error demo_policy = None"
  by (simp add: demo_policy_def policy_error_def)

text \<open>
  From the moment a subject's counter does not exist, however many processes call \<open>Allow\<close> for it
  within one window, interleaved with any traffic of other subjects and with any faults, at most the
  policy's maximum of them are told to proceed.
\<close>

theorem fixed_window_admits_at_most_max:
  assumes "policy_error pol = None" and "live t0 ks k = None" and "int (length cs) + 1 < 2 ^ 63"
    and "\<forall>c\<in>set cs. charges_only mac secret k pol c \<and> t0 \<le> call_time c \<and>
           call_time c < t0 + window_seconds pol * 1000"
  shows "admitted mac secret k cs ks \<le> p_max pol"
  using assms by (intro admitted_from_none)

theorem fixed_window_admits_at_most_max_witness:
  "admitted demo_mac ''s'' (limiter_key demo_mac ''s'' ''login'' ''a'')
     [CallAllow StmtOk 0 ''login'' ''a'' demo_policy, CallAllow AckLost 5 ''other'' ''b'' demo_policy,
      CallAllow StmtOk 9999 ''login'' ''a'' demo_policy] (\<lambda>_. None) \<le> 1"
proof -
  have "limiter_key demo_mac ''s'' ''other'' ''b'' \<noteq> limiter_key demo_mac ''s'' ''login'' ''a''"
    by (simp add: limiter_key_def derive_key_def)
  then show ?thesis
    using fixed_window_admits_at_most_max[OF demo_policy_ok, of 0 "\<lambda>_. None"
        "limiter_key demo_mac ''s'' ''login'' ''a''"
        "[CallAllow StmtOk 0 ''login'' ''a'' demo_policy, CallAllow AckLost 5 ''other'' ''b'' demo_policy,
          CallAllow StmtOk 9999 ''login'' ''a'' demo_policy]" demo_mac "''s''"]
    by (simp add: live_def window_seconds_def demo_policy_def)
qed

text \<open>
  \<open>Allow\<close> and \<open>Release\<close> on every branch: missing key, counter, counter without expiry (repaired),
  wrong type, overflow, invalid policy; and a release that never creates a key, never goes below
  zero and never touches the expiry.
\<close>

theorem fixed_window_every_branch:
  "allow mac secret StmtOk t namespace subject pol ks
     = allow_spec t namespace (limiter_key mac secret namespace subject) pol ks \<and>
   release mac secret StmtOk t namespace subject ks
     = release_spec t namespace (limiter_key mac secret namespace subject) ks"
  using allow_branches release_branches by blast

text \<open>
  A refused caller that waits the announced time is admitted, if nobody else used the budget
  meanwhile: the announced wait covers the rest of the window, whatever state the key was in.
\<close>

theorem fixed_window_retry_after_is_enough:
  assumes "allow mac secret StmtOk t namespace subject pol ks = (Inr r, ks')" and "\<not> r_allowed r"
    and "t + r_retry_after r div 1000000 \<le> t'"
  shows "\<exists>r'. fst (allow mac secret StmtOk t' namespace subject pol ks') = Inr r' \<and> r_allowed r' \<and> r_count r' = 1"
proof -
  obtain ttl where ttl: "0 < ttl" "counter_at t ks' (limiter_key mac secret namespace subject) (r_count r) (Some (t + ttl))"
      "r_retry_after r = retry_after ttl" and pol: "policy_error pol = None"
    using allow_leaves_expiry[OF assms(1)] by blast
  then have "t + ttl \<le> t'" using retry_after_covers[OF ttl(1)] assms(3) by linarith
  then have "live t' ks' (limiter_key mac secret namespace subject) = None"
    using ttl(2) by (auto simp: counter_at_def live_def expired_def split: option.splits if_splits)
  then show ?thesis
    using pol by (simp add: allow_branches allow_spec_def charged_def policy_error_def Let_def split: if_splits)
qed

lemmas demo_limiter = allow_branches release_branches allow_spec_def release_spec_def demo_policy_def
  policy_error_def charged_def window_seconds_def live_def expired_def retry_after_def Let_def

theorem fixed_window_retry_after_is_enough_witness:
  "\<exists>r'. fst (allow demo_mac ''s'' StmtOk 10500 ''login'' ''a'' demo_policy
      (snd (allow demo_mac ''s'' StmtOk 2500 ''login'' ''a'' demo_policy
        (snd (allow demo_mac ''s'' StmtOk 0 ''login'' ''a'' demo_policy (\<lambda>_. None)))))) = Inr r'
    \<and> r_allowed r' \<and> r_count r' = 1"
proof -
  let ?ks = "snd (allow demo_mac ''s'' StmtOk 0 ''login'' ''a'' demo_policy (\<lambda>_. None))"
  have "fst (allow demo_mac ''s'' StmtOk 2500 ''login'' ''a'' demo_policy ?ks)
      = Inr \<lparr>r_count = 2, r_allowed = False, r_retry_after = 8 * second\<rparr>" by (simp add: demo_limiter)
  then have "allow demo_mac ''s'' StmtOk 2500 ''login'' ''a'' demo_policy ?ks
      = (Inr \<lparr>r_count = 2, r_allowed = False, r_retry_after = 8 * second\<rparr>,
         snd (allow demo_mac ''s'' StmtOk 2500 ''login'' ''a'' demo_policy ?ks))" by (metis prod.collapse)
  from fixed_window_retry_after_is_enough[OF this, of 10500] show ?thesis by simp
qed

text \<open>
  A release is not tied to the charge it undoes. With a maximum of one: a caller charged in one
  window that releases after the window has turned gives back the next window's charge, and two
  callers that never released proceed in the same window.
\<close>

theorem fixed_window_late_release_frees_the_next_window:
  "(let k = limiter_key demo_mac ''s'' ''login'' ''a'';
        ks1 = snd (allow demo_mac ''s'' StmtOk 0 ''login'' ''a'' demo_policy (\<lambda>_. None));
        (b, ks2) = allow demo_mac ''s'' StmtOk 10000 ''login'' ''a'' demo_policy ks1;
        ks3 = snd (release demo_mac ''s'' StmtOk 10001 ''login'' ''a'' ks2);
        c = fst (allow demo_mac ''s'' StmtOk 10002 ''login'' ''a'' demo_policy ks3) in
     p_max demo_policy = 1 \<and> b = Inr \<lparr>r_count = 1, r_allowed = True, r_retry_after = 10 * second\<rparr> \<and>
     c = Inr \<lparr>r_count = 1, r_allowed = True, r_retry_after = 10 * second\<rparr>)"
  by (simp add: demo_limiter)

end
