(* ===== verification/SlidingWindow.thy ===== *)
theory SlidingWindow
  imports FixedWindow
begin

text \<open>
  The rolling-window limiter of \<open>internal/ratelimit/sliding.go\<close>: one sorted set per subject, a
  member per admission, scored with the caller's clock in milliseconds. The caller's clock (\<open>now\<close>)
  and the server's clock (\<open>t\<close>, which drives expiry) are separate arguments; the random member is an
  argument too.
\<close>

section \<open>Scripts\<close>

definition sliding_key_prefix :: string where "sliding_key_prefix = ''rlw''"

definition sliding_key :: "(string \<Rightarrow> string \<Rightarrow> nat list) \<Rightarrow> string \<Rightarrow> string \<Rightarrow> string \<Rightarrow> string" where
  "sliding_key mac secret namespace subject = derive_key mac sliding_key_prefix namespace secret subject"

definition admit_to_sliding_window ::
  "int \<Rightarrow> string \<Rightarrow> int \<Rightarrow> int \<Rightarrow> int \<Rightarrow> string \<Rightarrow> keyspace \<Rightarrow> go_error + reply \<times> keyspace" where
  "admit_to_sliding_window t k now window mx member ks =
     (case zremrangebyscore t k (now - window) ks of
        Inl e \<Rightarrow> Inl e
      | Inr ks1 \<Rightarrow>
     (case zcard t k ks1 of
        Inl e \<Rightarrow> Inl e
      | Inr count \<Rightarrow>
          (let ks2 = pexpire t k window ks1 in
           if count \<ge> mx then
             (case lowest_score t k ks2 of
                Inl e \<Rightarrow> Inl e
              | Inr oldest \<Rightarrow>
                  (let retry = (case oldest of None \<Rightarrow> 0 | Some s \<Rightarrow> max 0 (s + window - now))
                   in Inr (RTable [count, 0, retry], ks2)))
           else
             (case zadd t k now member ks2 of
                Inl e \<Rightarrow> Inl e
              | Inr ks3 \<Rightarrow> Inr (RTable [count + 1, 1, 0], ks3)))))"

definition refund_sliding_window :: "int \<Rightarrow> string \<Rightarrow> string \<Rightarrow> keyspace \<Rightarrow> go_error + reply \<times> keyspace" where
  "refund_sliding_window t k member ks =
     (if \<not> key_exists t k ks then Inr (RInt 0, ks)
      else case zrem t k member ks of Inl e \<Rightarrow> Inl e | Inr (n, ks') \<Rightarrow> Inr (RInt n, ks'))"

section \<open>The limiter\<close>

record sliding_policy =
  sp_max :: int
  sp_window :: duration

definition sliding_policy_error :: "sliding_policy \<Rightarrow> go_error option" where
  "sliding_policy_error p =
     (if sp_max p \<le> 0 then Some (Sentinel ''sliding window max must be positive'')
      else if sp_window p < second then Some (Sentinel ''sliding window window must be at least one second'')
      else None)"

definition sp_millis :: "sliding_policy \<Rightarrow> int" where
  "sp_millis p = sp_window p div millisecond"

record sliding_result =
  sl_count :: int
  sl_allowed :: bool
  sl_retry_after :: duration
  sl_admission :: string

definition sliding_allow ::
  "(string \<Rightarrow> string \<Rightarrow> nat list) \<Rightarrow> string \<Rightarrow> fate \<Rightarrow> int \<Rightarrow> int \<Rightarrow> go_error + string \<Rightarrow> string \<Rightarrow> string
     \<Rightarrow> sliding_policy \<Rightarrow> keyspace \<Rightarrow> (go_error + sliding_result) \<times> keyspace" where
  "sliding_allow mac secret f t now generated namespace subject pol ks =
     (case sliding_policy_error pol of
        Some e \<Rightarrow> (Inl e, ks)
      | None \<Rightarrow>
     (case generated of
        Inl e \<Rightarrow> (Inl (Wrapped (''generating a sliding window member for namespace '' @ namespace) e), ks)
      | Inr member \<Rightarrow>
     (case run_script f (admit_to_sliding_window t (sliding_key mac secret namespace subject) now
                           (sp_millis pol) (sp_max pol) member) ks of
        (Inl e, ks') \<Rightarrow> (Inl (Wrapped (''admitting to sliding window '' @ namespace) e), ks')
      | (Inr (RTable [count, taken, retry]), ks') \<Rightarrow>
          (Inr \<lparr>sl_count = count, sl_allowed = (taken = 1), sl_retry_after = retry_after retry,
                sl_admission = (if taken = 1 then member else '''')\<rparr>, ks')
      | (Inr _, ks') \<Rightarrow> (Inl (Sentinel ''sliding window script returned an unexpected reply''), ks'))))"

definition sliding_release ::
  "(string \<Rightarrow> string \<Rightarrow> nat list) \<Rightarrow> string \<Rightarrow> fate \<Rightarrow> int \<Rightarrow> string \<Rightarrow> string \<Rightarrow> string \<Rightarrow> keyspace
     \<Rightarrow> (go_error + unit) \<times> keyspace" where
  "sliding_release mac secret f t namespace subject admission ks =
     (if admission = '''' then (Inr (), ks)
      else case run_script f (refund_sliding_window t (sliding_key mac secret namespace subject) admission) ks of
        (Inl e, ks') \<Rightarrow> (Inl (Wrapped (''refunding sliding window '' @ namespace) e), ks')
      | (Inr _, ks') \<Rightarrow> (Inr (), ks'))"

section \<open>What the scripts do to a set\<close>

definition entries_after :: "int \<Rightarrow> (string \<times> int) list \<Rightarrow> (string \<times> int) list" where
  "entries_after lo zs = filter (\<lambda>(m, s). lo < s) zs"

definition expiry_at :: "int \<Rightarrow> string \<Rightarrow> keyspace \<Rightarrow> int option option" where
  "expiry_at t k ks = map_option e_expire_at (live t ks k)"

lemma expiry_put [redis_simps]:
  "expiry_at t k (put_zset t k zs ks) =
     (if zs = [] then None else case expiry_at t k ks of None \<Rightarrow> Some None | Some x \<Rightarrow> Some x)"
  by (auto simp: expiry_at_def put_zset_def redis_simps split: option.splits dest: live_SomeD)

lemma expiry_pexpire [redis_simps]:
  "0 < ms \<Longrightarrow> expiry_at t k (pexpire t k ms ks) = (if live t ks k = None then None else Some (Some (t + ms)))"
  by (auto simp: expiry_at_def pexpire_def redis_simps split: option.splits)

lemma live_put_None: "live t (put_zset t k zs ks) k = None \<longleftrightarrow> zs = []"
  by (auto simp: put_zset_def redis_simps split: option.splits dest: live_SomeD)

lemma live_pexpire_None: "0 < ms \<Longrightarrow> live t (pexpire t k ms ks) k = None \<longleftrightarrow> live t ks k = None"
  by (auto simp: pexpire_def redis_simps split: option.splits)

lemma admit_effect:
  fixes now :: int
  assumes zs: "zset_at t k ks = Inr zs" and w: "0 < w"
  defines "zs1 \<equiv> entries_after (now - w) zs"
  shows "\<exists>ks'. admit_to_sliding_window t k now w mx m ks =
      Inr (RTable (if int (length zs1) \<ge> mx
             then [int (length zs1), 0, if zs1 = [] then 0 else max 0 (min_list (map snd zs1) + w - now)]
             else [int (length zs1) + 1, 1, 0]), ks') \<and>
    zset_at t k ks' = Inr (if int (length zs1) \<ge> mx then zs1 else filter (\<lambda>(m', s). m' \<noteq> m) zs1 @ [(m, now)]) \<and>
    expiry_at t k ks' = (if zs1 = [] then (if mx \<le> 0 then None else Some None) else Some (Some (t + w)))"
proof -
  have zs1: "filter (\<lambda>(m, s). \<not> s \<le> now - w) zs = zs1" by (simp add: zs1_def entries_after_def not_le)
  show ?thesis
    using w
    by (auto simp: admit_to_sliding_window_def zremrangebyscore_def zs zs1 zcard_def lowest_score_def zadd_def
        redis_simps live_put_None live_pexpire_None Let_def)
qed

lemma admit_other:
  "admit_to_sliding_window t k now w mx m ks = Inr (r, ks') \<Longrightarrow> k' \<noteq> k \<Longrightarrow> live t' ks' k' = live t' ks k'"
  by (auto simp: admit_to_sliding_window_def zremrangebyscore_def zadd_def redis_simps Let_def
      split: sum.splits if_splits)

lemma refund_other:
  "refund_sliding_window t k m ks = Inr (r, ks') \<Longrightarrow> k' \<noteq> k \<Longrightarrow> live t' ks' k' = live t' ks k'"
  by (auto simp: refund_sliding_window_def zrem_def redis_simps split: sum.splits if_splits)

lemma refund_effect:
  assumes "zset_at t k ks = Inr zs"
  shows "\<exists>r ks'. refund_sliding_window t k m ks = Inr (r, ks') \<and>
    zset_at t k ks' = Inr (filter (\<lambda>(m', s). m' \<noteq> m) zs) \<and>
    (expiry_at t k ks' = expiry_at t k ks \<or> expiry_at t k ks' = None)"
proof (cases "key_exists t k ks")
  case True
  have same: "m \<notin> fst ` set zs \<Longrightarrow> filter (\<lambda>(m', s). m' \<noteq> m) zs = zs"
    by (force simp: filter_id_conv)
  have "expiry_at t k ks \<noteq> None" using True by (simp add: key_exists_def expiry_at_def)
  then show ?thesis
    using True assms same by (auto simp: refund_sliding_window_def zrem_def redis_simps)
next
  case False
  then have "zs = []" using assms by (simp add: key_exists_def zset_at_def)
  then show ?thesis using False assms by (simp add: refund_sliding_window_def)
qed

section \<open>Traffic\<close>

text \<open>
  Calls of any number of processes, in the order the server runs them. Every process reads a clock
  that is \<open>d\<close> milliseconds ahead of the server's; \<open>d\<close> is the same for all of them. The log holds
  the admissions for key \<open>k\<close> that callers were told of and have not given back.
\<close>

datatype sw_call =
    SwAllow fate int string string string sliding_policy
  | SwRelease fate int string string string

fun sw_time :: "sw_call \<Rightarrow> int" where
  "sw_time (SwAllow f t m ns subj pol) = t"
| "sw_time (SwRelease f t ns subj m) = t"

fun sw_member :: "sw_call \<Rightarrow> string list" where
  "sw_member (SwAllow f t m ns subj pol) = [m]"
| "sw_member (SwRelease f t ns subj m) = []"

type_synonym admission_log = "(int \<times> string) list"

fun sw_step ::
  "(string \<Rightarrow> string \<Rightarrow> nat list) \<Rightarrow> string \<Rightarrow> int \<Rightarrow> string \<Rightarrow> sw_call \<Rightarrow> admission_log \<times> keyspace
     \<Rightarrow> admission_log \<times> keyspace" where
  "sw_step mac secret d k (SwAllow f t m ns subj pol) (lg, ks) =
     (case sliding_allow mac secret f t (t + d) (Inr m) ns subj pol ks of (r, ks') \<Rightarrow>
        (if sliding_key mac secret ns subj = k \<and> (case r of Inl e \<Rightarrow> False | Inr r \<Rightarrow> sl_allowed r)
         then lg @ [(t + d, m)] else lg, ks'))"
| "sw_step mac secret d k (SwRelease f t ns subj m) (lg, ks) =
     (if sliding_key mac secret ns subj = k then filter (\<lambda>(a, m'). m' \<noteq> m) lg else lg,
      snd (sliding_release mac secret f t ns subj m ks))"

fun sw_run ::
  "(string \<Rightarrow> string \<Rightarrow> nat list) \<Rightarrow> string \<Rightarrow> int \<Rightarrow> string \<Rightarrow> sw_call list \<Rightarrow> admission_log \<times> keyspace
     \<Rightarrow> admission_log \<times> keyspace" where
  "sw_run mac secret d k [] st = st"
| "sw_run mac secret d k (c # cs) st = sw_run mac secret d k cs (sw_step mac secret d k c st)"

text \<open>Admissions in the period \<open>(u - w, u]\<close>.\<close>

definition rolling :: "int \<Rightarrow> int \<Rightarrow> admission_log \<Rightarrow> nat" where
  "rolling w u lg = length (filter (\<lambda>(a, m). u - w < a \<and> a \<le> u) lg)"

fun one_policy :: "(string \<Rightarrow> string \<Rightarrow> nat list) \<Rightarrow> string \<Rightarrow> string \<Rightarrow> sliding_policy \<Rightarrow> sw_call \<Rightarrow> bool" where
  "one_policy mac secret k pol (SwAllow f t m ns subj pol') \<longleftrightarrow> (sliding_key mac secret ns subj = k \<longrightarrow> pol' = pol)"
| "one_policy mac secret k pol (SwRelease f t ns subj m) \<longleftrightarrow> True"

definition sw_inv :: "int \<Rightarrow> sliding_policy \<Rightarrow> string \<Rightarrow> int \<Rightarrow> admission_log \<times> keyspace \<Rightarrow> bool" where
  "sw_inv d pol k t st \<longleftrightarrow>
     (case st of (lg, ks) \<Rightarrow>
       (\<forall>u. int (rolling (sp_millis pol) u lg) \<le> sp_max pol) \<and>
       (\<forall>(a, m)\<in>set lg. a \<le> t + d) \<and> distinct lg \<and>
       (\<exists>zs. zset_at t k ks = Inr zs \<and>
          (\<forall>(a, m)\<in>set lg. t + d - sp_millis pol < a \<longrightarrow> (m, a) \<in> set zs)) \<and>
       (\<forall>x. expiry_at t k ks = Some (Some x) \<longrightarrow> (\<forall>(a, m)\<in>set lg. a - d + sp_millis pol \<le> x)))"

lemma zset_passes:
  "t \<le> t' \<Longrightarrow> zset_at t k ks = Inr zs \<Longrightarrow>
     (zset_at t' k ks = Inr zs \<and> expiry_at t' k ks = expiry_at t k ks) \<or>
     (\<exists>x\<le>t'. expiry_at t k ks = Some (Some x) \<and> zset_at t' k ks = Inr [] \<and> expiry_at t' k ks = None)"
  by (auto simp: zset_at_def expiry_at_def live_def expired_def split: option.splits if_splits)

lemma sw_inv_passes:
  assumes inv: "sw_inv d pol k t (lg, ks)" and "t \<le> t'"
  shows "sw_inv d pol k t' (lg, ks)"
proof -
  obtain zs where zs: "zset_at t k ks = Inr zs"
    "\<forall>(a, m)\<in>set lg. t + d - sp_millis pol < a \<longrightarrow> (m, a) \<in> set zs"
    using inv by (auto simp: sw_inv_def)
  from zset_passes[OF assms(2) zs(1)] show ?thesis
  proof
    assume "zset_at t' k ks = Inr zs \<and> expiry_at t' k ks = expiry_at t k ks"
    then show ?thesis using inv zs assms(2) by (fastforce simp: sw_inv_def)
  next
    assume "\<exists>x\<le>t'. expiry_at t k ks = Some (Some x) \<and> zset_at t' k ks = Inr [] \<and> expiry_at t' k ks = None"
    then obtain x where x: "x \<le> t'" "expiry_at t k ks = Some (Some x)" "zset_at t' k ks = Inr []"
      "expiry_at t' k ks = None" by blast
    have "a - d + sp_millis pol \<le> x" if "(a, m) \<in> set lg" for a m using inv x(2) that by (auto simp: sw_inv_def)
    then have "\<not> t' + d - sp_millis pol < a" if "(a, m) \<in> set lg" for a m using that x(1) by fastforce
    then show ?thesis using inv x assms(2) by (fastforce simp: sw_inv_def)
  qed
qed

lemma sp_millis_pos: "sliding_policy_error pol = None \<Longrightarrow> 0 < sp_millis pol"
  by (auto simp: sliding_policy_error_def sp_millis_def pos_imp_zdiv_pos_iff split: if_splits)

text \<open>Recent admissions are all in the set, so there are no more of them than entries.\<close>

lemma recent_le_entries:
  assumes "distinct lg" and "\<forall>(a, m)\<in>set lg. lo < a \<longrightarrow> (m, a) \<in> set zs"
  shows "length (filter (\<lambda>(a, m). lo < a) lg) \<le> length (entries_after lo zs)"
proof -
  let ?f = "filter (\<lambda>(a, m). lo < a) lg"
  have "distinct (map prod.swap ?f)" using assms(1) by (auto simp: distinct_map inj_on_def)
  then have "length ?f = card (set (map prod.swap ?f))" by (metis distinct_card length_map)
  also have "\<dots> \<le> card (set (entries_after lo zs))"
    using assms(2) by (intro card_mono) (auto simp: entries_after_def)
  also have "\<dots> \<le> length (entries_after lo zs)" by (rule card_length)
  finally show ?thesis .
qed

lemma rolling_append:
  assumes "\<forall>(a, m)\<in>set lg. a \<le> now" and "0 < w"
  shows "rolling w u (lg @ [(now, m)])
    \<le> max (rolling w u lg) (length (filter (\<lambda>(a, m). now - w < a) lg) + 1)"
proof (cases "u - w < now \<and> now \<le> u")
  case True
  have "filter (\<lambda>(a, m). u - w < a \<and> a \<le> u) lg = filter (\<lambda>(a, m). u - w < a \<and> a \<le> u) (filter (\<lambda>(a, m). now - w < a) lg)"
    unfolding filter_filter using True by (intro filter_cong) auto
  then have "rolling w u lg
      = length (filter (\<lambda>(a, m). u - w < a \<and> a \<le> u) (filter (\<lambda>(a, m). now - w < a) lg))"
    by (simp only: rolling_def)
  also have "\<dots> \<le> length (filter (\<lambda>(a, m). now - w < a) lg)" by (rule length_filter_le)
  finally show ?thesis using True by (simp add: rolling_def)
qed (auto simp: rolling_def)

lemma admit_inv:
  assumes inv: "sw_inv d pol k t (lg, ks)" and pol: "sliding_policy_error pol = None"
    and fresh: "m \<notin> snd ` set lg"
  shows "\<exists>c ok r ks'. admit_to_sliding_window t k (t + d) (sp_millis pol) (sp_max pol) m ks = Inr (RTable [c, ok, r], ks') \<and>
    sw_inv d pol k t (lg, ks') \<and> (ok = 1 \<longrightarrow> sw_inv d pol k t (lg @ [(t + d, m)], ks'))"
proof -
  let ?w = "sp_millis pol" and ?now = "t + d"
  have w: "0 < ?w" using pol by (rule sp_millis_pos)
  obtain zs where zs: "zset_at t k ks = Inr zs"
    and sub: "\<forall>(a, m)\<in>set lg. ?now - ?w < a \<longrightarrow> (m, a) \<in> set zs"
    using inv by (auto simp: sw_inv_def)
  let ?zs1 = "entries_after (?now - ?w) zs"
  let ?full = "sp_max pol \<le> int (length ?zs1)"
  obtain ks' c ok r where step: "admit_to_sliding_window t k ?now ?w (sp_max pol) m ks = Inr (RTable [c, ok, r], ks')"
    and ok: "ok = 1 \<longleftrightarrow> \<not> ?full"
    and zs': "zset_at t k ks' = Inr (if ?full then ?zs1 else filter (\<lambda>(m', s). m' \<noteq> m) ?zs1 @ [(m, ?now)])"
    and exp: "expiry_at t k ks' \<in> {None, Some None, Some (Some (t + ?w))}"
    using admit_effect[OF zs w, of ?now "sp_max pol" m] by (auto split: if_splits)
  have old: "\<forall>(a, m)\<in>set lg. a \<le> ?now" and dis: "distinct lg"
    and roll: "int (rolling ?w u lg) \<le> sp_max pol" for u using inv by (auto simp: sw_inv_def)
  have kept: "\<forall>(a, m')\<in>set lg. ?now - ?w < a \<longrightarrow>
      (m', a) \<in> set (if ?full then ?zs1 else filter (\<lambda>(m', s). m' \<noteq> m) ?zs1 @ [(m, ?now)])"
    using sub fresh by (force simp: entries_after_def)
  have "sw_inv d pol k t (lg, ks')"
    using old dis roll kept zs' exp by (auto simp: sw_inv_def)
  moreover have "sw_inv d pol k t (lg @ [(?now, m)], ks')" if "ok = 1"
  proof -
    have "int (length (filter (\<lambda>(a, m). ?now - ?w < a) lg)) + 1 \<le> sp_max pol"
      using recent_le_entries[OF dis sub] ok that by linarith
    then have "int (rolling ?w u (lg @ [(?now, m)])) \<le> sp_max pol" for u
      using rolling_append[OF old w, of u m] roll[of u] by linarith
    moreover have "distinct (lg @ [(?now, m)])" using dis fresh by force
    moreover have "(m, ?now) \<in> set (if ?full then ?zs1 else filter (\<lambda>(m', s). m' \<noteq> m) ?zs1 @ [(m, ?now)])"
      using ok that by simp
    ultimately show ?thesis
      using old kept zs' exp by (auto simp: sw_inv_def)
  qed
  ultimately show ?thesis using step by blast
qed

lemma rolling_filter: "rolling w u (filter q lg) \<le> rolling w u lg"
  unfolding rolling_def by (induction lg) auto

lemma refund_inv:
  assumes inv: "sw_inv d pol k t (lg, ks)"
  shows "\<exists>r ks'. refund_sliding_window t k m ks = Inr (r, ks') \<and>
    sw_inv d pol k t (filter (\<lambda>(a, m'). m' \<noteq> m) lg, ks')"
proof -
  obtain zs where zs: "zset_at t k ks = Inr zs" using inv by (auto simp: sw_inv_def)
  obtain r ks' where ks': "refund_sliding_window t k m ks = Inr (r, ks')"
    "zset_at t k ks' = Inr (filter (\<lambda>(m', s). m' \<noteq> m) zs)"
    "expiry_at t k ks' = expiry_at t k ks \<or> expiry_at t k ks' = None"
    using refund_effect[OF zs] by blast
  have exp: "expiry_at t k ks = Some (Some x)" if "expiry_at t k ks' = Some (Some x)" for x
    using ks'(3) that by auto
  have "int (rolling (sp_millis pol) u (filter (\<lambda>(a, m'). m' \<noteq> m) lg)) \<le> sp_max pol" for u
    using inv rolling_filter[of "sp_millis pol" u "\<lambda>(a, m'). m' \<noteq> m" lg]
    by (auto simp: sw_inv_def intro: order_trans[OF of_nat_mono])
  then have "sw_inv d pol k t (filter (\<lambda>(a, m'). m' \<noteq> m) lg, ks')"
    using inv ks'(2) zs exp by (auto simp: sw_inv_def)
  then show ?thesis using ks'(1) by blast
qed

lemma sw_inv_log_filter:
  assumes inv: "sw_inv d pol k t (lg, ks)"
  shows "sw_inv d pol k t (filter (\<lambda>(a, m'). m' \<noteq> m) lg, ks)"
proof -
  have "int (rolling (sp_millis pol) u (filter (\<lambda>(a, m'). m' \<noteq> m) lg)) \<le> sp_max pol" for u
    using inv rolling_filter[of "sp_millis pol" u "\<lambda>(a, m'). m' \<noteq> m" lg]
    by (auto simp: sw_inv_def intro: order_trans[OF of_nat_mono])
  then show ?thesis using inv by (auto simp: sw_inv_def)
qed

lemma sw_inv_other:
  assumes inv: "sw_inv d pol k t (lg, ks)" and "\<And>t'. live t' ks' k = live t' ks k"
  shows "sw_inv d pol k t (lg, ks')"
  using inv by (simp add: sw_inv_def zset_at_def expiry_at_def assms(2))

lemma sliding_other:
  assumes "sliding_key mac secret ns subj \<noteq> k"
  shows "live t' (snd (sliding_allow mac secret f t n g ns subj pol ks)) k = live t' ks k"
    and "live t' (snd (sliding_release mac secret f t ns subj m ks)) k = live t' ks k"
  using assms
  by (auto simp: sliding_allow_def sliding_release_def admit_other refund_other dest!: run_script_snd
      split: option.splits prod.splits sum.splits reply.splits list.splits if_splits)

text \<open>One call of the key's own, at the moment it is run.\<close>

lemma allow_step_inv:
  assumes inv: "sw_inv d pol k t (lg, ks)" and pol: "sliding_policy_error pol = None"
    and fresh: "m \<notin> snd ` set lg" and k: "sliding_key mac secret ns subj = k"
  shows "sw_inv d pol k t (sw_step mac secret d k (SwAllow f t m ns subj pol) (lg, ks))"
proof -
  obtain c ok r ks' where "admit_to_sliding_window t k (t + d) (sp_millis pol) (sp_max pol) m ks = Inr (RTable [c, ok, r], ks')"
    "sw_inv d pol k t (lg, ks')" "ok = 1 \<longrightarrow> sw_inv d pol k t (lg @ [(t + d, m)], ks')"
    using admit_inv[OF inv pol fresh] by blast
  then show ?thesis
    using inv pol k by (cases f) (auto simp: sliding_allow_def run_script_def)
qed

lemma release_step_inv:
  assumes inv: "sw_inv d pol k t (lg, ks)" and k: "sliding_key mac secret ns subj = k"
  shows "sw_inv d pol k t (sw_step mac secret d k (SwRelease f t ns subj m) (lg, ks))"
proof -
  obtain r ks' where "refund_sliding_window t k m ks = Inr (r, ks')"
    "sw_inv d pol k t (filter (\<lambda>(a, m'). m' \<noteq> m) lg, ks')"
    using refund_inv[OF inv] by blast
  then show ?thesis
    using sw_inv_log_filter[OF inv, of m] k
    by (cases f) (auto simp: sliding_release_def run_script_def)
qed

lemma sw_step_inv:
  assumes inv: "sw_inv d pol k t (lg, ks)" and t: "t \<le> sw_time c" and pol: "sliding_policy_error pol = None"
    and one: "one_policy mac secret k pol c" and fresh: "set (sw_member c) \<inter> snd ` set lg = {}"
  shows "sw_inv d pol k (sw_time c) (sw_step mac secret d k c (lg, ks))"
proof -
  have now: "sw_inv d pol k (sw_time c) (lg, ks)" using inv t by (rule sw_inv_passes)
  show ?thesis
  proof (cases c)
    case (SwAllow f t' m ns subj pol')
    then show ?thesis
      using now pol one fresh allow_step_inv[of d pol k t' lg ks m mac secret ns subj f]
        sw_inv_other[OF now, of "snd (sliding_allow mac secret f t' (t' + d) (Inr m) ns subj pol' ks)"]
        sliding_other(1)[of mac secret ns subj k _ f t' "t' + d" "Inr m" pol' ks]
      by (cases "sliding_key mac secret ns subj = k") (auto split: prod.splits)
  next
    case (SwRelease f t' ns subj m)
    then show ?thesis
      using now release_step_inv[of d pol k t' lg ks mac secret ns subj f m]
        sw_inv_other[OF now, of "snd (sliding_release mac secret f t' ns subj m ks)"]
        sliding_other(2)[of mac secret ns subj k _ f t' m ks]
      by (cases "sliding_key mac secret ns subj = k") auto
  qed
qed

lemma sw_step_members:
  "snd ` set (fst (sw_step mac secret d k c (lg, ks))) \<subseteq> snd ` set lg \<union> set (sw_member c)"
  by (cases c) (auto split: prod.splits)

lemma sw_run_inv:
  assumes pol: "sliding_policy_error pol = None"
  shows "sw_inv d pol k t (lg, ks) \<Longrightarrow> sorted (t # map sw_time cs) \<Longrightarrow>
    (\<forall>c\<in>set cs. one_policy mac secret k pol c) \<Longrightarrow> distinct (concat (map sw_member cs)) \<Longrightarrow>
    set (concat (map sw_member cs)) \<inter> snd ` set lg = {} \<Longrightarrow>
    \<exists>t'. sw_inv d pol k t' (sw_run mac secret d k cs (lg, ks))"
proof (induction cs arbitrary: t lg ks)
  case (Cons c cs)
  obtain lg' ks' where st: "sw_step mac secret d k c (lg, ks) = (lg', ks')" by (metis surj_pair)
  have "sw_inv d pol k (sw_time c) (lg', ks')"
    using sw_step_inv[OF Cons.prems(1) _ pol, of c mac secret] Cons.prems(2,3,5) st by auto
  moreover have "set (concat (map sw_member cs)) \<inter> snd ` set lg' = {}"
  proof -
    have "set (concat (map sw_member cs)) \<inter> set (sw_member c) = {}"
      "set (concat (map sw_member cs)) \<inter> snd ` set lg = {}" using Cons.prems(4,5) by auto
    moreover have "snd ` set lg' \<subseteq> snd ` set lg \<union> set (sw_member c)"
      using sw_step_members[of mac secret d k c lg ks] st by simp
    ultimately show ?thesis by blast
  qed
  ultimately have "\<exists>t'. sw_inv d pol k t' (sw_run mac secret d k cs (lg', ks'))"
    using Cons.prems by (intro Cons.IH[of "sw_time c"]) auto
  then show ?case using st by simp
qed auto

section \<open>Properties\<close>

lemma derive_key_eq_iff:
  "CHR '':'' \<notin> set p \<Longrightarrow> CHR '':'' \<notin> set p' \<Longrightarrow>
     derive_key mac p ns s x = derive_key mac' p' ns' s' x' \<longleftrightarrow>
       p = p' \<and> ns = ns' \<and> hex_encode (mac s x) = hex_encode (mac' s' x')"
  using derive_key_inj[of mac p ns s x mac' p' ns' s' x'] by (auto simp: derive_key_def)

definition demo_sliding :: sliding_policy where
  "demo_sliding = \<lparr>sp_max = 1, sp_window = 10 * second\<rparr>"

lemmas demo_sliding_eval = sliding_allow_def sliding_release_def run_script_def admit_to_sliding_window_def
  refund_sliding_window_def zremrangebyscore_def zcard_def lowest_score_def zadd_def zrem_def key_exists_def
  put_zset_def pexpire_def zset_at_def live_def expired_def demo_sliding_def sliding_policy_error_def
  sp_millis_def retry_after_def Let_def sliding_key_def derive_key_def sliding_key_prefix_def hex_encode_def
  demo_mac_def

text \<open>
  The rolling budget: for callers that share one clock, whatever they call, release, fail or
  lose, no period of the policy's length ever contains more admissions than the maximum.
\<close>

theorem sliding_window_holds_in_every_period:
  assumes "sliding_policy_error pol = None" and "live t0 ks k = None" and "sorted (t0 # map sw_time cs)"
    and "\<forall>c\<in>set cs. one_policy mac secret k pol c" and "distinct (concat (map sw_member cs))"
  shows "int (rolling (sp_millis pol) u (fst (sw_run mac secret d k cs ([], ks)))) \<le> sp_max pol"
proof -
  have "sw_inv d pol k t0 ([], ks)"
    using assms(1,2)
    by (auto simp: sw_inv_def rolling_def zset_at_def expiry_at_def sliding_policy_error_def split: if_splits)
  from sw_run_inv[OF assms(1) this assms(3-5)] show ?thesis by (auto simp: sw_inv_def)
qed

theorem sliding_window_holds_in_every_period_witness:
  "int (rolling 10000 10000 (fst (sw_run demo_mac ''s'' 77 ''rlw:pin:''
      [SwAllow StmtOk 0 ''m1'' ''pin'' ''a'' demo_sliding, SwAllow AckLost 4 ''m2'' ''pin'' ''a'' demo_sliding,
       SwRelease StmtOk 9 ''pin'' ''a'' ''m1'', SwAllow StmtOk 9999 ''m3'' ''pin'' ''a'' demo_sliding]
      ([], \<lambda>_. None)))) \<le> 1"
  using sliding_window_holds_in_every_period[of demo_sliding 0 "\<lambda>_. None" "''rlw:pin:''"
      "[SwAllow StmtOk 0 ''m1'' ''pin'' ''a'' demo_sliding, SwAllow AckLost 4 ''m2'' ''pin'' ''a'' demo_sliding,
        SwRelease StmtOk 9 ''pin'' ''a'' ''m1'', SwAllow StmtOk 9999 ''m3'' ''pin'' ''a'' demo_sliding]"
      demo_mac "''s''" 10000 77]
  by (simp add: live_def demo_sliding_def sliding_policy_error_def sp_millis_def)

text \<open>
  A refund gives back exactly its own admission: after an answered \<open>Allow\<close> and the release of what
  it returned, the set holds the entries still in the period and nothing else, and releasing again
  changes nothing.
\<close>

theorem sliding_refund_is_exact:
  assumes "zset_at t (sliding_key mac secret ns subj) ks = Inr zs" and "sliding_policy_error pol = None"
    and "m \<notin> fst ` set zs" and "m \<noteq> ''''"
    and "sliding_allow mac secret StmtOk t now (Inr m) ns subj pol ks = (Inr r, ks1)"
    and "ks2 = snd (sliding_release mac secret StmtOk t ns subj (sl_admission r) ks1)"
  shows "zset_at t (sliding_key mac secret ns subj) ks2 = Inr (entries_after (now - sp_millis pol) zs)
    \<and> zset_at t (sliding_key mac secret ns subj) (snd (sliding_release mac secret StmtOk t ns subj m ks2))
      = Inr (entries_after (now - sp_millis pol) zs)"
proof -
  let ?k = "sliding_key mac secret ns subj" and ?zs1 = "entries_after (now - sp_millis pol) zs"
  have none: "filter (\<lambda>(m', s). m' \<noteq> m) ?zs1 = ?zs1"
    by (intro filter_True) (use assms(3) in \<open>auto simp: entries_after_def rev_image_eqI\<close>)
  have rel: "zset_at t ?k (snd (sliding_release mac secret StmtOk t ns subj m ks')) = Inr (filter (\<lambda>(m', s). m' \<noteq> m) xs)"
    if "zset_at t ?k ks' = Inr xs" for ks' xs
    using refund_effect[OF that, of m] assms(4) by (auto simp: sliding_release_def run_script_def)
  have one: "zset_at t ?k ks2 = Inr ?zs1"
  proof (cases "sp_max pol \<le> int (length ?zs1)")
    case True
    then have "zset_at t ?k ks1 = Inr ?zs1" "sl_admission r = ''''"
      using admit_effect[OF assms(1) sp_millis_pos[OF assms(2)], of now "sp_max pol" m] assms(2,5)
      by (auto simp: sliding_allow_def run_script_def)
    then show ?thesis using assms(6) by (simp add: sliding_release_def)
  next
    case False
    then have "zset_at t ?k ks1 = Inr (?zs1 @ [(m, now)])" "sl_admission r = m"
      using admit_effect[OF assms(1) sp_millis_pos[OF assms(2)], of now "sp_max pol" m] assms(2,5) none
      by (auto simp: sliding_allow_def run_script_def)
    then show ?thesis using assms(6) rel[of ks1] none by simp
  qed
  then show ?thesis using rel[OF one] none by simp
qed

theorem sliding_refund_is_exact_witness:
  "zset_at 5 ''rlw:pin:'' (snd (sliding_release demo_mac ''s'' StmtOk 5 ''pin'' ''a'' ''m1''
     (snd (sliding_allow demo_mac ''s'' StmtOk 5 5 (Inr ''m1'') ''pin'' ''a'' demo_sliding (\<lambda>_. None))))) = Inr []"
proof -
  let ?a = "sliding_allow demo_mac ''s'' StmtOk 5 5 (Inr ''m1'') ''pin'' ''a'' demo_sliding (\<lambda>_. None)"
  have k: "sliding_key demo_mac ''s'' ''pin'' ''a'' = ''rlw:pin:''" by (simp add: demo_sliding_eval)
  have "fst ?a = Inr \<lparr>sl_count = 1, sl_allowed = True, sl_retry_after = 0, sl_admission = ''m1''\<rparr>"
    by (simp add: demo_sliding_eval)
  then have "?a = (Inr \<lparr>sl_count = 1, sl_allowed = True, sl_retry_after = 0, sl_admission = ''m1''\<rparr>, snd ?a)"
    by (metis prod.collapse)
  from sliding_refund_is_exact[OF _ _ _ _ this refl, of "[]"] show ?thesis
    by (simp add: k zset_at_def live_def entries_after_def demo_sliding_def sliding_policy_error_def)
qed

text \<open>
  A refused caller that waits the announced time is admitted, if the set holds no more than the
  maximum and nobody else was admitted meanwhile.
\<close>

theorem sliding_retry_after_is_enough:
  assumes "zset_at t (sliding_key mac secret ns subj) ks = Inr zs"
    and "sliding_allow mac secret StmtOk t (t + d) (Inr m) ns subj pol ks = (Inr r, ks')"
    and "\<not> sl_allowed r" and "sl_count r \<le> sp_max pol" and "t + sl_retry_after r div 1000000 \<le> t'"
  shows "\<exists>r'. fst (sliding_allow mac secret StmtOk t' (t' + d) (Inr m') ns subj pol ks') = Inr r' \<and> sl_allowed r'"
proof -
  let ?k = "sliding_key mac secret ns subj" and ?w = "sp_millis pol"
  let ?zs1 = "entries_after (t + d - ?w) zs"
  have pol: "sliding_policy_error pol = None" using assms(2) by (simp add: sliding_allow_def split: option.splits)
  have w: "0 < ?w" using pol by (rule sp_millis_pos)
  have mx: "0 < sp_max pol" using pol by (simp add: sliding_policy_error_def split: if_splits)
  have full: "sp_max pol \<le> int (length ?zs1)"
    using admit_effect[OF assms(1) w, of "t + d" "sp_max pol" m] assms(2,3) pol
    by (fastforce simp: sliding_allow_def run_script_def split: if_splits)
  have ne: "?zs1 \<noteq> []" using full mx by auto
  define s where "s = min_list (map snd ?zs1)"
  have s: "s \<in> snd ` set ?zs1"
    using ne unfolding s_def by (metis Min_in List.finite_set map_is_Nil_conv min_list_Min set_empty set_map)
  have out: "zset_at t ?k ks' = Inr ?zs1" "sl_retry_after r = retry_after (max 0 (s + ?w - (t + d)))"
      "sl_count r = int (length ?zs1)"
    using admit_effect[OF assms(1) w, of "t + d" "sp_max pol" m] assms(2) pol full ne
    by (auto simp: sliding_allow_def run_script_def s_def)
  have "t + d - ?w < s" using s by (auto simp: entries_after_def)
  then have "s + ?w - (t + d) \<le> retry_after (s + ?w - (t + d)) div 1000000" by (intro retry_after_covers) simp
  then have past: "s \<le> t' + d - ?w" using assms(5) out(2) \<open>t + d - ?w < s\<close> by (simp add: max_def)
  have "t \<le> t'" using \<open>t + d - ?w < s\<close> past by linarith
  obtain zs' where zs': "zset_at t' ?k ks' = Inr zs'" "zs' = ?zs1 \<or> zs' = []"
    using zset_passes[OF \<open>t \<le> t'\<close> out(1)] by blast
  have "length (entries_after (t' + d - ?w) ?zs1) < length ?zs1"
  proof -
    obtain m0 where "(m0, s) \<in> set ?zs1" using s by auto
    then show ?thesis
      unfolding entries_after_def[of "t' + d - ?w"] by (rule length_filter_less) (use past in simp)
  qed
  then have "int (length (entries_after (t' + d - ?w) zs')) < sp_max pol"
    using zs'(2) mx assms(4) out(3) by (auto simp: entries_after_def)
  then show ?thesis
    using admit_effect[OF zs'(1) w, of "t' + d" "sp_max pol" m'] pol
    by (auto simp: sliding_allow_def run_script_def)
qed

theorem sliding_retry_after_is_enough_witness:
  "\<exists>r'. fst (sliding_allow demo_mac ''s'' StmtOk 10100 10107 (Inr ''m3'') ''pin'' ''a'' demo_sliding
      (snd (sliding_allow demo_mac ''s'' StmtOk 100 107 (Inr ''m2'') ''pin'' ''a'' demo_sliding
        (snd (sliding_allow demo_mac ''s'' StmtOk 50 57 (Inr ''m1'') ''pin'' ''a'' demo_sliding (\<lambda>_. None)))))) = Inr r'
    \<and> sl_allowed r'"
proof -
  let ?ks = "snd (sliding_allow demo_mac ''s'' StmtOk 50 57 (Inr ''m1'') ''pin'' ''a'' demo_sliding (\<lambda>_. None))"
  let ?a = "sliding_allow demo_mac ''s'' StmtOk 100 (100 + 7) (Inr ''m2'') ''pin'' ''a'' demo_sliding ?ks"
  have zs: "zset_at 100 (sliding_key demo_mac ''s'' ''pin'' ''a'') ?ks = Inr [(''m1'', 57)]"
    by (simp add: demo_sliding_eval)
  have "fst ?a = Inr \<lparr>sl_count = 1, sl_allowed = False, sl_retry_after = 10 * second, sl_admission = ''''\<rparr>"
    by (simp add: demo_sliding_eval)
  then have "?a = (Inr \<lparr>sl_count = 1, sl_allowed = False, sl_retry_after = 10 * second, sl_admission = ''''\<rparr>, snd ?a)"
    by (metis prod.collapse)
  from sliding_retry_after_is_enough[OF zs this, of 10100] show ?thesis
    by (simp add: demo_sliding_def)
qed

text \<open>
  The first admission of a subject is written after the key's expiry was armed, when there was
  no key to arm: the set is left without an expiry, and if the subject never calls again it stays in
  Redis for ever.
\<close>

theorem sliding_first_admission_never_expires:
  assumes "live t ks (sliding_key mac secret ns subj) = None" and "sliding_policy_error pol = None"
  shows "live t' (snd (sliding_allow mac secret StmtOk t now (Inr m) ns subj pol ks)) (sliding_key mac secret ns subj)
    = Some \<lparr>e_value = RZset [(m, now)], e_expire_at = None\<rparr>"
  using assms sp_millis_pos[OF assms(2)]
  by (simp add: sliding_allow_def run_script_def admit_to_sliding_window_def zremrangebyscore_def zcard_def
      zadd_def zset_at_def put_zset_def pexpire_def redis_simps Let_def sliding_policy_error_def split: if_splits)

theorem sliding_first_admission_never_expires_witness:
  "live 1000000000000 (snd (sliding_allow demo_mac ''s'' StmtOk 5 5 (Inr ''m1'') ''pin'' ''a'' demo_sliding (\<lambda>_. None)))
     (sliding_key demo_mac ''s'' ''pin'' ''a'') \<noteq> None"
  using sliding_first_admission_never_expires[of 5 "\<lambda>_. None" demo_mac "''s''" "''pin''" "''a''" demo_sliding]
  by (simp add: live_def demo_sliding_def sliding_policy_error_def)

text \<open>
  The period is measured on the callers' own clocks: with a maximum of one, a process whose clock
  is one period ahead is admitted a millisecond after another process was.
\<close>

theorem sliding_window_trusts_the_callers_clock:
  "(let (a, ks1) = sliding_allow demo_mac ''s'' StmtOk 0 0 (Inr ''m1'') ''pin'' ''a'' demo_sliding (\<lambda>_. None);
        (b, ks2) = sliding_allow demo_mac ''s'' StmtOk 1 10001 (Inr ''m2'') ''pin'' ''a'' demo_sliding ks1 in
    sp_max demo_sliding = 1 \<and>
    a = Inr \<lparr>sl_count = 1, sl_allowed = True, sl_retry_after = 0, sl_admission = ''m1''\<rparr> \<and>
    b = Inr \<lparr>sl_count = 1, sl_allowed = True, sl_retry_after = 0, sl_admission = ''m2''\<rparr>)"
  by (simp add: demo_sliding_eval)

text \<open>
  Counters never meet: two keys of one limiter are equal only for the same namespace and the same
  digest of the subject, and no fixed-window key is a rolling-window key.
\<close>

theorem limiter_keys_do_not_collide:
  "(limiter_key mac s ns x = limiter_key mac s ns' x' \<longleftrightarrow> ns = ns' \<and> hex_encode (mac s x) = hex_encode (mac s x')) \<and>
   (sliding_key mac s ns x = sliding_key mac s ns' x' \<longleftrightarrow> ns = ns' \<and> hex_encode (mac s x) = hex_encode (mac s x')) \<and>
   limiter_key mac s ns x \<noteq> sliding_key mac s' ns' x'"
  by (simp add: limiter_key_def sliding_key_def key_prefix_def sliding_key_prefix_def derive_key_eq_iff)

end
