(* ===== verification/EmailBudget.thy ===== *)
theory EmailBudget
  imports SlidingWindow
begin

text \<open>
  The PIN email budgets of \<open>internal/email/budget.go\<close> over the rolling-window limiter: one per
  address, one for the whole deployment, and the rule for what a failed delivery gives back. The
  sender (\<open>Sender.Send\<close>) is external: its answer, nil or an error, is an argument.
\<close>

section \<open>Budgets\<close>

definition pin_email_budget_namespace :: string where
  "pin_email_budget_namespace = ''pin-email''"
definition pin_email_global_budget_namespace :: string where
  "pin_email_global_budget_namespace = ''pin-email-global''"
definition pin_email_global_subject :: string where
  "pin_email_global_subject = ''application''"

record pin_email_budget =
  b_per_email :: sliding_policy
  b_global :: sliding_policy

definition reserve_per_email ::
  "(string \<Rightarrow> string \<Rightarrow> nat list) \<Rightarrow> string \<Rightarrow> fate \<Rightarrow> int \<Rightarrow> int \<Rightarrow> go_error + string \<Rightarrow> string
     \<Rightarrow> pin_email_budget \<Rightarrow> keyspace \<Rightarrow> (go_error + sliding_result) \<times> keyspace" where
  "reserve_per_email mac secret f t now generated email b ks =
     sliding_allow mac secret f t now generated pin_email_budget_namespace email (b_per_email b) ks"

definition reserve_global ::
  "(string \<Rightarrow> string \<Rightarrow> nat list) \<Rightarrow> string \<Rightarrow> fate \<Rightarrow> int \<Rightarrow> int \<Rightarrow> go_error + string
     \<Rightarrow> pin_email_budget \<Rightarrow> keyspace \<Rightarrow> (go_error + sliding_result) \<times> keyspace" where
  "reserve_global mac secret f t now generated b ks =
     sliding_allow mac secret f t now generated pin_email_global_budget_namespace
       pin_email_global_subject (b_global b) ks"

definition err_not_attempted :: go_error where
  "err_not_attempted = Sentinel ''no email delivery was attempted''"

definition not_attempted :: "go_error \<Rightarrow> go_error" where
  "not_attempted e = Joined [err_not_attempted, e]"

definition attempted :: "go_error option \<Rightarrow> bool" where
  "attempted err = (case err of None \<Rightarrow> False | Some e \<Rightarrow> \<not> errors_is e err_not_attempted)"

definition refund_global ::
  "(string \<Rightarrow> string \<Rightarrow> nat list) \<Rightarrow> string \<Rightarrow> fate \<Rightarrow> int \<Rightarrow> string \<Rightarrow> keyspace
     \<Rightarrow> (go_error + unit) \<times> keyspace" where
  "refund_global mac secret f t admission ks =
     (if admission = '''' then (Inr (), ks)
      else sliding_release mac secret f t pin_email_global_budget_namespace pin_email_global_subject admission ks)"

text \<open>\<open>refund\<close> only logs a failure, so what is left of it is the new keyspace.\<close>

definition refund ::
  "(string \<Rightarrow> string \<Rightarrow> nat list) \<Rightarrow> string \<Rightarrow> fate \<Rightarrow> int \<Rightarrow> sliding_result \<Rightarrow> keyspace \<Rightarrow> keyspace" where
  "refund mac secret f t global ks =
     (if sl_admission global = '''' then ks
      else snd (refund_global mac secret f t (sl_admission global) ks))"

definition deliver ::
  "(string \<Rightarrow> string \<Rightarrow> nat list) \<Rightarrow> string \<Rightarrow> fate \<Rightarrow> int \<Rightarrow> sliding_result \<Rightarrow> go_error option \<Rightarrow> keyspace
     \<Rightarrow> go_error option \<times> keyspace" where
  "deliver mac secret f t global sent ks =
     (if sent = None then (sent, ks)
      else if attempted sent then (sent, ks)
      else (sent, refund mac secret f t global ks))"

lemma not_attempted_is_not_attempted: "\<not> attempted (Some (not_attempted e))"
  by (simp add: attempted_def not_attempted_def errors_is_def err_not_attempted_def)

section \<open>Messages against the global budget\<close>

text \<open>
  The life of a message: a slot is reserved, later a delivery ends in an attempt or without one.
  The ledger holds every reserved slot that was not given back, with its time and whether the
  provider may have been reached. Deliveries and reservations of different requests interleave
  freely, with each other and with calls for other keys (\<open>MailOther\<close>), the per-address budgets among
  them.
\<close>

datatype mail_step =
    MailReserve fate int string
  | MailDeliver fate int string "go_error option"
  | MailOther sw_call

fun mail_time :: "mail_step \<Rightarrow> int" where
  "mail_time (MailReserve f t m) = t"
| "mail_time (MailDeliver f t m e) = t"
| "mail_time (MailOther c) = sw_time c"

fun mail_member :: "mail_step \<Rightarrow> string list" where
  "mail_member (MailReserve f t m) = [m]"
| "mail_member _ = []"

text \<open>The provider may have been reached: the sender did not say otherwise.\<close>

definition may_have_reached :: "go_error option \<Rightarrow> bool" where
  "may_have_reached sent \<longleftrightarrow> (\<forall>e. sent = Some e \<longrightarrow> err_not_attempted \<notin> set (error_chain e))"

lemma may_have_reached_iff: "may_have_reached sent \<longleftrightarrow> sent = None \<or> attempted sent"
  by (cases sent) (simp_all add: may_have_reached_def attempted_def errors_is_def)

type_synonym ledger = "(int \<times> string \<times> bool) list"

definition global_key :: "(string \<Rightarrow> string \<Rightarrow> nat list) \<Rightarrow> string \<Rightarrow> string" where
  "global_key mac secret = sliding_key mac secret pin_email_global_budget_namespace pin_email_global_subject"

fun mail_apply ::
  "(string \<Rightarrow> string \<Rightarrow> nat list) \<Rightarrow> string \<Rightarrow> int \<Rightarrow> pin_email_budget \<Rightarrow> mail_step \<Rightarrow> ledger \<times> keyspace
     \<Rightarrow> ledger \<times> keyspace" where
  "mail_apply mac secret d b (MailReserve f t m) (lg, ks) =
     (case reserve_global mac secret f t (t + d) (Inr m) b ks of
        (Inr r, ks') \<Rightarrow> (if sl_allowed r then lg @ [(t + d, m, False)] else lg, ks')
      | (Inl e, ks') \<Rightarrow> (lg, ks'))"
| "mail_apply mac secret d b (MailDeliver f t m sent) (lg, ks) =
     (if list_ex (\<lambda>(a, m', s). m' = m \<and> \<not> s) lg then
        (if may_have_reached sent
         then map (\<lambda>(a, m', s). (a, m', s \<or> m' = m)) lg else filter (\<lambda>(a, m', s). m' \<noteq> m) lg,
         snd (deliver mac secret f t
           \<lparr>sl_count = 0, sl_allowed = True, sl_retry_after = 0, sl_admission = m\<rparr> sent ks))
      else (lg, ks))"
| "mail_apply mac secret d b (MailOther c) (lg, ks) =
     (lg, snd (sw_step mac secret d (global_key mac secret) c ([], ks)))"

fun mail_run ::
  "(string \<Rightarrow> string \<Rightarrow> nat list) \<Rightarrow> string \<Rightarrow> int \<Rightarrow> pin_email_budget \<Rightarrow> mail_step list \<Rightarrow> ledger \<times> keyspace
     \<Rightarrow> ledger \<times> keyspace" where
  "mail_run mac secret d b [] st = st"
| "mail_run mac secret d b (x # xs) st = mail_run mac secret d b xs (mail_apply mac secret d b x st)"

fun other_key :: "(string \<Rightarrow> string \<Rightarrow> nat list) \<Rightarrow> string \<Rightarrow> string \<Rightarrow> mail_step \<Rightarrow> bool" where
  "other_key mac secret k (MailOther (SwAllow f t m ns subj pol)) \<longleftrightarrow> sliding_key mac secret ns subj \<noteq> k"
| "other_key mac secret k (MailOther (SwRelease f t ns subj m)) \<longleftrightarrow> sliding_key mac secret ns subj \<noteq> k"
| "other_key mac secret k _ \<longleftrightarrow> True"

text \<open>Messages for which the provider may have been reached, by the time of their reservation.\<close>

definition messages_sent :: "int \<Rightarrow> int \<Rightarrow> ledger \<Rightarrow> nat" where
  "messages_sent w u lg = length (filter (\<lambda>(a, m, s). s \<and> u - w < a \<and> a \<le> u) lg)"

definition slots :: "ledger \<Rightarrow> admission_log" where
  "slots lg = map (\<lambda>(a, m, s). (a, m)) lg"

lemma messages_le_slots: "messages_sent w u lg \<le> rolling w u (slots lg)"
  unfolding messages_sent_def rolling_def slots_def by (induction lg) auto

lemma slots_append: "slots (lg @ [(a, m, s)]) = slots lg @ [(a, m)]"
  by (simp add: slots_def)

lemma slots_mark: "slots (map (\<lambda>(a, m', s). (a, m', s \<or> m' = m)) lg) = slots lg"
  by (auto simp: slots_def)

lemma slots_drop: "slots (filter (\<lambda>(a, m', s). m' \<noteq> m) lg) = filter (\<lambda>(a, m'). m' \<noteq> m) (slots lg)"
  unfolding slots_def by (induction lg) auto

lemma mail_apply_slots:
  fixes mac secret defines "k \<equiv> global_key mac secret"
  shows "(case mail_apply mac secret d b (MailReserve f t m) (lg, ks) of (lg', ks') \<Rightarrow> (slots lg', ks'))
      = sw_step mac secret d k (SwAllow f t m pin_email_global_budget_namespace pin_email_global_subject (b_global b)) (slots lg, ks)"
    and "\<not> may_have_reached sent \<Longrightarrow> list_ex (\<lambda>(a, m', s). m' = m \<and> \<not> s) lg \<Longrightarrow>
      (case mail_apply mac secret d b (MailDeliver f t m sent) (lg, ks) of (lg', ks') \<Rightarrow> (slots lg', ks'))
      = sw_step mac secret d k (SwRelease f t pin_email_global_budget_namespace pin_email_global_subject m) (slots lg, ks)"
  by (auto simp: k_def global_key_def reserve_global_def slots_append slots_drop may_have_reached_iff deliver_def refund_def refund_global_def
      sliding_release_def split: prod.splits sum.splits)

lemma mail_apply_inv:
  assumes inv: "sw_inv d (b_global b) (global_key mac secret) t (slots lg, ks)"
    and t: "t \<le> mail_time x" and pol: "sliding_policy_error (b_global b) = None"
    and other: "other_key mac secret (global_key mac secret) x"
    and fresh: "set (mail_member x) \<inter> snd ` set (slots lg) = {}"
  shows "case mail_apply mac secret d b x (lg, ks) of (lg', ks') \<Rightarrow>
    sw_inv d (b_global b) (global_key mac secret) (mail_time x) (slots lg', ks')"
proof (cases x)
  case (MailReserve f t' m)
  let ?c = "SwAllow f t' m pin_email_global_budget_namespace pin_email_global_subject (b_global b)"
  have "sw_inv d (b_global b) (global_key mac secret) (sw_time ?c) (sw_step mac secret d (global_key mac secret) ?c (slots lg, ks))"
    by (rule sw_step_inv[OF inv _ pol]) (use t fresh MailReserve in auto)
  then show ?thesis
    using mail_apply_slots(1)[of mac secret d b f t' m lg ks] MailReserve by (auto split: prod.splits)
next
  case (MailDeliver f t' m sent)
  let ?c = "SwRelease f t' pin_email_global_budget_namespace pin_email_global_subject m"
  have now: "sw_inv d (b_global b) (global_key mac secret) t' (slots lg, ks)"
    using sw_inv_passes[OF inv] t MailDeliver by simp
  show ?thesis
  proof (cases "list_ex (\<lambda>(a, m', s). m' = m \<and> \<not> s) lg \<and> \<not> may_have_reached sent")
    case True
    have "sw_inv d (b_global b) (global_key mac secret) (sw_time ?c) (sw_step mac secret d (global_key mac secret) ?c (slots lg, ks))"
      by (rule sw_step_inv[OF inv _ pol]) (use t MailDeliver in auto)
    then show ?thesis
      using mail_apply_slots(2)[of sent m lg mac secret d b f t' ks] True MailDeliver by (auto split: prod.splits)
  next
    case False
    then show ?thesis using now MailDeliver by (auto simp: slots_mark deliver_def may_have_reached_iff)
  qed
next
  case (MailOther c)
  have now: "sw_inv d (b_global b) (global_key mac secret) (sw_time c) (slots lg, ks)"
    using sw_inv_passes[OF inv] t MailOther by simp
  have "live t' (snd (sw_step mac secret d (global_key mac secret) c ([], ks))) (global_key mac secret)
      = live t' ks (global_key mac secret)" for t'
    using MailOther other by (cases c) (simp_all add: sliding_other case_prod_beta)
  from sw_inv_other[OF now this] show ?thesis using MailOther by simp
qed

lemma mail_apply_members:
  "snd ` set (slots (fst (mail_apply mac secret d b x (lg, ks)))) \<subseteq> snd ` set (slots lg) \<union> set (mail_member x)"
proof -
  have members: "snd ` set (slots lg) = (\<lambda>e. fst (snd e)) ` set lg" for lg
    by (auto simp: slots_def image_image case_prod_beta)
  show ?thesis unfolding members by (cases x) (auto simp: rev_image_eqI split: prod.splits sum.splits)
qed

lemma mail_run_inv:
  assumes pol: "sliding_policy_error (b_global b) = None"
  shows "sw_inv d (b_global b) (global_key mac secret) t (slots lg, ks) \<Longrightarrow> sorted (t # map mail_time xs) \<Longrightarrow>
    (\<forall>x\<in>set xs. other_key mac secret (global_key mac secret) x) \<Longrightarrow> distinct (concat (map mail_member xs)) \<Longrightarrow>
    set (concat (map mail_member xs)) \<inter> snd ` set (slots lg) = {} \<Longrightarrow>
    \<exists>t'. case mail_run mac secret d b xs (lg, ks) of (lg', ks') \<Rightarrow>
      sw_inv d (b_global b) (global_key mac secret) t' (slots lg', ks')"
proof (induction xs arbitrary: t lg ks)
  case (Cons x xs)
  obtain lg' ks' where st: "mail_apply mac secret d b x (lg, ks) = (lg', ks')" by (metis surj_pair)
  have "sw_inv d (b_global b) (global_key mac secret) (mail_time x) (slots lg', ks')"
    using mail_apply_inv[OF Cons.prems(1) _ pol, of x] Cons.prems(2,3,5) st by auto
  moreover have "set (concat (map mail_member xs)) \<inter> snd ` set (slots lg') = {}"
  proof -
    have "set (concat (map mail_member xs)) \<inter> set (mail_member x) = {}"
      "set (concat (map mail_member xs)) \<inter> snd ` set (slots lg) = {}" using Cons.prems(4,5) by auto
    moreover have "snd ` set (slots lg') \<subseteq> snd ` set (slots lg) \<union> set (mail_member x)"
      using mail_apply_members[of mac secret d b x lg ks] st by simp
    ultimately show ?thesis by blast
  qed
  ultimately have "\<exists>t'. case mail_run mac secret d b xs (lg', ks') of (lg'', ks'') \<Rightarrow>
      sw_inv d (b_global b) (global_key mac secret) t' (slots lg'', ks'')"
    using Cons.prems by (intro Cons.IH[of "mail_time x"]) auto
  then show ?case using st by simp
qed auto

section \<open>Properties\<close>



text \<open>
  What a delivery does to the budget: the sender's answer is returned unchanged; a delivered
  message and any error that is not marked as never attempted keep the slot; a marked one, however
  deeply wrapped, gives back exactly the reserved slot.
\<close>

theorem delivery_refunds_only_unattempted:
  "deliver mac secret f t g sent ks =
     (sent, case sent of
        None \<Rightarrow> ks
      | Some e \<Rightarrow>
          if err_not_attempted \<in> set (error_chain e) \<and> sl_admission g \<noteq> ''''
          then snd (sliding_release mac secret f t pin_email_global_budget_namespace pin_email_global_subject
                      (sl_admission g) ks)
          else ks)"
  by (simp add: deliver_def attempted_def refund_def refund_global_def errors_is_def split: option.split)

end
