(* ===== verification/GoStrings.thy ===== *)
theory GoStrings
  imports Main "HOL-Library.Char_ord" "HOL-Library.List_Lexorder"
begin

text \<open>
  The string functions of Go's standard library and of PostgreSQL that the code calls. A string is the
  list of its bytes (\<open>char\<close>). Case mapping and white space are those of ASCII; other bytes are left as
  they are. Ordering is by bytes.
\<close>

definition ascii_space :: "char \<Rightarrow> bool" where
  "ascii_space c \<longleftrightarrow> c = CHR '' '' \<or> (9 \<le> (of_char c :: nat) \<and> (of_char c :: nat) \<le> 13)"

definition ascii_lower :: "char \<Rightarrow> char" where
  "ascii_lower c =
     (let n = (of_char c :: nat) in if 65 \<le> n \<and> n \<le> 90 then char_of (n + 32) else c)"

text \<open>\<open>strings.TrimSpace\<close>, \<open>strings.ToLower\<close>, \<open>strings.TrimPrefix\<close>.\<close>

definition trim_with :: "(char \<Rightarrow> bool) \<Rightarrow> string \<Rightarrow> string" where
  "trim_with p s = rev (dropWhile p (rev (dropWhile p s)))"

definition trim_space :: "string \<Rightarrow> string" where
  "trim_space s = trim_with ascii_space s"

definition to_lower :: "string \<Rightarrow> string" where
  "to_lower s = map ascii_lower s"

definition trim_prefix :: "string \<Rightarrow> string \<Rightarrow> string" where
  "trim_prefix prefix s = (if take (length prefix) s = prefix then drop (length prefix) s else s)"

text \<open>
  \<open>utf8.RuneCountInString\<close> on well-formed UTF-8: the bytes that do not continue a character.
\<close>

definition rune_count :: "string \<Rightarrow> nat" where
  "rune_count s = length (filter (\<lambda>c. (of_char c :: nat) div 64 \<noteq> 2) s)"

text \<open>PostgreSQL's \<open>btrim(s)\<close> strips the space character only.\<close>

definition btrim :: "string \<Rightarrow> string" where
  "btrim s = trim_with (\<lambda>c. c = CHR '' '') s"

lemma dropWhile_fix: "dropWhile p xs = xs \<longleftrightarrow> xs = [] \<or> \<not> p (hd xs)"
  by (metis dropWhile_eq_Nil_conv dropWhile_eq_self_iff)

lemma hd_dropWhile_not: "dropWhile p xs = [] \<or> \<not> p (hd (dropWhile p xs))"
  by (induction xs) auto

lemma last_dropWhile_same: "dropWhile p xs = [] \<or> last (dropWhile p xs) = last xs"
  by (induction xs) auto

lemma trim_with_fix: "trim_with p s = s \<longleftrightarrow> s = [] \<or> (\<not> p (hd s) \<and> \<not> p (last s))"
proof
  assume t: "trim_with p s = s"
  have "length (trim_with p s) \<le> length (dropWhile p s)"
    unfolding trim_with_def using length_dropWhile_le[of p "rev (dropWhile p s)"] by simp
  then have "length s \<le> length (dropWhile p s)" using t by simp
  moreover have "length (takeWhile p s) + length (dropWhile p s) = length s"
    by (metis length_append takeWhile_dropWhile_id)
  ultimately have "length (takeWhile p s) = 0" by linarith
  then have d: "dropWhile p s = s" by (metis length_0_conv append_Nil takeWhile_dropWhile_id)
  then have "dropWhile p (rev s) = rev s" using t by (metis rev_rev_ident trim_with_def)
  with d show "s = [] \<or> (\<not> p (hd s) \<and> \<not> p (last s))" unfolding dropWhile_fix by (auto simp: hd_rev)
next
  assume "s = [] \<or> (\<not> p (hd s) \<and> \<not> p (last s))"
  then have "dropWhile p s = s" "dropWhile p (rev s) = rev s" by (auto simp: dropWhile_fix hd_rev)
  then show "trim_with p s = s" by (simp add: trim_with_def)
qed

lemma trim_with_ends: "trim_with p s = [] \<or> (\<not> p (hd (trim_with p s)) \<and> \<not> p (last (trim_with p s)))"
proof -
  define d where "d = dropWhile p s"
  define t where "t = dropWhile p (rev d)"
  have "t = [] \<or> \<not> p (hd t)" unfolding t_def by (rule hd_dropWhile_not)
  moreover have "t = [] \<or> \<not> p (last t)"
    using last_dropWhile_same[of p "rev d"] hd_dropWhile_not[of p s]
    by (cases "d = []") (auto simp: t_def[symmetric] d_def[symmetric] last_rev, simp add: t_def)
  ultimately show ?thesis unfolding trim_with_def d_def[symmetric] t_def[symmetric]
    by (cases "t = []") (simp_all add: hd_rev last_rev)
qed

lemma trim_with_idem: "trim_with p (trim_with p s) = trim_with p s"
  using trim_with_ends by (auto simp: trim_with_fix)

lemma btrim_trimmed: "trim_space s = s \<Longrightarrow> btrim s = s"
  by (auto simp: btrim_def trim_space_def trim_with_fix ascii_space_def)

end
