(* ===== verification/Registration.thy ===== *)
theory Registration
  imports DbTx GoStrings EmailBudget Sessions
begin

text \<open>
  Registration: \<open>internal/api/auth/registration\<close>. The tables a registration touches with their
  constraints (\<open>internal/database/baseline/schema.sql\<close>), one definition per SQL statement of the
  generated queries, one per repository method, and the service over them.

  As in the session component, \<open>now\<close> is the database's \<open>NOW()\<close>, ids generated by the database are
  arguments, and an id already present violates the primary key.
\<close>

section \<open>State\<close>

datatype registration_type = RegistrationTypeManual | RegistrationTypeSocial
datatype registration_status =
  PendingRegistrationPending | PendingRegistrationCompleted | PendingRegistrationExpired
datatype verification_subject = VerificationSubjectPendingRegistration | VerificationSubjectPendingPasswordReset
datatype verification_purpose =
  VerificationPurposeRegistration | VerificationPurposeRegistrationRecovery | VerificationPurposePasswordReset
datatype verification_status = VerificationRequestPending | VerificationRequestVerified

record pending_registration =
  pr_id :: uuid
  pr_email :: string
  pr_type :: registration_type
  pr_status :: registration_status
  pr_created_at :: time
  pr_expires_at :: time

record pending_social_identity =
  psi_id :: uuid
  psi_registration :: uuid
  psi_provider :: string
  psi_subject :: string
  psi_email_snapshot :: "string option"
  psi_display_name_snapshot :: "string option"

record verification_request =
  vr_id :: uuid
  vr_subject_type :: verification_subject
  vr_subject :: uuid
  vr_purpose :: verification_purpose
  vr_status :: verification_status
  vr_pin_issued_count :: int
  vr_last_sent_at :: "time option"
  vr_created_at :: time

record verification_code =
  vc_id :: uuid
  vc_request :: uuid
  vc_hash :: string
  vc_attempts :: int
  vc_created_at :: time
  vc_expires_at :: time
  vc_consumed_at :: "time option"
  vc_invalidated_at :: "time option"

record registration_continuation =
  rc_id :: uuid
  rc_registration :: uuid
  rc_hash :: string
  rc_expires_at :: time
  rc_consumed_at :: "time option"
  rc_created_at :: time

record user =
  u_id :: uuid
  u_email :: string
  u_display_name :: string
  u_email_verified_at :: time

record unsorted_collection =
  uc_id :: uuid
  uc_user :: uuid

record password_credential =
  pc_user :: uuid
  pc_hash :: string

record auth_identity =
  ai_id :: uuid
  ai_user :: uuid
  ai_provider :: string
  ai_subject :: string
  ai_email_snapshot :: "string option"
  ai_display_name_snapshot :: "string option"

record registration_db =
  registrations :: "pending_registration list"
  social_identities :: "pending_social_identity list"
  requests :: "verification_request list"
  codes :: "verification_code list"
  continuations :: "registration_continuation list"
  accounts :: "user list"
  unsorted :: "unsorted_collection list"
  credentials :: "password_credential list"
  identities :: "auth_identity list"

definition registration_expires_in :: duration where "registration_expires_in = 7 * 24 * hour"
definition registration_continuation_expires_in :: duration where
  "registration_continuation_expires_in = 15 * minute"
definition verification_code_expires_in :: duration where "verification_code_expires_in = 5 * minute"
definition verification_resend_cooldown :: duration where "verification_resend_cooldown = 60 * second"
definition verification_code_max_attempts :: int where "verification_code_max_attempts = 5"

section \<open>SQL statements\<close>

text \<open>The first row in the given order (\<open>ORDER BY ... LIMIT 1\<close>).\<close>

definition first_by :: "('r \<Rightarrow> 'k::linorder) \<Rightarrow> 'r list \<Rightarrow> 'r option" where
  "first_by key rows = (case sort_key key rows of [] \<Rightarrow> None | r # _ \<Rightarrow> Some r)"

definition holds_email :: "pending_registration \<Rightarrow> bool" where
  "holds_email r \<longleftrightarrow> pr_status r \<noteq> PendingRegistrationExpired"

definition q_create_pending_registration ::
  "time \<Rightarrow> uuid \<Rightarrow> string \<Rightarrow> registration_type \<Rightarrow> registration_status \<Rightarrow> time
     \<Rightarrow> (registration_db, pending_registration) query" where
  "q_create_pending_registration now pid email ty st expires db =
     (if has_key pr_id pid (registrations db) then Inl (PgError ''pending_registrations_pkey'')
      else if st \<noteq> PendingRegistrationExpired \<and> has_key pr_email email (filter holds_email (registrations db))
      then Inl (PgError ''pending_registrations_email_idx'')
      else
        (let r = \<lparr>pr_id = pid, pr_email = email, pr_type = ty, pr_status = st, pr_created_at = now,
                  pr_expires_at = expires\<rparr>
         in Inr (r, db\<lparr>registrations := registrations db @ [r]\<rparr>)))"

definition q_create_verification_request ::
  "time \<Rightarrow> uuid \<Rightarrow> verification_subject \<Rightarrow> uuid \<Rightarrow> verification_purpose \<Rightarrow> verification_status
     \<Rightarrow> (registration_db, verification_request) query" where
  "q_create_verification_request now vid sty subject purpose st db =
     (if has_key vr_id vid (requests db) then Inl (PgError ''verification_requests_pkey'')
      else
        (let v = \<lparr>vr_id = vid, vr_subject_type = sty, vr_subject = subject, vr_purpose = purpose,
                  vr_status = st, vr_pin_issued_count = 0, vr_last_sent_at = None, vr_created_at = now\<rparr>
         in Inr (v, db\<lparr>requests := requests db @ [v]\<rparr>)))"

definition code_active :: "verification_code \<Rightarrow> bool" where
  "code_active c \<longleftrightarrow> vc_consumed_at c = None \<and> vc_invalidated_at c = None"

definition q_create_verification_code ::
  "time \<Rightarrow> uuid \<Rightarrow> uuid \<Rightarrow> string \<Rightarrow> time \<Rightarrow> (registration_db, verification_code) query" where
  "q_create_verification_code now cid vid hash expires db =
     (if has_key vc_id cid (codes db) then Inl (PgError ''verification_codes_pkey'')
      else if has_key vc_request vid (filter code_active (codes db))
      then Inl (PgError ''verification_codes_one_active_per_request_idx'')
      else if \<not> has_key vr_id vid (requests db)
      then Inl (PgError ''verification_codes_verification_request_id_fkey'')
      else
        (let c = \<lparr>vc_id = cid, vc_request = vid, vc_hash = hash, vc_attempts = 0, vc_created_at = now,
                  vc_expires_at = expires, vc_consumed_at = None, vc_invalidated_at = None\<rparr>
         in Inr (c, db\<lparr>codes := codes db @ [c]\<rparr>)))"

definition q_get_verification ::
  "uuid \<Rightarrow> (registration_db, verification_request \<times> pending_registration) query" where
  "q_get_verification vid db =
     (case row_with vr_id vid (requests db) of
        None \<Rightarrow> Inl err_no_rows
      | Some v \<Rightarrow>
          (case row_with pr_id (vr_subject v) (registrations db) of
             None \<Rightarrow> Inl err_no_rows
           | Some r \<Rightarrow> Inr ((v, r), db)))"

definition newest_code :: "verification_code \<Rightarrow> newest_first" where
  "newest_code c = NewestFirst (vc_created_at c) (vc_id c)"

definition q_invalidate_verification_code :: "time \<Rightarrow> uuid \<Rightarrow> (registration_db, unit) query" where
  "q_invalidate_verification_code now vid db =
     Inr ((), case first_by newest_code (filter (\<lambda>c. vc_request c = vid \<and> code_active c) (codes db)) of
        None \<Rightarrow> db
      | Some old \<Rightarrow> db\<lparr>codes :=
          update_where (\<lambda>c. vc_id c = vc_id old) (\<lambda>c. c\<lparr>vc_invalidated_at := Some now\<rparr>) (codes db)\<rparr>)"

definition q_update_verification_request_pin_issued ::
  "time \<Rightarrow> uuid \<Rightarrow> (registration_db, verification_request) query" where
  "q_update_verification_request_pin_issued now vid db =
     (case row_with vr_id vid (requests db) of
        None \<Rightarrow> Inl err_no_rows
      | Some v \<Rightarrow>
          (let bump = (\<lambda>v. v\<lparr>vr_pin_issued_count := vr_pin_issued_count v + 1, vr_last_sent_at := Some now\<rparr>)
           in Inr (bump v, db\<lparr>requests := update_where (\<lambda>v. vr_id v = vid) bump (requests db)\<rparr>)))"

definition q_get_active_verification_code ::
  "time \<Rightarrow> uuid \<Rightarrow> int \<Rightarrow> (registration_db, verification_code) query" where
  "q_get_active_verification_code now vid max_attempts db =
     (case first_by newest_code (filter (\<lambda>c. vc_request c = vid \<and> code_active c
             \<and> vc_expires_at c > now \<and> vc_attempts c < max_attempts) (codes db)) of
        None \<Rightarrow> Inl err_no_rows
      | Some c \<Rightarrow> Inr (c, db))"

definition q_increment_verification_code_attempts ::
  "uuid \<Rightarrow> int \<Rightarrow> (registration_db, int) query" where
  "q_increment_verification_code_attempts cid max_attempts db =
     (case row_with vc_id cid (filter (\<lambda>c. vc_attempts c < max_attempts) (codes db)) of
        None \<Rightarrow> Inl err_no_rows
      | Some c \<Rightarrow> Inr (vc_attempts c + 1, db\<lparr>codes :=
          update_where (\<lambda>c. vc_id c = cid \<and> vc_attempts c < max_attempts)
            (\<lambda>c. c\<lparr>vc_attempts := vc_attempts c + 1\<rparr>) (codes db)\<rparr>))"

text \<open>The number of rows an update reports, and the updated table.\<close>

definition consumable :: "time \<Rightarrow> uuid \<Rightarrow> verification_code \<Rightarrow> bool" where
  "consumable now cid c \<longleftrightarrow> vc_id c = cid \<and> code_active c \<and> vc_expires_at c > now"

definition q_consume_verification_code :: "time \<Rightarrow> uuid \<Rightarrow> (registration_db, nat) query" where
  "q_consume_verification_code now cid db =
     Inr (rows_where (consumable now cid) (codes db),
          db\<lparr>codes := update_where (consumable now cid) (\<lambda>c. c\<lparr>vc_consumed_at := Some now\<rparr>) (codes db)\<rparr>)"

definition verifiable :: "uuid \<Rightarrow> verification_request \<Rightarrow> bool" where
  "verifiable vid v \<longleftrightarrow> vr_id v = vid \<and> vr_status v = VerificationRequestPending"

definition q_mark_verification_request_verified :: "uuid \<Rightarrow> (registration_db, nat) query" where
  "q_mark_verification_request_verified vid db =
     Inr (rows_where (verifiable vid) (requests db),
          db\<lparr>requests := update_where (verifiable vid)
                            (\<lambda>v. v\<lparr>vr_status := VerificationRequestVerified\<rparr>) (requests db)\<rparr>)"

definition q_create_registration_continuation ::
  "time \<Rightarrow> uuid \<Rightarrow> uuid \<Rightarrow> string \<Rightarrow> time \<Rightarrow> (registration_db, registration_continuation) query" where
  "q_create_registration_continuation now kid pid hash expires db =
     (if has_key rc_id kid (continuations db) then Inl (PgError ''registration_continuations_pkey'')
      else if has_key rc_registration pid (continuations db)
      then Inl (PgError ''registration_continuations_pending_registration_unique_idx'')
      else if has_key rc_hash hash (continuations db)
      then Inl (PgError ''registration_continuations_token_hash_idx'')
      else if \<not> has_key pr_id pid (registrations db)
      then Inl (PgError ''registration_continuations_pending_registration_id_fkey'')
      else
        (let k = \<lparr>rc_id = kid, rc_registration = pid, rc_hash = hash, rc_expires_at = expires,
                  rc_consumed_at = None, rc_created_at = now\<rparr>
         in Inr (k, db\<lparr>continuations := continuations db @ [k]\<rparr>)))"

text \<open>The join of a registration with its request of purpose \<open>registration\<close>.\<close>

definition opening_request :: "pending_registration \<Rightarrow> verification_request \<Rightarrow> bool" where
  "opening_request r v \<longleftrightarrow> vr_subject_type v = VerificationSubjectPendingRegistration \<and>
     vr_subject v = pr_id r \<and> vr_purpose v = VerificationPurposeRegistration"

definition with_opening ::
  "(pending_registration \<Rightarrow> bool) \<Rightarrow> registration_db \<Rightarrow> (pending_registration \<times> verification_request) list" where
  "with_opening p db =
     concat (map (\<lambda>r. map (Pair r) (filter (opening_request r) (requests db))) (filter p (registrations db)))"

definition q_get_completed_registration_by_email :: "string \<Rightarrow> (registration_db, uuid) query" where
  "q_get_completed_registration_by_email email db =
     (case first_row (with_opening (\<lambda>r. pr_email r = email \<and> pr_status r = PendingRegistrationCompleted) db) of
        Inl e \<Rightarrow> Inl e
      | Inr (r, v) \<Rightarrow> Inr (pr_id r, db))"

definition q_get_pending_registration_by_email_for_update ::
  "string \<Rightarrow> (registration_db, pending_registration \<times> verification_request) query" where
  "q_get_pending_registration_by_email_for_update email db =
     (case first_row (with_opening (\<lambda>r. pr_email r = email \<and> pr_status r = PendingRegistrationPending) db) of
        Inl e \<Rightarrow> Inl e
      | Inr rv \<Rightarrow> Inr (rv, db))"

text \<open>\<open>expires_at <= NOW() AS is_expired\<close>.\<close>

definition is_expired :: "time \<Rightarrow> pending_registration \<Rightarrow> bool" where
  "is_expired now r \<longleftrightarrow> pr_expires_at r \<le> now"

definition q_get_pending_registration_by_id_for_update :: "uuid \<Rightarrow> (registration_db, pending_registration) query" where
  "q_get_pending_registration_by_id_for_update pid db =
     (case row_with pr_id pid (registrations db) of None \<Rightarrow> Inl err_no_rows | Some r \<Rightarrow> Inr (r, db))"

definition open_recovery :: "uuid \<Rightarrow> verification_request \<Rightarrow> bool" where
  "open_recovery pid v \<longleftrightarrow> vr_subject v = pid \<and> vr_subject_type v = VerificationSubjectPendingRegistration \<and>
     vr_purpose v = VerificationPurposeRegistrationRecovery \<and> vr_status v = VerificationRequestPending"

definition q_get_pending_recovery_verification ::
  "uuid \<Rightarrow> (registration_db, verification_request) query" where
  "q_get_pending_recovery_verification pid db =
     (case first_by (\<lambda>v. NewestFirst (vr_created_at v) (vr_id v)) (filter (open_recovery pid) (requests db)) of
        None \<Rightarrow> Inl err_no_rows
      | Some v \<Rightarrow> Inr (v, db))"

definition reassignable :: "uuid \<Rightarrow> verification_request \<Rightarrow> bool" where
  "reassignable vid v \<longleftrightarrow> vr_id v = vid \<and> vr_subject_type v = VerificationSubjectPendingRegistration \<and>
     vr_purpose v = VerificationPurposeRegistrationRecovery \<and> vr_status v = VerificationRequestVerified"

definition q_reassign_verification_request ::
  "uuid \<Rightarrow> uuid \<Rightarrow> (registration_db, nat) query" where
  "q_reassign_verification_request subject vid db =
     Inr (rows_where (reassignable vid) (requests db),
          db\<lparr>requests := update_where (reassignable vid)
               (\<lambda>v. v\<lparr>vr_subject := subject, vr_purpose := VerificationPurposeRegistration\<rparr>) (requests db)\<rparr>)"

definition q_has_usable_registration_continuation :: "time \<Rightarrow> uuid \<Rightarrow> (registration_db, bool) query" where
  "q_has_usable_registration_continuation now pid db =
     Inr (list_ex (\<lambda>k. rc_registration k = pid \<and> rc_consumed_at k = None \<and> rc_expires_at k > now)
            (continuations db), db)"

definition expire_where ::
  "(pending_registration \<Rightarrow> bool) \<Rightarrow> registration_db \<Rightarrow> go_error + nat \<times> registration_db" where
  "expire_where p db =
     Inr (rows_where p (registrations db),
          db\<lparr>registrations := update_where p (\<lambda>r. r\<lparr>pr_status := PendingRegistrationExpired\<rparr>) (registrations db)\<rparr>)"

definition q_force_expire_social :: "uuid \<Rightarrow> (registration_db, nat) query" where
  "q_force_expire_social pid = expire_where
     (\<lambda>r. pr_id r = pid \<and> pr_type r = RegistrationTypeSocial \<and> pr_status r = PendingRegistrationPending)"

definition q_force_expire_manual :: "uuid \<Rightarrow> (registration_db, nat) query" where
  "q_force_expire_manual pid = expire_where
     (\<lambda>r. pr_id r = pid \<and> pr_type r = RegistrationTypeManual \<and> pr_status r = PendingRegistrationPending)"

definition q_expire_pending_registration :: "time \<Rightarrow> uuid \<Rightarrow> (registration_db, nat) query" where
  "q_expire_pending_registration now pid = expire_where
     (\<lambda>r. pr_id r = pid \<and> pr_status r = PendingRegistrationPending \<and> pr_expires_at r \<le> now)"

definition q_get_registration_continuation ::
  "string \<Rightarrow> (registration_db, registration_continuation \<times> pending_registration) query" where
  "q_get_registration_continuation hash db =
     (case row_with rc_hash hash (continuations db) of
        None \<Rightarrow> Inl err_no_rows
      | Some k \<Rightarrow>
          (case row_with pr_id (rc_registration k) (registrations db) of
             None \<Rightarrow> Inl err_no_rows
           | Some r \<Rightarrow> Inr ((k, r), db)))"

definition q_create_user ::
  "uuid \<Rightarrow> string \<Rightarrow> string \<Rightarrow> time \<Rightarrow> (registration_db, user) query" where
  "q_create_user uid email name verified_at db =
     (if has_key u_id uid (accounts db) then Inl (PgError ''users_pkey'')
      else if has_key u_email email (accounts db) then Inl (PgError ''users_email_unique'')
      else
        (let u = \<lparr>u_id = uid, u_email = email, u_display_name = name, u_email_verified_at = verified_at\<rparr>
         in Inr (u, db\<lparr>accounts := accounts db @ [u]\<rparr>)))"

text \<open>Only the system collection is in these tables, so of its two unique indexes the key one is left.\<close>

definition q_create_unsorted_collection :: "uuid \<Rightarrow> uuid \<Rightarrow> (registration_db, uuid) query" where
  "q_create_unsorted_collection cid uid db =
     (if has_key uc_id cid (unsorted db) then Inl (PgError ''collections_pkey'')
      else if has_key uc_user uid (unsorted db) then Inl (PgError ''collections_system_key_unique'')
      else if \<not> has_key u_id uid (accounts db) then Inl (PgError ''collections_user_id_fkey'')
      else Inr (cid, db\<lparr>unsorted := unsorted db @ [\<lparr>uc_id = cid, uc_user = uid\<rparr>]\<rparr>))"

definition q_create_password_credential :: "uuid \<Rightarrow> string \<Rightarrow> (registration_db, unit) query" where
  "q_create_password_credential uid hash db =
     (if has_key pc_user uid (credentials db) then Inl (PgError ''password_credentials_pkey'')
      else if \<not> has_key u_id uid (accounts db) then Inl (PgError ''password_credentials_user_id_fkey'')
      else Inr ((), db\<lparr>credentials := credentials db @ [\<lparr>pc_user = uid, pc_hash = hash\<rparr>]\<rparr>))"

definition usable_continuation :: "time \<Rightarrow> uuid \<Rightarrow> registration_continuation \<Rightarrow> bool" where
  "usable_continuation now kid k \<longleftrightarrow> rc_id k = kid \<and> rc_consumed_at k = None \<and> rc_expires_at k > now"

definition q_consume_registration_continuation :: "time \<Rightarrow> uuid \<Rightarrow> (registration_db, nat) query" where
  "q_consume_registration_continuation now kid db =
     Inr (rows_where (usable_continuation now kid) (continuations db),
          db\<lparr>continuations := update_where (usable_continuation now kid)
               (\<lambda>k. k\<lparr>rc_consumed_at := Some now\<rparr>) (continuations db)\<rparr>)"

definition completable :: "time \<Rightarrow> uuid \<Rightarrow> pending_registration \<Rightarrow> bool" where
  "completable now pid r \<longleftrightarrow> pr_id r = pid \<and> pr_status r = PendingRegistrationPending \<and> pr_expires_at r > now"

definition q_complete_pending_registration :: "time \<Rightarrow> uuid \<Rightarrow> (registration_db, nat) query" where
  "q_complete_pending_registration now pid db =
     Inr (rows_where (completable now pid) (registrations db),
          db\<lparr>registrations := update_where (completable now pid)
               (\<lambda>r. r\<lparr>pr_status := PendingRegistrationCompleted\<rparr>) (registrations db)\<rparr>)"

definition q_get_pending_social_identity :: "uuid \<Rightarrow> (registration_db, pending_social_identity) query" where
  "q_get_pending_social_identity pid db =
     (case row_with psi_registration pid (social_identities db) of None \<Rightarrow> Inl err_no_rows | Some i \<Rightarrow> Inr (i, db))"

definition q_create_pending_social_identity ::
  "uuid \<Rightarrow> uuid \<Rightarrow> string \<Rightarrow> string \<Rightarrow> string option \<Rightarrow> string option
     \<Rightarrow> (registration_db, pending_social_identity) query" where
  "q_create_pending_social_identity iid pid provider subject email name db =
     (if has_key psi_id iid (social_identities db) then Inl (PgError ''pending_social_identities_pkey'')
      else if has_key psi_registration pid (social_identities db)
      then Inl (PgError ''pending_social_identities_pending_registration_unique'')
      else if \<not> has_key pr_id pid (registrations db)
      then Inl (PgError ''pending_social_identities_pending_registration_fk'')
      else
        (let i = \<lparr>psi_id = iid, psi_registration = pid, psi_provider = provider, psi_subject = subject,
                  psi_email_snapshot = email, psi_display_name_snapshot = name\<rparr>
         in Inr (i, db\<lparr>social_identities := social_identities db @ [i]\<rparr>)))"

definition has_identity :: "string \<Rightarrow> string \<Rightarrow> registration_db \<Rightarrow> bool" where
  "has_identity provider subject db \<longleftrightarrow>
     has_key (\<lambda>i. (ai_provider i, ai_subject i)) (provider, subject) (identities db)"

definition q_create_auth_identity ::
  "uuid \<Rightarrow> uuid \<Rightarrow> string \<Rightarrow> string \<Rightarrow> string option \<Rightarrow> string option
     \<Rightarrow> (registration_db, unit) query" where
  "q_create_auth_identity aid uid provider subject email name db =
     (if has_key ai_id aid (identities db) then Inl (PgError ''auth_identities_pkey'')
      else if has_identity provider subject db then Inl (PgError ''auth_identities_provider_subject_unique'')
      else if \<not> has_key u_id uid (accounts db) then Inl (PgError ''auth_identities_user_fk'')
      else Inr ((), db\<lparr>identities := identities db @
                  [\<lparr>ai_id = aid, ai_user = uid, ai_provider = provider, ai_subject = subject,
                    ai_email_snapshot = email, ai_display_name_snapshot = name\<rparr>]\<rparr>))"

section \<open>Repository\<close>

definition pending_registration_email_index :: string where
  "pending_registration_email_index = ''pending_registrations_email_idx''"

definition pg_constraint :: "go_error \<Rightarrow> string option" where
  "pg_constraint e = (case errors_find is_pg_error e of Some (PgError c) \<Rightarrow> Some c | _ \<Rightarrow> None)"

definition map_registration_db_error :: "go_error \<Rightarrow> go_error" where
  "map_registration_db_error e =
     (if pg_constraint e = Some pending_registration_email_index then
        conflict_with ''REGISTRATION_ALREADY_EXISTS'' ''registration already exists'' (Some e)
      else if pg_constraint e = Some ''verification_codes_one_active_per_request_idx'' then
        conflict_with ''ACTIVE_VERIFICATION_CODE_EXISTS'' ''an active verification code already exists'' (Some e)
      else if pg_constraint e = Some ''users_email_unique'' then
        conflict_with ''USER_ALREADY_EXISTS'' ''user already exists'' (Some e)
      else if pg_constraint e = Some ''auth_identities_provider_subject_unique'' then
        conflict_with ''AUTH_IDENTITY_ALREADY_EXISTS'' ''auth identity already exists'' (Some e)
      else internal (Some e))"

definition is_pending_registration_email_conflict :: "go_error \<Rightarrow> bool" where
  "is_pending_registration_email_conflict e = (pg_constraint e = Some pending_registration_email_index)"

definition fail_mapped :: "go_error \<Rightarrow> (registration_db, 'a) prog" where
  "fail_mapped e = fail (map_registration_db_error e)"

text \<open>The shape of every guarded update: run it, and refuse unless it touched exactly one row.\<close>

definition exec_one :: "('d, nat) query \<Rightarrow> go_error \<Rightarrow> ('d, 'a) prog \<Rightarrow> ('d, 'a) prog" where
  "exec_one q refusal k = exec q fail_internal (\<lambda>n. if n \<noteq> 1 then fail refusal else k)"

definition no_longer_pending :: go_error where
  "no_longer_pending = conflict_with '''' ''registration is no longer pending'' None"
definition code_unavailable_err :: "go_error option \<Rightarrow> go_error" where
  "code_unavailable_err = conflict_with '''' ''verification code is no longer available''"
definition request_not_pending :: go_error where
  "request_not_pending = conflict_with '''' ''verification request is no longer pending'' None"
definition continuation_unavailable :: "go_error option \<Rightarrow> go_error" where
  "continuation_unavailable = conflict_with '''' ''registration continuation is no longer available''"
definition err_registration_not_pending :: "go_error option \<Rightarrow> go_error" where
  "err_registration_not_pending = conflict_with ''REGISTRATION_NOT_PENDING'' ''registration is no longer pending''"
definition err_registration_expired :: go_error where
  "err_registration_expired = conflict_with ''REGISTRATION_EXPIRED'' ''registration has expired'' None"
definition err_already_completed :: go_error where
  "err_already_completed =
     conflict_with ''REGISTRATION_ALREADY_COMPLETED'' ''registration has already been completed'' None"
definition err_not_manual :: go_error where
  "err_not_manual = conflict_with ''INVALID_REGISTRATION_TYPE'' ''registration is not a manual registration'' None"
definition err_not_social :: go_error where
  "err_not_social = conflict_with ''INVALID_REGISTRATION_TYPE'' ''registration is not a social registration'' None"
definition err_still_pending :: go_error where
  "err_still_pending =
     conflict_with ''REGISTRATION_ALREADY_PENDING'' ''registration verification is still pending'' None"
definition err_identity_mismatch :: go_error where
  "err_identity_mismatch = conflict_with ''REGISTRATION_IDENTITY_MISMATCH''
     ''a registration for this email is already in progress under a different account'' None"
definition err_no_social_identity :: go_error where
  "err_no_social_identity = Sentinel ''social pending registration has no pending social identity''"

definition repo_get_completed_registration_by_email :: "string \<Rightarrow> (registration_db, uuid) prog" where
  "repo_get_completed_registration_by_email email =
     pool (q_get_completed_registration_by_email email)
       (\<lambda>e. if errors_is e err_no_rows then ret uuid_nil else fail_internal e) ret"

text \<open>What the creating methods answer: the verification request's id and status.\<close>

record opened_verification =
  ov_id :: uuid
  ov_status :: "verification_status option"
  ov_already_pending :: bool

definition opened :: "verification_request \<Rightarrow> opened_verification" where
  "opened v = \<lparr>ov_id = vr_id v, ov_status = Some (vr_status v), ov_already_pending = False\<rparr>"

definition reused :: "verification_request \<Rightarrow> opened_verification" where
  "reused v = \<lparr>ov_id = vr_id v, ov_status = Some (vr_status v), ov_already_pending = True\<rparr>"

definition insert_manual ::
  "time \<Rightarrow> uuid \<times> uuid \<Rightarrow> string \<Rightarrow> time \<Rightarrow> (registration_db, opened_verification) prog" where
  "insert_manual now ids email expires =
     exec (q_create_pending_registration now (fst ids) email RegistrationTypeManual
             PendingRegistrationPending expires) fail_mapped (\<lambda>r.
     exec (q_create_verification_request now (snd ids) VerificationSubjectPendingRegistration (pr_id r)
             VerificationPurposeRegistration VerificationRequestPending) fail_internal (\<lambda>v.
     commit fail_internal (ret (opened v))))"

definition create_manual_registration_once ::
  "time \<Rightarrow> uuid \<times> uuid \<Rightarrow> string \<Rightarrow> time \<Rightarrow> (registration_db, opened_verification) prog" where
  "create_manual_registration_once now ids email expires =
     begin_tx fail_internal
      (exec (q_get_pending_registration_by_email_for_update email)
        (\<lambda>e. if errors_is e err_no_rows then insert_manual now ids email expires else fail_internal e)
        (\<lambda>(r, v).
          if pr_type r = RegistrationTypeSocial then
            exec_one (q_force_expire_social (pr_id r)) no_longer_pending (insert_manual now ids email expires)
          else if is_expired now r then
            exec_one (q_expire_pending_registration now (pr_id r)) no_longer_pending
              (insert_manual now ids email expires)
          else if vr_status v = VerificationRequestPending then ret (reused v)
          else
            exec (q_get_pending_recovery_verification (pr_id r))
              (\<lambda>e. if errors_is e err_no_rows then
                      exec (q_has_usable_registration_continuation now (pr_id r)) fail_internal (\<lambda>usable.
                      if usable then ret (reused v)
                      else exec_one (q_force_expire_manual (pr_id r)) no_longer_pending
                             (insert_manual now ids email expires))
                    else fail_internal e)
              (\<lambda>v'. ret (reused v'))))"

text \<open>A second attempt, with its own ids and its own clock, when the first met the unique index.\<close>

definition repo_create_manual_registration ::
  "time \<times> time \<Rightarrow> (uuid \<times> uuid) \<times> (uuid \<times> uuid) \<Rightarrow> string \<Rightarrow> time
     \<Rightarrow> (registration_db, opened_verification) prog" where
  "repo_create_manual_registration nows ids email expires =
     call (create_manual_registration_once (fst nows) (fst ids) email expires)
       (\<lambda>e. if is_pending_registration_email_conflict e
             then create_manual_registration_once (snd nows) (snd ids) email expires
             else fail e)
       ret"

definition repo_initiate_manual_recovery ::
  "time \<Rightarrow> uuid \<Rightarrow> string \<Rightarrow> (registration_db, opened_verification) prog" where
  "repo_initiate_manual_recovery now vid email =
     begin_tx fail_internal
      (exec (q_get_pending_registration_by_email_for_update email)
        (\<lambda>e. if errors_is e err_no_rows then fail (err_registration_not_pending (Some e)) else fail_internal e)
        (\<lambda>(r, v).
          if pr_type r \<noteq> RegistrationTypeManual then fail err_not_manual
          else if is_expired now r then fail err_registration_expired
          else if vr_status v \<noteq> VerificationRequestVerified then fail err_still_pending
          else
            exec (q_get_pending_recovery_verification (pr_id r))
              (\<lambda>e. if errors_is e err_no_rows then
                      exec (q_create_verification_request now vid VerificationSubjectPendingRegistration (pr_id r)
                              VerificationPurposeRegistrationRecovery VerificationRequestPending) fail_internal (\<lambda>w.
                      commit fail_internal (ret (opened w)))
                    else fail_internal e)
              (\<lambda>v'. ret (reused v'))))"

record social_params =
  sp_email :: string
  sp_provider :: string
  sp_subject :: string
  sp_email_snapshot :: "string option"
  sp_display_name_snapshot :: "string option"
  sp_expires_at :: time

definition insert_social ::
  "time \<Rightarrow> uuid \<times> uuid \<times> uuid \<Rightarrow> social_params \<Rightarrow> (registration_db, uuid) prog" where
  "insert_social now ids p =
     exec (q_create_pending_registration now (fst ids) (sp_email p) RegistrationTypeSocial
             PendingRegistrationPending (sp_expires_at p)) fail_mapped (\<lambda>r.
     exec (q_create_pending_social_identity (fst (snd ids)) (pr_id r) (sp_provider p) (sp_subject p)
             (sp_email_snapshot p) (sp_display_name_snapshot p)) fail_mapped (\<lambda>_.
     exec (q_create_verification_request now (snd (snd ids)) VerificationSubjectPendingRegistration (pr_id r)
             VerificationPurposeRegistration VerificationRequestPending) fail_internal (\<lambda>v.
     commit fail_internal (ret (vr_id v)))))"

definition create_social_registration_once ::
  "time \<Rightarrow> uuid \<times> uuid \<times> uuid \<Rightarrow> social_params \<Rightarrow> (registration_db, uuid) prog" where
  "create_social_registration_once now ids p =
     begin_tx fail_internal
      (exec (q_get_pending_registration_by_email_for_update (sp_email p))
        (\<lambda>e. if errors_is e err_no_rows then insert_social now ids p else fail_internal e)
        (\<lambda>(r, v).
          if pr_type r = RegistrationTypeManual then
            exec_one (q_force_expire_manual (pr_id r)) no_longer_pending (insert_social now ids p)
          else
            exec (q_get_pending_social_identity (pr_id r))
              (\<lambda>e. if errors_is e err_no_rows then fail_internal err_no_social_identity else fail_internal e)
              (\<lambda>i.
                if (psi_provider i \<noteq> sp_provider p \<or> psi_subject i \<noteq> sp_subject p) \<and> \<not> is_expired now r
                then fail err_identity_mismatch
                else if \<not> is_expired now r \<and> vr_status v = VerificationRequestPending then ret (vr_id v)
                else if is_expired now r then
                  exec_one (q_expire_pending_registration now (pr_id r)) no_longer_pending (insert_social now ids p)
                else
                  exec_one (q_force_expire_social (pr_id r)) no_longer_pending (insert_social now ids p))))"

definition repo_create_social_registration ::
  "time \<times> time \<Rightarrow> (uuid \<times> uuid \<times> uuid) \<times> (uuid \<times> uuid \<times> uuid) \<Rightarrow> social_params
     \<Rightarrow> (registration_db, uuid) prog" where
  "repo_create_social_registration nows ids p =
     call (create_social_registration_once (fst nows) (fst ids) p)
       (\<lambda>e. if is_pending_registration_email_conflict e
             then create_social_registration_once (snd nows) (snd ids) p
             else fail e)
       ret"

definition repo_issue_verification_code ::
  "time \<Rightarrow> uuid \<Rightarrow> uuid \<Rightarrow> string \<Rightarrow> time \<Rightarrow> (registration_db, verification_request) prog" where
  "repo_issue_verification_code now cid vid hash expires =
     begin_tx fail_internal
      (exec (q_invalidate_verification_code now vid) fail_internal (\<lambda>_.
       exec (q_create_verification_code now cid vid hash expires) fail_mapped (\<lambda>_.
       exec (q_update_verification_request_pin_issued now vid) fail_internal (\<lambda>v.
       commit fail_internal (ret v)))))"

definition repo_get_verification ::
  "uuid \<Rightarrow> (registration_db, verification_request \<times> pending_registration) prog" where
  "repo_get_verification vid =
     pool (q_get_verification vid)
       (\<lambda>e. if errors_is e err_no_rows then fail (not_found (Some e)) else fail_internal e) ret"

definition repo_get_active_verification_code ::
  "time \<Rightarrow> uuid \<Rightarrow> int \<Rightarrow> (registration_db, verification_code) prog" where
  "repo_get_active_verification_code now vid max_attempts =
     pool (q_get_active_verification_code now vid max_attempts)
       (\<lambda>e. if errors_is e err_no_rows then fail (code_unavailable_err (Some e)) else fail_internal e) ret"

definition repo_increment_verification_code_attempts :: "uuid \<Rightarrow> int \<Rightarrow> (registration_db, int) prog" where
  "repo_increment_verification_code_attempts cid max_attempts =
     pool (q_increment_verification_code_attempts cid max_attempts)
       (\<lambda>e. if errors_is e err_no_rows then fail (code_unavailable_err (Some e)) else fail_internal e) ret"

definition repo_complete_verification ::
  "time \<Rightarrow> uuid \<Rightarrow> uuid \<Rightarrow> uuid \<Rightarrow> uuid \<Rightarrow> string \<Rightarrow> time
     \<Rightarrow> (registration_db, registration_continuation) prog" where
  "repo_complete_verification now kid cid vid pid hash expires =
     begin_tx fail_internal
      (exec_one (q_consume_verification_code now cid) (code_unavailable_err None)
      (exec_one (q_mark_verification_request_verified vid) request_not_pending
      (exec (q_create_registration_continuation now kid pid hash expires) fail_mapped (\<lambda>k.
       commit fail_internal (ret k)))))"

definition repo_complete_recovery_verification ::
  "time \<Rightarrow> uuid \<times> uuid \<Rightarrow> uuid \<Rightarrow> uuid \<Rightarrow> uuid \<Rightarrow> string \<Rightarrow> time \<Rightarrow> time
     \<Rightarrow> (registration_db, registration_continuation) prog" where
  "repo_complete_recovery_verification now ids cid vid old_pid hash expires new_expires =
     begin_tx fail_internal
      (exec_one (q_consume_verification_code now cid) (code_unavailable_err None)
      (exec_one (q_mark_verification_request_verified vid) request_not_pending
      (exec (q_get_pending_registration_by_id_for_update old_pid)
        (\<lambda>e. if errors_is e err_no_rows then fail (err_registration_not_pending (Some e)) else fail_internal e)
        (\<lambda>old.
          if pr_status old = PendingRegistrationCompleted then fail err_already_completed
          else if pr_status old \<noteq> PendingRegistrationPending then fail err_registration_expired
          else if pr_type old \<noteq> RegistrationTypeManual then fail err_not_manual
          else if is_expired now old then fail err_registration_expired
          else
            exec_one (q_force_expire_manual (pr_id old)) no_longer_pending
            (exec (q_create_pending_registration now (fst ids) (pr_email old) RegistrationTypeManual
                     PendingRegistrationPending new_expires) fail_mapped (\<lambda>new.
             exec_one (q_reassign_verification_request (pr_id new) vid)
               (conflict_with '''' ''verification request is no longer available'' None)
             (exec (q_create_registration_continuation now (snd ids) (pr_id new) hash expires) fail_mapped (\<lambda>k.
              commit fail_internal (ret k)))))))))"

definition repo_get_registration_continuation ::
  "string \<Rightarrow> (registration_db, registration_continuation \<times> pending_registration) prog" where
  "repo_get_registration_continuation hash =
     pool (q_get_registration_continuation hash)
       (\<lambda>e. if errors_is e err_no_rows then fail (continuation_unavailable (Some e)) else fail_internal e) ret"

record finalize_params =
  fp_registration :: uuid
  fp_continuation :: uuid
  fp_email :: string
  fp_display_name :: string
  fp_email_verified_at :: time

definition repo_finalize_manual_registration ::
  "time \<Rightarrow> uuid \<times> uuid \<Rightarrow> finalize_params \<Rightarrow> string \<Rightarrow> (registration_db, user) prog" where
  "repo_finalize_manual_registration now ids p password_hash =
     begin_tx fail_internal
      (exec (q_create_user (fst ids) (fp_email p) (fp_display_name p) (fp_email_verified_at p)) fail_mapped (\<lambda>u.
       exec (q_create_unsorted_collection (snd ids) (u_id u)) fail_internal (\<lambda>_.
       exec (q_create_password_credential (u_id u) password_hash) fail_internal (\<lambda>_.
       exec_one (q_consume_registration_continuation now (fp_continuation p)) (continuation_unavailable None)
       (exec_one (q_complete_pending_registration now (fp_registration p)) no_longer_pending
       (commit fail_internal (ret u)))))))"

definition repo_finalize_social_registration ::
  "time \<Rightarrow> uuid \<times> uuid \<times> uuid \<Rightarrow> finalize_params \<Rightarrow> (registration_db, user) prog" where
  "repo_finalize_social_registration now ids p =
     begin_tx fail_internal
      (exec (q_get_pending_social_identity (fp_registration p))
        (\<lambda>e. if errors_is e err_no_rows then fail_internal err_no_social_identity else fail_internal e)
        (\<lambda>i.
       exec (q_create_user (fst ids) (fp_email p) (fp_display_name p) (fp_email_verified_at p)) fail_mapped (\<lambda>u.
       exec (q_create_unsorted_collection (fst (snd ids)) (u_id u)) fail_internal (\<lambda>_.
       exec (q_create_auth_identity (snd (snd ids)) (u_id u) (psi_provider i) (psi_subject i)
               (psi_email_snapshot i) (psi_display_name_snapshot i)) fail_mapped (\<lambda>_.
       exec_one (q_consume_registration_continuation now (fp_continuation p)) (continuation_unavailable None)
       (exec_one (q_complete_pending_registration now (fp_registration p)) no_longer_pending
       (commit fail_internal (ret u))))))))"

section \<open>Service\<close>

text \<open>
  \<open>NormalizeEmail\<close>: \<open>strings.ToLower(strings.TrimSpace(email))\<close>, on ASCII addresses.
\<close>

definition normalize_email :: "string \<Rightarrow> string" where
  "normalize_email email = to_lower (trim_space email)"

text \<open>The columns \<open>expires_at\<close> are \<open>NOT NULL\<close>, so the branches for a missing expiry cannot be taken.\<close>

definition validate_verification_pending ::
  "time \<Rightarrow> verification_request \<Rightarrow> pending_registration \<Rightarrow> go_error option" where
  "validate_verification_pending now v r =
     (if vr_status v \<noteq> VerificationRequestPending then
        Some (conflict_with ''VERIFICATION_NOT_PENDING'' ''verification request is no longer pending'' None)
      else if pr_status r \<noteq> PendingRegistrationPending then Some (err_registration_not_pending None)
      else if \<not> now < pr_expires_at r then Some err_registration_expired
      else None)"

definition ensure_verification_cooldown_elapsed :: "time \<Rightarrow> verification_request \<Rightarrow> go_error option" where
  "ensure_verification_cooldown_elapsed now v =
     (case vr_last_sent_at v of
        None \<Rightarrow> None
      | Some at \<Rightarrow>
          if now < at + verification_resend_cooldown then
            Some (conflict_with ''VERIFICATION_RESEND_COOLDOWN'' ''verification code was sent too recently'' None)
          else None)"

definition validate_registration_continuation ::
  "time \<Rightarrow> registration_continuation \<Rightarrow> pending_registration \<Rightarrow> go_error option" where
  "validate_registration_continuation now k r =
     (if rc_consumed_at k \<noteq> None then
        Some (conflict_with ''REGISTRATION_CONTINUATION_CONSUMED''
                ''registration continuation has already been consumed'' None)
      else if \<not> now < rc_expires_at k then
        Some (conflict_with ''REGISTRATION_CONTINUATION_EXPIRED'' ''registration continuation has expired'' None)
      else if pr_status r \<noteq> PendingRegistrationPending then Some (err_registration_not_pending None)
      else if \<not> now < pr_expires_at r then Some err_registration_expired
      else None)"

definition register_manual ::
  "time \<Rightarrow> time \<times> time \<Rightarrow> (uuid \<times> uuid) \<times> (uuid \<times> uuid) \<Rightarrow> string \<Rightarrow> (registration_db, opened_verification) prog" where
  "register_manual app_now nows ids email0 =
     (let email = normalize_email email0 in
      call (repo_get_completed_registration_by_email email) fail (\<lambda>rid.
      if rid \<noteq> uuid_nil then fail err_already_completed
      else repo_create_manual_registration nows ids email (app_now + registration_expires_in)))"

definition initiate_manual_recovery ::
  "time \<Rightarrow> uuid \<Rightarrow> string \<Rightarrow> (registration_db, opened_verification) prog" where
  "initiate_manual_recovery now vid email0 =
     (let email = normalize_email email0 in
      call (repo_get_completed_registration_by_email email) fail (\<lambda>rid.
      if rid \<noteq> uuid_nil then fail err_already_completed
      else repo_initiate_manual_recovery now vid email))"

definition create_social_registration ::
  "time \<Rightarrow> time \<times> time \<Rightarrow> (uuid \<times> uuid \<times> uuid) \<times> (uuid \<times> uuid \<times> uuid) \<Rightarrow> social_params
     \<Rightarrow> (registration_db, uuid) prog" where
  "create_social_registration app_now nows ids p =
     repo_create_social_registration nows ids
       (p\<lparr>sp_email := normalize_email (sp_email p), sp_expires_at := app_now + registration_expires_in\<rparr>)"

record get_verification_result =
  gv_verification_id :: uuid
  gv_status :: verification_status
  gv_registration_expires_at :: time
  gv_last_sent_at :: "time option"
  gv_pin_issued_count :: int

definition get_verification :: "time \<Rightarrow> uuid \<Rightarrow> (registration_db, get_verification_result) prog" where
  "get_verification app_now vid =
     call (repo_get_verification vid) fail (\<lambda>(v, r).
     case validate_verification_pending app_now v r of
       Some e \<Rightarrow> fail e
     | None \<Rightarrow> ret \<lparr>gv_verification_id = vr_id v, gv_status = vr_status v,
                   gv_registration_expires_at = pr_expires_at r, gv_last_sent_at = vr_last_sent_at v,
                   gv_pin_issued_count = vr_pin_issued_count v\<rparr>)"

text \<open>
  What one \<open>VerifyRegistration\<close> meets: clocks, generated ids and token, and the hashers of
  \<open>internal/security\<close>.
\<close>

record verify_env =
  ve_app_now :: time
  ve_db_read :: time
  ve_db_write :: time
  ve_continuation_id :: uuid
  ve_new_registration_id :: uuid
  ve_token :: "go_error + string"
  ve_verify :: "string \<Rightarrow> string \<Rightarrow> bool"
  ve_hash_token :: "string \<Rightarrow> string"

definition complete_for ::
  "verify_env \<Rightarrow> verification_request \<Rightarrow> verification_code \<Rightarrow> string \<Rightarrow> (registration_db, registration_continuation) prog" where
  "complete_for env v c token =
     (let hash = ve_hash_token env token;
          expires = ve_app_now env + registration_continuation_expires_in in
      if vr_purpose v = VerificationPurposeRegistrationRecovery then
        repo_complete_recovery_verification (ve_db_write env)
          (ve_new_registration_id env, ve_continuation_id env) (vc_id c) (vr_id v) (vr_subject v) hash expires
          (ve_app_now env + registration_expires_in)
      else
        repo_complete_verification (ve_db_write env) (ve_continuation_id env) (vc_id c) (vr_id v) (vr_subject v)
          hash expires)"

definition verify_registration :: "verify_env \<Rightarrow> uuid \<Rightarrow> string \<Rightarrow> (registration_db, string) prog" where
  "verify_registration env vid pin =
     call (repo_get_verification vid) fail (\<lambda>(v, r).
     case validate_verification_pending (ve_app_now env) v r of
       Some e \<Rightarrow> fail e
     | None \<Rightarrow>
         call (repo_get_active_verification_code (ve_db_read env) vid verification_code_max_attempts) fail (\<lambda>c.
         if \<not> ve_verify env pin (vc_hash c) then
           call (repo_increment_verification_code_attempts (vc_id c) verification_code_max_attempts) fail (\<lambda>attempts.
           if attempts \<ge> verification_code_max_attempts then
             fail (conflict_with ''VERIFICATION_CODE_ATTEMPTS_EXCEEDED''
                     ''verification code attempt limit exceeded'' None)
           else fail (conflict_with ''INVALID_VERIFICATION_CODE'' ''verification code is invalid'' None))
         else
           (case ve_token env of
              Inl e \<Rightarrow> fail_internal e
            | Inr token \<Rightarrow> call (complete_for env v c token) fail (\<lambda>_. ret token))))"

record continuation_view =
  cv_email :: string
  cv_type :: registration_type
  cv_requires_password :: bool
  cv_expires_at :: time

definition get_registration_continuation ::
  "(string \<Rightarrow> string) \<Rightarrow> time \<Rightarrow> string \<Rightarrow> (registration_db, continuation_view) prog" where
  "get_registration_continuation hash_token app_now token =
     call (repo_get_registration_continuation (hash_token token)) fail (\<lambda>(k, r).
     case validate_registration_continuation app_now k r of
       Some e \<Rightarrow> fail e
     | None \<Rightarrow> ret \<lparr>cv_email = pr_email r, cv_type = pr_type r,
                   cv_requires_password = (pr_type r = RegistrationTypeManual), cv_expires_at = rc_expires_at k\<rparr>)"

text \<open>
  The password hasher (\<open>internal/security/password.go\<close>) answers with a hash or an error; a timeout of
  its capacity is told apart by its sentinel.
\<close>

definition password_work_timeout :: go_error where
  "password_work_timeout = Sentinel ''password work capacity was not available within the wait''"

definition password_work_error :: "go_error \<Rightarrow> duration \<Rightarrow> go_error" where
  "password_work_error e wait =
     (if \<not> errors_is e password_work_timeout then e
      else service_unavailable_with_retry_after ''PASSWORD_WORK_UNAVAILABLE''
             ''the server is busy, please try again shortly'' wait (Some e))"

record finalize_env =
  fe_app_now :: time
  fe_db_now :: time
  fe_user_id :: uuid
  fe_collection_id :: uuid
  fe_identity_id :: uuid
  fe_hash_token :: "string \<Rightarrow> string"
  fe_password_wait :: duration

definition finalize_args ::
  "finalize_env \<Rightarrow> registration_continuation \<Rightarrow> pending_registration \<Rightarrow> string \<Rightarrow> finalize_params" where
  "finalize_args env k r name =
     \<lparr>fp_registration = rc_registration k, fp_continuation = rc_id k, fp_email = pr_email r,
      fp_display_name = name, fp_email_verified_at = fe_app_now env\<rparr>"

definition finalize_manual_registration ::
  "finalize_env \<Rightarrow> (string \<Rightarrow> go_error + string) \<Rightarrow> string \<Rightarrow> string \<Rightarrow> string \<Rightarrow> (registration_db, user) prog" where
  "finalize_manual_registration env hash_password token name password =
     call (repo_get_registration_continuation (fe_hash_token env token)) fail (\<lambda>(k, r).
     case validate_registration_continuation (fe_app_now env) k r of
       Some e \<Rightarrow> fail e
     | None \<Rightarrow>
         if pr_type r \<noteq> RegistrationTypeManual then fail err_not_manual
         else
           (case hash_password password of
              Inl e \<Rightarrow> if errors_is e password_work_timeout
                       then fail (password_work_error e (fe_password_wait env)) else fail_internal e
            | Inr hash \<Rightarrow>
                repo_finalize_manual_registration (fe_db_now env) (fe_user_id env, fe_collection_id env)
                  (finalize_args env k r name) hash))"

record social_login =
  so_user :: user
  so_session :: create_session_result
  so_access_token :: string

text \<open>
  The session creator (\<open>session.SessionCreator\<close>) and the access-token generator are interfaces of other
  components, given here as functions. They run after the registration is committed.
\<close>

definition finalize_social_registration ::
  "finalize_env \<Rightarrow> (uuid \<Rightarrow> go_error + create_session_result) \<Rightarrow> (uuid \<Rightarrow> uuid \<Rightarrow> duration \<Rightarrow> go_error + string)
     \<Rightarrow> string \<Rightarrow> string \<Rightarrow> (registration_db, social_login) prog" where
  "finalize_social_registration env new_session access_token token name =
     call (repo_get_registration_continuation (fe_hash_token env token)) fail (\<lambda>(k, r).
     case validate_registration_continuation (fe_app_now env) k r of
       Some e \<Rightarrow> fail e
     | None \<Rightarrow>
         if pr_type r \<noteq> RegistrationTypeSocial then fail err_not_social
         else
           call (repo_finalize_social_registration (fe_db_now env)
                   (fe_user_id env, fe_collection_id env, fe_identity_id env) (finalize_args env k r name)) fail (\<lambda>u.
           case new_session (u_id u) of
             Inl e \<Rightarrow> fail e
           | Inr s \<Rightarrow>
               (case access_token (u_id u) (s_id (cr_session s)) access_token_lifetime of
                  Inl e \<Rightarrow> fail_internal e
                | Inr access \<Rightarrow> ret \<lparr>so_user = u, so_session = s, so_access_token = access\<rparr>)))"

section \<open>Issuing a code\<close>

text \<open>
  \<open>issueVerificationCode\<close> works on two stores, the tables and the budgets in Redis, and on the mail
  sender. Everything it meets on the way is in \<open>issue_env\<close>.
\<close>

record issue_env =
  ie_get_fates :: "fate list"
  ie_app_pending :: time
  ie_app_cooldown :: time
  ie_email_call :: "fate \<times> int \<times> int \<times> (go_error + string)"
  ie_global_call :: "fate \<times> int \<times> int \<times> (go_error + string)"
  ie_code :: "go_error + string"
  ie_hash_code :: "string \<Rightarrow> string"
  ie_app_code :: time
  ie_issue_fates :: "fate list"
  ie_db_now :: time
  ie_code_id :: uuid
  ie_sent :: "go_error option"
  ie_refund :: "fate \<times> int"

definition reserve_pin_email ::
  "(string \<Rightarrow> string \<Rightarrow> nat list) \<Rightarrow> string \<Rightarrow> pin_email_budget \<Rightarrow> issue_env \<Rightarrow> string \<Rightarrow> keyspace
     \<Rightarrow> (go_error + sliding_result) \<times> keyspace" where
  "reserve_pin_email mac secret b env email ks =
     (case ie_email_call env of (f, t, now, g) \<Rightarrow>
      (case reserve_per_email mac secret f t now g (normalize_email email) b ks of
         (Inl e, ks') \<Rightarrow> (Inl (service_unavailable_with ''PIN_RATE_LIMIT_UNAVAILABLE''
            ''too many verification codes requested, please try again shortly'' (Some e)), ks')
       | (Inr r, ks') \<Rightarrow>
           if \<not> sl_allowed r then
             (Inl (too_many_requests_with_retry_after ''PIN_RATE_LIMIT_EXCEEDED''
                ''too many verification codes requested, please try again later'' (sl_retry_after r)), ks')
           else (Inr r, ks')))"

definition reserve_global_pin_email ::
  "(string \<Rightarrow> string \<Rightarrow> nat list) \<Rightarrow> string \<Rightarrow> pin_email_budget \<Rightarrow> issue_env \<Rightarrow> keyspace
     \<Rightarrow> (go_error + sliding_result) \<times> keyspace" where
  "reserve_global_pin_email mac secret b env ks =
     (case ie_global_call env of (f, t, now, g) \<Rightarrow>
      (case reserve_global mac secret f t now g b ks of
         (Inl e, ks') \<Rightarrow> (Inl (service_unavailable_with ''PIN_EMAIL_BUDGET_UNAVAILABLE''
            ''verification codes are temporarily unavailable, please try again shortly'' (Some e)), ks')
       | (Inr r, ks') \<Rightarrow>
           if \<not> sl_allowed r then
             (Inl (too_many_requests_with_retry_after ''PIN_EMAIL_BUDGET_EXCEEDED''
                ''verification codes are temporarily unavailable, please try again later'' (sl_retry_after r)), ks')
           else (Inr r, ks')))"

definition issue_verification_code ::
  "(string \<Rightarrow> string \<Rightarrow> nat list) \<Rightarrow> string \<Rightarrow> pin_email_budget \<Rightarrow> issue_env \<Rightarrow> uuid \<Rightarrow> registration_db \<times> keyspace
     \<Rightarrow> (go_error + uuid) \<times> registration_db \<times> keyspace" where
  "issue_verification_code mac secret b env vid st =
     (let (rf, rt) = ie_refund env in
      case st of (db, ks) \<Rightarrow>
      (case run (repo_get_verification vid) db (ie_get_fates env) of
         (Inl e, db) \<Rightarrow> (Inl e, db, ks)
       | (Inr (v, r), db) \<Rightarrow>
      (case validate_verification_pending (ie_app_pending env) v r of
         Some e \<Rightarrow> (Inl e, db, ks)
       | None \<Rightarrow>
      (case ensure_verification_cooldown_elapsed (ie_app_cooldown env) v of
         Some e \<Rightarrow> (Inl e, db, ks)
       | None \<Rightarrow>
      (case reserve_pin_email mac secret b env (pr_email r) ks of
         (Inl e, ks) \<Rightarrow> (Inl e, db, ks)
       | (Inr _, ks) \<Rightarrow>
      (case reserve_global_pin_email mac secret b env ks of
         (Inl e, ks) \<Rightarrow> (Inl e, db, ks)
       | (Inr global, ks) \<Rightarrow>
      (case ie_code env of
         Inl e \<Rightarrow> (Inl (internal (Some e)), db, snd (refund_global mac secret rf rt (sl_admission global) ks))
       | Inr code \<Rightarrow>
      (case run (repo_issue_verification_code (ie_db_now env) (ie_code_id env) vid (ie_hash_code env code)
                   (ie_app_code env + verification_code_expires_in)) db (ie_issue_fates env) of
         (Inl e, db) \<Rightarrow> (Inl e, db, snd (refund_global mac secret rf rt (sl_admission global) ks))
       | (Inr _, db) \<Rightarrow>
      (case deliver mac secret rf rt global (ie_sent env) ks of
         (Some e, ks) \<Rightarrow>
           (Inl (service_unavailable_with_retry_after ''PIN_EMAIL_DELIVERY_FAILED''
                   ''the verification code could not be sent, please try again shortly''
                   verification_resend_cooldown (Some e)), db, ks)
       | (None, ks) \<Rightarrow> (Inr vid, db, ks))))))))))"

text \<open>Both routes that send a code, the first and every later one, issue it the same way.\<close>

definition create_pin ::
  "(string \<Rightarrow> string \<Rightarrow> nat list) \<Rightarrow> string \<Rightarrow> pin_email_budget \<Rightarrow> issue_env \<Rightarrow> uuid \<Rightarrow> registration_db \<times> keyspace
     \<Rightarrow> (go_error + uuid) \<times> registration_db \<times> keyspace" where
  "create_pin mac secret b env vid st =
     (case issue_verification_code mac secret b env vid st of
        (Inl e, st') \<Rightarrow> (Inl e, st')
      | (Inr issued, st') \<Rightarrow> (Inr issued, st'))"

definition resend_verification ::
  "(string \<Rightarrow> string \<Rightarrow> nat list) \<Rightarrow> string \<Rightarrow> pin_email_budget \<Rightarrow> issue_env \<Rightarrow> uuid \<Rightarrow> registration_db \<times> keyspace
     \<Rightarrow> (go_error + uuid) \<times> registration_db \<times> keyspace" where
  "resend_verification mac secret b env vid st =
     (case issue_verification_code mac secret b env vid st of
        (Inl e, st') \<Rightarrow> (Inl e, st')
      | (Inr issued, st') \<Rightarrow> (Inr issued, st'))"

end
