(* ===== verification/RegistrationTables.thy ===== *)
theory RegistrationTables
  imports Registration
begin

text \<open>
  The constraints of the registration tables (keys, unique indexes, attempt bounds, references) and
  that every statement of the generated queries keeps them, with the rules that walk a repository
  program under an invariant: a statement that keeps the invariant costs one rule application.
\<close>

section \<open>Walking updates of one row\<close>

lemma wp_exec_one:
  assumes "\<And>e. wp Q (fail_internal e) d w"
    and "\<And>n w'. q w = Inr (n, w') \<Longrightarrow> n \<noteq> 1 \<Longrightarrow> Q (Inl refusal) d"
    and "\<And>w'. q w = Inr (1, w') \<Longrightarrow> wp Q k d w'"
  shows "wp Q (exec_one q refusal k) d w"
  unfolding exec_one_def
proof (rule wp_exec)
  show "wp Q (fail_internal DbFault) d w" by (rule assms(1))
  show "wp Q (fail_internal e) d w" for e by (rule assms(1))
  show "wp Q (if n \<noteq> 1 then fail refusal else k) d w'" if q: "q w = Inr (n, w')" for n w'
    using assms(2)[OF q] assms(3)[of w'] q by (cases "n = 1") (simp_all add: wp_fail)
qed

lemma wp_exec_one_kept:
  assumes "kept I q" and "I w" and "I d"
    and "\<And>w'. q w = Inr (1, w') \<Longrightarrow> I w' \<Longrightarrow> wp (\<lambda>_. I) k d w'"
  shows "wp (\<lambda>_. I) (exec_one q refusal k) d w"
  by (rule wp_exec_one) (use assms(2-4) keptD[OF assms(1)] in \<open>auto intro: wp_fail_internal\<close>)

lemma wp_fail_mapped [wp_intros]: "Q (Inl (map_registration_db_error e)) d \<Longrightarrow> wp Q (fail_mapped e) d w"
  by (simp add: fail_mapped_def wp_fail)

lemma distinct_filter_update_where:
  assumes "distinct (map key (filter q rows))"
    and "\<And>r. p r \<Longrightarrow> key (f r) = key r" and "\<And>r. p r \<Longrightarrow> q (f r) \<Longrightarrow> q r"
  shows "distinct (map key (filter q (update_where p f rows)))"
proof -
  have sub: "key ` set (filter q (update_where p f rows)) \<subseteq> key ` set (filter q rows)" for rows
    using assms(2,3) by (force simp: set_update_where split: if_splits)
  show ?thesis using assms(1)
  proof (induction rows)
    case (Cons r rows)
    then show ?case using sub[of rows] assms(2)[of r] assms(3)[of r]
      by (cases "p r"; cases "q r"; cases "q (f r)") (auto simp: table_simps)
  qed (simp add: table_simps)
qed

section \<open>The constraints of the tables\<close>

definition registrations_ok :: "pending_registration list \<Rightarrow> bool" where
  "registrations_ok rs \<longleftrightarrow> distinct (map pr_id rs) \<and> distinct (map pr_email (filter holds_email rs))"

definition codes_ok :: "verification_request list \<Rightarrow> verification_code list \<Rightarrow> bool" where
  "codes_ok vs cs \<longleftrightarrow> distinct (map vr_id vs) \<and> distinct (map vc_id cs) \<and>
     distinct (map vc_request (filter code_active cs)) \<and>
     (\<forall>c\<in>set cs. 0 \<le> vc_attempts c \<and> vc_attempts c \<le> verification_code_max_attempts \<and>
        vc_request c \<in> vr_id ` set vs)"

definition continuations_ok :: "pending_registration list \<Rightarrow> registration_continuation list \<Rightarrow> bool" where
  "continuations_ok rs ks \<longleftrightarrow> distinct (map rc_id ks) \<and> distinct (map rc_registration ks) \<and>
     distinct (map rc_hash ks) \<and> rc_registration ` set ks \<subseteq> pr_id ` set rs"

definition accounts_ok :: "registration_db \<Rightarrow> bool" where
  "accounts_ok db \<longleftrightarrow> distinct (map u_id (accounts db)) \<and> distinct (map u_email (accounts db)) \<and>
     distinct (map uc_user (unsorted db)) \<and> distinct (map pc_user (credentials db)) \<and>
     distinct (map (\<lambda>i. (ai_provider i, ai_subject i)) (identities db))"

definition tables_ok :: "registration_db \<Rightarrow> bool" where
  "tables_ok db \<longleftrightarrow> registrations_ok (registrations db) \<and> codes_ok (requests db) (codes db) \<and>
     continuations_ok (registrations db) (continuations db) \<and>
     distinct (map psi_registration (social_identities db)) \<and> accounts_ok db"

lemmas tables_ok_defs = tables_ok_def registrations_ok_def codes_ok_def continuations_ok_def accounts_ok_def


lemma distinct_snoc: "distinct (map f (xs @ [x])) \<longleftrightarrow> distinct (map f xs) \<and> f x \<notin> f ` set xs"
  by simp

lemmas insert_defs = q_create_pending_registration_def q_create_verification_request_def
  q_create_verification_code_def q_create_registration_continuation_def q_create_user_def
  q_create_unsorted_collection_def q_create_password_credential_def
  q_create_pending_social_identity_def q_create_auth_identity_def has_identity_def

lemma tables_snoc:
  "registrations_ok rs \<Longrightarrow> pr_id r \<notin> pr_id ` set rs \<Longrightarrow>
     (holds_email r \<Longrightarrow> pr_email r \<notin> pr_email ` set (filter holds_email rs)) \<Longrightarrow> registrations_ok (rs @ [r])"
  "codes_ok vs cs \<Longrightarrow> vr_id v \<notin> vr_id ` set vs \<Longrightarrow> codes_ok (vs @ [v]) cs"
  "codes_ok vs cs \<Longrightarrow> vc_id c \<notin> vc_id ` set cs \<Longrightarrow> vc_request c \<in> vr_id ` set vs \<Longrightarrow> vc_attempts c = 0 \<Longrightarrow>
     vc_request c \<notin> vc_request ` set (filter code_active cs) \<Longrightarrow> codes_ok vs (cs @ [c])"
  "continuations_ok rs ks \<Longrightarrow> continuations_ok (rs @ [r]) ks"
  "continuations_ok rs ks \<Longrightarrow> rc_id k \<notin> rc_id ` set ks \<Longrightarrow> rc_registration k \<notin> rc_registration ` set ks \<Longrightarrow>
     rc_hash k \<notin> rc_hash ` set ks \<Longrightarrow> rc_registration k \<in> pr_id ` set rs \<Longrightarrow> continuations_ok rs (ks @ [k])"
  by (simp_all add: registrations_ok_def codes_ok_def continuations_ok_def verification_code_max_attempts_def
      subset_insertI2)

lemma holds_email_new [simp]:
  "holds_email \<lparr>pr_id = pid, pr_email = email, pr_type = ty, pr_status = st, pr_created_at = now,
     pr_expires_at = ex\<rparr> \<longleftrightarrow> st \<noteq> PendingRegistrationExpired"
  by (simp add: holds_email_def)

lemma kept_tables_inserts [kept_rules]:
  "kept tables_ok (q_create_pending_registration now pid email ty st ex)"
  "kept tables_ok (q_create_verification_request now vid sty subj purpose vst)"
  "kept tables_ok (q_create_verification_code now cid vid hash ex)"
  "kept tables_ok (q_create_registration_continuation now kid pid hash ex)"
  "kept tables_ok (q_create_user uid email name at)"
  "kept tables_ok (q_create_unsorted_collection cid uid)"
  "kept tables_ok (q_create_password_credential uid phash)"
  "kept tables_ok (q_create_pending_social_identity iid pid provider subject em dn)"
  "kept tables_ok (q_create_auth_identity aid uid provider subject em dn)"
  by (rule keptI, auto simp: insert_defs has_key_iff tables_ok_def accounts_ok_def Let_def split: if_splits
        intro!: tables_snoc)+

lemmas update_defs = q_update_verification_request_pin_issued_def q_consume_verification_code_def
  q_mark_verification_request_verified_def q_reassign_verification_request_def expire_where_def
  q_force_expire_social_def q_force_expire_manual_def q_expire_pending_registration_def
  q_consume_registration_continuation_def q_complete_pending_registration_def
  q_increment_verification_code_attempts_def q_invalidate_verification_code_def

lemma registrations_ok_update:
  "registrations_ok rs \<Longrightarrow> (\<And>r. p r \<Longrightarrow> holds_email r) \<Longrightarrow>
     registrations_ok (update_where p (\<lambda>r. r\<lparr>pr_status := st\<rparr>) rs)"
  unfolding registrations_ok_def by (auto simp: table_simps intro!: distinct_filter_update_where)

lemma codes_okD:
  "codes_ok vs cs \<Longrightarrow> c \<in> set cs \<Longrightarrow> 0 \<le> vc_attempts c"
  "codes_ok vs cs \<Longrightarrow> c \<in> set cs \<Longrightarrow> vc_attempts c \<le> verification_code_max_attempts"
  by (auto simp: codes_ok_def)

lemma codes_ok_update_codes:
  assumes "codes_ok vs cs" and "\<And>c. p c \<Longrightarrow> vc_id (f c) = vc_id c \<and> vc_request (f c) = vc_request c"
    and "\<And>c. p c \<Longrightarrow> code_active (f c) \<Longrightarrow> code_active c"
    and "\<And>c. p c \<Longrightarrow> c \<in> set cs \<Longrightarrow> 0 \<le> vc_attempts (f c) \<and> vc_attempts (f c) \<le> verification_code_max_attempts"
  shows "codes_ok vs (update_where p f cs)"
  using assms unfolding codes_ok_def
  by (auto simp: table_simps set_update_where intro!: distinct_filter_update_where)

lemma codes_ok_update_requests:
  assumes "codes_ok vs cs" and "\<And>v. p v \<Longrightarrow> vr_id (f v) = vr_id v"
  shows "codes_ok (update_where p f vs) cs"
  using assms unfolding codes_ok_def by (auto simp: table_simps)

lemma continuations_ok_update:
  "continuations_ok rs ks \<Longrightarrow> continuations_ok rs (update_where p (\<lambda>k. k\<lparr>rc_consumed_at := at\<rparr>) ks)"
  "continuations_ok rs ks \<Longrightarrow> continuations_ok (update_where q (\<lambda>r. r\<lparr>pr_status := st\<rparr>) rs) ks"
  unfolding continuations_ok_def by (simp_all add: table_simps)

lemma kept_tables_updates [kept_rules]:
  "kept tables_ok (q_update_verification_request_pin_issued now vid)"
  "kept tables_ok (q_consume_verification_code now cid)"
  "kept tables_ok (q_mark_verification_request_verified vid)"
  "kept tables_ok (q_reassign_verification_request subj vid)"
  "kept tables_ok (q_force_expire_social pid)"
  "kept tables_ok (q_force_expire_manual pid)"
  "kept tables_ok (q_expire_pending_registration now pid)"
  "kept tables_ok (q_consume_registration_continuation now kid)"
  "kept tables_ok (q_complete_pending_registration now pid)"
  "kept tables_ok (q_invalidate_verification_code now vid)"
  by (rule keptI, auto simp: update_defs tables_ok_def accounts_ok_def holds_email_def code_active_def
        consumable_def completable_def codes_okD Let_def split: option.splits
        intro!: registrations_ok_update codes_ok_update_codes codes_ok_update_requests continuations_ok_update)+

lemma kept_tables_increment [kept_rules]:
  "kept tables_ok (q_increment_verification_code_attempts cid verification_code_max_attempts)"
  by (rule keptI) (auto simp: update_defs tables_ok_def accounts_ok_def code_active_def codes_okD
        split: option.splits intro!: codes_ok_update_codes)

end
