(* ===== verification/RegistrationInv.thy ===== *)
theory RegistrationInv
  imports RegistrationTables
begin

text \<open>
  The invariant of the registration tables across calls: the constraints of the tables, one opening
  request per registration, a verified request with a consumed code behind every continuation, and
  accounts that match completed registrations. Single statements that keep all parts are collected
  first; then come the statement sequences that break a part and restore it before they commit
  (a registration and its request, a recovery's reassignment, the opening of an account).
\<close>

section \<open>Openings, continuations and accounts\<close>

definition opens_one :: "verification_request \<Rightarrow> bool" where
  "opens_one v \<longleftrightarrow> vr_subject_type v = VerificationSubjectPendingRegistration \<and>
     vr_purpose v = VerificationPurposeRegistration"

text \<open>Every registration has exactly one request that opens it.\<close>

definition openings_ok :: "registration_db \<Rightarrow> bool" where
  "openings_ok db \<longleftrightarrow> vr_subject ` set (requests db) \<subseteq> pr_id ` set (registrations db) \<and>
     distinct (map vr_subject (filter opens_one (requests db))) \<and>
     pr_id ` set (registrations db) \<subseteq> vr_subject ` set (filter opens_one (requests db))"

text \<open>A continuation exists only for a registration whose opening request was verified with a code.\<close>

definition code_used :: "registration_db \<Rightarrow> uuid \<Rightarrow> bool" where
  "code_used db vid \<longleftrightarrow> (\<exists>c\<in>set (codes db). vc_request c = vid \<and> vc_consumed_at c \<noteq> None)"

definition email_proved :: "registration_db \<Rightarrow> uuid \<Rightarrow> bool" where
  "email_proved db pid \<longleftrightarrow> (\<exists>v\<in>set (requests db). opens_one v \<and> vr_subject v = pid \<and>
     vr_status v = VerificationRequestVerified \<and> code_used db (vr_id v))"

definition continuations_proved :: "registration_db \<Rightarrow> bool" where
  "continuations_proved db \<longleftrightarrow> (\<forall>k\<in>set (continuations db). email_proved db (rc_registration k))"

text \<open>Accounts, completed registrations and consumed continuations correspond.\<close>

definition completed_with :: "registration_db \<Rightarrow> string \<Rightarrow> bool" where
  "completed_with db email \<longleftrightarrow> (\<exists>r\<in>set (registrations db). pr_email r = email \<and>
     pr_status r = PendingRegistrationCompleted \<and>
     (\<exists>k\<in>set (continuations db). rc_registration k = pr_id r \<and> rc_consumed_at k \<noteq> None))"

definition accounts_matched :: "registration_db \<Rightarrow> bool" where
  "accounts_matched db \<longleftrightarrow> (\<forall>u\<in>set (accounts db). completed_with db (u_email u)) \<and>
     (\<forall>r\<in>set (registrations db). pr_status r = PendingRegistrationCompleted \<longrightarrow>
        pr_email r \<in> u_email ` set (accounts db)) \<and>
     (\<forall>k\<in>set (continuations db). rc_consumed_at k \<noteq> None \<longrightarrow>
        (\<exists>r\<in>set (registrations db). pr_id r = rc_registration k \<and> pr_status r = PendingRegistrationCompleted)) \<and>
     map uc_user (unsorted db) = map u_id (accounts db) \<and>
     u_id ` set (accounts db) \<subseteq> pc_user ` set (credentials db) \<union> ai_user ` set (identities db)"

definition registration_inv :: "registration_db \<Rightarrow> bool" where
  "registration_inv db \<longleftrightarrow> tables_ok db \<and> openings_ok db \<and> continuations_proved db \<and> accounts_matched db"

section \<open>Statements that keep them\<close>

lemma openings_ok_cong:
  "openings_ok d \<Longrightarrow> requests d' = requests d \<Longrightarrow> registrations d' = registrations d \<Longrightarrow> openings_ok d'"
  by (simp add: openings_ok_def)

lemma kept_openings [kept_rules]:
  "kept openings_ok (q_create_verification_code now cid vid hash ex)"
  "kept openings_ok (q_create_registration_continuation now kid pid hash ex)"
  "kept openings_ok (q_create_user uid email name at)"
  "kept openings_ok (q_create_unsorted_collection cid uid)"
  "kept openings_ok (q_create_password_credential uid phash)"
  "kept openings_ok (q_create_pending_social_identity iid pid provider subject em dn)"
  "kept openings_ok (q_create_auth_identity aid uid provider subject em dn)"
  by (rule keptI, erule openings_ok_cong; force simp: insert_defs Let_def split: if_splits)+

lemma openings_ok_requests_update:
  "openings_ok db \<Longrightarrow> (\<And>v. p v \<Longrightarrow> vr_subject (f v) = vr_subject v \<and> opens_one (f v) = opens_one v) \<Longrightarrow>
     openings_ok (db\<lparr>requests := update_where p f (requests db)\<rparr>)"
  unfolding openings_ok_def by (simp add: table_simps)

lemma openings_ok_registrations_update:
  "openings_ok db \<Longrightarrow> (\<And>r. p r \<Longrightarrow> pr_id (f r) = pr_id r) \<Longrightarrow>
     openings_ok (db\<lparr>registrations := update_where p f (registrations db)\<rparr>)"
  unfolding openings_ok_def by (simp add: table_simps)

lemma openings_ok_other [simp]:
  "openings_ok (db\<lparr>codes := cs\<rparr>) = openings_ok db"
  "openings_ok (db\<lparr>continuations := ks\<rparr>) = openings_ok db"
  by (simp_all add: openings_ok_def)

lemma kept_openings_updates [kept_rules]:
  "kept openings_ok (q_update_verification_request_pin_issued now vid)"
  "kept openings_ok (q_consume_verification_code now cid)"
  "kept openings_ok (q_mark_verification_request_verified vid)"
  "kept openings_ok (q_force_expire_social pid)"
  "kept openings_ok (q_force_expire_manual pid)"
  "kept openings_ok (q_expire_pending_registration now pid)"
  "kept openings_ok (q_consume_registration_continuation now kid)"
  "kept openings_ok (q_complete_pending_registration now pid)"
  "kept openings_ok (q_invalidate_verification_code now vid)"
  "kept openings_ok (q_increment_verification_code_attempts cid mx)"
  by (rule keptI, auto simp: update_defs opens_one_def Let_def split: option.splits
        intro!: openings_ok_requests_update openings_ok_registrations_update)+

text \<open>What a change must respect for the evidence behind a continuation to stand.\<close>

definition evidence_stands :: "registration_db \<Rightarrow> registration_db \<Rightarrow> bool" where
  "evidence_stands d d' \<longleftrightarrow>
     (\<forall>v\<in>set (requests d). opens_one v \<and> vr_status v = VerificationRequestVerified \<longrightarrow>
        (\<exists>v'\<in>set (requests d'). opens_one v' \<and> vr_status v' = VerificationRequestVerified \<and>
           vr_id v' = vr_id v \<and> vr_subject v' = vr_subject v)) \<and>
     (\<forall>c\<in>set (codes d). vc_consumed_at c \<noteq> None \<longrightarrow>
        (\<exists>c'\<in>set (codes d'). vc_consumed_at c' \<noteq> None \<and> vc_request c' = vc_request c))"

lemma email_proved_mono: "evidence_stands d d' \<Longrightarrow> email_proved d pid \<Longrightarrow> email_proved d' pid"
  unfolding evidence_stands_def email_proved_def code_used_def by metis

lemma evidence_stands_refl [simp]: "evidence_stands d d"
  by (auto simp: evidence_stands_def)

lemma evidence_stands_codes:
  "(\<And>c. c \<in> set (codes d) \<Longrightarrow> vc_consumed_at c \<noteq> None \<Longrightarrow>
      \<exists>c'\<in>set cs. vc_consumed_at c' \<noteq> None \<and> vc_request c' = vc_request c) \<Longrightarrow>
   evidence_stands d (d\<lparr>codes := cs\<rparr>)"
  by (auto simp: evidence_stands_def)

lemma evidence_stands_codes_update:
  assumes "\<And>c. p c \<Longrightarrow> vc_request (f c) = vc_request c \<and> (vc_consumed_at c \<noteq> None \<longrightarrow> vc_consumed_at (f c) \<noteq> None)"
  shows "evidence_stands d (d\<lparr>codes := update_where p f (codes d)\<rparr>)"
proof (rule evidence_stands_codes)
  fix c assume "c \<in> set (codes d)" "vc_consumed_at c \<noteq> None"
  with assms[of c] show "\<exists>c'\<in>set (update_where p f (codes d)). vc_consumed_at c' \<noteq> None \<and> vc_request c' = vc_request c"
    by (intro bexI[of _ "if p c then f c else c"]) (auto simp: set_update_where)
qed

lemma evidence_stands_requests_update:
  assumes "\<And>v. p v \<Longrightarrow> opens_one v \<Longrightarrow> vr_status v = VerificationRequestVerified \<Longrightarrow>
      opens_one (f v) \<and> vr_status (f v) = VerificationRequestVerified \<and> vr_id (f v) = vr_id v \<and>
      vr_subject (f v) = vr_subject v"
  shows "evidence_stands d (d\<lparr>requests := update_where p f (requests d)\<rparr>)"
  unfolding evidence_stands_def
proof (intro conjI ballI impI, goal_cases)
  case (1 v)
  with assms[of v] show ?case
    by (intro bexI[of _ "if p v then f v else v"]) (auto simp: set_update_where)
qed auto

lemma continuations_proved_mono:
  "continuations_proved d \<Longrightarrow> evidence_stands d d' \<Longrightarrow>
     rc_registration ` set (continuations d') \<subseteq> rc_registration ` set (continuations d) \<Longrightarrow>
     continuations_proved d'"
  unfolding continuations_proved_def by (force intro: email_proved_mono)

lemma kept_proved [kept_rules]:
  "kept continuations_proved (q_create_pending_registration now pid email ty st ex)"
  "kept continuations_proved (q_create_verification_request now vid sty subj purpose vst)"
  "kept continuations_proved (q_create_verification_code now cid vid hash ex)"
  "kept continuations_proved (q_create_user uid email name at)"
  "kept continuations_proved (q_create_unsorted_collection cid uid)"
  "kept continuations_proved (q_create_password_credential uid phash)"
  "kept continuations_proved (q_create_pending_social_identity iid pid provider subject em dn)"
  "kept continuations_proved (q_create_auth_identity aid uid provider subject em dn)"
  "kept continuations_proved (q_force_expire_social pid)"
  "kept continuations_proved (q_force_expire_manual pid)"
  "kept continuations_proved (q_expire_pending_registration now pid)"
  "kept continuations_proved (q_consume_registration_continuation now kid)"
  "kept continuations_proved (q_complete_pending_registration now pid)"
  by (rule keptI, erule continuations_proved_mono,
      force simp: insert_defs update_defs evidence_stands_def Let_def split: if_splits,
      auto simp: insert_defs update_defs table_simps Let_def split: if_splits)+

lemma kept_proved_updates [kept_rules]:
  "kept continuations_proved (q_update_verification_request_pin_issued now vid)"
  "kept continuations_proved (q_consume_verification_code now cid)"
  "kept continuations_proved (q_mark_verification_request_verified vid)"
  "kept continuations_proved (q_reassign_verification_request subj vid)"
  "kept continuations_proved (q_invalidate_verification_code now vid)"
  "kept continuations_proved (q_increment_verification_code_attempts cid mx)"
  by (rule keptI, erule continuations_proved_mono,
      auto simp: update_defs opens_one_def reassignable_def Let_def split: option.splits
        intro!: evidence_stands_requests_update evidence_stands_codes_update)+


text \<open>What a change of the other tables must respect for the accounts to stay matched.\<close>

lemma accounts_matched_cong:
  assumes "accounts_matched d"
    and "accounts d' = accounts d" "unsorted d' = unsorted d" "credentials d' = credentials d"
        "identities d' = identities d" "continuations d' = continuations d"
    and "\<And>r. pr_status r = PendingRegistrationCompleted \<Longrightarrow>
           r \<in> set (registrations d') \<longleftrightarrow> r \<in> set (registrations d)"
  shows "accounts_matched d'"
proof -
  have *: "(\<exists>r\<in>set (registrations d'). P r \<and> pr_status r = PendingRegistrationCompleted) \<longleftrightarrow>
        (\<exists>r\<in>set (registrations d). P r \<and> pr_status r = PendingRegistrationCompleted)" for P
    using assms(7) by blast
  have "completed_with d' e = completed_with d e" for e
    unfolding completed_with_def assms(6) using assms(7) by blast
  moreover have "\<forall>r\<in>set (registrations d'). pr_status r = PendingRegistrationCompleted \<longrightarrow>
      pr_email r \<in> u_email ` set (accounts d)"
    using assms(1)[unfolded accounts_matched_def, THEN conjunct2, THEN conjunct1] assms(7) by blast
  ultimately show ?thesis using assms(1-6) unfolding accounts_matched_def * by simp
qed

lemma completed_untouched:
  "(\<And>r. p r \<Longrightarrow> pr_status r \<noteq> PendingRegistrationCompleted) \<Longrightarrow> pr_status r = PendingRegistrationCompleted \<Longrightarrow>
     r \<in> set (update_where p (\<lambda>r. r\<lparr>pr_status := PendingRegistrationExpired\<rparr>) rs) \<longleftrightarrow> r \<in> set rs"
  by (force simp: set_update_where image_iff)

lemma kept_matched [kept_rules]:
  "kept accounts_matched (q_create_pending_registration now pid email ty PendingRegistrationPending ex)"
  "kept accounts_matched (q_create_verification_request now vid sty subj purpose vst)"
  "kept accounts_matched (q_create_verification_code now cid vid hash ex)"
  "kept accounts_matched (q_create_pending_social_identity iid pid provider subject em dn)"
  "kept accounts_matched (q_update_verification_request_pin_issued now vid)"
  "kept accounts_matched (q_consume_verification_code now cid)"
  "kept accounts_matched (q_mark_verification_request_verified vid)"
  "kept accounts_matched (q_reassign_verification_request subj vid)"
  "kept accounts_matched (q_invalidate_verification_code now vid)"
  "kept accounts_matched (q_increment_verification_code_attempts cid mx)"
  by (rule keptI, erule accounts_matched_cong;
      force simp: insert_defs update_defs Let_def split: if_splits option.splits)+

lemma kept_matched_expire:
  assumes "\<And>r. p r \<Longrightarrow> pr_status r \<noteq> PendingRegistrationCompleted"
  shows "kept accounts_matched (expire_where p)"
  by (rule keptI, erule accounts_matched_cong) (auto simp: expire_where_def completed_untouched[OF assms])

lemma kept_matched_expires [kept_rules]:
  "kept accounts_matched (q_force_expire_social pid)"
  "kept accounts_matched (q_force_expire_manual pid)"
  "kept accounts_matched (q_expire_pending_registration now pid)"
  unfolding q_force_expire_social_def q_force_expire_manual_def q_expire_pending_registration_def
  by (rule kept_matched_expire, simp)+

lemma kept_matched_continuation [kept_rules]:
  "kept accounts_matched (q_create_registration_continuation now kid pid hash ex)"
  by (rule keptI) (fastforce simp: insert_defs accounts_matched_def completed_with_def Let_def split: if_splits)

lemma kept_inv:
  "kept tables_ok q \<Longrightarrow> kept openings_ok q \<Longrightarrow> kept continuations_proved q \<Longrightarrow> kept accounts_matched q \<Longrightarrow>
     kept registration_inv q"
  unfolding kept_def registration_inv_def by blast

lemma kept_registration_inv:
  "kept registration_inv (q_create_verification_code now cid vid hash ex)"
  "kept registration_inv (q_update_verification_request_pin_issued now vid)"
  "kept registration_inv (q_consume_verification_code now cid)"
  "kept registration_inv (q_mark_verification_request_verified vid)"
  "kept registration_inv (q_invalidate_verification_code now vid)"
  "kept registration_inv (q_increment_verification_code_attempts cid verification_code_max_attempts)"
  "kept registration_inv (q_force_expire_social pid)"
  "kept registration_inv (q_force_expire_manual pid)"
  "kept registration_inv (q_expire_pending_registration now pid)"
  "kept registration_inv (q_create_pending_social_identity iid pid provider subject em dn)"
  by (intro kept_inv kept_rules)+


text \<open>Statements that only read.\<close>

lemma kept_reads [simp]:
  "kept I (q_get_verification vid)"
  "kept I (q_get_active_verification_code now vid mx)"
  "kept I (q_get_completed_registration_by_email email)"
  "kept I (q_get_pending_registration_by_email_for_update email)"
  "kept I (q_get_pending_registration_by_id_for_update pid)"
  "kept I (q_get_pending_recovery_verification pid)"
  "kept I (q_has_usable_registration_continuation now pid)"
  "kept I (q_get_registration_continuation hash)"
  "kept I (q_get_pending_social_identity pid)"
  by (auto simp: kept_def q_get_verification_def q_get_active_verification_code_def
      q_get_completed_registration_by_email_def q_get_pending_registration_by_email_for_update_def
      q_get_pending_registration_by_id_for_update_def q_get_pending_recovery_verification_def
      q_has_usable_registration_continuation_def q_get_registration_continuation_def
      q_get_pending_social_identity_def split: option.splits sum.splits prod.splits)

section \<open>The registration pair: a row and its opening request\<close>

text \<open>The tables between the two inserts: everything holds, but the new row has no request yet.\<close>

definition awaiting_request :: "pending_registration \<Rightarrow> registration_db \<Rightarrow> bool" where
  "awaiting_request r db \<longleftrightarrow> tables_ok db \<and> continuations_proved db \<and> accounts_matched db \<and>
     pr_id r \<in> pr_id ` set (registrations db) \<and> pr_id r \<notin> vr_subject ` set (requests db) \<and>
     vr_subject ` set (requests db) \<subseteq> pr_id ` set (registrations db) \<and>
     distinct (map vr_subject (filter opens_one (requests db))) \<and>
     pr_id ` set (registrations db) \<subseteq> insert (pr_id r) (vr_subject ` set (filter opens_one (requests db)))"

lemma registration_created:
  assumes "registration_inv w"
    and q: "q_create_pending_registration now pid email ty PendingRegistrationPending ex w = Inr (r, w')"
  shows "awaiting_request r w'"
proof -
  have "tables_ok w'" "continuations_proved w'" "accounts_matched w'"
    using assms keptD[OF kept_rules(1) _ q] keptD[OF kept_proved(1) _ q] keptD[OF kept_matched(1) _ q]
    by (auto simp: registration_inv_def intro: keptD[OF kept_tables_inserts(1) _ q])
  moreover from q have "pid \<notin> pr_id ` set (registrations w)" "pr_id r = pid"
      "registrations w' = registrations w @ [r]" "requests w' = requests w"
    by (auto simp: q_create_pending_registration_def has_key_iff Let_def split: if_splits)
  moreover have "openings_ok w" using assms(1) by (simp add: registration_inv_def)
  ultimately show ?thesis
    unfolding awaiting_request_def openings_ok_def by (simp add: subset_insertI2) blast
qed

lemma kept_awaiting:
  "kept (awaiting_request r) (q_create_pending_social_identity iid pid provider subject em dn)"
proof (rule keptI)
  fix d x d' assume a: "awaiting_request r d"
    and q: "q_create_pending_social_identity iid pid provider subject em dn d = Inr (x, d')"
  then have "registrations d' = registrations d" "requests d' = requests d"
    by (auto simp: q_create_pending_social_identity_def Let_def split: if_splits)
  moreover have "tables_ok d'" "continuations_proved d'" "accounts_matched d'"
    using a by (auto simp: awaiting_request_def intro: keptD[OF kept_tables_inserts(8) _ q]
        keptD[OF kept_proved(7) _ q] keptD[OF kept_matched(4) _ q])
  ultimately show "awaiting_request r d'"
    using a by (simp add: awaiting_request_def)
qed

lemma request_created:
  assumes a: "awaiting_request r w"
    and q: "q_create_verification_request now vid VerificationSubjectPendingRegistration (pr_id r)
              VerificationPurposeRegistration st w = Inr (v, w')"
  shows "registration_inv w'"
proof -
  have "tables_ok w'" "continuations_proved w'" "accounts_matched w'"
    using a by (auto simp: awaiting_request_def intro: keptD[OF kept_tables_inserts(2) _ q]
        keptD[OF kept_proved(2) _ q] keptD[OF kept_matched(2) _ q])
  moreover from q have "requests w' = requests w @ [v]" "registrations w' = registrations w"
      "opens_one v" "vr_subject v = pr_id r"
    by (auto simp: q_create_verification_request_def opens_one_def Let_def split: if_splits)
  then have "openings_ok w'"
    using a unfolding awaiting_request_def openings_ok_def by (simp add: insert_absorb2) blast
  ultimately show ?thesis by (simp add: registration_inv_def)
qed

lemma wp_insert_manual:
  assumes "registration_inv d" and "registration_inv w"
  shows "wp (\<lambda>_. registration_inv) (insert_manual now ids email ex) d w"
  unfolding insert_manual_def
  by (intro wp_intros; (rule assms)?; erule request_created[OF registration_created[OF assms(2)]])

lemma wp_insert_social:
  assumes "registration_inv d" and "registration_inv w"
  shows "wp (\<lambda>_. registration_inv) (insert_social now ids p) d w"
  unfolding insert_social_def
  by (intro wp_intros; (rule assms)?; erule request_created[OF keptD[OF kept_awaiting registration_created[OF assms(2)]]])

section \<open>Proving an address\<close>

text \<open>
  What the service has read before it completes a verification: the code belongs to the request,
  and the request opens the registration (or, in a recovery, has the recovery purpose). Rows are
  never deleted and these columns never change, so what it read still holds when it writes.
\<close>

definition code_of :: "registration_db \<Rightarrow> uuid \<Rightarrow> uuid \<Rightarrow> bool" where
  "code_of db cid vid \<longleftrightarrow> (\<exists>c\<in>set (codes db). vc_id c = cid \<and> vc_request c = vid)"

definition opens :: "registration_db \<Rightarrow> uuid \<Rightarrow> uuid \<Rightarrow> bool" where
  "opens db vid pid \<longleftrightarrow> (\<exists>v\<in>set (requests db). vr_id v = vid \<and> vr_subject v = pid \<and> opens_one v)"

lemma in_update_where: "r \<in> set rows \<Longrightarrow> p r \<Longrightarrow> f r \<in> set (update_where p f rows)"
  by (auto simp: set_update_where)

lemma code_consumed:
  assumes "registration_inv w" and "code_of w cid vid"
    and q: "q_consume_verification_code now cid w = Inr (1, w')"
  shows "registration_inv w'" and "code_used w' vid" and "requests w' = requests w"
proof -
  show "registration_inv w'" by (rule keptD[OF kept_registration_inv(3) assms(1) q])
  from q have n: "0 < rows_where (consumable now cid) (codes w)"
    and w': "w' = w\<lparr>codes := update_where (consumable now cid) (\<lambda>c. c\<lparr>vc_consumed_at := Some now\<rparr>) (codes w)\<rparr>"
    by (simp_all add: q_consume_verification_code_def)
  from n obtain c where c: "c \<in> set (codes w)" "consumable now cid c" by (auto simp: rows_where_pos)
  moreover from assms(1) have "distinct (map vc_id (codes w))"
    by (simp add: registration_inv_def tables_ok_def codes_ok_def)
  ultimately have "vc_request c = vid"
    using assms(2) unfolding code_of_def consumable_def by (metis distinct_map_filter_inj)
  with c in_update_where[of c "codes w" "consumable now cid" "\<lambda>c. c\<lparr>vc_consumed_at := Some now\<rparr>"] show "code_used w' vid"
    unfolding code_used_def w' by (intro bexI[of _ "c\<lparr>vc_consumed_at := Some now\<rparr>"]) simp_all
  show "requests w' = requests w" using w' by simp
qed

lemma request_verified:
  assumes "registration_inv w" and "code_used w vid"
    and q: "q_mark_verification_request_verified vid w = Inr (1, w')"
  shows "registration_inv w'" and "code_used w' vid"
    and "opens w vid pid \<Longrightarrow> email_proved w' pid"
    and "\<exists>v\<in>set (requests w'). vr_id v = vid \<and> vr_status v = VerificationRequestVerified"
proof -
  show "registration_inv w'" by (rule keptD[OF kept_registration_inv(4) assms(1) q])
  from q have n: "0 < rows_where (verifiable vid) (requests w)"
    and w': "w' = w\<lparr>requests := update_where (verifiable vid)
                       (\<lambda>v. v\<lparr>vr_status := VerificationRequestVerified\<rparr>) (requests w)\<rparr>"
    by (simp_all add: q_mark_verification_request_verified_def)
  from w' assms(2) show used: "code_used w' vid" by (simp add: code_used_def)
  from n obtain v where v: "v \<in> set (requests w)" "verifiable vid v" by (auto simp: rows_where_pos)
  let ?v = "v\<lparr>vr_status := VerificationRequestVerified\<rparr>"
  have in': "?v \<in> set (requests w')"
    using in_update_where[of v "requests w" "verifiable vid" "\<lambda>v. v\<lparr>vr_status := VerificationRequestVerified\<rparr>"] v w' by simp
  with v show "\<exists>v\<in>set (requests w'). vr_id v = vid \<and> vr_status v = VerificationRequestVerified"
    by (intro bexI[of _ ?v]) (auto simp: verifiable_def)
  assume "opens w vid pid"
  moreover from assms(1) have "distinct (map vr_id (requests w))"
    by (simp add: registration_inv_def tables_ok_def codes_ok_def)
  ultimately have "vr_subject v = pid" "opens_one v"
    using v unfolding opens_def verifiable_def by (metis distinct_map_filter_inj)+
  with in' v used show "email_proved w' pid"
    unfolding email_proved_def by (intro bexI[of _ ?v]) (auto simp: opens_one_def verifiable_def)
qed

lemma continuation_created:
  assumes "registration_inv w" and "email_proved w pid"
    and q: "q_create_registration_continuation now kid pid hash ex w = Inr (k, w')"
  shows "registration_inv w'"
proof -
  from q have w': "w' = w\<lparr>continuations := continuations w @ [k]\<rparr>" and "rc_registration k = pid"
    by (auto simp: q_create_registration_continuation_def Let_def split: if_splits)
  then have "continuations_proved w'"
    using assms(1,2) by (simp add: registration_inv_def continuations_proved_def email_proved_def code_used_def)
  then show ?thesis
    using assms(1) keptD[OF kept_tables_inserts(4) _ q] keptD[OF kept_openings(2) _ q]
      keptD[OF kept_matched_continuation _ q] by (simp add: registration_inv_def)
qed

lemma wp_complete_verification:
  assumes I: "registration_inv d" and "code_of d cid vid" and "opens d vid pid"
  shows "wp (\<lambda>_. registration_inv) (repo_complete_verification now kid cid vid pid hash ex) d w"
proof -
  have *: "registration_inv w3"
    if q: "q_consume_verification_code now cid d = Inr (1, w1)"
      "q_mark_verification_request_verified vid w1 = Inr (1, w2)"
      "q_create_registration_continuation now kid pid hash ex w2 = Inr (k, w3)" for w1 w2 w3 k
  proof -
    note c = code_consumed[OF I assms(2) q(1)]
    have "opens w1 vid pid" using assms(3) c(3) by (simp add: opens_def)
    from continuation_created[OF request_verified(1)[OF c(1,2) q(2)] request_verified(3)[OF c(1,2) q(2) this] q(3)]
    show ?thesis .
  qed
  show ?thesis
    unfolding repo_complete_verification_def
    by (intro wp_intros wp_exec_one; (rule I)?; erule *)
qed

lemma distinct_filter_replace:
  assumes "rows_where p rows \<le> 1" and "\<And>r. p r \<Longrightarrow> \<not> q r \<and> key (f r) = s"
    and "s \<notin> key ` set rows" and "distinct (map key (filter q rows))"
  shows "distinct (map key (filter q (update_where p f rows)))"
  using assms
proof (induction rows)
  case (Cons r rows)
  show ?case
  proof (cases "p r")
    case True
    with Cons.prems(1) have "rows_where p rows = 0" by (simp add: rows_where_def)
    then have "update_where p f rows = rows" by (simp add: table_simps)
    with True Cons.prems show ?thesis by (auto simp: table_simps)
  next
    case False
    have "key ` set (filter q (update_where p f rows)) \<subseteq> insert s (key ` set (filter q rows))"
      using Cons.prems(2) by (auto simp: set_update_where)
    with False Cons show ?thesis by (auto simp: table_simps rows_where_def)
  qed
qed (simp add: table_simps)

lemma request_reassigned:
  assumes a: "awaiting_request r w" and "code_used w vid"
    and q: "q_reassign_verification_request (pr_id r) vid w = Inr (1, w')"
  shows "registration_inv w'" and "email_proved w' (pr_id r)"
proof -
  let ?f = "\<lambda>v. v\<lparr>vr_subject := pr_id r, vr_purpose := VerificationPurposeRegistration\<rparr>"
  from q have n: "rows_where (reassignable vid) (requests w) = 1"
    and w': "w' = w\<lparr>requests := update_where (reassignable vid) ?f (requests w)\<rparr>"
    by (simp_all add: q_reassign_verification_request_def)
  obtain v where v: "v \<in> set (requests w)" "reassignable vid v"
    using n rows_where_pos[of "reassignable vid" "requests w"] by auto
  have moved: "?f v \<in> set (update_where (reassignable vid) ?f (requests w))"
    using v by (rule in_update_where)
  have "opens_one (?f v)" and sub: "\<And>v. reassignable vid v \<Longrightarrow> \<not> opens_one v \<and> vr_subject (?f v) = pr_id r"
    using v by (auto simp: opens_one_def reassignable_def)
  then show "email_proved w' (pr_id r)"
    using moved v assms(2) unfolding email_proved_def w'
    by (intro bexI[of _ "?f v"]) (simp_all add: reassignable_def code_used_def)
  have one: "distinct (map vr_subject (filter opens_one (requests w')))"
    unfolding w' using a n sub
    by (auto simp: awaiting_request_def intro!: distinct_filter_replace[where s = "pr_id r"])
  have all: "insert (pr_id r) (vr_subject ` set (filter opens_one (requests w)))
      \<subseteq> vr_subject ` set (filter opens_one (requests w'))"
  proof (intro insert_subsetI image_subsetI)
    show "pr_id r \<in> vr_subject ` set (filter opens_one (requests w'))"
      using moved \<open>opens_one (?f v)\<close> unfolding w' by (intro image_eqI[of _ _ "?f v"]) simp_all
    fix x assume "x \<in> set (filter opens_one (requests w))"
    with sub have "x \<in> set (filter opens_one (requests w'))"
      unfolding w' by (force simp: set_update_where image_iff)
    then show "vr_subject x \<in> vr_subject ` set (filter opens_one (requests w'))" by simp
  qed
  have subjects: "vr_subject ` set (requests w') \<subseteq> insert (pr_id r) (vr_subject ` set (requests w))"
    unfolding w' by (auto simp: set_update_where)
  have "registrations w' = registrations w" using w' by simp
  moreover have "insert (pr_id r) (vr_subject ` set (requests w)) \<subseteq> pr_id ` set (registrations w)"
    and "pr_id ` set (registrations w) \<subseteq> insert (pr_id r) (vr_subject ` set (filter opens_one (requests w)))"
    using a unfolding awaiting_request_def by (simp_all only: insert_subset)
  ultimately have "openings_ok w'"
    unfolding openings_ok_def using one order_trans[OF subjects] order_trans[OF _ all] by metis
  moreover have "tables_ok w'" "continuations_proved w'" "accounts_matched w'"
    using a keptD[OF kept_tables_updates(4) _ q] keptD[OF kept_proved_updates(4) _ q]
      keptD[OF kept_matched(8) _ q] by (simp_all add: awaiting_request_def)
  ultimately show "registration_inv w'" by (simp add: registration_inv_def)
qed

lemma row_created:
  "q_create_pending_registration now pid email ty st ex w = Inr (r, w') \<Longrightarrow> codes w' = codes w"
  by (auto simp: q_create_pending_registration_def Let_def split: if_splits)

lemma wp_complete_recovery_verification:
  assumes I: "registration_inv d" and "code_of d cid vid"
  shows "wp (\<lambda>_. registration_inv) (repo_complete_recovery_verification now ids cid vid old hash ex new_ex) d w"
proof -
  have *: "registration_inv w6"
    if q: "q_consume_verification_code now cid d = Inr (1, w1)"
      "q_mark_verification_request_verified vid w1 = Inr (1, w2)"
      "q_get_pending_registration_by_id_for_update old w2 = Inr (r, w3)"
      "q_force_expire_manual (pr_id r) w3 = Inr (1, w4)"
      "q_create_pending_registration now (fst ids) (pr_email r) RegistrationTypeManual PendingRegistrationPending
         new_ex w4 = Inr (new, w5)"
      "q_reassign_verification_request (pr_id new) vid w5 = Inr (1, w5')"
      "q_create_registration_continuation now (snd ids) (pr_id new) hash ex w5' = Inr (k, w6)"
    for w1 w2 w3 w4 w5 w5' w6 r new k
  proof -
    note c = code_consumed[OF I assms(2) q(1)]
    note v = request_verified[OF c(1,2) q(2)]
    have w3: "registration_inv w3" by (rule keptD[where I = registration_inv, OF kept_reads(5) v(1) q(3)])
    have w4: "registration_inv w4" by (rule keptD[OF kept_registration_inv(8) w3 q(4)])
    have "codes w3 = codes w2" "codes w4 = codes w3"
      using q(3,4) by (auto simp: q_get_pending_registration_by_id_for_update_def q_force_expire_manual_def
          expire_where_def split: option.splits)
    then have "code_used w5 vid" using v(2) row_created[OF q(5)] by (simp add: code_used_def)
    note r = request_reassigned[OF registration_created[OF w4 q(5)] this q(6)]
    show ?thesis by (rule continuation_created[OF r q(7)])
  qed
  show ?thesis
    unfolding repo_complete_recovery_verification_def
    by (intro wp_intros wp_exec_one; (rule I)?; erule *)
qed

section \<open>Completing a registration\<close>

text \<open>What the service has read: the continuation's registration, and that registration's address.\<close>

definition leads_to :: "registration_db \<Rightarrow> uuid \<Rightarrow> uuid \<Rightarrow> string \<Rightarrow> bool" where
  "leads_to db kid pid email \<longleftrightarrow> (\<exists>k\<in>set (continuations db). rc_id k = kid \<and> rc_registration k = pid) \<and>
     (\<exists>r\<in>set (registrations db). pr_id r = pid \<and> pr_email r = email)"

definition account_opened ::
  "time \<Rightarrow> uuid \<Rightarrow> uuid \<Rightarrow> user \<Rightarrow> uuid \<Rightarrow> registration_db \<Rightarrow> registration_db" where
  "account_opened now kid pid u cid d = d\<lparr>
     accounts := accounts d @ [u],
     unsorted := unsorted d @ [\<lparr>uc_id = cid, uc_user = u_id u\<rparr>],
     continuations := update_where (usable_continuation now kid) (\<lambda>k. k\<lparr>rc_consumed_at := Some now\<rparr>) (continuations d),
     registrations := update_where (completable now pid) (\<lambda>r. r\<lparr>pr_status := PendingRegistrationCompleted\<rparr>)
                        (registrations d)\<rparr>"

lemma account_matches:
  assumes I: "registration_inv d" and g: "leads_to d kid pid (u_email u)"
    and n: "rows_where (usable_continuation now kid) (continuations d) = 1"
      "rows_where (completable now pid) (registrations d) = 1"
    and e: "accounts d' = accounts (account_opened now kid pid u cid d)"
      "unsorted d' = unsorted (account_opened now kid pid u cid d)"
      "continuations d' = continuations (account_opened now kid pid u cid d)"
      "registrations d' = registrations (account_opened now kid pid u cid d)"
    and m: "pc_user ` set (credentials d) \<union> ai_user ` set (identities d) \<union> {u_id u}
              \<subseteq> pc_user ` set (credentials d') \<union> ai_user ` set (identities d')"
  shows "accounts_matched d'"
proof -
  note defs = registration_inv_def tables_ok_def registrations_ok_def continuations_ok_def
  have ids: "distinct (map pr_id (registrations d))" "distinct (map rc_id (continuations d))"
    and A: "accounts_matched d" using I by (simp_all add: defs)
  obtain k where k: "k \<in> set (continuations d)" "usable_continuation now kid k"
    using n(1) rows_where_pos[of "usable_continuation now kid" "continuations d"] by auto
  obtain r where r: "r \<in> set (registrations d)" "completable now pid r"
    using n(2) rows_where_pos[of "completable now pid" "registrations d"] by auto
  have one_k: "rc_registration k' = pid" if "k' \<in> set (continuations d)" "usable_continuation now kid k'" for k'
    using g that ids(2) unfolding leads_to_def usable_continuation_def by (metis distinct_map_filter_inj)
  have one_r: "pr_email r' = u_email u" if "r' \<in> set (registrations d)" "completable now pid r'" for r'
    using g that ids(1) unfolding leads_to_def completable_def by (metis distinct_map_filter_inj)
  have keep_r: "x \<in> set (registrations d')" if "x \<in> set (registrations d)" "pr_status x = PendingRegistrationCompleted" for x
    using that e(4) by (force simp: account_opened_def set_update_where completable_def image_iff)
  have keep_k: "x \<in> set (continuations d')" if "x \<in> set (continuations d)" "rc_consumed_at x \<noteq> None" for x
    using that e(3) by (force simp: account_opened_def set_update_where usable_continuation_def image_iff)
  have new_r: "r\<lparr>pr_status := PendingRegistrationCompleted\<rparr> \<in> set (registrations d')"
    using in_update_where[of r "registrations d" "completable now pid"] r e(4) by (simp add: account_opened_def)
  have new_k: "k\<lparr>rc_consumed_at := Some now\<rparr> \<in> set (continuations d')"
    using in_update_where[of k "continuations d" "usable_continuation now kid"] k e(3) by (simp add: account_opened_def)
  have "completed_with d' (u_email v)" if "v \<in> set (accounts d)" for v
  proof -
    from A that have "completed_with d (u_email v)" by (simp add: accounts_matched_def)
    then obtain x y where "x \<in> set (registrations d)" "pr_email x = u_email v"
      "pr_status x = PendingRegistrationCompleted" "y \<in> set (continuations d)" "rc_registration y = pr_id x"
      "rc_consumed_at y \<noteq> None" unfolding completed_with_def by blast
    with keep_r[of x] keep_k[of y] show ?thesis unfolding completed_with_def by blast
  qed
  moreover have "completed_with d' (u_email u)"
    unfolding completed_with_def
    by (rule bexI[OF _ new_r], intro conjI bexI[OF _ new_k]) (use one_r[OF r] one_k[OF k] r in \<open>auto simp: completable_def\<close>)
  ultimately have 1: "\<forall>v\<in>set (accounts d'). completed_with d' (u_email v)"
    using e(1) by (auto simp: account_opened_def)
  have 2: "pr_email x \<in> u_email ` set (accounts d')"
    if "x \<in> set (registrations d')" "pr_status x = PendingRegistrationCompleted" for x
    using that e(1,4) A one_r unfolding accounts_matched_def account_opened_def
    by (auto simp: set_update_where split: if_splits)
  have 3: "\<exists>r\<in>set (registrations d'). pr_id r = rc_registration x \<and> pr_status r = PendingRegistrationCompleted"
    if x: "x \<in> set (continuations d')" "rc_consumed_at x \<noteq> None" for x
  proof (cases "x \<in> set (continuations d)")
    case True
    with A x keep_r show ?thesis unfolding accounts_matched_def by blast
  next
    case False
    with x e(3) have "rc_registration x = pid"
      using one_k by (auto simp: account_opened_def set_update_where split: if_splits)
    with new_r r show ?thesis by (intro bexI[OF _ new_r]) (simp add: completable_def)
  qed
  have "map uc_user (unsorted d') = map u_id (accounts d')"
    using A e(1,2) by (simp add: accounts_matched_def account_opened_def)
  moreover have "u_id ` set (accounts d') \<subseteq> pc_user ` set (credentials d') \<union> ai_user ` set (identities d')"
  proof -
    have "u_id ` set (accounts d') = u_id ` set (accounts d) \<union> {u_id u}"
      using e(1) by (simp add: account_opened_def)
    also have "\<dots> \<subseteq> pc_user ` set (credentials d) \<union> ai_user ` set (identities d) \<union> {u_id u}"
      using A unfolding accounts_matched_def by (intro Un_mono) simp_all
    finally show ?thesis using m by (rule order_trans)
  qed
  ultimately show ?thesis using 1 2 3 by (simp add: accounts_matched_def)
qed


lemma finalize_statements:
  "q_create_user uid email name at w = Inr (u, w') \<Longrightarrow> w' = w\<lparr>accounts := accounts w @ [u]\<rparr> \<and> u_email u = email"
  "q_create_unsorted_collection cid uid w = Inr (i, w') \<Longrightarrow>
     w' = w\<lparr>unsorted := unsorted w @ [\<lparr>uc_id = cid, uc_user = uid\<rparr>]\<rparr>"
  "q_create_password_credential uid phash w = Inr (x, w') \<Longrightarrow>
     w' = w\<lparr>credentials := credentials w @ [\<lparr>pc_user = uid, pc_hash = phash\<rparr>]\<rparr>"
  "q_create_auth_identity aid uid provider subject em dn w = Inr (x, w') \<Longrightarrow>
     w' = w\<lparr>identities := identities w @ [\<lparr>ai_id = aid, ai_user = uid, ai_provider = provider,
             ai_subject = subject, ai_email_snapshot = em, ai_display_name_snapshot = dn\<rparr>]\<rparr>"
  "q_consume_registration_continuation now kid w = Inr (n, w') \<Longrightarrow>
     n = rows_where (usable_continuation now kid) (continuations w) \<and>
     w' = w\<lparr>continuations := update_where (usable_continuation now kid)
             (\<lambda>k. k\<lparr>rc_consumed_at := Some now\<rparr>) (continuations w)\<rparr>"
  "q_complete_pending_registration now pid w = Inr (n, w') \<Longrightarrow>
     n = rows_where (completable now pid) (registrations w) \<and>
     w' = w\<lparr>registrations := update_where (completable now pid)
             (\<lambda>r. r\<lparr>pr_status := PendingRegistrationCompleted\<rparr>) (registrations w)\<rparr>"
  by (auto simp: insert_defs q_consume_registration_continuation_def q_complete_pending_registration_def
      Let_def split: if_splits)

text \<open>The part of the invariant the statements of a completion keep one by one.\<close>

definition core_inv :: "registration_db \<Rightarrow> bool" where
  "core_inv db \<longleftrightarrow> tables_ok db \<and> openings_ok db \<and> continuations_proved db"

lemma kept_core:
  "kept core_inv (q_create_user uid email name at)"
  "kept core_inv (q_create_unsorted_collection cid uid)"
  "kept core_inv (q_create_password_credential uid phash)"
  "kept core_inv (q_create_auth_identity aid uid provider subject em dn)"
  "kept core_inv (q_consume_registration_continuation now kid)"
  "kept core_inv (q_complete_pending_registration now pid)"
  unfolding core_inv_def[abs_def] by (intro kept_conj kept_rules)+

lemma registration_inv_core: "registration_inv db \<longleftrightarrow> core_inv db \<and> accounts_matched db"
  by (auto simp: registration_inv_def core_inv_def)

lemma wp_finalize_manual:
  assumes I: "registration_inv d" and g: "leads_to d (fp_continuation p) (fp_registration p) (fp_email p)"
  shows "wp (\<lambda>_. registration_inv) (repo_finalize_manual_registration now ids p phash) d w"
proof -
  have *: "registration_inv w5"
    if q: "q_create_user (fst ids) (fp_email p) (fp_display_name p) (fp_email_verified_at p) d = Inr (u, w1)"
      "q_create_unsorted_collection (snd ids) (u_id u) w1 = Inr (c, w2)"
      "q_create_password_credential (u_id u) phash w2 = Inr (x, w3)"
      "q_consume_registration_continuation now (fp_continuation p) w3 = Inr (1, w4)"
      "q_complete_pending_registration now (fp_registration p) w4 = Inr (1, w5)" for w1 w2 w3 w4 w5 u c x
  proof -
    note s = finalize_statements(1)[OF q(1)] finalize_statements(2)[OF q(2)] finalize_statements(3)[OF q(3)]
      finalize_statements(5)[OF q(4)] finalize_statements(6)[OF q(5)]
    have "core_inv d" using I by (simp add: registration_inv_core)
    then have "core_inv w5" using q keptD[OF kept_core(1)] keptD[OF kept_core(2)] keptD[OF kept_core(3)]
      keptD[OF kept_core(5)] keptD[OF kept_core(6)] by metis
    moreover have "accounts_matched w5"
      by (rule account_matches[OF I, where u = u and now = now and cid = "snd ids"])
         (use s g in \<open>auto simp: account_opened_def\<close>)
    ultimately show ?thesis by (simp add: registration_inv_core)
  qed
  show ?thesis
    unfolding repo_finalize_manual_registration_def
    by (intro wp_intros wp_exec_one; (rule I)?; erule *)
qed

lemma wp_finalize_social:
  assumes I: "registration_inv d" and g: "leads_to d (fp_continuation p) (fp_registration p) (fp_email p)"
  shows "wp (\<lambda>_. registration_inv) (repo_finalize_social_registration now ids p) d w"
proof -
  have *: "registration_inv w5"
    if q: "q_get_pending_social_identity (fp_registration p) d = Inr (i, w0)"
      "q_create_user (fst ids) (fp_email p) (fp_display_name p) (fp_email_verified_at p) w0 = Inr (u, w1)"
      "q_create_unsorted_collection (fst (snd ids)) (u_id u) w1 = Inr (c, w2)"
      "q_create_auth_identity (snd (snd ids)) (u_id u) (psi_provider i) (psi_subject i)
               (psi_email_snapshot i) (psi_display_name_snapshot i) w2 = Inr (x, w3)"
      "q_consume_registration_continuation now (fp_continuation p) w3 = Inr (1, w4)"
      "q_complete_pending_registration now (fp_registration p) w4 = Inr (1, w5)" for w0 w1 w2 w3 w4 w5 i u c x
  proof -
    have w0: "w0 = d" using q(1) by (auto simp: q_get_pending_social_identity_def split: option.splits)
    note s = finalize_statements(1)[OF q(2)] finalize_statements(2)[OF q(3)] finalize_statements(4)[OF q(4)]
      finalize_statements(5)[OF q(5)] finalize_statements(6)[OF q(6)]
    have "core_inv w0" using I by (simp add: registration_inv_core w0)
    then have "core_inv w5" using q keptD[OF kept_core(1)] keptD[OF kept_core(2)] keptD[OF kept_core(4)]
      keptD[OF kept_core(5)] keptD[OF kept_core(6)] by metis
    moreover have "accounts_matched w5"
      by (rule account_matches[OF I, where u = u and now = now and cid = "fst (snd ids)"])
         (use s g w0 in \<open>auto simp: account_opened_def\<close>)
    ultimately show ?thesis by (simp add: registration_inv_core)
  qed
  show ?thesis
    unfolding repo_finalize_social_registration_def
    by (intro wp_intros wp_exec_one; (rule I)?; erule *)
qed

end
