(* ===== verification/RegistrationRuns.thy ===== *)
theory RegistrationRuns
  imports RegistrationInv
begin

text \<open>
  Every run of the registration component. A step is one repository call, with any arguments the
  service can hand it and any faults, so concurrent requests may interleave their calls in any order.
\<close>

section \<open>Each repository method keeps the invariant\<close>

lemmas inv_walk = wp_ret wp_fail wp_fail_internal wp_fail_mapped wp_begin_tx wp_commit wp_if wp_option
  wp_sum wp_prod wp_exec_kept wp_exec_one_kept wp_pool_kept wp_call_inv kept_reads kept_registration_inv

lemma first_row_in: "first_row rows = Inr r \<Longrightarrow> r \<in> set rows"
  by (simp add: first_row_def split: list.splits)

lemma fetched_pending:
  "q_get_pending_registration_by_email_for_update email d = Inr ((r, v), d') \<Longrightarrow>
     d' = d \<and> r \<in> set (registrations d) \<and> pr_email r = email \<and> pr_status r = PendingRegistrationPending \<and>
     v \<in> set (requests d) \<and> opening_request r v"
  by (auto simp: q_get_pending_registration_by_email_for_update_def with_opening_def split: sum.splits
      dest!: first_row_in)

lemma wp_create_manual_once:
  assumes I: "registration_inv d"
  shows "wp (\<lambda>_. registration_inv) (create_manual_registration_once now ids email ex) d w"
  unfolding create_manual_registration_once_def
  by (intro inv_walk wp_insert_manual I; assumption)

lemma wp_create_social_once:
  assumes I: "registration_inv d"
  shows "wp (\<lambda>_. registration_inv) (create_social_registration_once now ids p) d w"
  unfolding create_social_registration_once_def
  by (intro inv_walk wp_insert_social I; assumption)

lemma wp_create_manual:
  assumes I: "registration_inv d"
  shows "wp (\<lambda>_. registration_inv) (repo_create_manual_registration nows ids email ex) d w"
  unfolding repo_create_manual_registration_def
  by (intro inv_walk wp_create_manual_once I; assumption)

lemma wp_create_social:
  assumes I: "registration_inv d"
  shows "wp (\<lambda>_. registration_inv) (repo_create_social_registration nows ids p) d w"
  unfolding repo_create_social_registration_def
  by (intro inv_walk wp_create_social_once I; assumption)

lemma recovery_request_created:
  assumes "registration_inv w" and "pid \<in> pr_id ` set (registrations w)"
    and q: "q_create_verification_request now vid VerificationSubjectPendingRegistration pid
              VerificationPurposeRegistrationRecovery st w = Inr (v, w')"
  shows "registration_inv w'"
proof -
  from q have "requests w' = requests w @ [v]" "registrations w' = registrations w"
      "\<not> opens_one v" "vr_subject v = pid"
    by (auto simp: q_create_verification_request_def opens_one_def Let_def split: if_splits)
  then have "openings_ok w'" using assms(1,2) by (simp add: registration_inv_def openings_ok_def)
  then show ?thesis
    using assms(1) keptD[OF kept_tables_inserts(2) _ q] keptD[OF kept_proved(2) _ q] keptD[OF kept_matched(2) _ q]
    by (simp add: registration_inv_def)
qed

lemma wp_initiate_recovery:
  assumes I: "registration_inv d"
  shows "wp (\<lambda>_. registration_inv) (repo_initiate_manual_recovery now vid email) d w"
proof -
  have *: "registration_inv w3"
    if "q_get_pending_registration_by_email_for_update email d = Inr ((r, v), w1)"
      "q_create_verification_request now vid VerificationSubjectPendingRegistration (pr_id r)
         VerificationPurposeRegistrationRecovery VerificationRequestPending w1 = Inr (x, w3)" for r v w1 w3 x
    by (rule recovery_request_created[OF _ _ that(2)]) (use fetched_pending[OF that(1)] I in simp_all)
  show ?thesis
    unfolding repo_initiate_manual_recovery_def
    by (intro wp_intros; (rule I)?; hypsubst; erule (1) *)
qed

lemma wp_issue_code:
  assumes I: "registration_inv d"
  shows "wp (\<lambda>_. registration_inv) (repo_issue_verification_code now cid vid hash ex) d w"
  unfolding repo_issue_verification_code_def by (intro inv_walk I; assumption)

lemma wp_increment:
  assumes I: "registration_inv d"
  shows "wp (\<lambda>_. registration_inv) (repo_increment_verification_code_attempts cid verification_code_max_attempts) d w"
  unfolding repo_increment_verification_code_attempts_def by (intro inv_walk I; assumption)

section \<open>Steps\<close>

datatype registration_call =
    CreateManual "time \<times> time" "(uuid \<times> uuid) \<times> (uuid \<times> uuid)" string time
  | InitiateRecovery time uuid string
  | CreateSocial "time \<times> time" "(uuid \<times> uuid \<times> uuid) \<times> (uuid \<times> uuid \<times> uuid)" social_params
  | IssueCode time uuid uuid string time
  | CountWrongCode uuid
  | CompleteVerification time uuid uuid uuid uuid string time
  | CompleteRecovery time "uuid \<times> uuid" uuid uuid uuid string time time
  | FinalizeManual time "uuid \<times> uuid" finalize_params string
  | FinalizeSocial time "uuid \<times> uuid \<times> uuid" finalize_params

text \<open>
  What the service has established from earlier reads before it makes the call. Each fact is about
  columns that never change once written, of rows that are never deleted.
\<close>

fun call_enabled :: "registration_db \<Rightarrow> registration_call \<Rightarrow> bool" where
  "call_enabled db (CompleteVerification _ _ cid vid pid _ _) = (code_of db cid vid \<and> opens db vid pid)"
| "call_enabled db (CompleteRecovery _ _ cid vid _ _ _ _) = code_of db cid vid"
| "call_enabled db (FinalizeManual _ _ p _) = leads_to db (fp_continuation p) (fp_registration p) (fp_email p)"
| "call_enabled db (FinalizeSocial _ _ p) = leads_to db (fp_continuation p) (fp_registration p) (fp_email p)"
| "call_enabled db _ = True"

fun run_call :: "registration_call \<Rightarrow> fate list \<Rightarrow> registration_db \<Rightarrow> registration_db" where
  "run_call (CreateManual nows ids email ex) fs db = snd (run (repo_create_manual_registration nows ids email ex) db fs)"
| "run_call (InitiateRecovery now vid email) fs db = snd (run (repo_initiate_manual_recovery now vid email) db fs)"
| "run_call (CreateSocial nows ids p) fs db = snd (run (repo_create_social_registration nows ids p) db fs)"
| "run_call (IssueCode now cid vid hash ex) fs db = snd (run (repo_issue_verification_code now cid vid hash ex) db fs)"
| "run_call (CountWrongCode cid) fs db =
     snd (run (repo_increment_verification_code_attempts cid verification_code_max_attempts) db fs)"
| "run_call (CompleteVerification now kid cid vid pid hash ex) fs db =
     snd (run (repo_complete_verification now kid cid vid pid hash ex) db fs)"
| "run_call (CompleteRecovery now ids cid vid old hash ex nex) fs db =
     snd (run (repo_complete_recovery_verification now ids cid vid old hash ex nex) db fs)"
| "run_call (FinalizeManual now ids p phash) fs db = snd (run (repo_finalize_manual_registration now ids p phash) db fs)"
| "run_call (FinalizeSocial now ids p) fs db = snd (run (repo_finalize_social_registration now ids p) db fs)"

definition registration_start :: "registration_db \<Rightarrow> bool" where
  "registration_start db \<longleftrightarrow> db = \<lparr>registrations = [], social_identities = [], requests = [], codes = [],
     continuations = [], accounts = [], unsorted = [], credentials = [], identities = []\<rparr>"

inductive registration_step :: "registration_db \<Rightarrow> registration_db \<Rightarrow> bool" where
  "call_enabled db c \<Longrightarrow> registration_step db (run_call c fs db)"

lemma run_call_keeps: "registration_inv db \<Longrightarrow> call_enabled db c \<Longrightarrow> registration_inv (run_call c fs db)"
  by (cases c)
     (simp_all add: wp_run_snd wp_create_manual wp_create_social wp_initiate_recovery wp_issue_code wp_increment
        wp_complete_verification wp_complete_recovery_verification wp_finalize_manual wp_finalize_social)

interpretation reg: invariant_system registration_start registration_step registration_inv
proof
  show "registration_inv db" if "registration_start db" for db
    using that by (simp add: registration_start_def registration_inv_def tables_ok_defs openings_ok_def
        continuations_proved_def accounts_matched_def)
  show "registration_inv t" if "registration_inv s" "registration_step s t" for s t
    using that(2,1) by (cases rule: registration_step.cases) (simp add: run_call_keeps)
qed

abbreviation registration_reachable :: "registration_db \<Rightarrow> bool" where
  "registration_reachable \<equiv> reachable_from registration_start registration_step"

lemma reachable_call:
  "registration_reachable db \<Longrightarrow> call_enabled db c \<Longrightarrow> registration_reachable (run_call c fs db)"
  by (rule reachable_from.next_step, assumption, rule registration_step.intros)

section \<open>A run to evaluate\<close>

text \<open>A manual registration from the first call to the account.\<close>

definition empty_registrations :: registration_db where
  "empty_registrations = \<lparr>registrations = [], social_identities = [], requests = [], codes = [],
     continuations = [], accounts = [], unsorted = [], credentials = [], identities = []\<rparr>"

definition demo_calls :: "registration_call list" where
  "demo_calls =
    [CreateManual (0, 0) ((1, 2), (3, 4)) ''ada@x'' (7 * 24 * hour),
     IssueCode 10 5 2 ''code'' (10 + 5 * minute),
     CompleteVerification 20 6 5 2 1 ''token'' (20 + 15 * minute),
     FinalizeManual 30 (7, 8) \<lparr>fp_registration = 1, fp_continuation = 6, fp_email = ''ada@x'',
       fp_display_name = ''Ada'', fp_email_verified_at = 30\<rparr> ''phc'']"

definition run_calls :: "registration_call list \<Rightarrow> registration_db \<Rightarrow> registration_db" where
  "run_calls cs db = fold (\<lambda>c. run_call c []) cs db"

fun calls_enabled :: "registration_call list \<Rightarrow> registration_db \<Rightarrow> bool" where
  "calls_enabled [] db = True"
| "calls_enabled (c # cs) db = (call_enabled db c \<and> calls_enabled cs (run_call c [] db))"

lemma reachable_calls:
  "calls_enabled cs db \<Longrightarrow> registration_reachable db \<Longrightarrow> registration_reachable (run_calls cs db)"
  by (induction cs arbitrary: db) (simp_all add: run_calls_def reachable_call)

lemma start_reachable: "registration_reachable empty_registrations"
  by (rule reachable_from.start) (simp add: registration_start_def empty_registrations_def)

definition demo_accounts :: registration_db where
  "demo_accounts = run_calls demo_calls empty_registrations"

lemma demo_run: "calls_enabled demo_calls empty_registrations \<and> map u_email (accounts demo_accounts) = [''ada@x'']"
  by code_simp

lemma demo_reachable: "registration_reachable demo_accounts"
  unfolding demo_accounts_def by (rule reachable_calls[OF conjunct1[OF demo_run] start_reachable])

section \<open>Accounts and addresses\<close>



text \<open>
  C5. The tables of the registration component are sound in every reachable state: identifiers are
  unique, an address has at most one registration that is pending or completed and at most one
  account, every registration is opened by exactly one request, a request has at most one active
  code, wrong guesses are counted within their limit, a registration has at most one continuation,
  continuation hashes are unique, and so are linked identities.
\<close>

theorem registration_tables_are_sound:
  assumes "registration_reachable db"
  shows "distinct (map pr_id (registrations db)) \<and>
         distinct (map pr_email (filter holds_email (registrations db))) \<and>
         distinct (map u_email (accounts db)) \<and>
         (\<forall>r\<in>set (registrations db). length (filter (opening_request r) (requests db)) = 1) \<and>
         distinct (map vc_request (filter code_active (codes db))) \<and>
         (\<forall>c\<in>set (codes db). 0 \<le> vc_attempts c \<and> vc_attempts c \<le> verification_code_max_attempts) \<and>
         distinct (map rc_registration (continuations db)) \<and> distinct (map rc_hash (continuations db)) \<and>
         distinct (map (\<lambda>i. (ai_provider i, ai_subject i)) (identities db))"
proof -
  have I: "registration_inv db" by (rule reg.reachable_inv[OF assms])
  then have T: "tables_ok db" and O: "openings_ok db" by (simp_all add: registration_inv_def)
  have "length (filter (opening_request r) (requests db)) = 1" if "r \<in> set (registrations db)" for r
  proof -
    have eq: "filter (opening_request r) (requests db)
        = filter (\<lambda>v. vr_subject v = pr_id r) (filter opens_one (requests db))"
      by (auto simp: opening_request_def opens_one_def intro: filter_cong)
    have "pr_id r \<in> vr_subject ` set (filter opens_one (requests db))"
      using O that by (auto simp: openings_ok_def)
    then have "0 < rows_where (\<lambda>v. vr_subject v = pr_id r) (filter opens_one (requests db))"
      unfolding rows_where_pos by auto
    moreover have "rows_where (\<lambda>v. vr_subject v = pr_id r) (filter opens_one (requests db)) \<le> 1"
      by (rule rows_where_unique[where key = vr_subject]) (use O in \<open>simp_all add: openings_ok_def\<close>)
    ultimately show ?thesis unfolding eq rows_where_def by linarith
  qed
  with T show ?thesis by (simp add: tables_ok_defs)
qed

theorem registration_tables_are_sound_witness:
  "distinct (map pr_email (filter holds_email (registrations demo_accounts))) \<and>
   distinct (map vc_request (filter code_active (codes demo_accounts)))"
  using registration_tables_are_sound[OF demo_reachable] by simp

section \<open>A continuation completes one registration\<close>

definition still_consumed :: "registration_continuation \<Rightarrow> registration_db \<Rightarrow> bool" where
  "still_consumed k db \<longleftrightarrow> k \<in> set (continuations db) \<and> rc_consumed_at k \<noteq> None"

lemma kept_consumed_inserts:
  "kept (still_consumed k) (q_create_pending_registration now pid email ty st ex)"
  "kept (still_consumed k) (q_create_verification_request now vid sty subj purpose vst)"
  "kept (still_consumed k) (q_create_verification_code now cid vid hash ex)"
  "kept (still_consumed k) (q_create_registration_continuation now kid pid hash ex)"
  "kept (still_consumed k) (q_create_user uid email name at)"
  "kept (still_consumed k) (q_create_unsorted_collection cid uid)"
  "kept (still_consumed k) (q_create_password_credential uid phash)"
  "kept (still_consumed k) (q_create_pending_social_identity iid pid provider subject em dn)"
  "kept (still_consumed k) (q_create_auth_identity aid uid provider subject em dn)"
  by (auto simp: kept_def insert_defs still_consumed_def Let_def split: if_splits)

lemma kept_consumed_updates:
  "kept (still_consumed k) (q_update_verification_request_pin_issued now vid)"
  "kept (still_consumed k) (q_consume_verification_code now cid)"
  "kept (still_consumed k) (q_mark_verification_request_verified vid)"
  "kept (still_consumed k) (q_reassign_verification_request subj vid)"
  "kept (still_consumed k) (q_invalidate_verification_code now vid)"
  "kept (still_consumed k) (q_increment_verification_code_attempts cid mx)"
  "kept (still_consumed k) (q_force_expire_social pid)"
  "kept (still_consumed k) (q_force_expire_manual pid)"
  "kept (still_consumed k) (q_expire_pending_registration now pid)"
  "kept (still_consumed k) (q_complete_pending_registration now pid)"
  by (auto simp: kept_def update_defs still_consumed_def Let_def split: option.splits)

lemma kept_consumed_consume: "kept (still_consumed k) (q_consume_registration_continuation now kid)"
  by (force simp: kept_def update_defs still_consumed_def set_update_where usable_continuation_def image_iff)

lemmas consumed_walk = inv_walk kept_consumed_inserts kept_consumed_updates kept_consumed_consume

lemmas registration_call_defs = repo_create_manual_registration_def create_manual_registration_once_def
  insert_manual_def repo_create_social_registration_def create_social_registration_once_def insert_social_def
  repo_initiate_manual_recovery_def repo_issue_verification_code_def
  repo_increment_verification_code_attempts_def repo_complete_verification_def
  repo_complete_recovery_verification_def repo_finalize_manual_registration_def
  repo_finalize_social_registration_def

lemma consumed_call: "still_consumed k d \<Longrightarrow> still_consumed k (run_call c fs d)"
  by (cases c; simp; rule wp_run_snd; unfold registration_call_defs; intro consumed_walk; assumption)

lemma consumed_steps: "registration_step\<^sup>*\<^sup>* d d' \<Longrightarrow> still_consumed k d \<Longrightarrow> still_consumed k d'"
  by (induction rule: rtranclp_induct) (auto elim!: registration_step.cases intro: consumed_call)

text \<open>
  The change a completion commits: the account with its unsorted collection and its way to log in, the
  continuation consumed, the registration completed. Both guarded rows must be there.
\<close>

definition new_account :: "uuid \<Rightarrow> finalize_params \<Rightarrow> user" where
  "new_account uid p = \<lparr>u_id = uid, u_email = fp_email p, u_display_name = fp_display_name p,
     u_email_verified_at = fp_email_verified_at p\<rparr>"

definition completes :: "time \<Rightarrow> finalize_params \<Rightarrow> registration_db \<Rightarrow> bool" where
  "completes now p d \<longleftrightarrow> rows_where (usable_continuation now (fp_continuation p)) (continuations d) = 1 \<and>
     rows_where (completable now (fp_registration p)) (registrations d) = 1"

definition manual_completion ::
  "time \<Rightarrow> uuid \<times> uuid \<Rightarrow> finalize_params \<Rightarrow> string \<Rightarrow> registration_db \<Rightarrow> registration_db \<Rightarrow> bool" where
  "manual_completion now ids p phash d d' \<longleftrightarrow> completes now p d \<and>
     d' = (account_opened now (fp_continuation p) (fp_registration p) (new_account (fst ids) p) (snd ids) d)
            \<lparr>credentials := credentials d @ [\<lparr>pc_user = fst ids, pc_hash = phash\<rparr>]\<rparr>"

definition social_completion ::
  "time \<Rightarrow> uuid \<times> uuid \<times> uuid \<Rightarrow> finalize_params \<Rightarrow> registration_db \<Rightarrow> registration_db \<Rightarrow> bool" where
  "social_completion now ids p d d' \<longleftrightarrow> completes now p d \<and>
     (\<exists>i. row_with psi_registration (fp_registration p) (social_identities d) = Some i \<and>
        d' = (account_opened now (fp_continuation p) (fp_registration p) (new_account (fst ids) p) (fst (snd ids)) d)
               \<lparr>identities := identities d @ [\<lparr>ai_id = snd (snd ids), ai_user = fst ids,
                  ai_provider = psi_provider i, ai_subject = psi_subject i,
                  ai_email_snapshot = psi_email_snapshot i, ai_display_name_snapshot = psi_display_name_snapshot i\<rparr>]\<rparr>)"

lemma user_created:
  "q_create_user uid email name at w = Inr (u, w') \<Longrightarrow>
     u = \<lparr>u_id = uid, u_email = email, u_display_name = name, u_email_verified_at = at\<rparr>"
  by (auto simp: q_create_user_def Let_def split: if_splits)

lemma wp_manual_completion:
  "wp (\<lambda>r d'. (d' = d \<and> isl r) \<or> manual_completion now ids p phash d d')
     (repo_finalize_manual_registration now ids p phash) d w"
proof -
  have *: "manual_completion now ids p phash d w5"
    if q: "q_create_user (fst ids) (fp_email p) (fp_display_name p) (fp_email_verified_at p) d = Inr (u, w1)"
      "q_create_unsorted_collection (snd ids) (u_id u) w1 = Inr (c, w2)"
      "q_create_password_credential (u_id u) phash w2 = Inr (x, w3)"
      "q_consume_registration_continuation now (fp_continuation p) w3 = Inr (1, w4)"
      "q_complete_pending_registration now (fp_registration p) w4 = Inr (1, w5)" for w1 w2 w3 w4 w5 u c x
  proof -
    note s = finalize_statements(1)[OF q(1)] finalize_statements(2)[OF q(2)] finalize_statements(3)[OF q(3)]
      finalize_statements(5)[OF q(4)] finalize_statements(6)[OF q(5)] user_created[OF q(1)]
    then show ?thesis by (simp add: manual_completion_def completes_def account_opened_def new_account_def)
  qed
  show ?thesis
    unfolding repo_finalize_manual_registration_def
    by (intro wp_intros wp_exec_one; (rule disjI1, simp; fail)?; rule disjI2; erule *)
qed

lemma wp_social_completion:
  "wp (\<lambda>r d'. (d' = d \<and> isl r) \<or> social_completion now ids p d d')
     (repo_finalize_social_registration now ids p) d w"
proof -
  have *: "social_completion now ids p d w5"
    if q: "q_get_pending_social_identity (fp_registration p) d = Inr (i, w0)"
      "q_create_user (fst ids) (fp_email p) (fp_display_name p) (fp_email_verified_at p) w0 = Inr (u, w1)"
      "q_create_unsorted_collection (fst (snd ids)) (u_id u) w1 = Inr (c, w2)"
      "q_create_auth_identity (snd (snd ids)) (u_id u) (psi_provider i) (psi_subject i)
               (psi_email_snapshot i) (psi_display_name_snapshot i) w2 = Inr (x, w3)"
      "q_consume_registration_continuation now (fp_continuation p) w3 = Inr (1, w4)"
      "q_complete_pending_registration now (fp_registration p) w4 = Inr (1, w5)" for w0 w1 w2 w3 w4 w5 i u c x
  proof -
    have i: "w0 = d" "row_with psi_registration (fp_registration p) (social_identities d) = Some i"
      using q(1) by (auto simp: q_get_pending_social_identity_def split: option.splits)
    note s = finalize_statements(1)[OF q(2)] finalize_statements(2)[OF q(3)] finalize_statements(4)[OF q(4)]
      finalize_statements(5)[OF q(5)] finalize_statements(6)[OF q(6)] user_created[OF q(2)]
    then show ?thesis using i
      by (simp add: social_completion_def completes_def account_opened_def new_account_def)
  qed
  show ?thesis
    unfolding repo_finalize_social_registration_def
    by (intro wp_intros wp_exec_one; (rule disjI1, simp; fail)?; rule disjI2; erule *)
qed

interpretation manual_tx: repo_method "repo_finalize_manual_registration now ids p phash"
    "manual_completion now ids p phash" for now ids p phash
  by unfold_locales (rule wp_run[OF wp_manual_completion])

interpretation social_tx: repo_method "repo_finalize_social_registration now ids p"
    "social_completion now ids p" for now ids p
  by unfold_locales (rule wp_run[OF wp_social_completion])

end
