(* ===== verification/RegistrationProps.thy ===== *)
theory RegistrationProps
  imports RegistrationRuns
begin

text \<open>
  What the registration component promises its users: a completion is all-or-nothing and happens once,
  wrong codes lock a code, and what each service call answers.
\<close>

section \<open>Completion\<close>

text \<open>
  C20. Completing a registration is atomic. For every state of the tables, every argument and every
  schedule of database faults, the call either leaves the tables as they were and reports an error, or
  makes exactly one change: it opens the account with its unsorted collection and its password or
  linked identity, consumes the continuation and marks the registration completed, both of which were
  open; success is reported only in the second case.
\<close>

theorem completion_is_atomic:
  "(case run (repo_finalize_manual_registration now (uid, cid) p phash) db fs of (r, db') \<Rightarrow>
     (db' = db \<and> isl r) \<or>
     (completes now p db \<and>
      db' = db\<lparr>
        registrations := update_where (completable now (fp_registration p))
                           (\<lambda>r. r\<lparr>pr_status := PendingRegistrationCompleted\<rparr>) (registrations db),
        continuations := update_where (usable_continuation now (fp_continuation p))
                           (\<lambda>k. k\<lparr>rc_consumed_at := Some now\<rparr>) (continuations db),
        accounts := accounts db @ [new_account uid p],
        unsorted := unsorted db @ [\<lparr>uc_id = cid, uc_user = uid\<rparr>],
        credentials := credentials db @ [\<lparr>pc_user = uid, pc_hash = phash\<rparr>]\<rparr>)) \<and>
   (case run (repo_finalize_social_registration now (uid, cid, aid) p) db fs of (r, db') \<Rightarrow>
     (db' = db \<and> isl r) \<or> social_completion now (uid, cid, aid) p db db')"
  using manual_tx.outcome[of now "(uid, cid)" p phash db fs] social_tx.outcome[of now "(uid, cid, aid)" p db fs]
  by (auto simp: manual_completion_def account_opened_def new_account_def split: prod.split)

text \<open>A consumed continuation completes nothing.\<close>

lemma consumed_blocks:
  assumes "still_consumed k d" and "distinct (map rc_id (continuations d))" and "rc_id k = fp_continuation p"
  shows "\<not> completes now p d"
proof -
  have "\<not> usable_continuation now (fp_continuation p) x" if "x \<in> set (continuations d)" for x
    using assms that unfolding still_consumed_def usable_continuation_def by (metis distinct_map_filter_inj)
  then have "rows_where (usable_continuation now (fp_continuation p)) (continuations d) = 0"
    by (simp add: rows_where_0)
  then show ?thesis by (simp add: completes_def)
qed

lemma completion_consumes:
  assumes "completes now p d" and "continuations d' = update_where (usable_continuation now (fp_continuation p))
      (\<lambda>k. k\<lparr>rc_consumed_at := Some now\<rparr>) (continuations d)"
  shows "\<exists>k. rc_id k = fp_continuation p \<and> still_consumed k d'"
proof -
  obtain k where k: "k \<in> set (continuations d)" "usable_continuation now (fp_continuation p) k"
    using assms(1) rows_where_pos[of "usable_continuation now (fp_continuation p)" "continuations d"]
    by (auto simp: completes_def)
  then have "k\<lparr>rc_consumed_at := Some now\<rparr> \<in> set (continuations d')"
    unfolding assms(2) by (rule in_update_where)
  with k show ?thesis
    by (intro exI[of _ "k\<lparr>rc_consumed_at := Some now\<rparr>"]) (simp add: still_consumed_def usable_continuation_def)
qed

text \<open>
  A continuation completes at most one registration. After a completion that used a continuation
  has been reported as successful, no later completion with it, manual or social, at whatever time,
  with whatever arguments and faults, and after whatever other calls, succeeds or changes anything.
\<close>

theorem continuation_single_use:
  assumes "registration_reachable db" and "call_enabled db (FinalizeManual now ids p phash)"
    and "run (repo_finalize_manual_registration now ids p phash) db fs = (Inr u, db1) \<or>
         run (repo_finalize_social_registration now sids p) db fs = (Inr u, db1)"
    and "registration_step\<^sup>*\<^sup>* db1 db2" and "fp_continuation p' = fp_continuation p"
  shows "isl (fst (run (repo_finalize_manual_registration now' ids' p' phash') db2 fs')) \<and>
         snd (run (repo_finalize_manual_registration now' ids' p' phash') db2 fs') = db2 \<and>
         isl (fst (run (repo_finalize_social_registration now' ids'' p') db2 fs'')) \<and>
         snd (run (repo_finalize_social_registration now' ids'' p') db2 fs'') = db2"
proof -
  from assms(3) have "manual_completion now ids p phash db db1 \<or> social_completion now sids p db db1"
    using manual_tx.reported social_tx.reported by blast
  then obtain k where k: "rc_id k = fp_continuation p" "still_consumed k db1"
    using completion_consumes[of now p db db1]
    by (auto simp: manual_completion_def social_completion_def account_opened_def)
  then have k2: "still_consumed k db2" using consumed_steps assms(4) by blast
  have "registration_reachable db1"
    using reachable_call[OF assms(1,2), of fs] assms(2,3) reachable_call[OF assms(1), of "FinalizeSocial now sids p" fs]
    by auto
  then have "registration_inv db2" by (intro reg.reachable_inv reachable_steps[OF assms(4)])
  then have "\<not> completes now' p' db2"
    using consumed_blocks[OF k2] k(1) assms(5) by (simp add: registration_inv_def tables_ok_defs)
  then show ?thesis
    using manual_tx.outcome[of now' ids' p' phash' db2 fs'] social_tx.outcome[of now' ids'' p' db2 fs'']
    by (auto simp: manual_completion_def social_completion_def)
qed

definition demo_waiting :: registration_db where
  "demo_waiting = run_calls (take 3 demo_calls) empty_registrations"

definition demo_params :: finalize_params where
  "demo_params = \<lparr>fp_registration = 1, fp_continuation = 6, fp_email = ''ada@x'',
     fp_display_name = ''Ada'', fp_email_verified_at = 30\<rparr>"

lemma demo_waiting_ready:
  "calls_enabled (take 3 demo_calls) empty_registrations \<and>
   call_enabled demo_waiting (FinalizeManual 30 (7, 8) demo_params ''phc'') \<and>
   \<not> isl (fst (run (repo_finalize_manual_registration 30 (7, 8) demo_params ''phc'') demo_waiting []))"
  by code_simp

theorem continuation_single_use_witness:
  "isl (fst (run (repo_finalize_manual_registration 40 (9, 10) demo_params ''phc2'')
     (snd (run (repo_finalize_manual_registration 30 (7, 8) demo_params ''phc'') demo_waiting [])) []))"
proof -
  have r: "registration_reachable demo_waiting"
    unfolding demo_waiting_def by (rule reachable_calls[OF conjunct1[OF demo_waiting_ready] start_reachable])
  let ?first = "run (repo_finalize_manual_registration 30 (7, 8) demo_params ''phc'') demo_waiting []"
  have "?first = (Inr (projr (fst ?first)), snd ?first)"
    using demo_waiting_ready by (metis prod.collapse sum.collapse(2))
  from continuation_single_use[OF r conjunct1[OF conjunct2[OF demo_waiting_ready]] disjI1[OF this] rtranclp.rtrancl_refl refl]
  show ?thesis by simp
qed

section \<open>Wrong codes\<close>

lemma wp_call_cases:
  assumes "wp (\<lambda>r d'. case r of Inl e \<Rightarrow> E e d' | Inr x \<Rightarrow> X x d') p d w"
    and "\<And>e d' w'. E e d' \<Longrightarrow> wp Q (on_err e) d' w'" and "\<And>x d' w'. X x d' \<Longrightarrow> wp Q (k x) d' w'"
  shows "wp Q (call p on_err k) d w"
  by (rule wp_call, rule wp_mono[OF assms(1)]) (use assms(2,3) in \<open>auto split: sum.splits\<close>)

lemma first_by_single: "first_by key [r] = Some r"
  by (simp add: first_by_def)

lemma first_by_Nil [simp]: "first_by key [] = None"
  by (simp add: first_by_def)

lemma active_codes:
  assumes "distinct (map vc_request (filter code_active cs))" and "c \<in> set cs" and "code_active c"
  shows "filter (\<lambda>c'. vc_request c' = vc_request c \<and> code_active c' \<and> P c') cs = (if P c then [c] else [])"
  using assms
proof (induction cs)
  case (Cons x cs)
  have none: "filter (\<lambda>c'. vc_request c' = vc_request x \<and> code_active c' \<and> P c') cs = []"
    if "vc_request x \<notin> vc_request ` set (filter code_active cs)"
    using that by (force simp: filter_empty_conv image_iff)
  show ?case
  proof (cases "x = c")
    case True
    with Cons.prems none show ?thesis by simp
  next
    case False
    with Cons.prems have c: "c \<in> set cs" by simp
    moreover have "\<not> (vc_request x = vc_request c \<and> code_active x)"
      using Cons.prems c by (auto simp: image_iff)
    ultimately show ?thesis using Cons by (auto split: if_splits)
  qed
qed simp

lemma get_active_code:
  assumes "registration_inv db" and "c \<in> set (codes db)" and "code_active c"
  shows "q_get_active_verification_code now (vc_request c) mx db
    = (if vc_expires_at c > now \<and> vc_attempts c < mx then Inr (c, db) else Inl err_no_rows)"
  using active_codes[OF _ assms(2,3), of "\<lambda>c. vc_expires_at c > now \<and> vc_attempts c < mx"] assms(1)
  by (simp add: q_get_active_verification_code_def registration_inv_def tables_ok_defs first_by_single)

lemma exhausted_code:
  assumes I: "registration_inv db" and c: "c \<in> set (codes db)" "code_active c" "vc_request c = vid"
    and full: "vc_attempts c \<ge> verification_code_max_attempts"
  shows "\<exists>e. run (verify_registration env vid pin) db fs = (Inl e, db)"
proof -
  have none: "q_get_active_verification_code now vid verification_code_max_attempts db = Inl err_no_rows" for now
    using get_active_code[OF I c(1,2)] c(3) full by simp
  have read: "q_get_verification vid d = Inr (x, d') \<Longrightarrow> d' = d" for x d d'
    by (simp add: q_get_verification_def split: option.splits)
  have 1: "wp (\<lambda>r d'. case r of Inl e \<Rightarrow> d' = db | Inr x \<Rightarrow> d' = db) (repo_get_verification vid) db w" for w
    unfolding repo_get_verification_def by (intro wp_intros; simp) (blast dest: read)+
  have 2: "wp (\<lambda>r d'. case r of Inl e \<Rightarrow> d' = db | Inr x \<Rightarrow> False)
      (repo_get_active_verification_code now vid verification_code_max_attempts) db w" for now w
    unfolding repo_get_active_verification_code_def by (intro wp_intros) (simp_all add: none)
  have "wp (\<lambda>r d'. isl r \<and> d' = db) (verify_registration env vid pin) db db"
    unfolding verify_registration_def
    by (rule wp_call_cases[OF 1]; hypsubst; intro wp_prod wp_option wp_fail wp_call_cases[OF 2]; simp)
  from wp_run[OF this surjective_pairing[of "run (verify_registration env vid pin) db fs"]]
  show ?thesis by (intro exI[of _ "projl (fst (run (verify_registration env vid pin) db fs))"]) (auto intro: prod_eqI)
qed

text \<open>The tables after one more wrong guess against code \<open>c\<close>.\<close>

definition guessed_wrong :: "verification_code \<Rightarrow> registration_db \<Rightarrow> registration_db" where
  "guessed_wrong c db = db\<lparr>codes := update_where (\<lambda>x. vc_id x = vc_id c) (\<lambda>x. x\<lparr>vc_attempts := vc_attempts x + 1\<rparr>) (codes db)\<rparr>"

lemma code_by_id:
  "registration_inv db \<Longrightarrow> c \<in> set (codes db) \<Longrightarrow> x \<in> set (codes db) \<Longrightarrow> vc_id x = vc_id c \<Longrightarrow> x = c"
  by (auto simp: registration_inv_def tables_ok_defs dest: distinct_map_filter_inj)

lemma increment_code:
  assumes I: "registration_inv db" and c: "c \<in> set (codes db)" "vc_attempts c < mx"
  shows "q_increment_verification_code_attempts (vc_id c) mx db = Inr (vc_attempts c + 1, guessed_wrong c db)"
proof -
  have d: "distinct (map vc_id (codes db))" using I by (simp add: registration_inv_def tables_ok_defs)
  then have "row_with vc_id (vc_id c) (filter (\<lambda>c. vc_attempts c < mx) (codes db)) = Some c"
    using c row_with_distinct[of vc_id "filter (\<lambda>c. vc_attempts c < mx) (codes db)" c] by (simp add: distinct_map_filter)
  moreover have "update_where (\<lambda>x. vc_id x = vc_id c \<and> vc_attempts x < mx) f (codes db)
      = update_where (\<lambda>x. vc_id x = vc_id c) f (codes db)" for f
    unfolding update_where_def using code_by_id[OF I c(1)] c(2) by (intro map_cong) auto
  ultimately show ?thesis by (simp add: q_increment_verification_code_attempts_def guessed_wrong_def)
qed

text \<open>A guess as the service meets it: it is pending, its code has not run out, and the code is wrong.\<close>

definition wrong_guess :: "registration_db \<Rightarrow> uuid \<Rightarrow> verification_code \<Rightarrow> verify_env \<times> string \<Rightarrow> bool" where
  "wrong_guess db vid c g \<longleftrightarrow>
     (\<exists>v r. row_with vr_id vid (requests db) = Some v \<and> row_with pr_id (vr_subject v) (registrations db) = Some r \<and>
        validate_verification_pending (ve_app_now (fst g)) v r = None) \<and>
     ve_db_read (fst g) < vc_expires_at c \<and> \<not> ve_verify (fst g) (snd g) (vc_hash c)"

definition wrong_answer :: "int \<Rightarrow> go_error" where
  "wrong_answer attempts = (if attempts \<ge> verification_code_max_attempts
     then conflict_with ''VERIFICATION_CODE_ATTEMPTS_EXCEEDED'' ''verification code attempt limit exceeded'' None
     else conflict_with ''INVALID_VERIFICATION_CODE'' ''verification code is invalid'' None)"

lemma wrong_guess_counts:
  assumes I: "registration_inv db" and c: "c \<in> set (codes db)" "code_active c" "vc_request c = vid"
    and a: "vc_attempts c < verification_code_max_attempts" and g: "wrong_guess db vid c (env, pin)"
  shows "run (verify_registration env vid pin) db [] = (Inl (wrong_answer (vc_attempts c + 1)), guessed_wrong c db)"
proof -
  obtain v r where v: "row_with vr_id vid (requests db) = Some v" "row_with pr_id (vr_subject v) (registrations db) = Some r"
      "validate_verification_pending (ve_app_now env) v r = None"
    using g by (auto simp: wrong_guess_def)
  have w: "\<not> ve_verify env pin (vc_hash c)" "ve_db_read env < vc_expires_at c" using g by (auto simp: wrong_guess_def)
  have 1: "quiet (repo_get_verification vid) db (Inr (v, r)) db"
    unfolding repo_get_verification_def
    by (rule quiet_pool[OF _ quiet_ret]) (simp add: q_get_verification_def v)
  have 2: "quiet (repo_get_active_verification_code (ve_db_read env) vid verification_code_max_attempts) db (Inr c) db"
    unfolding repo_get_active_verification_code_def
    by (rule quiet_pool[OF _ quiet_ret]) (use get_active_code[OF I c(1,2)] c(3) a w in simp)
  have 3: "quiet (repo_increment_verification_code_attempts (vc_id c) verification_code_max_attempts) db
      (Inr (vc_attempts c + 1)) (guessed_wrong c db)"
    unfolding repo_increment_verification_code_attempts_def
    by (rule quiet_pool[OF _ quiet_ret]) (rule increment_code[OF I c(1) a])
  show ?thesis
    unfolding verify_registration_def
    by (rule quiet_run, rule quiet_call[OF 1], simp add: v(3), rule quiet_call[OF 2], simp add: w(1),
        rule quiet_call[OF 3]) (simp add: wrong_answer_def quiet_fail)
qed

lemma guessed_wrong_inv:
  assumes I: "registration_inv db" and c: "c \<in> set (codes db)" "vc_attempts c < verification_code_max_attempts"
  shows "registration_inv (guessed_wrong c db)"
  by (rule keptD[OF kept_registration_inv(6) I increment_code[OF I c]])

lemma guessed_wrong_code:
  "c \<in> set (codes db) \<Longrightarrow> c\<lparr>vc_attempts := vc_attempts c + 1\<rparr> \<in> set (codes (guessed_wrong c db))"
  using in_update_where[of c "codes db" "\<lambda>x. vc_id x = vc_id c" "\<lambda>x. x\<lparr>vc_attempts := vc_attempts x + 1\<rparr>"]
  by (simp add: guessed_wrong_def)

definition guess :: "uuid \<Rightarrow> verify_env \<times> string \<Rightarrow> registration_db \<Rightarrow> registration_db" where
  "guess vid g db = snd (run (verify_registration (fst g) vid (snd g)) db [])"

lemma guesses_count:
  assumes "registration_inv db" and "c \<in> set (codes db)" and "code_active c" and "vc_request c = vid"
    and "vc_attempts c + int (length gs) \<le> verification_code_max_attempts" and "\<forall>g\<in>set gs. wrong_guess db vid c g"
  shows "registration_inv (fold (guess vid) gs db) \<and>
         c\<lparr>vc_attempts := vc_attempts c + int (length gs)\<rparr> \<in> set (codes (fold (guess vid) gs db))"
  using assms
proof (induction gs arbitrary: db c)
  case (Cons g gs)
  let ?c = "c\<lparr>vc_attempts := vc_attempts c + 1\<rparr>"
  have a: "vc_attempts c < verification_code_max_attempts" using Cons.prems(5) by simp
  have g: "guess vid g db = guessed_wrong c db"
    using wrong_guess_counts[OF Cons.prems(1-4) a, of "fst g" "snd g"] Cons.prems(6) by (simp add: guess_def)
  have "wrong_guess (guessed_wrong c db) vid ?c = wrong_guess db vid c"
    by (simp add: wrong_guess_def guessed_wrong_def fun_eq_iff)
  then have "registration_inv (fold (guess vid) gs (guessed_wrong c db)) \<and>
      ?c\<lparr>vc_attempts := vc_attempts ?c + int (length gs)\<rparr> \<in> set (codes (fold (guess vid) gs (guessed_wrong c db)))"
    using Cons.prems guessed_wrong_inv[OF Cons.prems(1,2) a] guessed_wrong_code[OF Cons.prems(2)]
    by (intro Cons.IH) (simp_all add: code_active_def)
  then show ?case by (simp add: g algebra_simps)
qed simp

text \<open>
  C21. Five wrong guesses lock a code. When a fresh code has met five wrong guesses made one after the
  other, every later verification of that request is refused and changes nothing, whatever code is
  presented, at whatever time and with whatever faults, until the state changes in another way (a new
  code is issued).
\<close>

theorem five_wrong_guesses_lock:
  assumes "registration_reachable db" and "c \<in> set (codes db)" and "code_active c" and "vc_request c = vid"
    and "vc_attempts c = 0" and "length gs = 5" and "\<forall>g\<in>set gs. wrong_guess db vid c g"
  shows "\<exists>e. run (verify_registration env vid pin) (fold (guess vid) gs db) fs = (Inl e, fold (guess vid) gs db)"
proof -
  have "registration_inv db" by (rule reg.reachable_inv[OF assms(1)])
  from guesses_count[OF this assms(2-4) _ assms(7)] assms(5,6)
  have "registration_inv (fold (guess vid) gs db)" "c\<lparr>vc_attempts := 5\<rparr> \<in> set (codes (fold (guess vid) gs db))"
    by (simp_all add: verification_code_max_attempts_def)
  then show ?thesis
    by (rule exhausted_code)
       (use assms(3,4) in \<open>simp_all add: code_active_def verification_code_max_attempts_def\<close>)
qed

definition demo_issued :: registration_db where
  "demo_issued = run_calls (take 2 demo_calls) empty_registrations"

definition demo_code :: verification_code where
  "demo_code = \<lparr>vc_id = 5, vc_request = 2, vc_hash = ''code'', vc_attempts = 0, vc_created_at = 10,
     vc_expires_at = 10 + 5 * minute, vc_consumed_at = None, vc_invalidated_at = None\<rparr>"

definition demo_env :: verify_env where
  "demo_env = \<lparr>ve_app_now = 20, ve_db_read = 20, ve_db_write = 20, ve_continuation_id = 6,
     ve_new_registration_id = 9, ve_token = Inr ''token'', ve_verify = (=), ve_hash_token = id\<rparr>"

lemma demo_issued_ready:
  "calls_enabled (take 2 demo_calls) empty_registrations \<and> demo_code \<in> set (codes demo_issued) \<and>
   row_with vr_id 2 (requests demo_issued) = Some \<lparr>vr_id = 2, vr_subject_type = VerificationSubjectPendingRegistration,
     vr_subject = 1, vr_purpose = VerificationPurposeRegistration, vr_status = VerificationRequestPending,
     vr_pin_issued_count = 1, vr_last_sent_at = Some 10, vr_created_at = 0\<rparr> \<and>
   row_with pr_id 1 (registrations demo_issued) = Some \<lparr>pr_id = 1, pr_email = ''ada@x'', pr_type = RegistrationTypeManual,
     pr_status = PendingRegistrationPending, pr_created_at = 0, pr_expires_at = 7 * 24 * hour\<rparr>"
  by code_simp

lemma demo_wrong_guess: "wrong_guess demo_issued 2 demo_code (demo_env, ''nope'')"
  using demo_issued_ready
  by (simp add: wrong_guess_def demo_code_def demo_env_def validate_verification_pending_def)

theorem five_wrong_guesses_lock_witness:
  "\<exists>e. fst (run (verify_registration demo_env 2 ''code'')
     (fold (guess 2) (replicate 5 (demo_env, ''nope'')) demo_issued) []) = Inl e"
proof -
  have "registration_reachable demo_issued"
    unfolding demo_issued_def by (rule reachable_calls[OF conjunct1[OF demo_issued_ready] start_reachable])
  from five_wrong_guesses_lock[OF this, of demo_code 2 "replicate 5 (demo_env, ''nope'')" demo_env "''code''" "[]"]
  show ?thesis using demo_issued_ready demo_wrong_guess by (auto simp: demo_code_def code_active_def)
qed

text \<open>
  The limit of five holds for guesses made one after the other only. The code is compared before
  the guess is counted, and consuming a code does not look at the count: requests that read the code
  while the count was low may all be compared. Here six requests read a fresh code; five are wrong and
  counted, the limit is reached, the code can no longer be fetched, and the sixth still completes the
  verification.
\<close>

theorem attempt_limit_misses_concurrent_guesses:
  "let db0 = demo_issued;
       db5 = run_calls (replicate 5 (CountWrongCode 5)) db0;
       (r, db6) = run (repo_complete_verification 20 6 5 2 1 ''token'' (20 + 15 * minute)) db5 [] in
     registration_reachable db5 \<and>
     q_get_active_verification_code 20 2 verification_code_max_attempts db0 = Inr (demo_code, db0) \<and>
     map vc_attempts (codes db5) = [verification_code_max_attempts] \<and>
     q_get_active_verification_code 20 2 verification_code_max_attempts db5 = Inl err_no_rows \<and>
     call_enabled db5 (CompleteVerification 20 6 5 2 1 ''token'' (20 + 15 * minute)) \<and>
     \<not> isl r \<and> map vc_consumed_at (codes db6) = [Some 20] \<and> map rc_registration (continuations db6) = [1]"
proof -
  have "registration_reachable (run_calls (replicate 5 (CountWrongCode 5)) demo_issued)"
    unfolding demo_issued_def
    by (intro reachable_calls[of "replicate 5 (CountWrongCode 5)"] reachable_calls[OF conjunct1[OF demo_issued_ready] start_reachable])
      code_simp
  moreover have "let db0 = demo_issued; db5 = run_calls (replicate 5 (CountWrongCode 5)) db0;
       (r, db6) = run (repo_complete_verification 20 6 5 2 1 ''token'' (20 + 15 * minute)) db5 [] in
     q_get_active_verification_code 20 2 verification_code_max_attempts db0 = Inr (demo_code, db0) \<and>
     map vc_attempts (codes db5) = [verification_code_max_attempts] \<and>
     q_get_active_verification_code 20 2 verification_code_max_attempts db5 = Inl err_no_rows \<and>
     call_enabled db5 (CompleteVerification 20 6 5 2 1 ''token'' (20 + 15 * minute)) \<and>
     \<not> isl r \<and> map vc_consumed_at (codes db6) = [Some 20] \<and> map rc_registration (continuations db6) = [1]"
    by code_simp
  ultimately show ?thesis by (simp add: Let_def split: prod.splits)
qed

end
