(* ===== verification/RegistrationManual.thy ===== *)
theory RegistrationManual
  imports RegistrationProps
begin

text \<open>
  The manual registration call as one decision. The repository finds its way through locking reads,
  guarded updates and inserts; on sound tables all of it amounts to a decision on the one registration
  that holds the address, which is written down here and proved to be what the calls do.
\<close>

section \<open>The decision\<close>

definition live_row :: "string \<Rightarrow> registration_db \<Rightarrow> pending_registration option" where
  "live_row email db = find (\<lambda>r. pr_email r = email \<and> holds_email r) (registrations db)"

definition opening_of :: "pending_registration \<Rightarrow> registration_db \<Rightarrow> verification_request option" where
  "opening_of r db = find (opening_request r) (requests db)"

definition manual_pair :: "time \<Rightarrow> uuid \<times> uuid \<Rightarrow> string \<Rightarrow> time \<Rightarrow> pending_registration \<times> verification_request" where
  "manual_pair now ids email ex =
     (\<lparr>pr_id = fst ids, pr_email = email, pr_type = RegistrationTypeManual, pr_status = PendingRegistrationPending,
       pr_created_at = now, pr_expires_at = ex\<rparr>,
      \<lparr>vr_id = snd ids, vr_subject_type = VerificationSubjectPendingRegistration, vr_subject = fst ids,
       vr_purpose = VerificationPurposeRegistration, vr_status = VerificationRequestPending,
       vr_pin_issued_count = 0, vr_last_sent_at = None, vr_created_at = now\<rparr>)"

definition start_over ::
  "time \<Rightarrow> uuid \<times> uuid \<Rightarrow> string \<Rightarrow> time \<Rightarrow> registration_db \<Rightarrow> (go_error + opened_verification) \<times> registration_db" where
  "start_over now ids email ex db =
     (case manual_pair now ids email ex of (r, v) \<Rightarrow>
        (Inr (opened v), db\<lparr>registrations := registrations db @ [r], requests := requests db @ [v]\<rparr>))"

definition expire_row :: "uuid \<Rightarrow> registration_db \<Rightarrow> registration_db" where
  "expire_row pid db = db\<lparr>registrations :=
     update_where (\<lambda>r. pr_id r = pid) (\<lambda>r. r\<lparr>pr_status := PendingRegistrationExpired\<rparr>) (registrations db)\<rparr>"

definition continuation_usable :: "time \<Rightarrow> uuid \<Rightarrow> registration_db \<Rightarrow> bool" where
  "continuation_usable now pid db \<longleftrightarrow> list_ex (\<lambda>k. rc_registration k = pid \<and> rc_consumed_at k = None
     \<and> rc_expires_at k > now) (continuations db)"

definition manual_decision ::
  "time \<Rightarrow> uuid \<times> uuid \<Rightarrow> string \<Rightarrow> time \<Rightarrow> registration_db \<Rightarrow> (go_error + opened_verification) \<times> registration_db" where
  "manual_decision now ids email ex db =
     (case live_row email db of
        None \<Rightarrow> start_over now ids email ex db
      | Some r \<Rightarrow>
          if pr_status r = PendingRegistrationCompleted then (Inl err_already_completed, db)
          else if pr_type r = RegistrationTypeSocial \<or> is_expired now r
          then start_over now ids email ex (expire_row (pr_id r) db)
          else
            (case opening_of r db of
               None \<Rightarrow> (Inl err_already_completed, db)
             | Some v \<Rightarrow>
                 if vr_status v = VerificationRequestPending then (Inr (reused v), db)
                 else
                   (case first_by (\<lambda>v. NewestFirst (vr_created_at v) (vr_id v))
                           (filter (open_recovery (pr_id r)) (requests db)) of
                      Some v' \<Rightarrow> (Inr (reused v'), db)
                    | None \<Rightarrow>
                        if continuation_usable now (pr_id r) db then (Inr (reused v), db)
                        else start_over now ids email ex (expire_row (pr_id r) db))))"

section \<open>The statements on sound tables\<close>

lemma find_unique:
  assumes "distinct (map key (filter q xs))" and "r \<in> set xs" and "q r"
  shows "filter (\<lambda>x. key x = key r \<and> q x) xs = [r] \<and> find (\<lambda>x. key x = key r \<and> q x) xs = Some r"
  using assms
proof (induction xs)
  case (Cons x xs)
  have none: "filter (\<lambda>y. key y = key x \<and> q y) xs = []" if "key x \<notin> key ` set (filter q xs)"
    using that by (force simp: filter_empty_conv image_iff)
  show ?case
  proof (cases "x = r")
    case True
    with Cons.prems none show ?thesis by simp
  next
    case False
    with Cons.prems have r: "r \<in> set xs" by simp
    moreover have "\<not> (key x = key r \<and> q x)" using Cons.prems r by (auto simp: image_iff)
    ultimately show ?thesis using Cons by (auto split: if_splits)
  qed
qed simp

lemma live_row_cases:
  assumes "registration_inv db"
  obtains (free) "live_row email db = None" "\<And>r. r \<in> set (registrations db) \<Longrightarrow> pr_email r = email \<Longrightarrow> \<not> holds_email r"
  | (taken) r v where "live_row email db = Some r" "r \<in> set (registrations db)" "pr_email r = email" "holds_email r"
      "filter (\<lambda>r. pr_email r = email \<and> holds_email r) (registrations db) = [r]"
      "opening_of r db = Some v" "filter (opening_request r) (requests db) = [v]"
proof (cases "\<exists>r\<in>set (registrations db). pr_email r = email \<and> holds_email r")
  case True
  then obtain r where r: "r \<in> set (registrations db)" "pr_email r = email" "holds_email r" by blast
  have "distinct (map pr_email (filter holds_email (registrations db)))"
    and O: "openings_ok db" using assms by (simp_all add: registration_inv_def tables_ok_defs)
  from find_unique[OF this(1) r(1,3)] r(2)
  have 1: "live_row email db = Some r" "filter (\<lambda>r. pr_email r = email \<and> holds_email r) (registrations db) = [r]"
    by (simp_all add: live_row_def)
  from O r(1) obtain v where v: "v \<in> set (requests db)" "opens_one v" "vr_subject v = pr_id r"
    by (force simp: openings_ok_def)
  have eq: "opening_request r = (\<lambda>x. vr_subject x = vr_subject v \<and> opens_one x)"
    using v(3) by (auto simp: opening_request_def opens_one_def)
  have "distinct (map vr_subject (filter opens_one (requests db)))" using O by (simp add: openings_ok_def)
  from find_unique[OF this v(1,2)] have "opening_of r db = Some v" "filter (opening_request r) (requests db) = [v]"
    unfolding opening_of_def eq by simp_all
  with r 1 show thesis by (intro taken)
next
  case False
  then have "live_row email db = None" by (auto simp: live_row_def find_None_iff)
  with False show thesis by (intro free) auto
qed

lemma filter_by_status:
  "st \<noteq> PendingRegistrationExpired \<Longrightarrow>
     filter (\<lambda>r. pr_email r = email \<and> pr_status r = st) rs
       = filter (\<lambda>r. pr_status r = st) (filter (\<lambda>r. pr_email r = email \<and> holds_email r) rs)"
  by (induction rs) (auto simp: holds_email_def)

lemma with_opening_free:
  assumes "\<And>r. r \<in> set (registrations db) \<Longrightarrow> pr_email r = email \<Longrightarrow> \<not> holds_email r"
    and "st \<noteq> PendingRegistrationExpired"
  shows "with_opening (\<lambda>r. pr_email r = email \<and> pr_status r = st) db = []"
  using assms by (auto simp: with_opening_def holds_email_def)

lemma with_opening_taken:
  assumes "filter (\<lambda>r. pr_email r = email \<and> holds_email r) (registrations db) = [r]"
    and "filter (opening_request r) (requests db) = [v]" and "st \<noteq> PendingRegistrationExpired"
  shows "with_opening (\<lambda>r. pr_email r = email \<and> pr_status r = st) db = (if pr_status r = st then [(r, v)] else [])"
  using assms by (simp add: with_opening_def filter_by_status)

lemmas quiet_eval = begin_tx_def exec_def exec_one_def commit_def ret_def fail_def fail_internal_def
  fail_mapped_def next_fate_def advance_def

definition fresh_ids :: "uuid \<times> uuid \<Rightarrow> registration_db \<Rightarrow> bool" where
  "fresh_ids ids db \<longleftrightarrow> fst ids \<notin> pr_id ` set (registrations db) \<and> snd ids \<notin> vr_id ` set (requests db)"

lemma quiet_insert_manual:
  assumes "fresh_ids ids w" and "\<And>r. r \<in> set (registrations w) \<Longrightarrow> pr_email r = email \<Longrightarrow> \<not> holds_email r"
  shows "\<exists>c. insert_manual now ids email ex \<lparr>stored = d, work = w, sched = []\<rparr>
     = (fst (start_over now ids email ex w), \<lparr>stored = snd (start_over now ids email ex w), work = c, sched = []\<rparr>)"
proof -
  have "\<not> has_key pr_email email (filter holds_email (registrations w))"
    using assms(2) by (auto simp: has_key_iff)
  with assms(1) show ?thesis
    by (simp add: insert_manual_def quiet_eval q_create_pending_registration_def q_create_verification_request_def
        start_over_def manual_pair_def fresh_ids_def has_key_iff Let_def)
qed

lemma expired_rows:
  assumes "registration_inv db" and "r \<in> set (registrations db)" and "p r"
    and "\<And>x. p x \<Longrightarrow> pr_id x = pr_id r"
  shows "expire_where p db = Inr (1, expire_row (pr_id r) db)"
proof -
  have d: "distinct (map pr_id (registrations db))" using assms(1) by (simp add: registration_inv_def tables_ok_defs)
  have "p x \<longleftrightarrow> pr_id x = pr_id r" if "x \<in> set (registrations db)" for x
    using that assms(2-4) d distinct_map_filter_inj by metis
  then have "update_where p f (registrations db) = update_where (\<lambda>x. pr_id x = pr_id r) f (registrations db)" for f
    unfolding update_where_def by (intro map_cong) auto
  moreover have "rows_where p (registrations db) = 1"
    using rows_where_unique[OF d, of p "pr_id r"] assms(4) rows_where_pos[of p "registrations db"] assms(2,3) by fastforce
  ultimately show ?thesis by (simp add: expire_where_def expire_row_def)
qed

lemma expired_frees:
  assumes "registration_inv db" and "r \<in> set (registrations db)" and "holds_email r"
    and "x \<in> set (registrations (expire_row (pr_id r) db))" and "pr_email x = pr_email r"
  shows "\<not> holds_email x"
proof
  assume x: "holds_email x"
  with assms(4) have "x \<in> set (registrations db)" "pr_id x \<noteq> pr_id r"
    by (auto simp: expire_row_def set_update_where holds_email_def split: if_splits)
  moreover have "distinct (map pr_email (filter holds_email (registrations db)))"
    using assms(1) by (simp add: registration_inv_def tables_ok_defs)
  ultimately have "x = r" using assms(2,3,5) x distinct_map_filter_inj[of pr_email "filter holds_email (registrations db)" x r] by simp
  with \<open>pr_id x \<noteq> pr_id r\<close> show False by simp
qed

lemma expire_row_ids [simp]: "fresh_ids ids (expire_row pid db) = fresh_ids ids db"
  by (simp add: fresh_ids_def expire_row_def table_simps)

lemma quiet_restart:
  assumes "registration_inv d" and "r \<in> set (registrations d)" and "pr_email r = email" and "holds_email r"
    and "fresh_ids ids d" and "q d = Inr (1, expire_row (pr_id r) d)"
  shows "\<exists>c. exec_one q refusal (insert_manual now ids email ex) \<lparr>stored = d, work = d, sched = []\<rparr>
     = (fst (start_over now ids email ex (expire_row (pr_id r) d)),
        \<lparr>stored = snd (start_over now ids email ex (expire_row (pr_id r) d)), work = c, sched = []\<rparr>)"
  using quiet_insert_manual[of ids "expire_row (pr_id r) d" email now ex d] assms expired_frees[OF assms(1,2,4)]
  by (simp add: exec_one_def exec_def next_fate_def advance_def)

section \<open>The call is the decision\<close>

lemma not_expired_live: "holds_email r \<Longrightarrow> pr_status r \<noteq> PendingRegistrationCompleted \<Longrightarrow> pr_status r = PendingRegistrationPending"
  by (cases "pr_status r") (auto simp: holds_email_def)

lemma create_manual_once_free:
  assumes "\<And>r. r \<in> set (registrations d) \<Longrightarrow> pr_email r = email \<Longrightarrow> \<not> holds_email r" and "fresh_ids ids d"
  shows "quiet (create_manual_registration_once now ids email ex) d
           (fst (start_over now ids email ex d)) (snd (start_over now ids email ex d))"
proof -
  have "q_get_pending_registration_by_email_for_update email d = Inl err_no_rows"
    by (simp add: q_get_pending_registration_by_email_for_update_def with_opening_free[OF assms(1)] first_row_def)
  moreover have "errors_is err_no_rows err_no_rows" by (simp add: errors_is_def error_chain_self)
  ultimately show ?thesis
    using quiet_insert_manual[of ids d email now ex d, OF assms(2,1)]
    by (simp add: quiet_def create_manual_registration_once_def begin_tx_def exec_def next_fate_def advance_def)
qed

lemma create_manual_once_taken:
  assumes I: "registration_inv d" and f: "fresh_ids ids d"
    and r: "r \<in> set (registrations d)" "pr_email r = email" "holds_email r" "pr_status r \<noteq> PendingRegistrationCompleted"
    and o: "filter (\<lambda>r. pr_email r = email \<and> holds_email r) (registrations d) = [r]"
      "filter (opening_request r) (requests d) = [v]" "live_row email d = Some r" "opening_of r d = Some v"
  shows "quiet (create_manual_registration_once now ids email ex) d
           (fst (manual_decision now ids email ex d)) (snd (manual_decision now ids email ex d))"
proof -
  have st: "pr_status r = PendingRegistrationPending" by (rule not_expired_live[OF r(3,4)])
  have get: "q_get_pending_registration_by_email_for_update email d = Inr ((r, v), d)"
    by (simp add: q_get_pending_registration_by_email_for_update_def with_opening_taken[OF o(1,2)] st first_row_def)
  have social: "pr_type r = RegistrationTypeSocial \<Longrightarrow> q_force_expire_social (pr_id r) d = Inr (1, expire_row (pr_id r) d)"
    unfolding q_force_expire_social_def by (rule expired_rows[OF I r(1)]) (simp_all add: st)
  have manual: "pr_type r = RegistrationTypeManual \<Longrightarrow> q_force_expire_manual (pr_id r) d = Inr (1, expire_row (pr_id r) d)"
    unfolding q_force_expire_manual_def by (rule expired_rows[OF I r(1)]) (simp_all add: st)
  have expire: "is_expired now r \<Longrightarrow> q_expire_pending_registration now (pr_id r) d = Inr (1, expire_row (pr_id r) d)"
    unfolding q_expire_pending_registration_def by (rule expired_rows[OF I r(1)]) (simp_all add: st is_expired_def)
  have no_rows: "errors_is err_no_rows err_no_rows" by (simp add: errors_is_def error_chain_self)
  note restart = quiet_restart[OF I r(1-3) f, where now = now and ex = ex and refusal = no_longer_pending]
  have type: "pr_type r \<noteq> RegistrationTypeSocial \<Longrightarrow> pr_type r = RegistrationTypeManual" by (cases "pr_type r") auto
  show ?thesis
    using restart[of "q_force_expire_social (pr_id r)", OF social] restart[of "q_force_expire_manual (pr_id r)", OF manual]
      restart[of "q_expire_pending_registration now (pr_id r)", OF expire] type
    by (auto simp: quiet_def create_manual_registration_once_def begin_tx_def exec_def[of "q_get_pending_registration_by_email_for_update _"]
        exec_def[of "q_get_pending_recovery_verification _"] exec_def[of "q_has_usable_registration_continuation _ _"]
        next_fate_def advance_def get manual_decision_def o st ret_def no_rows
        q_get_pending_recovery_verification_def q_has_usable_registration_continuation_def continuation_usable_def
        split: option.splits)
qed

text \<open>
  Registering by email is one decision on the registration that holds the address. On sound
  tables and without faults, \<open>RegisterManual\<close> refuses an address whose registration is completed;
  hands back the open verification (or the open recovery, or the verified request whose continuation
  can still be used) of a pending manual registration; and otherwise starts over with a new
  registration and request, expiring the one that held the address, be it a social one, one that ran
  out, or a verified one that leads nowhere. Nothing else changes.
\<close>

theorem register_manual_decides:
  assumes "registration_reachable db" and "fresh_ids ids db" and "uuid_nil \<notin> pr_id ` set (registrations db)"
  shows "run (register_manual app_now (now, now2) (ids, ids2) email) db []
           = manual_decision now ids (normalize_email email) (app_now + registration_expires_in) db"
proof -
  let ?e = "normalize_email email" and ?x = "app_now + registration_expires_in"
  have I: "registration_inv db" by (rule reg.reachable_inv[OF assms(1)])
  have retry: "quiet (repo_create_manual_registration (now, now2) (ids, ids2) ?e ?x) db r d'"
    if "quiet (create_manual_registration_once now ids ?e ?x) db r d'" "\<not> isl r" for r d'
    using quiet_call[OF _ quiet_ret, of "create_manual_registration_once now ids ?e ?x" db _ d'] that
    by (cases r) (auto simp: repo_create_manual_registration_def)
  have go: "run (register_manual app_now (now, now2) (ids, ids2) email) db [] = (r, d')"
    if "q_get_completed_registration_by_email ?e db = Inl err_no_rows"
      "quiet (create_manual_registration_once now ids ?e ?x) db r d'" "\<not> isl r" for r d'
  proof (rule quiet_run)
    have "quiet (repo_get_completed_registration_by_email ?e) db (Inr uuid_nil) db"
      using that(1) by (simp add: repo_get_completed_registration_by_email_def quiet_def pool_def next_fate_def
          advance_def errors_is_def error_chain_self ret_def)
    from quiet_call[OF this, of "\<lambda>rid. if rid \<noteq> uuid_nil then fail err_already_completed
        else repo_create_manual_registration (now, now2) (ids, ids2) ?e ?x"] retry[OF that(2,3)]
    show "quiet (register_manual app_now (now, now2) (ids, ids2) email) db r d'"
      by (simp add: register_manual_def Let_def)
  qed
  from I show ?thesis
  proof (cases rule: live_row_cases[of db ?e])
    case free
    have "q_get_completed_registration_by_email ?e db = Inl err_no_rows"
      by (simp add: q_get_completed_registration_by_email_def with_opening_free[OF free(2)] first_row_def)
    from go[OF this create_manual_once_free[OF free(2) assms(2)]] free(1)
    show ?thesis by (simp add: manual_decision_def start_over_def split: prod.splits)
  next
    case (taken r v)
    show ?thesis
    proof (cases "pr_status r = PendingRegistrationCompleted")
      case True
      then have "q_get_completed_registration_by_email ?e db = Inr (pr_id r, db)"
        using with_opening_taken[OF taken(5,7)] by (simp add: q_get_completed_registration_by_email_def first_row_def)
      moreover have "pr_id r \<noteq> uuid_nil" using assms(3) taken(2) by (metis imageI)
      ultimately show ?thesis
        using True taken(1)
        by (simp add: register_manual_def repo_get_completed_registration_by_email_def manual_decision_def Let_def
            run_def conn_of_def call_def pool_def next_fate_def advance_def ret_def fail_def)
    next
      case False
      then have "q_get_completed_registration_by_email ?e db = Inl err_no_rows"
        using with_opening_taken[OF taken(5,7)] by (simp add: q_get_completed_registration_by_email_def first_row_def)
      from go[OF this create_manual_once_taken[OF I assms(2) taken(2,3,4) False taken(5,7,1,6)]] taken(1,6) False
      show ?thesis by (simp add: manual_decision_def start_over_def split: prod.splits option.splits)
    qed
  qed
qed

theorem register_manual_decides_witness:
  "fst (run (register_manual 0 (0, 0) ((11, 12), (13, 14)) '' Ada@x'') demo_accounts []) = Inl err_already_completed"
proof -
  have "fresh_ids (11, 12) demo_accounts \<and> uuid_nil \<notin> pr_id ` set (registrations demo_accounts) \<and>
      fst (manual_decision 0 (11, 12) (normalize_email '' Ada@x'') (0 + registration_expires_in) demo_accounts)
        = Inl err_already_completed"
    by code_simp
  with register_manual_decides[OF demo_reachable, of "(11, 12)" 0 0 0 "(13, 14)" "'' Ada@x''"] show ?thesis by simp
qed

end
