(* ===== verification/RegistrationCodes.thy ===== *)
theory RegistrationCodes
  imports RegistrationProps
begin

text \<open>
  Issuing a verification code: what the repository transaction does to the tables, and what the
  service call over it answers, with its two budgets and the mail sender.
\<close>

section \<open>The transaction\<close>

definition new_code :: "time \<Rightarrow> uuid \<Rightarrow> uuid \<Rightarrow> string \<Rightarrow> time \<Rightarrow> verification_code" where
  "new_code now cid vid hash ex = \<lparr>vc_id = cid, vc_request = vid, vc_hash = hash, vc_attempts = 0,
     vc_created_at = now, vc_expires_at = ex, vc_consumed_at = None, vc_invalidated_at = None\<rparr>"

text \<open>The code that was active is invalidated, the new one added, and the request counts one more.\<close>

definition code_issued :: "time \<Rightarrow> uuid \<Rightarrow> uuid \<Rightarrow> string \<Rightarrow> time \<Rightarrow> registration_db \<Rightarrow> registration_db" where
  "code_issued now cid vid hash ex db = db\<lparr>
     codes := update_where (\<lambda>c. vc_request c = vid \<and> code_active c) (\<lambda>c. c\<lparr>vc_invalidated_at := Some now\<rparr>) (codes db)
                @ [new_code now cid vid hash ex],
     requests := update_where (\<lambda>v. vr_id v = vid)
       (\<lambda>v. v\<lparr>vr_pin_issued_count := vr_pin_issued_count v + 1, vr_last_sent_at := Some now\<rparr>) (requests db)\<rparr>"

lemma invalidated_rows:
  assumes T: "distinct (map vc_request (filter code_active cs))" "distinct (map vc_id cs)"
  shows "(case first_by newest_code (filter (\<lambda>c. vc_request c = vid \<and> code_active c) cs) of
            None \<Rightarrow> cs | Some old \<Rightarrow> update_where (\<lambda>c. vc_id c = vc_id old) f cs)
         = update_where (\<lambda>c. vc_request c = vid \<and> code_active c) f cs"
proof (cases "\<exists>c\<in>set cs. code_active c \<and> vc_request c = vid")
  case True
  then obtain c where c: "c \<in> set cs" "code_active c" "vc_request c = vid" by blast
  from active_codes[OF T(1) c(1,2), of "\<lambda>_. True"] c(3)
  have only: "filter (\<lambda>c. vc_request c = vid \<and> code_active c) cs = [c]" by simp
  have "vc_id y = vc_id c \<longleftrightarrow> vc_request y = vid \<and> code_active y" if "y \<in> set cs" for y
  proof -
    have "(vc_request y = vid \<and> code_active y) \<longleftrightarrow> y \<in> set (filter (\<lambda>c. vc_request c = vid \<and> code_active c) cs)"
      using that by simp
    also have "\<dots> \<longleftrightarrow> y = c" unfolding only by simp
    finally show ?thesis using distinct_map_filter_inj[OF T(2) that c(1)] by blast
  qed
  then have "update_where (\<lambda>y. vc_id y = vc_id c) f cs = update_where (\<lambda>c. vc_request c = vid \<and> code_active c) f cs"
    unfolding update_where_def by (intro map_cong) auto
  with only show ?thesis by (simp add: first_by_single)
next
  case False
  then have "filter (\<lambda>c. vc_request c = vid \<and> code_active c) cs = []" by (auto simp: filter_empty_conv)
  moreover have "update_where (\<lambda>c. vc_request c = vid \<and> code_active c) f cs = cs"
    using False by (intro update_where_none) auto
  ultimately show ?thesis by (simp add: first_by_def)
qed

lemma invalidates_active:
  assumes I: "registration_inv d" and q: "q_invalidate_verification_code now vid d = Inr (x, d')"
  shows "d' = d\<lparr>codes := update_where (\<lambda>c. vc_request c = vid \<and> code_active c)
                           (\<lambda>c. c\<lparr>vc_invalidated_at := Some now\<rparr>) (codes d)\<rparr>"
proof -
  have T: "distinct (map vc_request (filter code_active (codes d)))" "distinct (map vc_id (codes d))"
    using I by (simp_all add: registration_inv_def tables_ok_defs)
  from q have "d' = d\<lparr>codes := case first_by newest_code (filter (\<lambda>c. vc_request c = vid \<and> code_active c) (codes d)) of
      None \<Rightarrow> codes d
    | Some old \<Rightarrow> update_where (\<lambda>c. vc_id c = vc_id old) (\<lambda>c. c\<lparr>vc_invalidated_at := Some now\<rparr>) (codes d)\<rparr>"
    by (auto simp: q_invalidate_verification_code_def split: option.splits)
  then show ?thesis unfolding invalidated_rows[OF T] .
qed


lemma wp_issues_code:
  assumes I: "registration_inv d"
  shows "wp (\<lambda>r d'. (d' = d \<and> isl r) \<or> d' = code_issued now cid vid hash ex d)
           (repo_issue_verification_code now cid vid hash ex) d w"
proof -
  have *: "w3 = code_issued now cid vid hash ex d"
    if q: "q_invalidate_verification_code now vid d = Inr (x, w1)"
      "q_create_verification_code now cid vid hash ex w1 = Inr (c, w2)"
      "q_update_verification_request_pin_issued now vid w2 = Inr (v, w3)" for x w1 c w2 v w3
    using invalidates_active[OF I q(1)] q(2,3)
    by (auto simp: q_create_verification_code_def q_update_verification_request_pin_issued_def code_issued_def
        new_code_def Let_def split: if_splits option.splits)
  show ?thesis
    unfolding repo_issue_verification_code_def
    by (intro wp_intros; (rule disjI1, simp; fail)?; rule disjI2; erule (2) *)
qed

lemma issued_code_alone:
  assumes I: "registration_inv db" and f: "cid \<notin> vc_id ` set (codes db)"
  shows "filter (\<lambda>c. vc_request c = vid' \<and> code_active c) (codes (code_issued now cid vid hash ex db))
    = (if vid' = vid then [new_code now cid vid hash ex]
       else filter (\<lambda>c. vc_request c = vid' \<and> code_active c) (codes db))"
proof -
  have "filter (\<lambda>c. vc_request c = vid' \<and> code_active c)
      (update_where (\<lambda>c. vc_request c = vid \<and> code_active c) (\<lambda>c. c\<lparr>vc_invalidated_at := Some now\<rparr>) cs)
    = (if vid' = vid then [] else filter (\<lambda>c. vc_request c = vid' \<and> code_active c) cs)" for cs
    by (induction cs) (simp_all add: table_simps, auto simp: code_active_def)
  then show ?thesis by (simp add: code_issued_def new_code_def code_active_def)
qed

section \<open>The service call\<close>

definition pin_email_admitted ::
  "(string \<Rightarrow> string \<Rightarrow> nat list) \<Rightarrow> string \<Rightarrow> pin_email_budget \<Rightarrow> issue_env \<Rightarrow> string \<Rightarrow> keyspace \<Rightarrow> bool" where
  "pin_email_admitted mac secret b env email ks \<longleftrightarrow>
     \<not> isl (fst (reserve_pin_email mac secret b env email ks)) \<and>
     \<not> isl (fst (reserve_global_pin_email mac secret b env (snd (reserve_pin_email mac secret b env email ks))))"

lemma get_verification_run:
  "run (repo_get_verification vid) db fs = (r, db') \<Longrightarrow>
     db' = db \<and> (\<forall>x. r = Inr x \<longrightarrow> q_get_verification vid db = Inr (x, db))"
  by (auto simp: run_def conn_of_def repo_get_verification_def pool_def q_get_verification_def next_fate_def advance_def
      ret_def fail_def fail_internal_def split: fate.splits option.splits if_splits list.splits sum.splits prod.splits)

lemma deliver_ok: "deliver mac secret f t g sent ks = (None, ks') \<Longrightarrow> sent = None"
  by (auto simp: deliver_def split: if_splits)

text \<open>
  What issuing a code does, for every state of the budgets, every fault and every answer of the
  sender. The tables are left as they were, or changed by exactly one issue: the new code, with no
  guesses counted, becomes the only active code of its request, and the codes of other requests stay.
  They change only for a request that is pending, past its cooldown, and admitted by both budgets; and
  the call succeeds only if, besides, the sender reported the message as sent.
\<close>

theorem issuing_a_code:
  assumes "registration_reachable db" and "ie_code_id env \<notin> vc_id ` set (codes db)"
  shows "case issue_verification_code mac secret b env vid (db, ks) of (r, db', ks') \<Rightarrow>
     (db' = db \<or>
        (\<exists>code v reg. ie_code env = Inr code \<and> q_get_verification vid db = Inr ((v, reg), db) \<and>
           validate_verification_pending (ie_app_pending env) v reg = None \<and>
           ensure_verification_cooldown_elapsed (ie_app_cooldown env) v = None \<and>
           pin_email_admitted mac secret b env (pr_email reg) ks \<and>
           db' = code_issued (ie_db_now env) (ie_code_id env) vid (ie_hash_code env code)
                   (ie_app_code env + verification_code_expires_in) db \<and>
           (\<forall>vid'. filter (\<lambda>c. vc_request c = vid' \<and> code_active c) (codes db') =
              (if vid' = vid then [new_code (ie_db_now env) (ie_code_id env) vid (ie_hash_code env code)
                                     (ie_app_code env + verification_code_expires_in)]
               else filter (\<lambda>c. vc_request c = vid' \<and> code_active c) (codes db))))) \<and>
     (\<not> isl r \<longrightarrow> r = Inr vid \<and> ie_sent env = None \<and> db' \<noteq> db)"
proof -
  have I: "registration_inv db" by (rule reg.reachable_inv[OF assms(1)])
  let ?issued = "\<lambda>code. code_issued (ie_db_now env) (ie_code_id env) vid (ie_hash_code env code)
                   (ie_app_code env + verification_code_expires_in) db"
  have repo: "db' = db \<and> isl r \<or> db' = ?issued code"
    if "run (repo_issue_verification_code (ie_db_now env) (ie_code_id env) vid (ie_hash_code env code)
          (ie_app_code env + verification_code_expires_in)) db fs = (r, db')" for r db' fs code
    by (rule wp_run[OF wp_issues_code[OF I] that])
  have new: "?issued code \<noteq> db" for code
  proof
    assume "?issued code = db"
    then have "length (codes (?issued code)) = length (codes db)" by simp
    then show False by (simp add: code_issued_def update_where_def)
  qed
  show ?thesis
  proof (cases "fst (run (repo_get_verification vid) db (ie_get_fates env))")
    case (Inl e)
    then have "run (repo_get_verification vid) db (ie_get_fates env) = (Inl e, db)"
      using get_verification_run[OF surjective_pairing] by (metis prod.collapse)
    then show ?thesis by (simp add: issue_verification_code_def split: prod.splits)
  next
    case (Inr vr)
    obtain v reg where vr: "vr = (v, reg)" by (cases vr)
    from Inr have get: "run (repo_get_verification vid) db (ie_get_fates env) = (Inr (v, reg), db)"
      and q: "q_get_verification vid db = Inr ((v, reg), db)"
      using get_verification_run[OF surjective_pairing[of "run (repo_get_verification vid) db (ie_get_fates env)"]] vr
      by (auto intro: prod_eqI)
    show ?thesis
      unfolding issue_verification_code_def
      using q new issued_code_alone[OF I assms(2)]
      by (auto simp: get pin_email_admitted_def split: prod.splits sum.splits option.splits dest!: repo deliver_ok)
  qed
qed

definition demo_opened :: registration_db where
  "demo_opened = run_calls (take 1 demo_calls) empty_registrations"

definition demo_issue :: issue_env where
  "demo_issue = \<lparr>ie_get_fates = [], ie_app_pending = 10, ie_app_cooldown = 10,
     ie_email_call = (StmtOk, 1, 10, Inr ''m1''), ie_global_call = (StmtOk, 1, 10, Inr ''m2''),
     ie_code = Inr ''123456'', ie_hash_code = id, ie_app_code = 10, ie_issue_fates = [], ie_db_now = 10,
     ie_code_id = 5, ie_sent = None, ie_refund = (StmtOk, 10)\<rparr>"

lemma demo_opened_ready:
  "calls_enabled (take 1 demo_calls) empty_registrations \<and> codes demo_opened = [] \<and>
   \<not> isl (fst (issue_verification_code demo_mac ''s'' \<lparr>b_per_email = demo_sliding, b_global = demo_sliding\<rparr>
       demo_issue 2 (demo_opened, \<lambda>_. None)))"
  by code_simp

theorem issuing_a_code_witness:
  "filter (\<lambda>c. vc_request c = 2 \<and> code_active c)
     (codes (fst (snd (issue_verification_code demo_mac ''s'' \<lparr>b_per_email = demo_sliding, b_global = demo_sliding\<rparr>
       demo_issue 2 (demo_opened, \<lambda>_. None))))) = [new_code 10 5 2 ''123456'' (10 + 5 * minute)]"
proof -
  let ?run = "issue_verification_code demo_mac ''s'' \<lparr>b_per_email = demo_sliding, b_global = demo_sliding\<rparr>
       demo_issue 2 (demo_opened, \<lambda>_. None)"
  have "registration_reachable demo_opened"
    unfolding demo_opened_def by (rule reachable_calls[OF conjunct1[OF demo_opened_ready] start_reachable])
  from issuing_a_code[where env = demo_issue and mac = demo_mac and secret = "''s''" and vid = 2 and ks = "\<lambda>_. None"
      and b = "\<lparr>b_per_email = demo_sliding, b_global = demo_sliding\<rparr>", OF this]
  show ?thesis using demo_opened_ready
    by (cases ?run) (auto simp: demo_issue_def verification_code_expires_in_def)
qed

end
