(* ===== verification/Keyset.thy ===== *)
theory Keyset
  imports Prelude
begin

text \<open>
  Keyset pagination as an interface. A listing is fetched page by page; each page but the last comes with
  the position of its last row, and the next fetch asks for the rows beyond that position. The laws say
  what one fetch returns from one state of the tables; the lemmas are about whole walks, on tables that
  stand still and on tables that change between the fetches.
\<close>

section \<open>Walking the pages\<close>

text \<open>The client that follows the positions until there is none.\<close>

partial_function (option) follow :: "('c option \<Rightarrow> 'r list \<times> 'c option) \<Rightarrow> 'c option \<Rightarrow> 'r list list option" where
  "follow fetch cur =
     (case snd (fetch cur) of
        None \<Rightarrow> Some [fst (fetch cur)]
      | Some c \<Rightarrow> Option.bind (follow fetch (Some c)) (\<lambda>pages. Some (fst (fetch cur) # pages)))"

text \<open>
  The same client while the tables change: the fetches meet the states of a list one after the other. The
  walk is complete when a fetch came without a position.
\<close>

fun walk :: "('s \<Rightarrow> 'c option \<Rightarrow> 'r list \<times> 'c option) \<Rightarrow> 's list \<Rightarrow> 'c option \<Rightarrow> 'r list option" where
  "walk fetch [] cur = None"
| "walk fetch (s # ss) cur =
     (case fetch s cur of
        (rows, None) \<Rightarrow> Some rows
      | (rows, Some c) \<Rightarrow> map_option ((@) rows) (walk fetch ss (Some c)))"

definition beyond :: "('r \<Rightarrow> 'k::linorder) \<Rightarrow> 'k option \<Rightarrow> 'r \<Rightarrow> bool" where
  "beyond key cur r = (case cur of None \<Rightarrow> True | Some k \<Rightarrow> k < key r)"

text \<open>The rows left from a position on, in order.\<close>

definition rest :: "('r \<Rightarrow> 'k::linorder) \<Rightarrow> 'r list \<Rightarrow> 'k option \<Rightarrow> 'r list" where
  "rest key rows cur = sort_key key (filter (beyond key cur) rows)"

definition keyset_page ::
  "('r \<Rightarrow> 'k::linorder) \<Rightarrow> ('r \<Rightarrow> 't) \<Rightarrow> nat \<Rightarrow> 'r list \<Rightarrow> 'k option \<Rightarrow> 'r list \<times> 't option" where
  "keyset_page key tok limit rows cur =
     (let xs = rest key rows cur; page = take limit xs
      in (page, if limit < length xs then Some (tok (last page)) else None))"

lemma sorted_rest: "sorted (map key (rest key rows cur))"
  by (simp add: rest_def)

lemma set_rest: "set (rest key rows cur) = {r \<in> set rows. beyond key cur r}"
  by (auto simp: rest_def)

lemma distinct_rest: "distinct (map key rows) \<Longrightarrow> distinct (map key (rest key rows cur))"
  by (auto simp: rest_def distinct_map intro: inj_on_subset)

lemma beyond_trans: "beyond key cur r \<Longrightarrow> key r < key x \<Longrightarrow> beyond key cur x"
  by (auto simp: beyond_def split: option.splits)

lemma last_greatest: "sorted (map key ys) \<Longrightarrow> r \<in> set ys \<Longrightarrow> key r \<le> key (last ys)"
  by (induction ys) auto

lemma rest_next:
  assumes "distinct (map key rows)" and "0 < limit" and "limit < length (rest key rows cur)"
  shows "rest key rows (Some (key (last (take limit (rest key rows cur))))) = drop limit (rest key rows cur)"
proof -
  let ?xs = "rest key rows cur" and ?sorted = "sort_key key rows"
  define k where "k = key (last (take limit ?xs))"
  have xs: "?xs = filter (beyond key cur) ?sorted" by (simp add: rest_def filter_sort)
  have ne: "take limit ?xs \<noteq> []" using assms(2,3) by auto
  then have "last (take limit ?xs) \<in> set ?xs" by (metis in_set_takeD last_in_set)
  then have far: "beyond key cur (last (take limit ?xs))" by (simp add: set_rest)
  have "rest key rows (Some k) = filter (\<lambda>r. k < key r) ?sorted"
    by (simp add: rest_def filter_sort beyond_def[abs_def])
  also have "\<dots> = filter (\<lambda>r. k < key r) ?xs"
    unfolding xs filter_filter using beyond_trans[OF far] unfolding k_def by (intro filter_cong) auto
  also have "\<dots> = filter (\<lambda>r. k < key r) (take limit ?xs) @ filter (\<lambda>r. k < key r) (drop limit ?xs)"
    by (metis append_take_drop_id filter_append)
  also have "filter (\<lambda>r. k < key r) (take limit ?xs) = []"
  proof -
    have "sorted (map key (take limit ?xs))" using sorted_rest by (metis sorted_wrt_take take_map)
    then have "key r \<le> k" if "r \<in> set (take limit ?xs)" for r
      using that unfolding k_def by (rule last_greatest)
    then show ?thesis by (auto simp: filter_empty_conv not_less)
  qed
  also have "filter (\<lambda>r. k < key r) (drop limit ?xs) = drop limit ?xs"
  proof (rule filter_True, rule ballI)
    fix r assume r: "r \<in> set (drop limit ?xs)"
    have "sorted (map key ?xs)" "distinct (map key ?xs)" using sorted_rest distinct_rest[OF assms(1)] by auto
    then have "sorted_wrt (<) (map key ?xs)" by (simp add: strict_sorted_iff)
    then have "sorted_wrt (<) (map key (take limit ?xs) @ map key (drop limit ?xs))"
      by (metis append_take_drop_id map_append)
    then show "k < key r" using r ne unfolding k_def by (auto simp: sorted_wrt_append)
  qed
  finally show ?thesis by (simp add: k_def)
qed

section \<open>The interface\<close>

locale keyset_listing =
  fixes key :: "'r \<Rightarrow> 'k::linorder"
    and ok :: "'s \<Rightarrow> bool"
    and visible :: "'s \<Rightarrow> 'r list"
    and known :: "'r \<Rightarrow> bool"
    and tok :: "'r \<Rightarrow> 't"
    and limit :: nat
    and fetch :: "'s \<Rightarrow> 't option \<Rightarrow> 'r list \<times> 't option"
  assumes limit_pos: "0 < limit"
    and unique: "ok s \<Longrightarrow> distinct (map key (visible s))"
    and visible_known: "ok s \<Longrightarrow> r \<in> set (visible s) \<Longrightarrow> known r"
    and page: "ok s \<Longrightarrow> pred_option known cur \<Longrightarrow>
      fetch s (map_option tok cur) = keyset_page key tok limit (visible s) (map_option key cur)"
begin

lemma last_known:
  assumes "ok s" and "limit < length (rest key (visible s) k)"
  shows "last (take limit (rest key (visible s) k)) \<in> set (rest key (visible s) k)"
    and "known (last (take limit (rest key (visible s) k)))"
proof -
  have ne: "take limit (rest key (visible s) k) \<noteq> []" using assms(2) limit_pos by auto
  then show "last (take limit (rest key (visible s) k)) \<in> set (rest key (visible s) k)"
    by (rule in_set_takeD[OF last_in_set])
  then show "known (last (take limit (rest key (visible s) k)))"
    using visible_known[OF assms(1)] by (simp add: set_rest)
qed

lemma follow_all:
  assumes "ok s" and "pred_option known cur"
  shows "\<exists>pages. follow (fetch s) (map_option tok cur) = Some pages \<and>
           concat pages = rest key (visible s) (map_option key cur) \<and>
           length pages = Suc ((length (rest key (visible s) (map_option key cur)) - 1) div limit)"
  using assms(2)
proof (induction "length (rest key (visible s) (map_option key cur))" arbitrary: cur rule: less_induct)
  case less
  let ?xs = "rest key (visible s) (map_option key cur)"
  note page = page[OF assms(1) less.prems]
  show ?case
  proof (cases "limit < length ?xs")
    case False
    then have "(length ?xs - 1) div limit = 0" using limit_pos by simp
    with False show ?thesis
      by (simp add: follow.simps[of _ "map_option tok cur"] page keyset_page_def Let_def)
  next
    case True
    let ?r = "last (take limit ?xs)"
    have nxt: "rest key (visible s) (map_option key (Some ?r)) = drop limit ?xs"
      using rest_next[OF unique[OF assms(1)] limit_pos True] by simp
    have "length (rest key (visible s) (map_option key (Some ?r))) < length ?xs"
      using nxt True limit_pos by simp
    from less.hyps[OF this] last_known(2)[OF assms(1) True] nxt obtain pages
      where p: "follow (fetch s) (Some (tok ?r)) = Some pages"
      "concat pages = drop limit ?xs" "length pages = Suc ((length ?xs - limit - 1) div limit)"
      by (auto simp: diff_diff_add)
    have "(length ?xs - 1) div limit = Suc ((length ?xs - limit - 1) div limit)"
      using True limit_pos le_div_geq[of limit "length ?xs - 1"] by (simp add: diff_commute)
    with p True show ?thesis
      by (simp add: follow.simps[of _ "map_option tok cur"] page keyset_page_def Let_def)
  qed
qed

lemma walk_through_changes:
  assumes "walk fetch ss (map_option tok cur) = Some rows" and "\<forall>s\<in>set ss. ok s" and "pred_option known cur"
  shows "sorted_wrt (<) (map key rows) \<and> (\<forall>r\<in>set rows. beyond key (map_option key cur) r) \<and>
         (\<forall>r\<in>set rows. \<exists>s\<in>set ss. r \<in> set (visible s)) \<and>
         (\<forall>k. (\<forall>s\<in>set ss. k \<in> key ` set (visible s)) \<and> pred_option (\<lambda>c. key c < k) cur \<longrightarrow> k \<in> key ` set rows)"
  using assms
proof (induction ss arbitrary: cur rows)
  case (Cons s ss)
  let ?cur = "map_option key cur"
  let ?xs = "rest key (visible s) ?cur" and ?page = "take limit (rest key (visible s) ?cur)"
  have s: "ok s" using Cons.prems(2) by simp
  have strict: "sorted_wrt (<) (map key ?xs)"
    using sorted_rest distinct_rest[OF unique[OF s]] by (simp add: strict_sorted_iff)
  have fetch: "fetch s (map_option tok cur) = (?page, if limit < length ?xs then Some (tok (last ?page)) else None)"
    by (simp add: page[OF s Cons.prems(3)] keyset_page_def Let_def)
  show ?case
  proof (cases "limit < length ?xs")
    case False
    with Cons.prems(1) fetch have "rows = ?xs" by simp
    moreover have "k \<in> key ` set ?xs" if "k \<in> key ` set (visible s)" "pred_option (\<lambda>c. key c < k) cur" for k
      using that by (cases cur) (auto simp: set_rest beyond_def)
    ultimately show ?thesis using strict by (auto simp: set_rest)
  next
    case True
    let ?k = "key (last ?page)"
    obtain tl where tl: "walk fetch ss (Some (tok (last ?page))) = Some tl" "rows = ?page @ tl"
      using Cons.prems(1) True fetch by auto
    from Cons.prems(2) have ok: "\<forall>s\<in>set ss. ok s" by simp
    have "walk fetch ss (map_option tok (Some (last ?page))) = Some tl" "pred_option known (Some (last ?page))"
      using tl(1) last_known(2)[OF s True] by simp_all
    note IH = Cons.IH[OF this(1) ok this(2), simplified]
    note IH = IH[THEN conjunct1] IH[THEN conjunct2, THEN conjunct1] IH[THEN conjunct2, THEN conjunct2, THEN conjunct1]
      IH[THEN conjunct2, THEN conjunct2, THEN conjunct2]
    have low: "key r \<le> ?k" if "r \<in> set ?page" for r
      using last_greatest[OF _ that] sorted_rest by (metis sorted_wrt_take take_map)
    have far: "beyond key ?cur (last ?page)" using last_known(1)[OF s True] by (simp add: set_rest)
    have high: "?k < key r" if "r \<in> set tl" for r using IH(2) that by (simp add: beyond_def)
    have sorted: "sorted_wrt (<) (map key rows)"
      unfolding tl(2) map_append sorted_wrt_append
      using IH(1) sorted_wrt_take[OF strict, of limit] low high by (auto simp: take_map intro: le_less_trans)
    have "\<forall>r\<in>set rows. beyond key ?cur r"
      unfolding tl(2) using high beyond_trans[OF far] by (auto simp: set_rest dest!: in_set_takeD)
    moreover have "\<forall>r\<in>set rows. \<exists>s\<in>set (s # ss). r \<in> set (visible s)"
      unfolding tl(2) using IH(3) by (auto simp: set_rest dest!: in_set_takeD)
    moreover have "k \<in> key ` set rows"
      if k: "\<forall>s\<in>set (s # ss). k \<in> key ` set (visible s)" "pred_option (\<lambda>c. key c < k) cur" for k
    proof (cases "?k < k")
      case True
      then show ?thesis using IH(4) k(1) unfolding tl(2) by auto
    next
      case False
      from k obtain r where r: "r \<in> set (visible s)" "key r = k" "beyond key ?cur r"
        by (cases cur) (auto simp: beyond_def)
      then have "r \<in> set ?xs" by (simp add: set_rest)
      moreover have "r \<notin> set (drop limit ?xs)"
        using rest_next[OF unique[OF s] limit_pos True] False r(2) set_rest[of key "visible s" "Some ?k"]
        by (auto simp: beyond_def)
      ultimately have "r \<in> set rows" unfolding tl(2) by (metis UnI1 Un_iff append_take_drop_id set_append)
      with r(2) show ?thesis by blast
    qed
    ultimately show ?thesis using sorted by blast
  qed
qed simp

end

end
