(* ===== verification/LibraryTables.thy ===== *)
theory LibraryTables
  imports DbTx GoStrings Keyset "HOL-Library.Product_Lexorder"
begin

text \<open>
  The tables of a user's library, \<open>collections\<close> and \<open>saved_items\<close> with their constraints
  (\<open>internal/database/baseline/schema.sql\<close>), and one definition per SQL statement of
  \<open>internal/api/saved_item\<close> and \<open>internal/api/collection\<close>. \<open>now\<close> is the database's \<open>NOW()\<close>; ids the
  database generates are arguments.
\<close>

section \<open>State\<close>

record collection =
  c_id :: uuid
  c_user :: uuid
  c_name :: string
  c_type :: string
  c_system_key :: "string option"
  c_created_at :: time
  c_updated_at :: time

record saved_item =
  si_id :: uuid
  si_user :: uuid
  si_url :: string
  si_domain :: "string option"
  si_platform :: "string option"
  si_title :: "string option"
  si_description :: "string option"
  si_image_url :: "string option"
  si_collection :: uuid
  si_status :: string
  si_last_enriched_at :: "time option"
  si_created_at :: time
  si_updated_at :: time

record library_db =
  lib_users :: "uuid list"
  lib_collections :: "collection list"
  lib_items :: "saved_item list"

text \<open>Rows of the listings: an item with the name of its collection, a collection with its bounded count.\<close>

record listed_item = saved_item +
  li_collection_name :: string

record listed_collection = collection +
  lc_count :: int
  lc_overflow :: bool

text \<open>The expression of the unique index \<open>collections_user_name_unique\<close>: \<open>lower(btrim(name))\<close>.\<close>

definition pg_name_key :: "string \<Rightarrow> string" where
  "pg_name_key name = to_lower (btrim name)"

definition name_taken :: "uuid \<Rightarrow> string \<Rightarrow> library_db \<Rightarrow> bool" where
  "name_taken uid name db \<longleftrightarrow>
     list_ex (\<lambda>c. c_user c = uid \<and> pg_name_key (c_name c) = pg_name_key name) (lib_collections db)"

definition owns_collection :: "uuid \<Rightarrow> uuid \<Rightarrow> library_db \<Rightarrow> bool" where
  "owns_collection uid cid db \<longleftrightarrow> list_ex (\<lambda>c. c_id c = cid \<and> c_user c = uid) (lib_collections db)"

definition saved_items_collection_fk_constraint :: string where
  "saved_items_collection_fk_constraint = ''saved_items_collection_id_fkey''"

text \<open>\<open>LIMIT n\<close>; a negative limit is an error of the server.\<close>

definition limit_rows :: "int \<Rightarrow> 'r list \<Rightarrow> go_error + 'r list" where
  "limit_rows n rows = (if n < 0 then Inl (PgError '''') else Inr (take (nat n) rows))"

definition reading :: "('d \<Rightarrow> go_error + 'a) \<Rightarrow> ('d, 'a) query" where
  "reading f db = map_sum id (\<lambda>x. (x, db)) (f db)"

section \<open>Statements on collections\<close>

text \<open>
  Where a library begins: registration inserts the user and, in the same transaction, the user's unsorted
  collection.
\<close>

definition q_create_unsorted :: "time \<Rightarrow> uuid \<Rightarrow> uuid \<Rightarrow> (library_db, uuid) query" where
  "q_create_unsorted now cid uid db =
     (if has_key c_id cid (lib_collections db) then Inl (PgError ''collections_pkey'')
      else if list_ex (\<lambda>c. c_user c = uid \<and> c_system_key c = Some ''unsorted'') (lib_collections db)
      then Inl (PgError ''collections_system_key_unique'')
      else if name_taken uid ''Unsorted'' db then Inl (PgError ''collections_user_name_unique'')
      else if uid \<notin> set (lib_users db) then Inl (PgError ''collections_user_id_fkey'')
      else Inr (cid, db\<lparr>lib_collections := lib_collections db @
        [\<lparr>c_id = cid, c_user = uid, c_name = ''Unsorted'', c_type = ''system'', c_system_key = Some ''unsorted'',
          c_created_at = now, c_updated_at = now\<rparr>]\<rparr>))"

definition q_open_library :: "time \<Rightarrow> uuid \<Rightarrow> uuid \<Rightarrow> (library_db, uuid) query" where
  "q_open_library now cid uid db =
     (if uid \<in> set (lib_users db) then Inl (PgError ''users_pkey'')
      else q_create_unsorted now cid uid (db\<lparr>lib_users := lib_users db @ [uid]\<rparr>))"

text \<open>A conflict on the arbiter index inserts nothing and returns no row, before any other constraint is looked at.\<close>

definition q_create_user_collection :: "time \<Rightarrow> uuid \<Rightarrow> uuid \<Rightarrow> string \<Rightarrow> (library_db, collection) query" where
  "q_create_user_collection now cid uid name db =
     (if name_taken uid name db then Inl err_no_rows
      else if has_key c_id cid (lib_collections db) then Inl (PgError ''collections_pkey'')
      else if uid \<notin> set (lib_users db) then Inl (PgError ''collections_user_id_fkey'')
      else
        (let c = \<lparr>c_id = cid, c_user = uid, c_name = name, c_type = ''user'', c_system_key = None,
                  c_created_at = now, c_updated_at = now\<rparr>
         in Inr (c, db\<lparr>lib_collections := lib_collections db @ [c]\<rparr>)))"

definition q_get_collection :: "uuid \<Rightarrow> uuid \<Rightarrow> (library_db, collection) query" where
  "q_get_collection cid uid =
     reading (\<lambda>db. first_row (filter (\<lambda>c. c_id c = cid \<and> c_user c = uid) (lib_collections db)))"

definition q_get_collection_by_name :: "uuid \<Rightarrow> string \<Rightarrow> (library_db, collection) query" where
  "q_get_collection_by_name uid name =
     reading (\<lambda>db. first_row
       (filter (\<lambda>c. c_user c = uid \<and> pg_name_key (c_name c) = pg_name_key name) (lib_collections db)))"

definition q_get_unsorted_collection :: "uuid \<Rightarrow> (library_db, uuid) query" where
  "q_get_unsorted_collection uid =
     reading (\<lambda>db. map_sum id c_id (first_row
       (filter (\<lambda>c. c_user c = uid \<and> c_type c = ''system'' \<and> c_system_key c = Some ''unsorted'')
         (lib_collections db))))"

definition q_get_collection_system_key :: "uuid \<Rightarrow> uuid \<Rightarrow> (library_db, string option) query" where
  "q_get_collection_system_key cid uid =
     reading (\<lambda>db. map_sum id c_system_key (first_row
       (filter (\<lambda>c. c_id c = cid \<and> c_user c = uid) (lib_collections db))))"

text \<open>\<open>ON DELETE RESTRICT\<close>: a collection that still holds items stays.\<close>

definition q_delete_collection :: "uuid \<Rightarrow> uuid \<Rightarrow> (library_db, uuid) query" where
  "q_delete_collection cid uid db =
     (if \<not> owns_collection uid cid db then Inl err_no_rows
      else if list_ex (\<lambda>i. si_collection i = cid \<and> si_user i = uid) (lib_items db)
      then Inl (PgError saved_items_collection_fk_constraint)
      else Inr (cid, db\<lparr>lib_collections :=
             filter (\<lambda>c. \<not> (c_id c = cid \<and> c_user c = uid)) (lib_collections db)\<rparr>))"

section \<open>Statements on saved items\<close>

text \<open>Columns the insert does not name take their defaults.\<close>

definition q_create_saved_item ::
  "time \<Rightarrow> uuid \<Rightarrow> uuid \<Rightarrow> string \<Rightarrow> string option \<Rightarrow> string option \<Rightarrow> string option \<Rightarrow> uuid
     \<Rightarrow> (library_db, saved_item) query" where
  "q_create_saved_item now iid uid url domain platform title cid db =
     (if has_key si_id iid (lib_items db) then Inl (PgError ''saved_items_pkey'')
      else if uid \<notin> set (lib_users db) then Inl (PgError ''saved_items_user_id_fkey'')
      else if \<not> owns_collection uid cid db then Inl (PgError saved_items_collection_fk_constraint)
      else
        (let i = \<lparr>si_id = iid, si_user = uid, si_url = url, si_domain = domain, si_platform = platform,
                  si_title = title, si_description = None, si_image_url = None, si_collection = cid,
                  si_status = ''pending'', si_last_enriched_at = None, si_created_at = now, si_updated_at = now\<rparr>
         in Inr (i, db\<lparr>lib_items := lib_items db @ [i]\<rparr>)))"

definition owned_item :: "uuid \<Rightarrow> uuid \<Rightarrow> library_db \<Rightarrow> go_error + saved_item" where
  "owned_item iid uid db = first_row (filter (\<lambda>i. si_id i = iid \<and> si_user i = uid) (lib_items db))"

definition q_lock_saved_item :: "uuid \<Rightarrow> uuid \<Rightarrow> (library_db, saved_item) query" where
  "q_lock_saved_item iid uid = reading (owned_item iid uid)"

definition q_delete_saved_item :: "uuid \<Rightarrow> uuid \<Rightarrow> (library_db, uuid \<times> uuid) query" where
  "q_delete_saved_item iid uid db =
     (case owned_item iid uid db of
        Inl e \<Rightarrow> Inl e
      | Inr i \<Rightarrow> Inr ((si_id i, si_collection i),
          db\<lparr>lib_items := filter (\<lambda>i. \<not> (si_id i = iid \<and> si_user i = uid)) (lib_items db)\<rparr>))"

definition q_count_saved_items :: "uuid \<Rightarrow> uuid \<Rightarrow> (library_db, nat) query" where
  "q_count_saved_items cid uid =
     reading (\<lambda>db. Inr (rows_where (\<lambda>i. si_collection i = cid \<and> si_user i = uid) (lib_items db)))"

text \<open>An update fires the trigger \<open>saved_items_set_updated_at\<close>.\<close>

definition filed :: "time \<Rightarrow> uuid \<Rightarrow> saved_item \<Rightarrow> saved_item" where
  "filed now cid i = i\<lparr>si_collection := cid, si_updated_at := now\<rparr>"

definition q_move_saved_item :: "time \<Rightarrow> uuid \<Rightarrow> uuid \<Rightarrow> uuid \<Rightarrow> (library_db, saved_item) query" where
  "q_move_saved_item now cid iid uid db =
     (case owned_item iid uid db of
        Inl e \<Rightarrow> Inl e
      | Inr i \<Rightarrow>
          if \<not> owns_collection uid cid db then Inl (PgError saved_items_collection_fk_constraint)
          else Inr (filed now cid i,
            db\<lparr>lib_items := update_where (\<lambda>i. si_id i = iid \<and> si_user i = uid) (filed now cid) (lib_items db)\<rparr>))"

definition q_move_saved_items :: "time \<Rightarrow> uuid \<Rightarrow> uuid \<Rightarrow> uuid \<Rightarrow> (library_db, unit) query" where
  "q_move_saved_items now target cid uid db =
     (if list_ex (\<lambda>i. si_collection i = cid \<and> si_user i = uid) (lib_items db) \<and> \<not> owns_collection uid target db
      then Inl (PgError saved_items_collection_fk_constraint)
      else Inr ((), db\<lparr>lib_items :=
             update_where (\<lambda>i. si_collection i = cid \<and> si_user i = uid) (filed now target) (lib_items db)\<rparr>))"

definition q_delete_saved_items :: "uuid \<Rightarrow> uuid \<Rightarrow> (library_db, unit) query" where
  "q_delete_saved_items cid uid db =
     Inr ((), db\<lparr>lib_items := filter (\<lambda>i. \<not> (si_collection i = cid \<and> si_user i = uid)) (lib_items db)\<rparr>)"

section \<open>Listings\<close>

text \<open>The join of an item with its collection; an item without one does not appear.\<close>

definition item_collection :: "library_db \<Rightarrow> saved_item \<Rightarrow> collection option" where
  "item_collection db i = find (\<lambda>c. c_id c = si_collection i \<and> c_user c = si_user i) (lib_collections db)"

definition with_name :: "string \<Rightarrow> saved_item \<Rightarrow> listed_item" where
  "with_name name i = saved_item.extend i \<lparr>li_collection_name = name\<rparr>"

definition items_with_names :: "library_db \<Rightarrow> saved_item list \<Rightarrow> listed_item list" where
  "items_with_names db items =
     List.map_filter (\<lambda>i. map_option (\<lambda>c. with_name (c_name c) i) (item_collection db i)) items"

abbreviation item_position :: "'a saved_item_scheme \<Rightarrow> newest_first" where
  "item_position i \<equiv> NewestFirst (si_created_at i) (si_id i)"

definition q_get_saved_item :: "uuid \<Rightarrow> uuid \<Rightarrow> (library_db, listed_item) query" where
  "q_get_saved_item iid uid =
     reading (\<lambda>db. first_row (items_with_names db (filter (\<lambda>i. si_id i = iid \<and> si_user i = uid) (lib_items db))))"

definition q_list_saved_items_first :: "uuid \<Rightarrow> int \<Rightarrow> (library_db, listed_item list) query" where
  "q_list_saved_items_first uid page_limit =
     reading (\<lambda>db. limit_rows page_limit
       (sort_key item_position (items_with_names db (filter (\<lambda>i. si_user i = uid) (lib_items db)))))"

definition q_list_saved_items_after_row ::
  "uuid \<Rightarrow> time \<Rightarrow> uuid \<Rightarrow> int \<Rightarrow> (library_db, listed_item list) query" where
  "q_list_saved_items_after_row uid cursor_value cursor_id page_limit =
     reading (\<lambda>db. limit_rows page_limit
       (sort_key item_position (filter (\<lambda>i. (si_created_at i, si_id i) < (cursor_value, cursor_id))
         (items_with_names db (filter (\<lambda>i. si_user i = uid) (lib_items db))))))"

definition q_list_saved_items_in_collection_first ::
  "uuid \<Rightarrow> uuid \<Rightarrow> int \<Rightarrow> (library_db, saved_item list) query" where
  "q_list_saved_items_in_collection_first cid uid page_limit =
     reading (\<lambda>db. limit_rows page_limit
       (sort_key item_position (filter (\<lambda>i. si_collection i = cid \<and> si_user i = uid) (lib_items db))))"

definition q_list_saved_items_in_collection_after_row ::
  "uuid \<Rightarrow> uuid \<Rightarrow> time \<Rightarrow> uuid \<Rightarrow> int \<Rightarrow> (library_db, saved_item list) query" where
  "q_list_saved_items_in_collection_after_row cid uid cursor_value cursor_id page_limit =
     reading (\<lambda>db. limit_rows page_limit
       (sort_key item_position (filter (\<lambda>i. si_collection i = cid \<and> si_user i = uid \<and>
            (si_created_at i, si_id i) < (cursor_value, cursor_id)) (lib_items db))))"

text \<open>
  The lateral join: the items of a collection, read up to one more than the cap, give the count shown
  and whether there are more.
\<close>

definition with_count :: "int \<Rightarrow> library_db \<Rightarrow> collection \<Rightarrow> listed_collection" where
  "with_count cap db c =
     (let bounded = int (length (take (nat (cap + 1))
            (filter (\<lambda>i. si_collection i = c_id c \<and> si_user i = c_user c) (lib_items db))))
      in collection.extend c \<lparr>lc_count = min bounded cap, lc_overflow = (cap < bounded)\<rparr>)"

definition unsorted_rank :: "'a collection_scheme \<Rightarrow> nat" where
  "unsorted_rank c = (if c_system_key c = Some ''unsorted'' then 0 else 1)"

abbreviation newest_key :: "'a collection_scheme \<Rightarrow> newest_first" where
  "newest_key c \<equiv> NewestFirst (c_created_at c) (c_id c)"
abbreviation oldest_key :: "'a collection_scheme \<Rightarrow> time \<times> uuid" where
  "oldest_key c \<equiv> (c_created_at c, c_id c)"
abbreviation name_key :: "'a collection_scheme \<Rightarrow> string \<times> uuid" where
  "name_key c \<equiv> (pg_name_key (c_name c), c_id c)"

definition list_collections_where ::
  "(collection \<Rightarrow> bool) \<Rightarrow> (collection \<Rightarrow> 'k::linorder) \<Rightarrow> int \<Rightarrow> uuid \<Rightarrow> int
     \<Rightarrow> (library_db, listed_collection list) query" where
  "list_collections_where p key cap uid page_limit =
     reading (\<lambda>db. limit_rows page_limit
       (map (with_count cap db) (sort_key key (filter (\<lambda>c. c_user c = uid \<and> p c) (lib_collections db)))))"

definition q_list_collections_newest_first :: "int \<Rightarrow> uuid \<Rightarrow> int \<Rightarrow> (library_db, listed_collection list) query" where
  "q_list_collections_newest_first =
     list_collections_where (\<lambda>c. True) (\<lambda>c. (unsorted_rank c, newest_key c))"

definition q_list_collections_newest_after_unsorted ::
  "int \<Rightarrow> uuid \<Rightarrow> int \<Rightarrow> (library_db, listed_collection list) query" where
  "q_list_collections_newest_after_unsorted =
     list_collections_where (\<lambda>c. c_system_key c \<noteq> Some ''unsorted'') newest_key"

definition q_list_collections_newest_after_row ::
  "time \<Rightarrow> uuid \<Rightarrow> int \<Rightarrow> uuid \<Rightarrow> int \<Rightarrow> (library_db, listed_collection list) query" where
  "q_list_collections_newest_after_row cursor_value cursor_id =
     list_collections_where (\<lambda>c. c_system_key c \<noteq> Some ''unsorted'' \<and>
         (c_created_at c, c_id c) < (cursor_value, cursor_id)) newest_key"

definition q_list_collections_oldest_first :: "int \<Rightarrow> uuid \<Rightarrow> int \<Rightarrow> (library_db, listed_collection list) query" where
  "q_list_collections_oldest_first =
     list_collections_where (\<lambda>c. True) (\<lambda>c. (unsorted_rank c, oldest_key c))"

definition q_list_collections_oldest_after_unsorted ::
  "int \<Rightarrow> uuid \<Rightarrow> int \<Rightarrow> (library_db, listed_collection list) query" where
  "q_list_collections_oldest_after_unsorted =
     list_collections_where (\<lambda>c. c_system_key c \<noteq> Some ''unsorted'') oldest_key"

definition q_list_collections_oldest_after_row ::
  "time \<Rightarrow> uuid \<Rightarrow> int \<Rightarrow> uuid \<Rightarrow> int \<Rightarrow> (library_db, listed_collection list) query" where
  "q_list_collections_oldest_after_row cursor_value cursor_id =
     list_collections_where (\<lambda>c. c_system_key c \<noteq> Some ''unsorted'' \<and>
         (c_created_at c, c_id c) > (cursor_value, cursor_id)) oldest_key"

definition q_list_collections_by_name_first :: "int \<Rightarrow> uuid \<Rightarrow> int \<Rightarrow> (library_db, listed_collection list) query" where
  "q_list_collections_by_name_first =
     list_collections_where (\<lambda>c. True) (\<lambda>c. (unsorted_rank c, name_key c))"

definition q_list_collections_by_name_after_unsorted ::
  "int \<Rightarrow> uuid \<Rightarrow> int \<Rightarrow> (library_db, listed_collection list) query" where
  "q_list_collections_by_name_after_unsorted =
     list_collections_where (\<lambda>c. c_system_key c \<noteq> Some ''unsorted'') name_key"

definition q_list_collections_by_name_after_row ::
  "string \<Rightarrow> uuid \<Rightarrow> int \<Rightarrow> uuid \<Rightarrow> int \<Rightarrow> (library_db, listed_collection list) query" where
  "q_list_collections_by_name_after_row cursor_value cursor_id =
     list_collections_where (\<lambda>c. c_system_key c \<noteq> Some ''unsorted'' \<and>
         (pg_name_key (c_name c), c_id c) > (cursor_value, cursor_id)) name_key"

lemmas collection_listing_defs =
  q_list_collections_newest_first_def q_list_collections_newest_after_unsorted_def
  q_list_collections_newest_after_row_def q_list_collections_oldest_first_def
  q_list_collections_oldest_after_unsorted_def q_list_collections_oldest_after_row_def
  q_list_collections_by_name_first_def q_list_collections_by_name_after_unsorted_def
  q_list_collections_by_name_after_row_def

lemma first_row_Inr: "first_row rows = Inr r \<Longrightarrow> r \<in> set rows"
  by (auto simp: first_row_def split: list.splits)

lemma reading_Inr: "reading f d = Inr (x, d') \<longleftrightarrow> f d = Inr x \<and> d' = d"
  by (cases "f d") (auto simp: reading_def)

lemma kept_reading: "kept I (reading f)"
  by (rule keptI) (simp add: reading_Inr)

end
