(* ===== verification/Base64.thy ===== *)
theory Base64
  imports AppErrors GoStrings
begin

text \<open>
  The text encodings of the standard library that the program's tokens and password hashes use: unpadded
  base64 in its two alphabets (\<open>encoding/base64\<close>, \<open>RawURLEncoding\<close> and \<open>RawStdEncoding\<close>), decimal numbers as \<open>%d\<close> writes and \<open>strconv.ParseUint\<close> reads them, and \<open>strings.Split\<close>
  on one character. A byte is a \<open>char\<close>. The codec is written once over an alphabet; what makes an
  alphabet usable is the locale \<open>base64_alphabet\<close>, interpreted on both.
\<close>

section \<open>Base64 over an alphabet\<close>

fun base64_sextets :: "nat list \<Rightarrow> nat list" where
  "base64_sextets (a # b # c # bs) =
     a div 4 # (a mod 4 * 16 + b div 16) # (b mod 16 * 4 + c div 64) # c mod 64 # base64_sextets bs"
| "base64_sextets [a, b] = [a div 4, a mod 4 * 16 + b div 16, b mod 16 * 4]"
| "base64_sextets [a] = [a div 4, a mod 4 * 16]"
| "base64_sextets [] = []"

text \<open>Trailing bits of a short last group are ignored, as the decoder is not strict.\<close>

fun base64_bytes :: "nat list \<Rightarrow> nat list option" where
  "base64_bytes (p # q # r # s # ss) =
     map_option (\<lambda>bs. (p * 4 + q div 16) # (q mod 16 * 16 + r div 4) # (r mod 4 * 64 + s) # bs) (base64_bytes ss)"
| "base64_bytes [p, q, r] = Some [p * 4 + q div 16, q mod 16 * 16 + r div 4]"
| "base64_bytes [p, q] = Some [p * 4 + q div 16]"
| "base64_bytes [p] = None"
| "base64_bytes [] = Some []"

definition encode_with :: "(nat \<Rightarrow> char) \<Rightarrow> string \<Rightarrow> string" where
  "encode_with letter bs = map letter (base64_sextets (map of_char bs))"

text \<open>Line breaks are skipped wherever they stand; any other character outside the alphabet is an error.\<close>

fun sextets_of :: "(char \<Rightarrow> nat option) \<Rightarrow> string \<Rightarrow> nat list option" where
  "sextets_of sextet [] = Some []"
| "sextets_of sextet (c # cs) =
     (if c = CHR 0x0A \<or> c = CHR 0x0D then sextets_of sextet cs
      else case sextet c of
             None \<Rightarrow> None
           | Some s \<Rightarrow> map_option ((#) s) (sextets_of sextet cs))"

definition decode_with :: "(char \<Rightarrow> nat option) \<Rightarrow> string \<Rightarrow> string option" where
  "decode_with sextet token =
     (case sextets_of sextet token of
        None \<Rightarrow> None
      | Some ss \<Rightarrow> map_option (map char_of) (base64_bytes ss))"

lemma byte_digits: "b < 256 \<Longrightarrow> b div 16 < 16" "b < 256 \<Longrightarrow> b div 64 < 4" "b < 256 \<Longrightarrow> b div 4 < 64" for b :: nat
  by (simp_all add: div_less_iff_less_mult)

lemma join_small: "x < 4 \<Longrightarrow> y < 16 \<Longrightarrow> x * 16 + y < 64" "x < 16 \<Longrightarrow> y < 4 \<Longrightarrow> x * 4 + y < 64" for x y :: nat
  by linarith+

lemma base64_sextets_small: "\<forall>b\<in>set bs. b < 256 \<Longrightarrow> \<forall>s\<in>set (base64_sextets bs). s < 64"
proof (induction bs rule: base64_sextets.induct)
  case (1 a b c bs)
  then show ?case by (simp add: byte_digits join_small)
next
  case (2 a b)
  then show ?case using join_small(2)[of "b mod 16" 0] by (simp add: byte_digits join_small)
next
  case (3 a)
  then show ?case using join_small(1)[of "a mod 4" 0] by (simp add: byte_digits)
qed simp

lemma base64_bytes_sextets: "\<forall>b\<in>set bs. b < 256 \<Longrightarrow> base64_bytes (base64_sextets bs) = Some bs"
  by (induction bs rule: base64_sextets.induct) (simp_all add: byte_digits)

lemma length_base64_sextets: "length (base64_sextets bs) = (4 * length bs + 2) div 3"
  by (induction bs rule: base64_sextets.induct) simp_all

lemma length_encode_with: "length (encode_with letter bs) = (4 * length bs + 2) div 3"
  by (simp add: encode_with_def length_base64_sextets)

lemma bytes_small: "\<forall>b\<in>set (map of_char bs :: nat list). b < 256"
  by auto

locale base64_alphabet =
  fixes letter :: "nat \<Rightarrow> char" and sextet :: "char \<Rightarrow> nat option"
  assumes sextet_letter: "n < 64 \<Longrightarrow> sextet (letter n) = Some n"
    and line_breaks: "sextet (CHR 0x0A) = None" "sextet (CHR 0x0D) = None"
begin

lemma letter_visible: "n < 64 \<Longrightarrow> letter n \<noteq> CHR 0x0A \<and> letter n \<noteq> CHR 0x0D"
  using sextet_letter[of n] line_breaks by auto

lemma sextets_of_encoded: "\<forall>s\<in>set ss. s < 64 \<Longrightarrow> sextets_of sextet (map letter ss) = Some ss"
  by (induction ss) (simp_all add: sextet_letter letter_visible)

lemma roundtrip: "decode_with sextet (encode_with letter bs) = Some bs"
proof -
  note b = base64_bytes_sextets[OF bytes_small, of bs] sextets_of_encoded[OF base64_sextets_small[OF bytes_small], of bs]
  show ?thesis by (simp only: decode_with_def encode_with_def b option.case option.map) (simp add: comp_def)
qed

lemma only_letters: "c \<in> set (encode_with letter bs) \<Longrightarrow> sextet c \<noteq> None"
proof -
  assume "c \<in> set (encode_with letter bs)"
  then obtain n where "n \<in> set (base64_sextets (map of_char bs))" "c = letter n"
    unfolding encode_with_def by (metis imageE list.set_map)
  with base64_sextets_small[OF bytes_small, of bs] sextet_letter[of n] show "sextet c \<noteq> None" by simp
qed

lemma encode_injective: "encode_with letter bs = encode_with letter cs \<Longrightarrow> bs = cs"
  by (metis roundtrip option.inject)

end

section \<open>The two alphabets\<close>

definition sextet_char :: "nat \<Rightarrow> char" where
  "sextet_char n =
     (if n < 26 then char_of (65 + n) else if n < 52 then char_of (97 + (n - 26))
      else if n < 62 then char_of (48 + (n - 52)) else if n = 62 then CHR ''-'' else CHR ''_'')"

definition char_sextet :: "char \<Rightarrow> nat option" where
  "char_sextet c =
     (let n = (of_char c :: nat) in
      if 65 \<le> n \<and> n \<le> 90 then Some (n - 65) else if 97 \<le> n \<and> n \<le> 122 then Some (n - 97 + 26)
      else if 48 \<le> n \<and> n \<le> 57 then Some (n - 48 + 52) else if n = 45 then Some 62
      else if n = 95 then Some 63 else None)"

definition std_sextet_char :: "nat \<Rightarrow> char" where
  "std_sextet_char n =
     (if n < 26 then char_of (65 + n) else if n < 52 then char_of (97 + (n - 26))
      else if n < 62 then char_of (48 + (n - 52)) else if n = 62 then CHR ''+'' else CHR ''/'')"

definition std_char_sextet :: "char \<Rightarrow> nat option" where
  "std_char_sextet c =
     (let n = (of_char c :: nat) in
      if 65 \<le> n \<and> n \<le> 90 then Some (n - 65) else if 97 \<le> n \<and> n \<le> 122 then Some (n - 97 + 26)
      else if 48 \<le> n \<and> n \<le> 57 then Some (n - 48 + 52) else if n = 43 then Some 62
      else if n = 47 then Some 63 else None)"

interpretation url: base64_alphabet sextet_char char_sextet
  by unfold_locales (auto simp: sextet_char_def char_sextet_def Let_def)

interpretation std: base64_alphabet std_sextet_char std_char_sextet
  by unfold_locales (auto simp: std_sextet_char_def std_char_sextet_def Let_def)

definition base64_encode :: "string \<Rightarrow> string" where
  "base64_encode = encode_with sextet_char"

definition base64_decode :: "string \<Rightarrow> string option" where
  "base64_decode = decode_with char_sextet"

definition std_base64_encode :: "string \<Rightarrow> string" where
  "std_base64_encode = encode_with std_sextet_char"

definition std_base64_decode :: "string \<Rightarrow> string option" where
  "std_base64_decode = decode_with std_char_sextet"

lemma base64_roundtrip: "base64_decode (base64_encode bs) = Some bs"
  unfolding base64_decode_def base64_encode_def by (rule url.roundtrip)

lemma std_base64_roundtrip: "std_base64_decode (std_base64_encode bs) = Some bs"
  unfolding std_base64_decode_def std_base64_encode_def by (rule std.roundtrip)

lemma base64_encode_injective: "base64_encode bs = base64_encode cs \<Longrightarrow> bs = cs"
  unfolding base64_encode_def by (rule url.encode_injective)

definition url_safe :: "char \<Rightarrow> bool" where
  "url_safe c \<longleftrightarrow> char_sextet c \<noteq> None"

lemma base64_encode_url_safe: "\<forall>c\<in>set (base64_encode bs). url_safe c"
  unfolding base64_encode_def url_safe_def using url.only_letters by blast

lemma length_base64_encode: "length (base64_encode bs) = (4 * length bs + 2) div 3"
  by (simp add: base64_encode_def length_encode_with)

lemma length_std_base64_encode: "length (std_base64_encode bs) = (4 * length bs + 2) div 3"
  by (simp add: std_base64_encode_def length_encode_with)

section \<open>Decimal numbers\<close>

fun decimal :: "nat \<Rightarrow> string" where
  "decimal n = (if n < 10 then [char_of (48 + n)] else decimal (n div 10) @ [char_of (48 + n mod 10)])"

declare decimal.simps [simp del]

definition digit_of :: "char \<Rightarrow> nat option" where
  "digit_of c = (let n = of_char c :: nat in if 48 \<le> n \<and> n \<le> 57 then Some (n - 48) else None)"

fun read_digits :: "nat \<Rightarrow> string \<Rightarrow> nat option" where
  "read_digits acc [] = Some acc"
| "read_digits acc (c # cs) =
     (case digit_of c of None \<Rightarrow> None | Some d \<Rightarrow> read_digits (acc * 10 + d) cs)"

text \<open>\<open>ParseUint(s, 10, w)\<close>: syntax and range errors alike are \<open>None\<close>.\<close>

definition parse_uint :: "nat \<Rightarrow> string \<Rightarrow> nat option" where
  "parse_uint w s =
     (if s = '''' then None
      else case read_digits 0 s of None \<Rightarrow> None | Some n \<Rightarrow> if n < 2 ^ w then Some n else None)"

lemma digit_of_char: "n < 10 \<Longrightarrow> digit_of (char_of (48 + n)) = Some n"
  by (simp add: digit_of_def)

lemma read_digits_append:
  "read_digits acc (s @ t) = (case read_digits acc s of None \<Rightarrow> None | Some n \<Rightarrow> read_digits n t)"
  by (induction s arbitrary: acc) (simp_all split: option.split)

lemma decimal_nonempty: "decimal n \<noteq> ''''"
  by (subst decimal.simps) simp

lemma read_digits_decimal: "read_digits 0 (decimal n) = Some n"
proof (induction n rule: decimal.induct)
  case (1 n)
  then show ?case by (subst decimal.simps) (simp add: digit_of_char read_digits_append)
qed

lemma parse_uint_decimal: "n < 2 ^ w \<Longrightarrow> parse_uint w (decimal n) = Some n"
  by (simp add: parse_uint_def decimal_nonempty read_digits_decimal)

lemma parse_uint_bound: "parse_uint w s = Some n \<Longrightarrow> n < 2 ^ w"
  by (auto simp: parse_uint_def split: if_splits option.splits)

lemma decimal_digits: "\<forall>c\<in>set (decimal n). digit_of c \<noteq> None"
proof (induction n rule: decimal.induct)
  case (1 n)
  then show ?case by (subst decimal.simps) (auto simp: digit_of_char)
qed

text \<open>\<open>%0*d\<close>: at least \<open>k\<close> characters, filled with zeros from the left.\<close>

definition zero_padded :: "nat \<Rightarrow> nat \<Rightarrow> string" where
  "zero_padded k n = replicate (k - length (decimal n)) CHR ''0'' @ decimal n"

lemma read_digits_zeros: "read_digits 0 (replicate k CHR ''0'' @ s) = read_digits 0 s"
  by (induction k) (simp_all add: digit_of_def)

lemma read_zero_padded: "read_digits 0 (zero_padded k n) = Some n"
  by (simp add: zero_padded_def read_digits_zeros read_digits_decimal)

lemma zero_padded_digits: "\<forall>c\<in>set (zero_padded k n). digit_of c \<noteq> None"
  using decimal_digits[of n] by (auto simp: zero_padded_def digit_of_def)

lemma length_decimal: "n < 10 ^ k \<Longrightarrow> 0 < k \<Longrightarrow> length (decimal n) \<le> k"
proof (induction k arbitrary: n)
  case (Suc k)
  show ?case
  proof (cases "n < 10")
    case True
    then show ?thesis by (subst decimal.simps) simp
  next
    case False
    then have k: "0 < k" using Suc.prems by (cases k) auto
    have "n div 10 < 10 ^ k" using Suc.prems by (simp add: div_less_iff_less_mult mult.commute)
    with Suc.IH k have "length (decimal (n div 10)) \<le> k" by blast
    with False show ?thesis by (subst decimal.simps) simp
  qed
qed simp

lemma length_zero_padded: "n < 10 ^ k \<Longrightarrow> 0 < k \<Longrightarrow> length (zero_padded k n) = k"
  using length_decimal[of n k] by (simp add: zero_padded_def)

section \<open>Splitting\<close>

text \<open>\<open>strings.Split\<close> on one character, and \<open>strings.SplitN(s, sep, 2)\<close>.\<close>

fun split_on :: "char \<Rightarrow> string \<Rightarrow> string list" where
  "split_on sep [] = [[]]"
| "split_on sep (c # s) =
     (if c = sep then [] # split_on sep s
      else case split_on sep s of [] \<Rightarrow> [[c]] | p # ps \<Rightarrow> (c # p) # ps)"

definition split_two :: "char \<Rightarrow> string \<Rightarrow> string list" where
  "split_two sep s =
     (let before = takeWhile (\<lambda>c. c \<noteq> sep) s in
      if before = s then [s] else [before, drop (length before + 1) s])"

lemma split_on_plain: "sep \<notin> set s \<Longrightarrow> split_on sep s = [s]"
  by (induction s) auto

lemma split_on_first: "sep \<notin> set s \<Longrightarrow> split_on sep (s @ sep # t) = s # split_on sep t"
  by (induction s) auto

lemma split_two_first:
  assumes "sep \<notin> set s"
  shows "split_two sep (s @ sep # t) = [s, t]"
proof -
  have "takeWhile (\<lambda>c. c \<noteq> sep) (s @ sep # t) = s" using assms by (subst takeWhile_append2) auto
  then show ?thesis by (simp add: split_two_def)
qed

end
