(* ===== verification/Cursor.thy ===== *)
theory Cursor
  imports AppErrors Base64
begin

text \<open>
  Opaque pagination tokens: \<open>internal/pagination/cursor.go\<close>. A payload is marshalled to JSON bytes and
  those are written in the URL-safe base64 alphabet without padding; reading goes back and checks the
  payload's version. JSON is an argument, \<open>marshal\<close> and \<open>unmarshal\<close>.
\<close>

section \<open>Tokens\<close>

definition err_malformed :: go_error where "err_malformed = Sentinel ''cursor is malformed''"
definition err_unsupported_version :: go_error where
  "err_unsupported_version = Sentinel ''cursor version is not supported''"
definition current_version :: int where "current_version = 1"

definition cursor_encode :: "('p \<Rightarrow> go_error + string) \<Rightarrow> 'p \<Rightarrow> go_error + string" where
  "cursor_encode marshal payload =
     (case marshal payload of
        Inl e \<Rightarrow> Inl (Wrapped ''marshal cursor payload'' e)
      | Inr encoded \<Rightarrow> Inr (base64_encode encoded))"

definition cursor_decode :: "(string \<Rightarrow> go_error + 'p) \<Rightarrow> string \<Rightarrow> go_error + 'p" where
  "cursor_decode unmarshal token =
     (case base64_decode token of
        None \<Rightarrow> Inl err_malformed
      | Some decoded \<Rightarrow> (case unmarshal decoded of Inl e \<Rightarrow> Inl err_malformed | Inr payload \<Rightarrow> Inr payload))"

text \<open>The version of a payload, for payload types that report one (the interface \<open>versioned\<close>).\<close>

definition check_version :: "('p \<Rightarrow> int option) \<Rightarrow> 'p \<Rightarrow> go_error option" where
  "check_version version payload =
     (case version payload of
        None \<Rightarrow> None
      | Some v \<Rightarrow> if v \<noteq> current_version then Some err_unsupported_version else None)"

definition decode_versioned ::
  "('p \<Rightarrow> int option) \<Rightarrow> (string \<Rightarrow> go_error + 'p) \<Rightarrow> string \<Rightarrow> go_error + 'p" where
  "decode_versioned version unmarshal token =
     (case cursor_decode unmarshal token of
        Inl e \<Rightarrow> Inl e
      | Inr payload \<Rightarrow> (case check_version version payload of Some e \<Rightarrow> Inl e | None \<Rightarrow> Inr payload))"

text \<open>
  A cursor survives the trip to the client and back: for every payload that JSON carries, the token
  \<open>Encode\<close> produces is accepted by \<open>DecodeVersioned\<close> and gives the payload again when its version is the
  current one, and is refused with the version error otherwise. The token consists of the 64 URL-safe
  characters and is a third longer than the JSON, rounded up.
\<close>

theorem cursor_roundtrip:
  assumes "marshal payload = Inr encoded" and "unmarshal encoded = Inr payload"
  shows "case cursor_encode marshal payload of
     Inl e \<Rightarrow> False
   | Inr token \<Rightarrow>
       decode_versioned version unmarshal token =
         (if version payload = None \<or> version payload = Some current_version then Inr payload
          else Inl err_unsupported_version) \<and>
       list_all url_safe token \<and> length token = (4 * length encoded + 2) div 3"
  using assms base64_encode_url_safe[of encoded]
  by (auto simp: cursor_encode_def decode_versioned_def cursor_decode_def check_version_def base64_roundtrip
      list_all_iff length_base64_encode split: option.splits)

theorem cursor_roundtrip_witness:
  "cursor_encode (\<lambda>v. Inr (replicate (nat v) CHR ''x'')) 1 = Inr ''eA'' \<and>
   decode_versioned Some (\<lambda>bs. Inr (int (length bs))) ''eA'' = Inr 1"
proof -
  have "cursor_encode (\<lambda>v. Inr (replicate (nat v) CHR ''x'')) (1 :: int) = Inr ''eA''" by code_simp
  with cursor_roundtrip[of "\<lambda>v. Inr (replicate (nat v) CHR ''x'')" 1 "''x''" "\<lambda>bs. Inr (int (length bs))" Some]
  show ?thesis by (simp add: current_version_def)
qed

end
