(* ===== verification/SavedItems.thy ===== *)
theory SavedItems
  imports LibraryTables Cursor
begin

text \<open>
  Saving links and reading them back: \<open>internal/api/saved_item/repository.go\<close> and \<open>service.go\<close>, and the
  cursors the item listings of this package and of \<open>internal/api/collection\<close> share.

  The JSON form of the cursor payloads and the RFC 3339 form of a time are arguments, gathered in the
  record \<open>library_codec\<close>; \<open>codec_ok\<close> says what the code relies on.
\<close>

section \<open>Cursors\<close>

record items_cursor =
  ic_version :: int
  ic_value :: "string option"
  ic_id :: "uuid option"
  ic_timestamp :: "time option"

record collections_cursor =
  cc_version :: int
  cc_sort :: string
  cc_group :: "int option"
  cc_value :: "string option"
  cc_id :: "uuid option"
  cc_timestamp :: "time option"

record library_codec =
  marshal_items :: "items_cursor \<Rightarrow> go_error + string"
  unmarshal_items :: "string \<Rightarrow> go_error + items_cursor"
  marshal_collections :: "collections_cursor \<Rightarrow> go_error + string"
  unmarshal_collections :: "string \<Rightarrow> go_error + collections_cursor"
  format_time :: "time \<Rightarrow> string"
  parse_time :: "string \<Rightarrow> go_error + time"

text \<open>
  RFC 3339 carries the years 0 to 9999, here as nanoseconds since 1970.
\<close>

definition rfc3339_time :: "time \<Rightarrow> bool" where
  "rfc3339_time t \<longleftrightarrow> - 62167219200 * second \<le> t \<and> t < 253402300800 * second"

text \<open>
  Marshalling does not write the parsed timestamp (\<open>json:"-"\<close>), so what it preserves is every payload
  whose timestamp is not set, and a JSON object has at least its braces; a time in the range of RFC 3339 survives formatting with nanoseconds.
\<close>

definition codec_ok :: "library_codec \<Rightarrow> bool" where
  "codec_ok cdc \<longleftrightarrow>
     (\<forall>c. ic_timestamp c = None \<longrightarrow> (\<exists>b. marshal_items cdc c = Inr b \<and> b \<noteq> '''' \<and> unmarshal_items cdc b = Inr c)) \<and>
     (\<forall>c. cc_timestamp c = None \<longrightarrow>
        (\<exists>b. marshal_collections cdc c = Inr b \<and> b \<noteq> '''' \<and> unmarshal_collections cdc b = Inr c)) \<and>
     (\<forall>t. rfc3339_time t \<longrightarrow> parse_time cdc (format_time cdc t) = Inr t \<and> format_time cdc t \<noteq> '''')"

definition invalid_cursor_error :: "go_error option \<Rightarrow> go_error" where
  "invalid_cursor_error cause = bad_request_with ''INVALID_CURSOR'' ''cursor is invalid'' cause"

definition decode_items_cursor :: "library_codec \<Rightarrow> string \<Rightarrow> go_error + items_cursor" where
  "decode_items_cursor cdc token =
     (case decode_versioned (\<lambda>c. Some (ic_version c)) (unmarshal_items cdc) token of
        Inl e \<Rightarrow> Inl (invalid_cursor_error (Some e))
      | Inr decoded \<Rightarrow>
          (case (ic_value decoded, ic_id decoded) of
             (Some value, Some iid) \<Rightarrow>
               if value = '''' \<or> iid = uuid_nil then Inl (invalid_cursor_error None)
               else
                 (case parse_time cdc value of
                    Inl e \<Rightarrow> Inl (invalid_cursor_error (Some e))
                  | Inr parsed \<Rightarrow> Inr (decoded\<lparr>ic_timestamp := Some parsed\<rparr>))
           | _ \<Rightarrow> Inl (invalid_cursor_error None)))"

definition encode_items_cursor :: "library_codec \<Rightarrow> 'a saved_item_scheme list \<Rightarrow> go_error + string" where
  "encode_items_cursor cdc items =
     (let i = last items in
      cursor_encode (marshal_items cdc)
        \<lparr>ic_version = current_version, ic_value = Some (format_time cdc (si_created_at i)),
         ic_id = Some (si_id i), ic_timestamp = None\<rparr>)"

text \<open>Both fields of a decoded cursor are set, so the \<open>the\<close> below meets no \<open>None\<close> (Go dereferences likewise).\<close>

definition cursor_time :: "items_cursor \<Rightarrow> time" where
  "cursor_time c = the (ic_timestamp c)"
definition cursor_item :: "items_cursor \<Rightarrow> uuid" where
  "cursor_item c = the (ic_id c)"

text \<open>\<open>int32(limit + 1)\<close>.\<close>

definition page_limit_of :: "int \<Rightarrow> int" where
  "page_limit_of limit = sint (word_of_int (limit + 1) :: 32 word)"

lemma page_limit_of_small: "0 \<le> limit \<Longrightarrow> limit \<le> 50 \<Longrightarrow> page_limit_of limit = limit + 1"
  unfolding page_limit_of_def sint_sbintrunc' by (rule signed_take_bit_int_eq_self) simp_all

section \<open>Repository\<close>

record 'r page_result =
  pg_rows :: "'r list"
  pg_limit :: int
  pg_has_more :: bool
  pg_next_cursor :: "string option"

text \<open>One row too many was asked for: its presence says there is more, and it is cut off.\<close>

definition build_page :: "'r list \<Rightarrow> int \<Rightarrow> 'r page_result" where
  "build_page rows limit =
     (let has_more = limit < int (length rows)
      in \<lparr>pg_rows = (if has_more then take (nat limit) rows else rows), pg_limit = limit,
          pg_has_more = has_more, pg_next_cursor = None\<rparr>)"

text \<open>A query on the pool with the two error branches that occur: no row, and anything else.\<close>

definition on_no_rows :: "(go_error \<Rightarrow> go_error) \<Rightarrow> go_error \<Rightarrow> ('d, 'a) prog" where
  "on_no_rows refusal e = (if errors_is e err_no_rows then fail (refusal e) else fail_internal e)"

definition repo_create_saved_item ::
  "time \<Rightarrow> uuid \<Rightarrow> uuid \<Rightarrow> string \<Rightarrow> string option \<Rightarrow> string option \<Rightarrow> string option \<Rightarrow> uuid
     \<Rightarrow> (library_db, saved_item) prog" where
  "repo_create_saved_item now iid uid url domain platform title cid =
     pool (q_create_saved_item now iid uid url domain platform title cid) fail_internal ret"

definition repo_get_unsorted_collection :: "uuid \<Rightarrow> (library_db, uuid) prog" where
  "repo_get_unsorted_collection uid =
     pool (q_get_unsorted_collection uid) (on_no_rows (\<lambda>e. internal (Some e))) ret"

record collection_ref =
  cr_id :: uuid
  cr_name :: string

definition repo_get_saved_item :: "uuid \<Rightarrow> uuid \<Rightarrow> (library_db, saved_item \<times> collection_ref) prog" where
  "repo_get_saved_item uid iid =
     pool (q_get_saved_item iid uid) (on_no_rows (\<lambda>e. not_found (Some e)))
       (\<lambda>row. ret (saved_item.truncate row, \<lparr>cr_id = si_collection row, cr_name = li_collection_name row\<rparr>))"

definition repo_delete_saved_item :: "uuid \<Rightarrow> uuid \<Rightarrow> (library_db, uuid \<times> uuid) prog" where
  "repo_delete_saved_item uid iid =
     pool (q_delete_saved_item iid uid) (on_no_rows (\<lambda>e. not_found (Some e))) ret"

definition repo_count_saved_items :: "uuid \<Rightarrow> uuid \<Rightarrow> (library_db, nat) prog" where
  "repo_count_saved_items uid cid = pool (q_count_saved_items cid uid) fail_internal ret"

text \<open>A collection deleted since has no key, which is not an error.\<close>

definition repo_get_collection_system_key :: "uuid \<Rightarrow> uuid \<Rightarrow> (library_db, string option) prog" where
  "repo_get_collection_system_key uid cid =
     pool (q_get_collection_system_key cid uid)
       (\<lambda>e. if errors_is e err_no_rows then ret None else fail_internal e) ret"

definition repo_list_saved_items ::
  "uuid \<Rightarrow> int \<Rightarrow> items_cursor option \<Rightarrow> (library_db, listed_item page_result) prog" where
  "repo_list_saved_items uid limit cursor =
     (let page_limit = page_limit_of limit in
      case cursor of
        None \<Rightarrow> pool (q_list_saved_items_first uid page_limit) fail_internal (\<lambda>rows. ret (build_page rows limit))
      | Some c \<Rightarrow>
          pool (q_list_saved_items_after_row uid (cursor_time c) (cursor_item c) page_limit) fail_internal
            (\<lambda>rows. ret (build_page rows limit)))"

definition optional_text :: "string \<Rightarrow> string option" where
  "optional_text value = (if value = '''' then None else Some value)"

section \<open>Service\<close>

definition unsorted_system_key :: string where "unsorted_system_key = ''unsorted''"
definition saved_item_list_default_limit :: int where "saved_item_list_default_limit = 20"
definition saved_item_list_max_limit :: int where "saved_item_list_max_limit = 50"

text \<open>
  \<open>url.Parse\<close> with \<open>Hostname\<close> of the result is the argument \<open>parse_host\<close>.
\<close>

definition derive_domain :: "(string \<Rightarrow> go_error + string) \<Rightarrow> string \<Rightarrow> go_error + string" where
  "derive_domain parse_host raw_url =
     (case parse_host (trim_space raw_url) of
        Inl e \<Rightarrow> Inl (bad_request_with ''INVALID_URL'' ''url is invalid'' (Some e))
      | Inr hostname \<Rightarrow>
          if hostname = '''' then Inl (bad_request_with ''INVALID_URL'' ''url must include a host'' None)
          else
            (let domain = trim_prefix ''www.'' (to_lower hostname)
             in if domain = '''' then Inl (bad_request_with ''INVALID_URL'' ''url must include a host'' None)
                else Inr domain))"

text \<open>
  Queueing the enrichment: its result is what the log gets, nothing when there is no queue or the job
  was accepted. The save does not depend on it.
\<close>

definition enqueue_enrichment :: "(uuid \<Rightarrow> go_error option) option \<Rightarrow> uuid \<Rightarrow> (uuid \<times> go_error) list" where
  "enqueue_enrichment enqueuer iid =
     (case enqueuer of
        None \<Rightarrow> []
      | Some f \<Rightarrow> (case f iid of None \<Rightarrow> [] | Some e \<Rightarrow> [(iid, e)]))"

definition create_saved_item ::
  "time \<Rightarrow> uuid \<Rightarrow> (string \<Rightarrow> go_error + string) \<Rightarrow> (uuid \<Rightarrow> go_error option) option \<Rightarrow> uuid \<Rightarrow> string
     \<Rightarrow> (library_db, saved_item \<times> (uuid \<times> go_error) list) prog" where
  "create_saved_item now iid parse_host enqueuer uid raw_url =
     (case derive_domain parse_host raw_url of
        Inl e \<Rightarrow> fail e
      | Inr domain \<Rightarrow>
          call (repo_get_unsorted_collection uid) fail (\<lambda>cid.
          call (repo_create_saved_item now iid uid raw_url (optional_text domain) None None cid) fail (\<lambda>i.
          ret (i, enqueue_enrichment enqueuer (si_id i)))))"

definition get_saved_item :: "uuid \<Rightarrow> uuid \<Rightarrow> (library_db, saved_item \<times> collection_ref) prog" where
  "get_saved_item uid iid = call (repo_get_saved_item uid iid) fail ret"

record delete_result =
  dr_collection :: uuid
  dr_empty :: bool
  dr_deletable :: bool

definition delete_saved_item :: "uuid \<Rightarrow> uuid \<Rightarrow> (library_db, delete_result) prog" where
  "delete_saved_item uid iid =
     call (repo_delete_saved_item uid iid) fail (\<lambda>(_, cid).
     call (repo_count_saved_items uid cid) fail (\<lambda>remaining.
     call (repo_get_collection_system_key uid cid) fail (\<lambda>system_key.
     let is_unsorted = (system_key = Some unsorted_system_key); empty = (remaining = 0)
     in ret \<lparr>dr_collection = cid, dr_empty = empty, dr_deletable = (empty \<and> \<not> is_unsorted)\<rparr>)))"

definition list_limit :: "int \<Rightarrow> int \<Rightarrow> int \<Rightarrow> int" where
  "list_limit standard maximum limit =
     (let l = if limit \<le> 0 then standard else limit in if maximum < l then maximum else l)"

text \<open>The position after a page, from its last row; without one there is no more.\<close>

definition finish_page ::
  "('r list \<Rightarrow> go_error + string) \<Rightarrow> 'r page_result \<Rightarrow> (library_db, 'r page_result) prog" where
  "finish_page encode result =
     (if pg_has_more result \<and> pg_rows result \<noteq> [] then
        (case encode (pg_rows result) of
           Inl e \<Rightarrow> fail_internal e
         | Inr token \<Rightarrow> ret (result\<lparr>pg_next_cursor := Some token\<rparr>))
      else ret (result\<lparr>pg_has_more := False, pg_next_cursor := None\<rparr>))"

definition with_cursor ::
  "(string \<Rightarrow> go_error + 'c) \<Rightarrow> string \<Rightarrow> ('c option \<Rightarrow> ('d, 'a) prog) \<Rightarrow> ('d, 'a) prog" where
  "with_cursor decode cursor k =
     (if cursor = '''' then k None else (case decode cursor of Inl e \<Rightarrow> fail e | Inr c \<Rightarrow> k (Some c)))"

definition list_saved_items ::
  "library_codec \<Rightarrow> uuid \<Rightarrow> int \<Rightarrow> string \<Rightarrow> (library_db, listed_item page_result) prog" where
  "list_saved_items cdc uid limit cursor =
     (let limit = list_limit saved_item_list_default_limit saved_item_list_max_limit limit in
      with_cursor (decode_items_cursor cdc) cursor (\<lambda>c.
      call (repo_list_saved_items uid limit c) fail (finish_page (encode_items_cursor cdc))))"

end
