(* ===== verification/Collections.thy ===== *)
theory Collections
  imports SavedItems
begin

text \<open>
  Collections: \<open>internal/api/collection/repository.go\<close> and \<open>service.go\<close>. Sorts, intents and actions are
  strings, as in the code, whose \<open>switch\<close> statements have default branches.
\<close>

section \<open>Constants and errors\<close>

definition collection_name_max_length :: nat where "collection_name_max_length = 100"
definition collection_list_default_limit :: int where "collection_list_default_limit = 20"
definition collection_list_max_limit :: int where "collection_list_max_limit = 50"
definition collection_items_default_limit :: int where "collection_items_default_limit = 20"
definition collection_items_max_limit :: int where "collection_items_max_limit = 50"
definition collection_saved_items_count_cap :: int where "collection_saved_items_count_cap = 99"
definition cursor_group_after_unsorted :: int where "cursor_group_after_unsorted = 0"
definition cursor_group_after_row :: int where "cursor_group_after_row = 1"

definition intent_is_valid :: "string \<Rightarrow> bool" where
  "intent_is_valid intent \<longleftrightarrow> intent = ''existing'' \<or> intent = ''create''"
definition sort_is_valid :: "string \<Rightarrow> bool" where
  "sort_is_valid s \<longleftrightarrow> s = ''newest'' \<or> s = ''oldest'' \<or> s = ''name''"

definition saved_item_not_found :: "go_error option \<Rightarrow> go_error" where
  "saved_item_not_found = not_found_with ''SAVED_ITEM_NOT_FOUND'' ''saved item not found''"
definition collection_not_found :: "go_error option \<Rightarrow> go_error" where
  "collection_not_found = not_found_with ''COLLECTION_NOT_FOUND'' ''collection not found''"
definition collection_name_exists :: "go_error option \<Rightarrow> go_error" where
  "collection_name_exists = conflict_with ''COLLECTION_NAME_ALREADY_EXISTS'' ''collection name already exists''"
definition unsorted_protected :: go_error where
  "unsorted_protected =
     conflict_with ''UNSORTED_COLLECTION_PROTECTED'' ''the unsorted collection cannot be deleted'' None"
definition target_not_found :: "go_error option \<Rightarrow> go_error" where
  "target_not_found = not_found_with ''COLLECTION_DELETE_TARGET_NOT_FOUND'' ''target collection not found''"
definition collection_not_empty :: "go_error option \<Rightarrow> go_error" where
  "collection_not_empty = conflict_with ''COLLECTION_NOT_EMPTY'' ''collection is not empty''"
definition invalid_delete_target :: "string \<Rightarrow> go_error" where
  "invalid_delete_target message = bad_request_with ''INVALID_COLLECTION_DELETE_TARGET'' message None"
definition invalid_name :: "string \<Rightarrow> go_error" where
  "invalid_name message = bad_request_with ''INVALID_COLLECTION_NAME'' message None"

lemmas collection_error_defs = saved_item_not_found_def collection_not_found_def collection_name_exists_def
  unsorted_protected_def target_not_found_def collection_not_empty_def invalid_delete_target_def invalid_name_def

definition pg_constraint :: "go_error \<Rightarrow> string option" where
  "pg_constraint e = (case errors_find is_pg_error e of Some (PgError c) \<Rightarrow> Some c | _ \<Rightarrow> None)"

definition map_collection_delete_error :: "go_error \<Rightarrow> go_error" where
  "map_collection_delete_error e =
     (if pg_constraint e = Some saved_items_collection_fk_constraint then collection_not_empty (Some e)
      else internal (Some e))"

definition map_collection_children_error :: "go_error \<Rightarrow> go_error" where
  "map_collection_children_error e =
     (if pg_constraint e = Some saved_items_collection_fk_constraint then target_not_found (Some e)
      else internal (Some e))"

definition collection_is_unsorted :: "string option \<Rightarrow> bool" where
  "collection_is_unsorted key \<longleftrightarrow> key = Some ''unsorted''"

section \<open>Filing an item\<close>

text \<open>Both helpers run inside the caller's transaction.\<close>

definition create_or_get_user_collection ::
  "time \<Rightarrow> uuid \<Rightarrow> uuid \<Rightarrow> string \<Rightarrow> (library_db, collection \<times> bool) prog" where
  "create_or_get_user_collection now cid uid name =
     exec (q_create_user_collection now cid uid name)
       (\<lambda>e. if \<not> errors_is e err_no_rows then fail_internal e
            else exec (q_get_collection_by_name uid name)
                   (\<lambda>e. if errors_is e err_no_rows
                        then fail_internal (Sentinel ''collection name conflict resolved to no collection'')
                        else fail_internal e)
                   (\<lambda>existing. ret (existing, False)))
       (\<lambda>created. ret (created, True))"

definition create_new_user_collection ::
  "time \<Rightarrow> uuid \<Rightarrow> uuid \<Rightarrow> string \<Rightarrow> (library_db, collection \<times> bool) prog" where
  "create_new_user_collection now cid uid name =
     exec (q_create_user_collection now cid uid name)
       (on_no_rows (\<lambda>e. collection_name_exists (Some e)))
       (\<lambda>created. ret (created, True))"

record item_summary =
  is_id :: uuid
  is_user :: uuid
  is_url :: string
  is_domain :: "string option"
  is_platform :: "string option"
  is_title :: "string option"
  is_collection :: uuid
  is_created_at :: time
  is_updated_at :: time

definition new_item_summary :: "saved_item \<Rightarrow> item_summary" where
  "new_item_summary i =
     \<lparr>is_id = si_id i, is_user = si_user i, is_url = si_url i, is_domain = si_domain i,
      is_platform = si_platform i, is_title = si_title i, is_collection = si_collection i,
      is_created_at = si_created_at i, is_updated_at = si_updated_at i\<rparr>"

record put_result =
  pu_collection :: collection
  pu_created :: bool
  pu_already :: bool
  pu_item :: item_summary

definition repo_put_saved_item ::
  "time \<Rightarrow> uuid \<Rightarrow> uuid \<Rightarrow> uuid \<Rightarrow> string \<Rightarrow> string \<Rightarrow> (library_db, put_result) prog" where
  "repo_put_saved_item now cid uid iid name intent =
     begin_tx fail_internal
      (exec (q_lock_saved_item iid uid) (on_no_rows (\<lambda>e. saved_item_not_found (Some e))) (\<lambda>locked.
       call (if intent = ''create'' then create_new_user_collection now cid uid name
             else create_or_get_user_collection now cid uid name) fail (\<lambda>(c, created).
       if si_collection locked = c_id c then
         commit fail_internal (ret
           \<lparr>pu_collection = c, pu_created = created, pu_already = True, pu_item = new_item_summary locked\<rparr>)
       else
         exec (q_move_saved_item now (c_id c) iid uid)
           (\<lambda>e. if errors_is e err_no_rows
                then fail_internal (Sentinel ''locked saved item disappeared before it could be moved'')
                else fail_internal e) (\<lambda>moved.
         commit fail_internal (ret
           \<lparr>pu_collection = c, pu_created = created, pu_already = False, pu_item = new_item_summary moved\<rparr>)))))"

definition normalize_collection_name :: "string \<Rightarrow> go_error + string" where
  "normalize_collection_name name =
     (let trimmed = trim_space name in
      if trimmed = '''' then Inl (invalid_name ''collection name must not be blank'')
      else if collection_name_max_length < rune_count trimmed then Inl (invalid_name ''collection name is too long'')
      else Inr trimmed)"

definition put_saved_item ::
  "time \<Rightarrow> uuid \<Rightarrow> uuid \<Rightarrow> uuid \<Rightarrow> string \<Rightarrow> string \<Rightarrow> (library_db, put_result) prog" where
  "put_saved_item now cid uid iid collection_name intent =
     (if \<not> intent_is_valid intent then
        fail (bad_request_with ''INVALID_COLLECTION_INTENT'' ''collection_intent must be existing or create'' None)
      else
        (case normalize_collection_name collection_name of
           Inl e \<Rightarrow> fail e
         | Inr name \<Rightarrow> call (repo_put_saved_item now cid uid iid name intent) fail ret))"

section \<open>Deleting a collection\<close>

record delete_params =
  dp_user :: uuid
  dp_collection :: uuid
  dp_action :: string
  dp_target :: uuid

definition delete_source :: "delete_params \<Rightarrow> (library_db, unit) prog" where
  "delete_source p =
     exec (q_delete_collection (dp_collection p) (dp_user p))
       (\<lambda>e. if errors_is e err_no_rows then fail (collection_not_found (Some e))
            else fail (map_collection_delete_error e)) (\<lambda>_.
     commit fail_internal (ret ()))"

definition repo_delete_collection :: "time \<Rightarrow> delete_params \<Rightarrow> (library_db, unit) prog" where
  "repo_delete_collection now p =
     begin_tx fail_internal
      (exec (q_get_collection (dp_collection p) (dp_user p)) (on_no_rows (\<lambda>e. collection_not_found (Some e))) (\<lambda>source.
       if collection_is_unsorted (c_system_key source) then fail unsorted_protected
       else if dp_action p = ''move'' then
         exec (q_get_collection (dp_target p) (dp_user p)) (on_no_rows (\<lambda>e. target_not_found (Some e))) (\<lambda>_.
         exec (q_move_saved_items now (dp_target p) (dp_collection p) (dp_user p))
           (\<lambda>e. fail (map_collection_children_error e)) (\<lambda>_.
         delete_source p))
       else
         exec (q_delete_saved_items (dp_collection p) (dp_user p)) (\<lambda>e. fail (map_collection_children_error e)) (\<lambda>_.
         delete_source p)))"

definition delete_collection :: "time \<Rightarrow> delete_params \<Rightarrow> (library_db, unit) prog" where
  "delete_collection now p =
     (if dp_action p = ''delete'' then
        if dp_target p \<noteq> uuid_nil then
          fail (invalid_delete_target ''target_collection_id must be null when saved_items_action is delete'')
        else repo_delete_collection now p
      else if dp_action p = ''move'' then
        if dp_target p = uuid_nil then
          fail (invalid_delete_target ''target_collection_id is required when saved_items_action is move'')
        else if dp_target p = dp_collection p then
          fail (invalid_delete_target ''target_collection_id must not be the collection being deleted'')
        else repo_delete_collection now p
      else
        fail (bad_request_with ''INVALID_COLLECTION_DELETE_ACTION'' ''saved_items_action must be delete or move'' None))"

section \<open>Listing collections\<close>

definition has_position :: "collections_cursor \<Rightarrow> bool" where
  "has_position c \<longleftrightarrow> cc_group c = Some cursor_group_after_row"

definition list_first_page :: "uuid \<Rightarrow> string \<Rightarrow> int \<Rightarrow> (library_db, listed_collection list) prog" where
  "list_first_page uid srt page_limit =
     pool ((if srt = ''oldest'' then q_list_collections_oldest_first
            else if srt = ''name'' then q_list_collections_by_name_first
            else q_list_collections_newest_first) collection_saved_items_count_cap uid page_limit)
       fail_internal ret"

definition list_after_unsorted :: "uuid \<Rightarrow> string \<Rightarrow> int \<Rightarrow> (library_db, listed_collection list) prog" where
  "list_after_unsorted uid srt page_limit =
     pool ((if srt = ''oldest'' then q_list_collections_oldest_after_unsorted
            else if srt = ''name'' then q_list_collections_by_name_after_unsorted
            else q_list_collections_newest_after_unsorted) collection_saved_items_count_cap uid page_limit)
       fail_internal ret"

definition list_after_position ::
  "uuid \<Rightarrow> string \<Rightarrow> collections_cursor \<Rightarrow> int \<Rightarrow> (library_db, listed_collection list) prog" where
  "list_after_position uid srt c page_limit =
     (let cid = the (cc_id c) in
      pool ((if srt = ''oldest'' then q_list_collections_oldest_after_row (the (cc_timestamp c)) cid
             else if srt = ''name'' then q_list_collections_by_name_after_row (the (cc_value c)) cid
             else q_list_collections_newest_after_row (the (cc_timestamp c)) cid)
            collection_saved_items_count_cap uid page_limit)
        fail_internal ret)"

definition list_collections_rows ::
  "uuid \<Rightarrow> string \<Rightarrow> int \<Rightarrow> collections_cursor option \<Rightarrow> (library_db, listed_collection list) prog" where
  "list_collections_rows uid srt limit cursor =
     (let page_limit = page_limit_of limit in
      case cursor of
        None \<Rightarrow> list_first_page uid srt page_limit
      | Some c \<Rightarrow>
          if \<not> has_position c then list_after_unsorted uid srt page_limit
          else list_after_position uid srt c page_limit)"

definition repo_list_collections ::
  "uuid \<Rightarrow> string \<Rightarrow> int \<Rightarrow> collections_cursor option \<Rightarrow> (library_db, listed_collection page_result) prog" where
  "repo_list_collections uid srt limit cursor =
     call (list_collections_rows uid srt limit cursor) fail (\<lambda>rows. ret (build_page rows limit))"

definition parse_cursor_timestamp :: "library_codec \<Rightarrow> string \<Rightarrow> go_error + time" where
  "parse_cursor_timestamp cdc value = parse_time cdc value"

definition decode_collections_cursor ::
  "library_codec \<Rightarrow> string \<Rightarrow> string \<Rightarrow> go_error + collections_cursor" where
  "decode_collections_cursor cdc srt token =
     (case decode_versioned (\<lambda>c. Some (cc_version c)) (unmarshal_collections cdc) token of
        Inl e \<Rightarrow> Inl (invalid_cursor_error (Some e))
      | Inr decoded \<Rightarrow>
          if \<not> sort_is_valid (cc_sort decoded) \<or> cc_sort decoded \<noteq> srt then Inl (invalid_cursor_error None)
          else
            (case cc_group decoded of
               None \<Rightarrow> Inl (invalid_cursor_error None)
             | Some g \<Rightarrow>
                 if g = cursor_group_after_unsorted then
                   if cc_value decoded \<noteq> None \<or> cc_id decoded \<noteq> None then Inl (invalid_cursor_error None)
                   else Inr decoded
                 else if g = cursor_group_after_row then
                   (case (cc_value decoded, cc_id decoded) of
                      (Some value, Some cid) \<Rightarrow>
                        if value = '''' \<or> cid = uuid_nil then Inl (invalid_cursor_error None)
                        else if srt \<noteq> ''name'' then
                          (case parse_cursor_timestamp cdc value of
                             Inl e \<Rightarrow> Inl (invalid_cursor_error (Some e))
                           | Inr parsed \<Rightarrow> Inr (decoded\<lparr>cc_timestamp := Some parsed\<rparr>))
                        else Inr decoded
                    | _ \<Rightarrow> Inl (invalid_cursor_error None))
                 else Inl (invalid_cursor_error None)))"

definition normalize_collection_name_for_cursor :: "string \<Rightarrow> string" where
  "normalize_collection_name_for_cursor name = to_lower (trim_space name)"

definition format_cursor_value :: "library_codec \<Rightarrow> string \<Rightarrow> 'a collection_scheme \<Rightarrow> string" where
  "format_cursor_value cdc srt c =
     (if srt = ''name'' then normalize_collection_name_for_cursor (c_name c)
      else format_time cdc (c_created_at c))"

definition encode_collections_cursor ::
  "library_codec \<Rightarrow> string \<Rightarrow> listed_collection list \<Rightarrow> go_error + string" where
  "encode_collections_cursor cdc srt collections =
     (let c = last collections in
      if collection_is_unsorted (c_system_key c) then
        cursor_encode (marshal_collections cdc)
          \<lparr>cc_version = current_version, cc_sort = srt, cc_group = Some cursor_group_after_unsorted,
           cc_value = None, cc_id = None, cc_timestamp = None\<rparr>
      else
        cursor_encode (marshal_collections cdc)
          \<lparr>cc_version = current_version, cc_sort = srt, cc_group = Some cursor_group_after_row,
           cc_value = Some (format_cursor_value cdc srt c), cc_id = Some (c_id c), cc_timestamp = None\<rparr>)"

definition list_collections ::
  "library_codec \<Rightarrow> uuid \<Rightarrow> string \<Rightarrow> int \<Rightarrow> string \<Rightarrow> (library_db, listed_collection page_result) prog" where
  "list_collections cdc uid srt limit cursor =
     (let srt = (if srt = '''' then ''newest'' else srt) in
      if \<not> sort_is_valid srt then
        fail (bad_request_with ''INVALID_COLLECTION_SORT'' ''sort is not supported'' None)
      else
        (let limit = list_limit collection_list_default_limit collection_list_max_limit limit in
         with_cursor (decode_collections_cursor cdc srt) cursor (\<lambda>c.
         call (repo_list_collections uid srt limit c) fail (finish_page (encode_collections_cursor cdc srt)))))"

section \<open>Listing the items of a collection\<close>

definition repo_get_collection :: "uuid \<Rightarrow> uuid \<Rightarrow> (library_db, collection) prog" where
  "repo_get_collection cid uid =
     pool (q_get_collection cid uid) (on_no_rows (\<lambda>e. collection_not_found (Some e))) ret"

definition list_saved_item_rows ::
  "uuid \<Rightarrow> uuid \<Rightarrow> items_cursor option \<Rightarrow> int \<Rightarrow> (library_db, saved_item list) prog" where
  "list_saved_item_rows uid cid cursor page_limit =
     (case cursor of
        None \<Rightarrow> pool (q_list_saved_items_in_collection_first cid uid page_limit) fail_internal ret
      | Some c \<Rightarrow>
          pool (q_list_saved_items_in_collection_after_row cid uid (cursor_time c) (cursor_item c) page_limit)
            fail_internal ret)"

definition repo_list_saved_items_in_collection ::
  "uuid \<Rightarrow> uuid \<Rightarrow> int \<Rightarrow> items_cursor option \<Rightarrow> (library_db, saved_item page_result) prog" where
  "repo_list_saved_items_in_collection uid cid limit cursor =
     call (list_saved_item_rows uid cid cursor (page_limit_of limit)) fail (\<lambda>rows. ret (build_page rows limit))"

text \<open>The cursor is checked before the collection is looked up.\<close>

definition list_saved_items_in_collection ::
  "library_codec \<Rightarrow> uuid \<Rightarrow> uuid \<Rightarrow> int \<Rightarrow> string \<Rightarrow> (library_db, collection \<times> saved_item page_result) prog" where
  "list_saved_items_in_collection cdc uid cid limit cursor =
     (let limit = list_limit collection_items_default_limit collection_items_max_limit limit in
      with_cursor (decode_items_cursor cdc) cursor (\<lambda>c.
      call (repo_get_collection cid uid) fail (\<lambda>row.
      call (repo_list_saved_items_in_collection uid cid limit c) fail (\<lambda>result.
      call (finish_page (encode_items_cursor cdc) result) fail (\<lambda>page. ret (row, page))))))"

end
