(* ===== verification/Enrichment.thy ===== *)
theory Enrichment
  imports Prelude GoStrings
begin

text \<open>
  Reading a page's metadata: \<open>internal/enrichment\<close>. The HTML tokenizer and the charset reader
  (third-party), the JSON decoder, \<open>net/url\<close> and \<open>mime\<close> are arguments: a page arrives here as the
  list of its tokens and a JSON-LD block as a decoded value. From there on extraction, the walk over
  JSON-LD, the precedence lists, normalisation and the classification of failures are the code's.
\<close>

section \<open>Text\<close>

text \<open>\<open>strings.FieldsFunc\<close>, \<open>strings.Join\<close>.\<close>

function fields_by :: "('a \<Rightarrow> bool) \<Rightarrow> 'a list \<Rightarrow> 'a list list" where
  "fields_by p [] = []"
| "fields_by p (c # s) =
     (if p c then fields_by p s
      else (c # takeWhile (\<lambda>x. \<not> p x) s) # fields_by p (dropWhile (\<lambda>x. \<not> p x) s))"
  by pat_completeness auto
termination
  by (relation "measure (\<lambda>(p, s). length s)") (auto simp: length_dropWhile_le less_Suc_eq_le)

fun join_with :: "'a list \<Rightarrow> 'a list list \<Rightarrow> 'a list" where
  "join_with sep [] = []"
| "join_with sep [x] = x"
| "join_with sep (x # y # xs) = x @ sep @ join_with sep (y # xs)"

definition normalize_text :: "string \<Rightarrow> string" where
  "normalize_text value =
     (let fields = fields_by ascii_space value in
      if fields = [] then [] else join_with '' '' fields)"

definition optional_normal_text :: "string \<Rightarrow> string option" where
  "optional_normal_text value =
     (let normalized = normalize_text value in if normalized = [] then None else Some normalized)"

section \<open>URLs\<close>

text \<open>The operations of \<open>net/url\<close> the code calls.\<close>

record 'u url_lib =
  url_parse :: "string \<Rightarrow> 'u option"
  url_is_abs :: "'u \<Rightarrow> bool"
  url_scheme :: "'u \<Rightarrow> string"
  url_string :: "'u \<Rightarrow> string"
  url_resolve :: "'u \<Rightarrow> 'u \<Rightarrow> 'u"

definition normalize_url :: "'u url_lib \<Rightarrow> string \<Rightarrow> 'u option \<Rightarrow> string" where
  "normalize_url lib value base =
     (let trimmed = trim_space value in
      if trimmed = [] then []
      else case url_parse lib trimmed of
        None \<Rightarrow> []
      | Some reference \<Rightarrow>
          (case base of
             None \<Rightarrow> if \<not> url_is_abs lib reference then [] else url_string lib reference
           | Some b \<Rightarrow>
               (let resolved = url_resolve lib b reference in
                if to_lower (url_scheme lib resolved) \<in> {''http'', ''https''}
                then url_string lib resolved else [])))"

definition optional_url :: "'u url_lib \<Rightarrow> string \<Rightarrow> 'u option \<Rightarrow> string option" where
  "optional_url lib value base =
     (let resolved = normalize_url lib value base in if resolved = [] then None else Some resolved)"

section \<open>Candidate keys and their precedence\<close>

abbreviation title_element :: string where "title_element \<equiv> ''<title>''"
abbreviation meta_link_canonical :: string where "meta_link_canonical \<equiv> ''<link rel=canonical>''"
abbreviation jsonld_name :: string where "jsonld_name \<equiv> ''jsonld:name''"
abbreviation jsonld_headline :: string where "jsonld_headline \<equiv> ''jsonld:headline''"
abbreviation jsonld_description :: string where "jsonld_description \<equiv> ''jsonld:description''"
abbreviation jsonld_image :: string where "jsonld_image \<equiv> ''jsonld:image''"
abbreviation jsonld_url :: string where "jsonld_url \<equiv> ''jsonld:url''"
abbreviation jsonld_author_name :: string where "jsonld_author_name \<equiv> ''jsonld:author.name''"
abbreviation jsonld_publisher_name :: string where "jsonld_publisher_name \<equiv> ''jsonld:publisher.name''"
abbreviation jsonld_organization_name :: string where
  "jsonld_organization_name \<equiv> ''jsonld:organization.name''"
abbreviation jsonld_website_name :: string where "jsonld_website_name \<equiv> ''jsonld:website.name''"

definition title_precedence :: "string list" where
  "title_precedence =
     [''og:title'', ''twitter:title'', title_element, jsonld_headline, jsonld_name]"

definition description_precedence :: "string list" where
  "description_precedence =
     [''og:description'', ''twitter:description'', ''description'', jsonld_description]"

definition image_precedence :: "string list" where
  "image_precedence = [''og:image'', ''twitter:image'', ''twitter:image:src'', jsonld_image]"

definition canonical_precedence :: "string list" where
  "canonical_precedence = [meta_link_canonical, ''og:url'', jsonld_url]"

definition platform_precedence :: "string list" where
  "platform_precedence =
     [''application-name'', jsonld_publisher_name, jsonld_organization_name, jsonld_website_name,
      ''og:site_name'']"

definition site_name_precedence :: "string list" where
  "site_name_precedence =
     [''og:site_name'', ''application-name'', jsonld_website_name, jsonld_publisher_name]"

definition author_precedence :: "string list" where
  "author_precedence = [''author'', ''og:author'', jsonld_author_name]"

section \<open>The document\<close>

type_synonym document = "string \<rightharpoonup> string"

text \<open>\<open>document.set\<close>: the first value that is not blank wins.\<close>

definition doc_set :: "string \<Rightarrow> string \<Rightarrow> document \<Rightarrow> document" where
  "doc_set key value doc =
     (if key = [] then doc
      else let trimmed = trim_space value in
        if trimmed = [] then doc
        else if doc key \<noteq> None then doc
        else doc(key \<mapsto> trimmed))"

section \<open>JSON-LD\<close>

text \<open>
  A decoded JSON value. The fields of an object stand in the order in which \<open>range\<close> visits the Go
  map; a map has no order of its own, so the theorems hold for every arrangement of the fields.
\<close>

datatype json =
    JNull
  | JBool bool
  | JNumber string
  | JString string
  | JArray "json list"
  | JObject "(string \<times> json) list"

type_synonym json_object = "(string \<times> json) list"

fun json_as_string :: "json option \<Rightarrow> string option" where
  "json_as_string (Some (JString s)) = Some s"
| "json_as_string _ = None"

definition jsonld_type_name :: "string \<Rightarrow> string" where
  "jsonld_type_name raw =
     (let name = trim_space raw in
      if name = [] then []
      else let name' = (if list_ex (\<lambda>c. c \<in> set ''/#:'') name
                        then rev (takeWhile (\<lambda>c. c \<notin> set ''/#:'') (rev name)) else name)
        in to_lower (trim_space name'))"

text \<open>\<open>normalizeJSONLDType\<close>: a string, or the first usable entry of a list of types.\<close>

fun first_type_name :: "json list \<Rightarrow> string" where
  "first_type_name [] = []"
| "first_type_name (JString name # items) =
     (let normalized = jsonld_type_name name in
      if normalized \<noteq> [] then normalized else first_type_name items)"
| "first_type_name (_ # items) = first_type_name items"

definition normalize_jsonld_type :: "json_object \<Rightarrow> string" where
  "normalize_jsonld_type obj =
     (case map_of obj ''@type'' of
        Some (JString value) \<Rightarrow> jsonld_type_name value
      | Some (JArray items) \<Rightarrow> first_type_name items
      | _ \<Rightarrow> [])"

definition jsonld_string :: "json_object \<Rightarrow> string \<Rightarrow> string" where
  "jsonld_string obj key =
     (case map_of obj key of
        Some (JString value) \<Rightarrow> value
      | Some (JObject inner) \<Rightarrow>
          (case map_of inner ''@value'' of Some (JString s) \<Rightarrow> s | _ \<Rightarrow> [])
      | _ \<Rightarrow> [])"

fun first_nested_name :: "json list \<Rightarrow> string" where
  "first_nested_name [] = []"
| "first_nested_name (JObject nested # items) =
     (let name = jsonld_string nested ''name'' in
      if name \<noteq> [] then name else first_nested_name items)"
| "first_nested_name (_ # items) = first_nested_name items"

definition jsonld_nested_name :: "json_object \<Rightarrow> string \<Rightarrow> string" where
  "jsonld_nested_name obj key =
     (case map_of obj key of
        Some (JString value) \<Rightarrow> value
      | Some (JObject value) \<Rightarrow> jsonld_string value ''name''
      | Some (JArray items) \<Rightarrow> first_nested_name items
      | _ \<Rightarrow> [])"

fun first_non_empty :: "string list \<Rightarrow> string" where
  "first_non_empty [] = []"
| "first_non_empty (value # values) =
     (if trim_space value \<noteq> [] then value else first_non_empty values)"

fun first_image :: "json list \<Rightarrow> string" where
  "first_image [] = []"
| "first_image (JString entry # items) =
     (if trim_space entry \<noteq> [] then entry else first_image items)"
| "first_image (JObject entry # items) =
     (let found = first_non_empty [jsonld_string entry ''url'', jsonld_string entry ''contentUrl''] in
      if found \<noteq> [] then found else first_image items)"
| "first_image (_ # items) = first_image items"

definition jsonld_image_url :: "json_object \<Rightarrow> string" where
  "jsonld_image_url obj =
     (case map_of obj ''image'' of
        Some (JString value) \<Rightarrow> value
      | Some (JObject value) \<Rightarrow>
          first_non_empty [jsonld_string value ''url'', jsonld_string value ''contentUrl'']
      | Some (JArray items) \<Rightarrow> first_image items
      | _ \<Rightarrow> [])"

definition jsonld_reference_keys :: "string list" where
  "jsonld_reference_keys = [''publisher'', ''author'', ''image'']"

text \<open>The generic fields of an object that speaks about the page itself.\<close>

definition page_fields :: "json_object \<Rightarrow> (string \<times> string) list" where
  "page_fields obj =
     [(jsonld_headline, jsonld_string obj ''headline''),
      (jsonld_description, jsonld_string obj ''description''),
      (jsonld_name, jsonld_string obj ''name''),
      (jsonld_url, jsonld_string obj ''url''),
      (jsonld_image, jsonld_image_url obj),
      (jsonld_publisher_name, jsonld_nested_name obj ''publisher''),
      (jsonld_author_name, jsonld_nested_name obj ''author'')]"

definition set_all :: "(string \<times> string) list \<Rightarrow> document \<Rightarrow> document" where
  "set_all decls doc = fold (\<lambda>(key, value). doc_set key value) decls doc"

lemma size_field_less: "(k, v) \<in> set fs \<Longrightarrow> size v < size_list (size_prod (\<lambda>_. 0) size) fs"
  by (induction fs) auto

lemma size_item_less: "v \<in> set vs \<Longrightarrow> size v < Suc (size_list size vs)"
  by (induction vs) auto

fun is_object :: "json \<Rightarrow> bool" where
  "is_object (JObject _) = True"
| "is_object _ = False"

text \<open>\<open>walkJSONLD\<close> and \<open>walkJSONLDObject\<close>.\<close>

function (sequential) walk_jsonld :: "json \<Rightarrow> bool \<Rightarrow> document \<Rightarrow> document" and
  walk_jsonld_object :: "json_object \<Rightarrow> bool \<Rightarrow> document \<Rightarrow> document" where
  "walk_jsonld (JObject obj) reference doc = walk_jsonld_object obj reference doc"
| "walk_jsonld (JArray items) reference doc =
     fold (\<lambda>item d. walk_jsonld item reference d) items doc"
| "walk_jsonld _ reference doc = doc"
| "walk_jsonld_object obj reference doc =
     (let typ = normalize_jsonld_type obj in
      if typ = ''organization''
      then doc_set jsonld_organization_name (jsonld_string obj ''name'') doc
      else if typ = ''website''
      then doc_set jsonld_website_name (jsonld_string obj ''name'') doc
      else
        let doc1 = (if \<not> reference then set_all (page_fields obj) doc else doc);
            doc2 = (case map_of obj ''@graph'' of
                      Some graph \<Rightarrow> walk_jsonld graph reference doc1
                    | None \<Rightarrow> doc1)
        in fold (\<lambda>(key, value) d.
                   if key \<in> set jsonld_reference_keys then d
                   else if key = ''@graph'' then d
                   else if is_object value then walk_jsonld value True d
                   else d) obj doc2)"
  by pat_completeness auto
termination
  apply (relation "measure (\<lambda>x. case x of Inl (n, _) \<Rightarrow> size n
                     | Inr (fs, _) \<Rightarrow> size_list (size_prod (\<lambda>_. 0) size) fs)")
  apply (auto dest!: map_of_SomeD dest: size_field_less size_item_less)
  done

lemmas walk_simps = walk_jsonld.simps walk_jsonld_object.simps

section \<open>Extraction\<close>

text \<open>
  The tokens of \<open>x/net/html\<close>: attributes in document order, with lower-case keys. A stream of tokens
  ends with \<open>io.EOF\<close> or with a read error.
\<close>

type_synonym attributes = "(string \<times> string) list"

datatype html_token =
    StartTag string attributes
  | SelfClosingTag string attributes
  | EndTag string
  | TextToken string
  | OtherToken

datatype stream_end = AtEOF | ReadError

text \<open>\<open>isJSONLDScript\<close>: the first \<open>type\<close> attribute, without its parameters.\<close>

definition before_semicolon :: "string \<Rightarrow> string" where
  "before_semicolon s =
     (if CHR '';'' \<in> set s then trim_space (takeWhile (\<lambda>c. c \<noteq> CHR '';'') s) else s)"

fun is_jsonld_script :: "attributes \<Rightarrow> bool" where
  "is_jsonld_script [] = False"
| "is_jsonld_script ((key, val) # attrs) =
     (if key \<noteq> ''type'' then is_jsonld_script attrs
      else before_semicolon (to_lower (trim_space val)) = ''application/ld+json'')"

text \<open>\<open>collectMeta\<close>: the last naming attribute, then the first \<open>content\<close>.\<close>

fun meta_key :: "string \<Rightarrow> attributes \<Rightarrow> string" where
  "meta_key key [] = key"
| "meta_key key ((name, val) # attrs) =
     (if name \<in> {''name'', ''property'', ''itemprop''}
      then meta_key (to_lower (trim_space val)) attrs else meta_key key attrs)"

definition collect_meta :: "attributes \<Rightarrow> document \<Rightarrow> document" where
  "collect_meta attrs doc =
     (let key = meta_key [] attrs in
      if key = [] then doc
      else case map_of attrs ''content'' of
        Some val \<Rightarrow> doc_set key val doc
      | None \<Rightarrow> doc)"

text \<open>\<open>collectLink\<close>: a link one of whose \<open>rel\<close> tokens is \<open>canonical\<close>.\<close>

definition link_is_canonical :: "attributes \<Rightarrow> bool" where
  "link_is_canonical attrs =
     list_ex (\<lambda>(key, val). key = ''rel'' \<and> ''canonical'' \<in> set (fields_by ascii_space (to_lower val)))
       attrs"

definition collect_link :: "attributes \<Rightarrow> document \<Rightarrow> document" where
  "collect_link attrs doc =
     (if \<not> link_is_canonical attrs then doc
      else case map_of attrs ''href'' of
        Some val \<Rightarrow> doc_set meta_link_canonical val doc
      | None \<Rightarrow> doc)"

definition collect_jsonld :: "(string \<Rightarrow> json option) \<Rightarrow> string \<Rightarrow> document \<Rightarrow> document" where
  "collect_jsonld unmarshal raw doc =
     (if trim_space raw = [] then doc
      else case unmarshal raw of
        None \<Rightarrow> doc
      | Some decoded \<Rightarrow> walk_jsonld decoded False doc)"

text \<open>The variables of the loop in \<open>extract\<close>.\<close>

record extraction =
  x_doc :: document
  x_in_title :: bool
  x_title :: string
  x_in_jsonld :: bool
  x_json :: string

definition start_extraction :: extraction where
  "start_extraction = \<lparr>x_doc = Map.empty, x_in_title = False, x_title = [],
                       x_in_jsonld = False, x_json = []\<rparr>"

definition on_start_tag :: "string \<Rightarrow> attributes \<Rightarrow> extraction \<Rightarrow> extraction" where
  "on_start_tag name attrs st =
     (if name = ''title'' then
        (if \<not> x_in_title st then st\<lparr>x_in_title := True, x_title := []\<rparr> else st)
      else if name = ''script'' then
        (let ld = is_jsonld_script attrs in
         if ld then st\<lparr>x_in_jsonld := ld, x_json := []\<rparr> else st\<lparr>x_in_jsonld := ld\<rparr>)
      else if name = ''meta'' then st\<lparr>x_doc := collect_meta attrs (x_doc st)\<rparr>
      else if name = ''link'' then st\<lparr>x_doc := collect_link attrs (x_doc st)\<rparr>
      else st)"

definition on_end_tag :: "(string \<Rightarrow> json option) \<Rightarrow> string \<Rightarrow> extraction \<Rightarrow> extraction" where
  "on_end_tag unmarshal name st =
     (if name = ''title'' then
        (if x_in_title st
         then st\<lparr>x_in_title := False, x_doc := doc_set title_element (x_title st) (x_doc st),
                 x_title := []\<rparr>
         else st)
      else if name = ''script'' then
        (if x_in_jsonld st
         then st\<lparr>x_in_jsonld := False, x_doc := collect_jsonld unmarshal (x_json st) (x_doc st),
                 x_json := []\<rparr>
         else st)
      else st)"

definition on_text :: "string \<Rightarrow> extraction \<Rightarrow> extraction" where
  "on_text text st =
     (if x_in_title st then st\<lparr>x_title := x_title st @ text\<rparr>
      else if x_in_jsonld st then st\<lparr>x_json := x_json st @ text\<rparr>
      else st)"

fun on_token :: "(string \<Rightarrow> json option) \<Rightarrow> html_token \<Rightarrow> extraction \<Rightarrow> extraction" where
  "on_token unmarshal (StartTag name attrs) st = on_start_tag name attrs st"
| "on_token unmarshal (SelfClosingTag name attrs) st = on_start_tag name attrs st"
| "on_token unmarshal (EndTag name) st = on_end_tag unmarshal name st"
| "on_token unmarshal (TextToken text) st = on_text text st"
| "on_token unmarshal OtherToken st = st"

fun extract_loop ::
  "(string \<Rightarrow> json option) \<Rightarrow> html_token list \<Rightarrow> stream_end \<Rightarrow> extraction \<Rightarrow> document option" where
  "extract_loop unmarshal [] AtEOF st = Some (x_doc st)"
| "extract_loop unmarshal [] ReadError st = None"
| "extract_loop unmarshal (token # tokens) fin st =
     extract_loop unmarshal tokens fin (on_token unmarshal token st)"

definition extract_page ::
  "(string \<Rightarrow> json option) \<Rightarrow> html_token list \<times> stream_end \<Rightarrow> document option" where
  "extract_page unmarshal page = extract_loop unmarshal (fst page) (snd page) start_extraction"

section \<open>Selection\<close>

record metadata =
  m_title :: "string option"
  m_platform :: "string option"
  m_description :: "string option"
  m_image_url :: "string option"
  m_canonical_url :: "string option"
  m_site_name :: "string option"
  m_author :: "string option"

definition metadata_is_empty :: "metadata \<Rightarrow> bool" where
  "metadata_is_empty m \<longleftrightarrow>
     m_title m = None \<and> m_platform m = None \<and> m_description m = None \<and> m_image_url m = None \<and>
     m_canonical_url m = None \<and> m_site_name m = None \<and> m_author m = None"

fun first_candidate :: "document \<Rightarrow> string list \<Rightarrow> string" where
  "first_candidate doc [] = []"
| "first_candidate doc (key # keys) =
     (case doc key of
        None \<Rightarrow> first_candidate doc keys
      | Some value \<Rightarrow>
          if normalize_text value = [] then first_candidate doc keys else value)"

definition select_metadata :: "'u url_lib \<Rightarrow> document \<Rightarrow> 'u option \<Rightarrow> metadata" where
  "select_metadata lib doc base =
     \<lparr>m_title = optional_normal_text (first_candidate doc title_precedence),
      m_platform = optional_normal_text (first_candidate doc platform_precedence),
      m_description = optional_normal_text (first_candidate doc description_precedence),
      m_image_url = optional_url lib (first_candidate doc image_precedence) base,
      m_canonical_url = optional_url lib (first_candidate doc canonical_precedence) base,
      m_site_name = optional_normal_text (first_candidate doc site_name_precedence),
      m_author = optional_normal_text (first_candidate doc author_precedence)\<rparr>"

section \<open>Failures\<close>

datatype failure_kind = FailureFetch | FailureContent

text \<open>The sentinels and what they wrap, as far as the code looks at it.\<close>

datatype enrich_error =
    InvalidURL
  | FetchFailed
  | ParseFailed
  | UnexpectedStatus int
  | UnsupportedContentType string

record failure =
  f_kind :: failure_kind
  f_status :: int
  f_err :: enrich_error

definition new_failure :: "failure_kind \<Rightarrow> enrich_error \<Rightarrow> failure" where
  "new_failure kind err = \<lparr>f_kind = kind, f_status = 0, f_err = err\<rparr>"

text \<open>An error is a \<open>Failure\<close> (possibly wrapped) or any other error.\<close>

datatype 'e any_error = IsFailure failure | PlainError 'e

fun wrap_failure :: "failure_kind \<Rightarrow> enrich_error any_error \<Rightarrow> failure" where
  "wrap_failure kind (IsFailure failure) = failure"
| "wrap_failure kind (PlainError err) = new_failure kind err"

fun error_kind :: "'e any_error \<Rightarrow> failure_kind" where
  "error_kind (IsFailure failure) = f_kind failure"
| "error_kind (PlainError err) = FailureFetch"

fun error_status :: "'e any_error \<Rightarrow> int" where
  "error_status (IsFailure failure) = f_status failure"
| "error_status (PlainError err) = 0"

definition status_failure_kind :: "int \<Rightarrow> failure_kind" where
  "status_failure_kind status =
     (if status = 429 \<or> status \<ge> 500 then FailureFetch else FailureContent)"

text \<open>Why \<open>client.Do\<close> failed: the two refusals of the outbound guard, or anything else.\<close>

datatype request_error = AddressBlocked | TooManyRedirects | TransportError

definition request_failure_kind :: "request_error \<Rightarrow> failure_kind" where
  "request_failure_kind err =
     (if err = AddressBlocked \<or> err = TooManyRedirects then FailureContent else FailureFetch)"

section \<open>The response\<close>

text \<open>A body delivers its bytes and then ends, with \<open>io.EOF\<close> or with an error.\<close>

record http_body =
  b_bytes :: string
  b_end :: stream_end

text \<open>\<open>io.LimitReader\<close>: after \<open>n\<close> bytes it reports \<open>io.EOF\<close> without reading on.\<close>

definition limit_body :: "nat \<Rightarrow> http_body \<Rightarrow> http_body" where
  "limit_body n body =
     (if n \<le> length (b_bytes body)
      then \<lparr>b_bytes = take n (b_bytes body), b_end = AtEOF\<rparr> else body)"

definition html_media_types :: "string list" where
  "html_media_types = [''text/html'', ''application/xhtml+xml'']"

text \<open>\<open>parseMediaType\<close>; the argument is \<open>mime.ParseMediaType\<close>.\<close>

definition parse_media_type :: "(string \<Rightarrow> string option) \<Rightarrow> string \<Rightarrow> string" where
  "parse_media_type mime_parse content_type =
     (if trim_space content_type = [] then []
      else case mime_parse content_type of
        None \<Rightarrow> to_lower (before_semicolon (trim_space content_type))
      | Some media_type \<Rightarrow> to_lower media_type)"

definition sniff_length :: nat where "sniff_length = 512"

text \<open>\<open>readSniffPrefix\<close>: an error matters only when it cuts the prefix short.\<close>

definition read_sniff_prefix :: "http_body \<Rightarrow> string option" where
  "read_sniff_prefix body =
     (if length (b_bytes body) < sniff_length \<and> b_end body = ReadError then None
      else Some (take sniff_length (b_bytes body)))"

definition html_prefix_markers :: "string list" where
  "html_prefix_markers =
     [''<!doctype html'', ''<html'', ''<head'', ''<body'', ''<title'', ''<meta'', ''<script'',
      ''<?xml'']"

fun contains_str :: "string \<Rightarrow> string \<Rightarrow> bool" where
  "contains_str marker [] \<longleftrightarrow> marker = []"
| "contains_str marker (c # s) \<longleftrightarrow>
     take (length marker) (c # s) = marker \<or> contains_str marker s"

definition is_html_prefix :: "string \<Rightarrow> bool" where
  "is_html_prefix prefix \<longleftrightarrow>
     (if prefix = [] then False
      else if list_ex (\<lambda>b. b = CHR 0x00) prefix then False
      else list_ex (\<lambda>marker. contains_str marker (to_lower prefix)) html_prefix_markers)"

text \<open>\<open>prepareHTMLBody\<close>: the body itself; sniffing puts back what it read.\<close>

definition prepare_html_body ::
  "(string \<Rightarrow> string option) \<Rightarrow> http_body \<Rightarrow> string \<Rightarrow> enrich_error any_error + http_body" where
  "prepare_html_body mime_parse body content_type =
     (let media_type = parse_media_type mime_parse content_type in
      if media_type \<in> set html_media_types then Inr body
      else case read_sniff_prefix body of
        None \<Rightarrow> Inl (IsFailure (new_failure FailureFetch FetchFailed))
      | Some prefix \<Rightarrow>
          if is_html_prefix prefix then Inr body
          else Inl (PlainError (UnsupportedContentType media_type)))"

record 'u http_response =
  r_status :: int
  r_content_type :: string
  r_body :: http_body
  r_url :: "'u option"

text \<open>What \<open>charset.NewReader\<close> answers: a decoding reader, \<open>io.EOF\<close>, or another error.\<close>

datatype charset_answer = Decoded http_body | CharsetEOF | CharsetError

text \<open>The libraries an enrichment runs on.\<close>

record 'u enrich_env =
  e_url :: "'u url_lib"
  e_unmarshal :: "string \<Rightarrow> json option"
  e_mime :: "string \<Rightarrow> string option"
  e_charset :: "http_body \<Rightarrow> string \<Rightarrow> charset_answer"
  e_tokenize :: "http_body \<Rightarrow> html_token list \<times> stream_end"
  e_max_bytes :: nat

definition enrich_reader ::
  "'u enrich_env \<Rightarrow> 'u http_response \<Rightarrow> failure + http_body \<times> 'u option" where
  "enrich_reader env response =
     (if r_status response < 200 \<or> r_status response \<ge> 300 then
        Inl ((new_failure (status_failure_kind (r_status response))
                (UnexpectedStatus (r_status response)))\<lparr>f_status := r_status response\<rparr>)
      else
        (let limited = limit_body (e_max_bytes env) (r_body response) in
         case prepare_html_body (e_mime env) limited (r_content_type response) of
           Inl err \<Rightarrow> Inl (wrap_failure FailureContent err)
         | Inr body \<Rightarrow>
             (case e_charset env body (r_content_type response) of
                CharsetEOF \<Rightarrow> Inr (\<lparr>b_bytes = [], b_end = AtEOF\<rparr>, r_url response)
              | CharsetError \<Rightarrow> Inl (new_failure FailureFetch FetchFailed)
              | Decoded decoded \<Rightarrow>
                  Inr (limit_body (e_max_bytes env) decoded, r_url response))))"

text \<open>\<open>do\<close>: \<open>request\<close> says whether \<open>http.NewRequestWithContext\<close> accepts the URL, \<open>fetch\<close> is the client.\<close>

definition enrich_do ::
  "(string \<Rightarrow> bool) \<Rightarrow> (string \<Rightarrow> request_error + 'u http_response) \<Rightarrow> string
     \<Rightarrow> failure + 'u http_response" where
  "enrich_do request_ok fetch raw_url =
     (if \<not> request_ok raw_url then Inl (new_failure FailureFetch InvalidURL)
      else case fetch raw_url of
        Inl err \<Rightarrow> Inl (new_failure (request_failure_kind err) FetchFailed)
      | Inr response \<Rightarrow> Inr response)"

definition enrich ::
  "'u enrich_env \<Rightarrow> (string \<Rightarrow> bool) \<Rightarrow> (string \<Rightarrow> request_error + 'u http_response) \<Rightarrow> string
     \<Rightarrow> failure + metadata" where
  "enrich env request_ok fetch raw_url =
     (case url_parse (e_url env) (trim_space raw_url) of
        None \<Rightarrow> Inl (new_failure FailureFetch InvalidURL)
      | Some _ \<Rightarrow>
          (case enrich_do request_ok fetch raw_url of
             Inl failure \<Rightarrow> Inl failure
           | Inr response \<Rightarrow>
               (case enrich_reader env response of
                  Inl failure \<Rightarrow> Inl failure
                | Inr (body, final_url) \<Rightarrow>
                    (case extract_page (e_unmarshal env) (e_tokenize env body) of
                       None \<Rightarrow> Inl (new_failure FailureFetch ParseFailed)
                     | Some doc \<Rightarrow> Inr (select_metadata (e_url env) doc final_url)))))"

section \<open>Words\<close>

definition is_word :: "string \<Rightarrow> bool" where
  "is_word w \<longleftrightarrow> w \<noteq> [] \<and> list_all (\<lambda>c. \<not> ascii_space c) w"

lemma list_all_takeWhile: "list_all p (takeWhile p s)"
  by (induction s) auto

lemma fields_by_words: "w \<in> set (fields_by p s) \<Longrightarrow> w \<noteq> [] \<and> list_all (\<lambda>c. \<not> p c) w"
proof (induction p s rule: fields_by.induct)
  case (2 p c s)
  show ?case
  proof (cases "p c")
    case True
    then show ?thesis using 2 by simp
  next
    case False
    then show ?thesis using 2 list_all_takeWhile[of "\<lambda>x. \<not> p x" s] by auto
  qed
qed simp

lemma fields_are_words: "w \<in> set (fields_by ascii_space s) \<Longrightarrow> is_word w"
  using fields_by_words by (simp add: is_word_def)

lemma fields_skip_word:
  assumes "is_word w" and "s = [] \<or> ascii_space (hd s)"
  shows "fields_by ascii_space (w @ s) = w # fields_by ascii_space s"
proof -
  obtain c v where w: "w = c # v" using assms(1) by (cases w) (auto simp: is_word_def)
  have v: "\<And>x. x \<in> set v \<Longrightarrow> \<not> ascii_space x" using assms(1) w by (auto simp: is_word_def list_all_iff)
  have t: "takeWhile (\<lambda>x. \<not> ascii_space x) s = []" using assms(2) by (cases s) auto
  have d: "dropWhile (\<lambda>x. \<not> ascii_space x) s = s" using assms(2) by (cases s) auto
  show ?thesis using assms(1) v t d
    by (simp add: w is_word_def takeWhile_append2 dropWhile_append2)
qed

lemma fields_join: "list_all is_word ws \<Longrightarrow> fields_by ascii_space (join_with '' '' ws) = ws"
proof (induction "'' ''" ws rule: join_with.induct)
  case (2 x)
  then show ?case using fields_skip_word[of x "[]"] by simp
next
  case (3 x y xs)
  have "ascii_space CHR '' ''" by (simp add: ascii_space_def)
  then show ?case using 3 fields_skip_word[of x "'' '' @ join_with '' '' (y # xs)"] by simp
qed simp

lemma join_nonempty: "list_all is_word ws \<Longrightarrow> join_with '' '' ws = [] \<longleftrightarrow> ws = []"
  by (induction "'' ''" ws rule: join_with.induct) (auto simp: is_word_def)

lemma join_ends:
  assumes "list_all is_word ws" and "ws \<noteq> []"
  shows "\<not> ascii_space (hd (join_with '' '' ws))" and "\<not> ascii_space (last (join_with '' '' ws))"
  using assms
  by (induction "'' ''" ws rule: join_with.induct)
    (auto simp: is_word_def list_all_iff hd_append join_nonempty[unfolded is_word_def list_all_iff])

lemma normalize_text_eq: "normalize_text s = join_with '' '' (fields_by ascii_space s)"
  by (simp add: normalize_text_def Let_def)

lemma words_of_fields: "list_all is_word (fields_by ascii_space s)"
  by (simp add: list_all_iff fields_are_words)

lemma fields_normalize: "fields_by ascii_space (normalize_text s) = fields_by ascii_space s"
  by (simp add: normalize_text_eq fields_join words_of_fields)

text \<open>A text is clean when it is words separated by single spaces.\<close>

definition clean_text :: "string \<Rightarrow> bool" where
  "clean_text t \<longleftrightarrow> t \<noteq> [] \<and> join_with '' '' (fields_by ascii_space t) = t"

lemma normalize_clean: "normalize_text s \<noteq> [] \<Longrightarrow> clean_text (normalize_text s)"
  by (simp add: clean_text_def fields_normalize flip: normalize_text_eq)

lemma clean_text_trimmed: "clean_text t \<Longrightarrow> trim_space t = t"
  using join_ends[OF words_of_fields, of t] join_nonempty[OF words_of_fields, of t]
  by (auto simp: clean_text_def trim_space_def trim_with_fix)

lemma optional_normal_text_clean: "optional_normal_text s = Some t \<Longrightarrow> clean_text t"
  using normalize_clean by (auto simp: optional_normal_text_def Let_def split: if_splits)

lemma optional_url_web:
  assumes "optional_url lib s (Some b) = Some t"
  shows "t \<noteq> [] \<and> (\<exists>u. t = url_string lib u \<and> to_lower (url_scheme lib u) \<in> {''http'', ''https''})"
  using assms by (auto simp: optional_url_def normalize_url_def Let_def split: if_splits option.splits)

section \<open>What a page declares\<close>

text \<open>
  The reference reading of a page: the list of its declarations in order, and for each key the first
  one that is not blank. The code's updates of the document come to exactly that.
\<close>

definition first_values :: "(string \<times> string) list \<Rightarrow> document" where
  "first_values decls key =
     map_option (\<lambda>d. trim_space (snd d))
       (find (\<lambda>d. fst d = key \<and> key \<noteq> [] \<and> trim_space (snd d) \<noteq> []) decls)"

lemma first_values_Nil: "first_values [] = Map.empty"
  by (rule ext) (simp add: first_values_def)

lemma first_values_append: "first_values (xs @ ys) key =
    (case first_values xs key of None \<Rightarrow> first_values ys key | Some v \<Rightarrow> Some v)"
  by (induction xs) (auto simp: first_values_def)

lemma set_all_Nil: "set_all [] doc = doc"
  by (simp add: set_all_def)

lemma set_all_Cons: "set_all ((k, v) # ds) doc = set_all ds (doc_set k v doc)"
  by (simp add: set_all_def)

lemma set_all_append: "set_all (xs @ ys) doc = set_all ys (set_all xs doc)"
  by (simp add: set_all_def)

lemma first_values_single:
  "first_values [(k, v)] key =
     (if key = k \<and> k \<noteq> [] \<and> trim_space v \<noteq> [] then Some (trim_space v) else None)"
  by (simp add: first_values_def)

lemma doc_set_values: "doc_set k v (first_values xs) = first_values (xs @ [(k, v)])"
  by (rule ext)
    (auto simp: doc_set_def Let_def first_values_append first_values_single split: option.splits)

lemma set_all_values: "set_all ds (first_values xs) = first_values (xs @ ds)"
  by (induction ds arbitrary: xs) (auto simp: set_all_Nil set_all_Cons doc_set_values)

function (sequential) jsonld_declares :: "json \<Rightarrow> bool \<Rightarrow> (string \<times> string) list" and
  object_declares :: "json_object \<Rightarrow> bool \<Rightarrow> (string \<times> string) list" where
  "jsonld_declares (JObject obj) reference = object_declares obj reference"
| "jsonld_declares (JArray items) reference = concat (map (\<lambda>item. jsonld_declares item reference) items)"
| "jsonld_declares _ reference = []"
| "object_declares obj reference =
     (if normalize_jsonld_type obj = ''organization''
      then [(jsonld_organization_name, jsonld_string obj ''name'')]
      else if normalize_jsonld_type obj = ''website''
      then [(jsonld_website_name, jsonld_string obj ''name'')]
      else (if reference then [] else page_fields obj) @
        (case map_of obj ''@graph'' of
           Some graph \<Rightarrow> jsonld_declares graph reference | None \<Rightarrow> []) @
        concat (map (\<lambda>(key, value).
            if key \<notin> set jsonld_reference_keys \<and> key \<noteq> ''@graph'' \<and> is_object value
            then jsonld_declares value True else []) obj))"
  by pat_completeness auto
termination
  apply (relation "measure (\<lambda>x. case x of Inl (n, _) \<Rightarrow> size n
                     | Inr (fs, _) \<Rightarrow> size_list (size_prod (\<lambda>_. 0) size) fs)")
  apply (auto dest!: map_of_SomeD dest: size_field_less size_item_less)
  done

lemma fold_set_all:
  "(\<And>x d. x \<in> set xs \<Longrightarrow> f x d = set_all (g x) d) \<Longrightarrow> fold f xs doc = set_all (concat (map g xs)) doc"
  by (induction xs arbitrary: doc) (auto simp: set_all_Nil set_all_append)

lemma walk_declares:
  "walk_jsonld node reference doc = set_all (jsonld_declares node reference) doc"
  "walk_jsonld_object obj reference doc = set_all (object_declares obj reference) doc"
proof (induction node reference doc and obj reference doc
    rule: walk_jsonld_walk_jsonld_object.induct)
  case (2 items reference doc)
  then show ?case by (simp add: fold_set_all[where g = "\<lambda>item. jsonld_declares item reference"])
next
  case (4 obj reference doc)
  let ?g = "\<lambda>(key, value). if key \<notin> set jsonld_reference_keys \<and> key \<noteq> ''@graph'' \<and> is_object value
            then jsonld_declares value True else []"
  let ?f = "\<lambda>(key, value) d. if key \<in> set jsonld_reference_keys then d
        else if key = ''@graph'' then d else if is_object value then walk_jsonld value True d else d"
  show ?case
  proof (cases "normalize_jsonld_type obj \<in> {''organization'', ''website''}")
    case True
    then show ?thesis by (auto simp: set_all_Cons set_all_Nil)
  next
    case False
    then have n: "normalize_jsonld_type obj \<noteq> ''organization''" "normalize_jsonld_type obj \<noteq> ''website''"
      by auto
    have f: "fold ?f obj d = set_all (concat (map ?g obj)) d" for d
      by (rule fold_set_all) (auto simp: set_all_Nil intro: 4(2)[OF refl n refl refl _ refl])
    show ?thesis using n 4(1)[OF refl n refl]
      by (cases reference) (simp_all add: f set_all_append set_all_Nil split: option.split)
  qed
qed (simp_all add: set_all_Nil)

text \<open>What one token declares, given the state of the loop before it.\<close>

definition tag_declares :: "string \<Rightarrow> attributes \<Rightarrow> (string \<times> string) list" where
  "tag_declares name attrs =
     (if name = ''meta'' then
        (case map_of attrs ''content'' of None \<Rightarrow> [] | Some val \<Rightarrow> [(meta_key [] attrs, val)])
      else if name = ''link'' \<and> link_is_canonical attrs then
        (case map_of attrs ''href'' of None \<Rightarrow> [] | Some val \<Rightarrow> [(meta_link_canonical, val)])
      else [])"

fun token_declares ::
  "(string \<Rightarrow> json option) \<Rightarrow> html_token \<Rightarrow> extraction \<Rightarrow> (string \<times> string) list" where
  "token_declares unmarshal (StartTag name attrs) st = tag_declares name attrs"
| "token_declares unmarshal (SelfClosingTag name attrs) st = tag_declares name attrs"
| "token_declares unmarshal (EndTag name) st =
     (if name = ''title'' \<and> x_in_title st then [(title_element, x_title st)]
      else if name = ''script'' \<and> x_in_jsonld st \<and> trim_space (x_json st) \<noteq> [] then
        (case unmarshal (x_json st) of None \<Rightarrow> [] | Some node \<Rightarrow> jsonld_declares node False)
      else [])"
| "token_declares unmarshal _ st = []"

fun page_declares ::
  "(string \<Rightarrow> json option) \<Rightarrow> html_token list \<Rightarrow> extraction \<Rightarrow> (string \<times> string) list" where
  "page_declares unmarshal [] st = []"
| "page_declares unmarshal (token # tokens) st =
     token_declares unmarshal token st @ page_declares unmarshal tokens (on_token unmarshal token st)"

lemma on_start_tag_declares:
  "x_doc (on_start_tag name attrs st) = set_all (tag_declares name attrs) (x_doc st)"
  by (simp add: on_start_tag_def tag_declares_def collect_meta_def collect_link_def Let_def set_all_Nil
      set_all_Cons doc_set_def split: option.split)

lemma on_token_declares:
  "x_doc (on_token unmarshal token st) = set_all (token_declares unmarshal token st) (x_doc st)"
proof (cases token)
  case (EndTag name)
  then show ?thesis
    by (simp add: on_end_tag_def collect_jsonld_def set_all_Nil set_all_Cons walk_declares
        split: option.split)
qed (simp_all add: on_start_tag_declares on_text_def set_all_Nil)

lemma extract_loop_values:
  "x_doc st = first_values ds \<Longrightarrow>
     extract_loop unmarshal tokens AtEOF st = Some (first_values (ds @ page_declares unmarshal tokens st))"
proof (induction tokens arbitrary: st ds)
  case (Cons token tokens)
  have "x_doc (on_token unmarshal token st) = first_values (ds @ token_declares unmarshal token st)"
    using Cons.prems by (simp add: on_token_declares set_all_values)
  from Cons.IH[OF this] show ?case by simp
qed simp

lemma extract_loop_error: "extract_loop unmarshal tokens ReadError st = None"
  by (induction tokens arbitrary: st) simp_all

section \<open>Properties\<close>

text \<open>
  A page whose token stream ends well is read as the list of what it declares, in document
  order: for every key the document holds the first declaration that is not blank, trimmed. The
  flags, builders and early returns of the loop, and the recursive walk over JSON-LD, come to
  exactly that.
\<close>

theorem page_is_read_as_its_first_declarations:
  "extract_page unmarshal (tokens, AtEOF)
     = Some (first_values (page_declares unmarshal tokens start_extraction))"
  unfolding extract_page_def fst_conv snd_conv
  using extract_loop_values[of start_extraction "[]" unmarshal tokens]
  by (simp add: start_extraction_def first_values_Nil)

text \<open>A web URL in the sense of \<open>normalizeURL\<close>.\<close>

definition web_url :: "'u url_lib \<Rightarrow> string \<Rightarrow> bool" where
  "web_url lib t \<longleftrightarrow>
     t \<noteq> [] \<and> (\<exists>u. t = url_string lib u \<and> to_lower (url_scheme lib u) \<in> {''http'', ''https''})"

definition metadata_ok :: "'u url_lib \<Rightarrow> metadata \<Rightarrow> bool" where
  "metadata_ok lib m \<longleftrightarrow>
     pred_option clean_text (m_title m) \<and> pred_option clean_text (m_platform m) \<and>
     pred_option clean_text (m_description m) \<and> pred_option clean_text (m_site_name m) \<and>
     pred_option clean_text (m_author m) \<and>
     pred_option (web_url lib) (m_image_url m) \<and> pred_option (web_url lib) (m_canonical_url m)"

lemma optional_text_ok: "pred_option clean_text (optional_normal_text s)"
  using optional_normal_text_clean[of s] by (cases "optional_normal_text s") simp_all

lemma optional_url_ok: "pred_option (web_url lib) (optional_url lib s (Some base))"
  using optional_url_web[of lib s base]
  by (cases "optional_url lib s (Some base)") (simp_all add: web_url_def)

lemma select_metadata_ok: "metadata_ok lib (select_metadata lib doc (Some base))"
  by (simp add: metadata_ok_def select_metadata_def optional_text_ok optional_url_ok)


text \<open>A page to try the model on; its environment parses every URL as itself.\<close>

definition demo_url_lib :: "string url_lib" where
  "demo_url_lib = \<lparr>url_parse = Some, url_is_abs = (\<lambda>_. True), url_scheme = (\<lambda>_. ''https''),
                   url_string = id, url_resolve = (\<lambda>b r. r)\<rparr>"

definition demo_json :: json where
  "demo_json = JObject [(''@type'', JString ''Article''),
     (''headline'', JString ''Wheels''),
     (''publisher'', JObject [(''name'', JString ''  The   Daily '')])]"

definition demo_page :: "html_token list" where
  "demo_page =
     [StartTag ''title'' [], TextToken '' A  page '', EndTag ''title'',
      StartTag ''script'' [(''type'', ''application/ld+json'')], TextToken ''x'', EndTag ''script'',
      SelfClosingTag ''meta'' [(''property'', ''OG:Image''), (''content'', '' https://i '')]]"

definition demo_enrich_env :: "string enrich_env" where
  "demo_enrich_env = \<lparr>e_url = demo_url_lib, e_unmarshal = (\<lambda>_. Some demo_json), e_mime = Some,
     e_charset = (\<lambda>body _. Decoded body), e_tokenize = (\<lambda>_. (demo_page, AtEOF)), e_max_bytes = 100\<rparr>"

definition demo_response :: "string http_response" where
  "demo_response = \<lparr>r_status = 200, r_content_type = ''text/html'',
     r_body = \<lparr>b_bytes = ''p'', b_end = AtEOF\<rparr>, r_url = Some ''https://p''\<rparr>"

definition demo_metadata :: metadata where
  "demo_metadata = \<lparr>m_title = Some ''A page'', m_platform = Some ''The Daily'', m_description = None,
     m_image_url = Some ''https://i'', m_canonical_url = None, m_site_name = Some ''The Daily'',
     m_author = None\<rparr>"

lemma demo_enriched:
  "enrich demo_enrich_env (\<lambda>_. True) (\<lambda>_. Inr demo_response) ''https://p'' = Inr demo_metadata"
  by code_simp


lemma referenced_keys:
  "reference \<Longrightarrow> fst ` set (jsonld_declares node reference)
     \<subseteq> {jsonld_organization_name, jsonld_website_name}"
  "reference \<Longrightarrow> fst ` set (object_declares obj reference)
     \<subseteq> {jsonld_organization_name, jsonld_website_name}"
proof (induction node reference and obj reference rule: jsonld_declares_object_declares.induct)
  case (4 obj reference)
  then show ?case by (fastforce split: option.splits if_splits simp del: jsonld_declares.simps)
qed auto

lemma set_all_other: "key \<notin> fst ` set ds \<Longrightarrow> set_all ds doc key = doc key"
  by (induction ds arbitrary: doc) (auto simp: set_all_Nil set_all_Cons doc_set_def Let_def)

text \<open>
  An entity that a page only refers to never describes the page: the walk below a property that
  names another entity leaves the title, description, URL, image, publisher and author candidates
  alone, whatever the entity holds and however deep; it can add only the name of an organisation or
  of a web site.
\<close>

theorem referenced_entities_never_describe_the_page:
  "walk_jsonld node True doc |` (- {jsonld_organization_name, jsonld_website_name})
     = doc |` (- {jsonld_organization_name, jsonld_website_name})"
proof (rule ext)
  fix key
  show "(walk_jsonld node True doc |` (- {jsonld_organization_name, jsonld_website_name})) key
     = (doc |` (- {jsonld_organization_name, jsonld_website_name})) key"
  proof (cases "key \<in> {jsonld_organization_name, jsonld_website_name}")
    case True
    then show ?thesis by (auto simp: restrict_map_def)
  next
    case False
    then have "key \<notin> fst ` set (jsonld_declares node True)" using referenced_keys(1)[of True node] by blast
    from set_all_other[OF this, of doc] show ?thesis by (simp only: restrict_map_def walk_declares)
  qed
qed

text \<open>
  Which organisation becomes the platform depends on the order in which the Go map is ranged
  over: two enumerations of the fields of one object yield different platforms.
\<close>

definition two_organizations :: "json_object" where
  "two_organizations =
     [(''about'', JObject [(''@type'', JString ''Organization''), (''name'', JString ''A'')]),
      (''sponsor'', JObject [(''@type'', JString ''Organization''), (''name'', JString ''B'')])]"

theorem platform_depends_on_map_order:
  "map_of (rev two_organizations) = map_of two_organizations \<and>
   m_platform (select_metadata demo_url_lib
       (walk_jsonld (JObject two_organizations) False Map.empty) None) = Some ''A'' \<and>
   m_platform (select_metadata demo_url_lib
       (walk_jsonld (JObject (rev two_organizations)) False Map.empty) None) = Some ''B''"
proof (intro conjI)
  show "map_of (rev two_organizations) = map_of two_organizations"
    by (rule ext) (simp add: two_organizations_def)
qed code_simp+

text \<open>
  Two promises of the comments the code does not keep. A meta tag can write the key of the title
  element: with the name \<open><title>\<close> it displaces the title the page shows. And a read error anywhere
  discards everything the page declared before it.
\<close>

theorem markup_keys_are_reachable_and_errors_discard:
  "map_option (\<lambda>doc. m_title (select_metadata demo_url_lib doc None))
     (extract_page unmarshal
        (StartTag ''meta'' [(''name'', ''<title>''), (''content'', ''Forged'')] #
           [StartTag ''title'' [], TextToken ''Shown'', EndTag ''title''], AtEOF))
     = Some (Some ''Forged'') \<and>
   extract_page unmarshal (tokens, ReadError) = None"
  unfolding extract_page_def fst_conv snd_conv extract_loop_error
  by (intro conjI refl) code_simp

end
