(* ===== verification/LibraryJobs.thy ===== *)
theory LibraryJobs
  imports Complex_Main Collections Enrichment
begin

text \<open>
  Enriching and organising saved items: \<open>internal/api/enrichment\<close>, \<open>internal/worker/enrichment\<close>,
  \<open>internal/worker/organization\<close> and \<open>internal/worker/queue\<close>, on the tables of the library. The queue
  itself (asynq) is third-party: a task arrives as a payload, and a handler answers whether it is
  done, to be retried, or to be given up.
\<close>

section \<open>Statements\<close>

record enrichment_params =
  ep_title :: "string option"
  ep_platform :: "string option"
  ep_description :: "string option"
  ep_image_url :: "string option"

definition params_of :: "metadata \<Rightarrow> enrichment_params" where
  "params_of m = \<lparr>ep_title = m_title m, ep_platform = m_platform m, ep_description = m_description m,
                  ep_image_url = m_image_url m\<rparr>"

definition enriched :: "time \<Rightarrow> enrichment_params \<Rightarrow> saved_item \<Rightarrow> saved_item" where
  "enriched now p i = i\<lparr>si_title := ep_title p, si_platform := ep_platform p,
     si_description := ep_description p, si_image_url := ep_image_url p, si_status := ''completed'',
     si_last_enriched_at := Some now, si_updated_at := now\<rparr>"

definition enrich_failed :: "time \<Rightarrow> saved_item \<Rightarrow> saved_item" where
  "enrich_failed now i = i\<lparr>si_status := ''failed'', si_updated_at := now\<rparr>"

definition item_by_id :: "uuid \<Rightarrow> library_db \<Rightarrow> go_error + saved_item" where
  "item_by_id iid db = first_row (filter (\<lambda>i. si_id i = iid) (lib_items db))"

definition update_item ::
  "(saved_item \<Rightarrow> bool) \<Rightarrow> (saved_item \<Rightarrow> saved_item) \<Rightarrow> (library_db, saved_item) query" where
  "update_item p f db =
     (case first_row (filter p (lib_items db)) of
        Inl e \<Rightarrow> Inl e
      | Inr i \<Rightarrow> Inr (f i, db\<lparr>lib_items := update_where p f (lib_items db)\<rparr>))"

text \<open>The statements of the endpoint name the owner, those of the worker do not.\<close>

definition q_get_url_for_enrichment :: "uuid \<Rightarrow> uuid \<Rightarrow> (library_db, string) query" where
  "q_get_url_for_enrichment iid uid = reading (\<lambda>db. map_sum id si_url (owned_item iid uid db))"

definition q_complete_enrichment ::
  "time \<Rightarrow> enrichment_params \<Rightarrow> uuid \<Rightarrow> uuid \<Rightarrow> (library_db, saved_item) query" where
  "q_complete_enrichment now p iid uid =
     update_item (\<lambda>i. si_id i = iid \<and> si_user i = uid) (enriched now p)"

definition q_fail_enrichment :: "time \<Rightarrow> uuid \<Rightarrow> uuid \<Rightarrow> (library_db, saved_item) query" where
  "q_fail_enrichment now iid uid =
     update_item (\<lambda>i. si_id i = iid \<and> si_user i = uid) (enrich_failed now)"

record background_item =
  bi_id :: uuid
  bi_user :: uuid
  bi_url :: string

definition q_get_for_background_enrichment :: "uuid \<Rightarrow> (library_db, background_item) query" where
  "q_get_for_background_enrichment iid =
     reading (\<lambda>db. map_sum id (\<lambda>i. \<lparr>bi_id = si_id i, bi_user = si_user i, bi_url = si_url i\<rparr>)
       (item_by_id iid db))"

definition q_complete_background_enrichment ::
  "time \<Rightarrow> enrichment_params \<Rightarrow> uuid \<Rightarrow> (library_db, uuid \<times> uuid) query" where
  "q_complete_background_enrichment now p iid db =
     map_sum id (map_prod (\<lambda>i. (si_id i, si_user i)) id)
       (update_item (\<lambda>i. si_id i = iid) (enriched now p) db)"

definition q_fail_background_enrichment :: "time \<Rightarrow> uuid \<Rightarrow> (library_db, uuid) query" where
  "q_fail_background_enrichment now iid db =
     map_sum id (map_prod si_id id) (update_item (\<lambda>i. si_id i = iid) (enrich_failed now) db)"

text \<open>The locked row of an organisation task: the item joined with its collection.\<close>

record organizing_item =
  oi_id :: uuid
  oi_user :: uuid
  oi_status :: string
  oi_platform :: "string option"
  oi_collection :: uuid
  oi_system_key :: "string option"

definition organizing_row :: "saved_item \<Rightarrow> collection \<Rightarrow> organizing_item" where
  "organizing_row i c = \<lparr>oi_id = si_id i, oi_user = si_user i, oi_status = si_status i,
     oi_platform = si_platform i, oi_collection = si_collection i, oi_system_key = c_system_key c\<rparr>"

definition q_lock_for_organization :: "uuid \<Rightarrow> (library_db, organizing_item) query" where
  "q_lock_for_organization iid =
     reading (\<lambda>db. first_row (List.map_filter
       (\<lambda>i. map_option (organizing_row i) (item_collection db i))
       (filter (\<lambda>i. si_id i = iid) (lib_items db))))"

definition q_get_collection_for_organization :: "uuid \<Rightarrow> string \<Rightarrow> (library_db, collection) query" where
  "q_get_collection_for_organization uid name =
     reading (\<lambda>db. first_row
       (filter (\<lambda>c. c_user c = uid \<and> pg_name_key (c_name c) = pg_name_key name) (lib_collections db)))"

definition q_create_system_collection ::
  "time \<Rightarrow> uuid \<Rightarrow> uuid \<Rightarrow> string \<Rightarrow> string \<Rightarrow> (library_db, collection) query" where
  "q_create_system_collection now cid uid name system_key db =
     (if name_taken uid name db then Inl err_no_rows
      else if has_key c_id cid (lib_collections db) then Inl (PgError ''collections_pkey'')
      else if list_ex (\<lambda>c. c_user c = uid \<and> c_system_key c = Some system_key) (lib_collections db)
      then Inl (PgError ''collections_system_key_unique'')
      else if uid \<notin> set (lib_users db) then Inl (PgError ''collections_user_id_fkey'')
      else
        (let c = \<lparr>c_id = cid, c_user = uid, c_name = name, c_type = ''system'',
                  c_system_key = Some system_key, c_created_at = now, c_updated_at = now\<rparr>
         in Inr (c, db\<lparr>lib_collections := lib_collections db @ [c]\<rparr>)))"

definition q_move_for_organization ::
  "time \<Rightarrow> uuid \<Rightarrow> uuid \<Rightarrow> uuid \<Rightarrow> (library_db, uuid) query" where
  "q_move_for_organization now cid iid uid db =
     (case owned_item iid uid db of
        Inl e \<Rightarrow> Inl e
      | Inr i \<Rightarrow>
          if \<not> owns_collection uid cid db then Inl (PgError saved_items_collection_fk_constraint)
          else Inr (si_id i, db\<lparr>lib_items :=
            update_where (\<lambda>i. si_id i = iid \<and> si_user i = uid) (filed now cid) (lib_items db)\<rparr>))"

section \<open>The endpoint\<close>

definition repo_get_url_for_enrichment :: "uuid \<Rightarrow> uuid \<Rightarrow> (library_db, string) prog" where
  "repo_get_url_for_enrichment uid iid =
     pool (q_get_url_for_enrichment iid uid) (on_no_rows (\<lambda>e. saved_item_not_found (Some e))) ret"

definition repo_complete_enrichment ::
  "time \<Rightarrow> uuid \<Rightarrow> enrichment_params \<Rightarrow> uuid \<Rightarrow> (library_db, saved_item) prog" where
  "repo_complete_enrichment now uid p iid =
     pool (q_complete_enrichment now p iid uid) (on_no_rows (\<lambda>e. saved_item_not_found (Some e))) ret"

definition repo_fail_enrichment :: "time \<Rightarrow> uuid \<Rightarrow> uuid \<Rightarrow> (library_db, saved_item) prog" where
  "repo_fail_enrichment now uid iid =
     pool (q_fail_enrichment now iid uid) (on_no_rows (\<lambda>e. saved_item_not_found (Some e))) ret"

text \<open>
  \<open>enricher\<close> is \<open>MetadataEnricher.Enrich\<close>. A page that could not be read is not an error of the
  endpoint: the item is marked failed and returned.
\<close>

definition enrich_item_now ::
  "(string \<Rightarrow> failure + metadata) \<Rightarrow> time \<Rightarrow> uuid \<Rightarrow> uuid \<Rightarrow> (library_db, saved_item) prog" where
  "enrich_item_now enricher now uid iid =
     call (repo_get_url_for_enrichment uid iid) fail (\<lambda>raw_url.
     case enricher raw_url of
       Inl failure \<Rightarrow> call (repo_fail_enrichment now uid iid) fail ret
     | Inr m \<Rightarrow> call (repo_complete_enrichment now uid (params_of m) iid) fail ret)"

section \<open>The enrichment worker\<close>

definition err_saved_item_gone :: go_error where
  "err_saved_item_gone = Sentinel ''saved item no longer exists''"

definition worker_item_not_found :: go_error where
  "worker_item_not_found = saved_item_not_found (Some err_saved_item_gone)"

definition repo_get_for_background ::
  "uuid \<Rightarrow> (library_db, background_item) prog" where
  "repo_get_for_background iid =
     pool (q_get_for_background_enrichment iid) (on_no_rows (\<lambda>_. worker_item_not_found)) ret"

record completed_item =
  ci_item :: uuid
  ci_user :: uuid
  ci_platform :: "string option"

definition completed_has_platform :: "completed_item \<Rightarrow> bool" where
  "completed_has_platform c \<longleftrightarrow> ci_platform c \<noteq> None \<and> ci_platform c \<noteq> Some ''''"

definition repo_complete_background ::
  "time \<Rightarrow> uuid \<Rightarrow> enrichment_params \<Rightarrow> (library_db, completed_item) prog" where
  "repo_complete_background now iid p =
     pool (q_complete_background_enrichment now p iid) (on_no_rows (\<lambda>_. worker_item_not_found))
       (\<lambda>(item, user). ret \<lparr>ci_item = item, ci_user = user, ci_platform = ep_platform p\<rparr>)"

definition repo_fail_background :: "time \<Rightarrow> uuid \<Rightarrow> (library_db, unit) prog" where
  "repo_fail_background now iid =
     pool (q_fail_background_enrichment now iid) (on_no_rows (\<lambda>_. worker_item_not_found)) (\<lambda>_. ret ())"

text \<open>
  \<open>scheduleOrganization\<close>: the task it asks for, and what the log gets when the queue refuses it.
\<close>

type_synonym organizer = "(uuid \<Rightarrow> uuid \<Rightarrow> go_error option) option"

definition schedule_organization ::
  "organizer \<Rightarrow> completed_item \<Rightarrow> (uuid \<times> uuid) option \<times> (uuid \<times> uuid \<times> go_error) list" where
  "schedule_organization organizer completed =
     (case organizer of
        None \<Rightarrow> (None, [])
      | Some enqueue \<Rightarrow>
          if \<not> completed_has_platform completed then (None, [])
          else (Some (ci_item completed, ci_user completed),
                case enqueue (ci_item completed) (ci_user completed) of
                  None \<Rightarrow> [] | Some e \<Rightarrow> [(ci_item completed, ci_user completed, e)]))"

text \<open>
  The result is the enrichment's own failure, returned after it was recorded, or what was scheduled;
  errors of the repository are errors of the program.
\<close>

definition enrich_saved_item ::
  "(string \<Rightarrow> failure + metadata) \<Rightarrow> organizer \<Rightarrow> time \<Rightarrow> uuid
     \<Rightarrow> (library_db, failure + (uuid \<times> uuid) option \<times> (uuid \<times> uuid \<times> go_error) list) prog" where
  "enrich_saved_item enricher organizer now iid =
     call (repo_get_for_background iid) fail (\<lambda>item.
     case enricher (bi_url item) of
       Inl failure \<Rightarrow> call (repo_fail_background now iid) fail (\<lambda>_. ret (Inl failure))
     | Inr m \<Rightarrow>
         call (repo_complete_background now iid (params_of m)) fail (\<lambda>completed.
         ret (Inr (schedule_organization organizer completed))))"

text \<open>What a handler tells the queue: done, an error that is retried, or one with \<open>asynq.SkipRetry\<close>.\<close>

datatype task_result = TaskDone | TaskRetry | TaskGivenUp

definition is_permanent :: "failure_kind \<Rightarrow> bool" where
  "is_permanent kind \<longleftrightarrow> kind = FailureContent"

definition settle_failure :: "go_error any_error \<Rightarrow> task_result" where
  "settle_failure err = (if is_permanent (error_kind err) then TaskGivenUp else TaskRetry)"

definition handle_enrich_task ::
  "(string \<Rightarrow> failure + metadata) \<Rightarrow> organizer \<Rightarrow> time \<Rightarrow> go_error + uuid
     \<Rightarrow> (library_db, task_result) prog" where
  "handle_enrich_task enricher organizer now payload =
     (case payload of
        Inl e \<Rightarrow> ret TaskGivenUp
      | Inr iid \<Rightarrow>
          if iid = uuid_nil then ret TaskGivenUp
          else call (enrich_saved_item enricher organizer now iid)
            (\<lambda>e. ret (if errors_is e err_saved_item_gone then TaskDone
                      else settle_failure (PlainError e)))
            (\<lambda>r. ret (case r of Inl failure \<Rightarrow> settle_failure (IsFailure failure) | Inr _ \<Rightarrow> TaskDone)))"

section \<open>The organisation worker\<close>

definition organize_key :: "string \<Rightarrow> string" where
  "organize_key name = to_lower (trim_space name)"

definition system_key_for_platform :: "string \<Rightarrow> string" where
  "system_key_for_platform platform = organize_key platform"

definition in_unsorted :: "organizing_item \<Rightarrow> bool" where
  "in_unsorted i \<longleftrightarrow> oi_system_key i = Some unsorted_system_key"

definition item_has_platform :: "organizing_item \<Rightarrow> bool" where
  "item_has_platform i \<longleftrightarrow> oi_platform i \<noteq> None \<and> oi_platform i \<noteq> Some ''''"

definition enrichment_completed :: "organizing_item \<Rightarrow> bool" where
  "enrichment_completed i \<longleftrightarrow> oi_status i = ''completed''"

datatype outcome =
    OutcomeUnknown
  | OutcomeMoved
  | OutcomeCollectionCreated
  | OutcomeAlreadyOrganized
  | OutcomeNotInUnsorted
  | OutcomeNoPlatform
  | OutcomeEnrichmentNotCompleted

definition did_move :: "outcome \<Rightarrow> bool" where
  "did_move o' \<longleftrightarrow> o' = OutcomeMoved \<or> o' = OutcomeCollectionCreated"

definition err_ownership_mismatch :: go_error where
  "err_ownership_mismatch = Sentinel ''saved item does not belong to the task's user''"

definition err_name_reserved :: go_error where
  "err_name_reserved = Sentinel ''platform collection name is reserved by the unsorted collection''"

definition ownership_mismatch_error :: "uuid \<Rightarrow> uuid \<Rightarrow> go_error" where
  "ownership_mismatch_error iid uid =
     conflict_with ''SAVED_ITEM_OWNERSHIP_MISMATCH'' ''saved item does not belong to the task's user''
       (Some (Joined [err_ownership_mismatch, Sentinel ''saved item is not owned by user'']))"

definition reserved_name_error :: go_error where
  "reserved_name_error =
     conflict_with ''COLLECTION_NAME_RESERVED'' ''collection name is reserved'' (Some err_name_reserved)"

text \<open>\<open>createOrGetCollection\<close> looks first, inserts, and looks again when another task was faster.\<close>

definition create_or_get_collection ::
  "time \<Rightarrow> uuid \<Rightarrow> uuid \<Rightarrow> string \<Rightarrow> (library_db, collection \<times> bool) prog" where
  "create_or_get_collection now cid uid platform =
     (let name = trim_space platform in
      if organize_key name = organize_key unsorted_system_key then fail reserved_name_error
      else
        exec (q_get_collection_for_organization uid name)
          (\<lambda>e. if \<not> errors_is e err_no_rows then fail_internal e
               else
                 exec (q_create_system_collection now cid uid name (system_key_for_platform name))
                   (\<lambda>e. if \<not> errors_is e err_no_rows then fail_internal e
                        else
                          exec (q_get_collection_for_organization uid name)
                            (on_no_rows (\<lambda>_. reserved_name_error))
                            (\<lambda>raced. ret (raced, False)))
                   (\<lambda>created. ret (created, True)))
          (\<lambda>existing. ret (existing, False)))"

definition repo_organize_saved_item ::
  "time \<Rightarrow> uuid \<Rightarrow> uuid \<Rightarrow> uuid \<Rightarrow> (library_db, outcome) prog" where
  "repo_organize_saved_item now cid iid uid =
     begin_tx fail_internal
      (exec (q_lock_for_organization iid) (on_no_rows (\<lambda>_. worker_item_not_found)) (\<lambda>locked.
       if oi_user locked \<noteq> uid then fail (ownership_mismatch_error iid uid)
       else if \<not> enrichment_completed locked then
         commit fail_internal (ret OutcomeEnrichmentNotCompleted)
       else if \<not> item_has_platform locked then commit fail_internal (ret OutcomeNoPlatform)
       else if \<not> in_unsorted locked then commit fail_internal (ret OutcomeNotInUnsorted)
       else
         call (create_or_get_collection now cid uid (the (oi_platform locked))) fail (\<lambda>(c, created).
         if oi_collection locked = c_id c then
           commit fail_internal (ret OutcomeAlreadyOrganized)
         else
           exec (q_move_for_organization now (c_id c) iid uid)
             (\<lambda>e. if errors_is e err_no_rows
                  then fail_internal (Sentinel ''locked saved item disappeared before it could be filed'')
                  else fail_internal e) (\<lambda>_.
           commit fail_internal
             (ret (if created then OutcomeCollectionCreated else OutcomeMoved))))))"

text \<open>The service returns no value; the outcome is what it logs.\<close>

definition organize_saved_item ::
  "time \<Rightarrow> uuid \<Rightarrow> uuid \<Rightarrow> uuid \<Rightarrow> (library_db, outcome) prog" where
  "organize_saved_item now cid iid uid = call (repo_organize_saved_item now cid iid uid) fail ret"

definition is_integrity_failure :: "go_error \<Rightarrow> bool" where
  "is_integrity_failure e \<longleftrightarrow>
     errors_is e err_ownership_mismatch \<or> errors_is e err_name_reserved"

definition handle_organize_task ::
  "time \<Rightarrow> uuid \<Rightarrow> go_error + uuid \<times> uuid \<Rightarrow> (library_db, task_result) prog" where
  "handle_organize_task now cid payload =
     (case payload of
        Inl e \<Rightarrow> ret TaskGivenUp
      | Inr (iid, uid) \<Rightarrow>
          if iid = uuid_nil \<or> uid = uuid_nil then ret TaskGivenUp
          else call (organize_saved_item now cid iid uid)
            (\<lambda>e. ret (if errors_is e err_saved_item_gone then TaskDone
                      else if is_integrity_failure e then TaskGivenUp else TaskRetry))
            (\<lambda>_. ret TaskDone))"

section \<open>Retries\<close>

definition enrichment_retry_base_delay :: duration where "enrichment_retry_base_delay = 30 * second"
definition enrichment_retry_max_delay :: duration where "enrichment_retry_max_delay = 30 * minute"
definition enrichment_max_retry :: nat where "enrichment_max_retry = 2"
definition enrichment_retry_jitter :: rat where "enrichment_retry_jitter = 1 / 5"
definition organization_retry_base_delay :: duration where "organization_retry_base_delay = 5 * second"
definition organization_retry_max_delay :: duration where "organization_retry_max_delay = minute"
definition organization_max_retry :: nat where "organization_max_retry = 3"
definition organization_retry_jitter :: rat where "organization_retry_jitter = 1 / 5"

text \<open>
  \<open>roll\<close> is what \<open>rand.Float64\<close> yields, at least 0 and below 1. Arithmetic is exact where the code
  rounds to a float64.
\<close>

definition jittered_retry_delay :: "rat \<Rightarrow> duration \<Rightarrow> duration" where
  "jittered_retry_delay roll delay =
     (let spread = of_int delay * enrichment_retry_jitter; offset = (roll * 2 - 1) * spread
      in \<lfloor>of_int delay + offset\<rfloor>)"

fun retry_doubling :: "nat \<Rightarrow> duration \<Rightarrow> duration" where
  "retry_doubling 0 delay =
     (if enrichment_retry_max_delay < delay then enrichment_retry_max_delay else delay)"
| "retry_doubling (Suc n) delay =
     (if enrichment_retry_max_delay \<le> delay then enrichment_retry_max_delay
      else retry_doubling n (delay * 2))"

definition enrichment_retry_delay :: "rat \<Rightarrow> int \<Rightarrow> duration" where
  "enrichment_retry_delay roll n =
     jittered_retry_delay roll (retry_doubling (nat n) enrichment_retry_base_delay)"

text \<open>The worker process installs that one function for every task type of its server.\<close>

datatype task_type = EnrichSavedItemTask | OrganizeSavedItemTask

definition worker_retry_delay :: "task_type \<Rightarrow> rat \<Rightarrow> int \<Rightarrow> duration" where
  "worker_retry_delay task roll n = enrichment_retry_delay roll n"

end
