(* ===== verification/LibraryInv.thy ===== *)
theory LibraryInv
  imports LibraryJobs
begin

text \<open>
  The invariant of the library tables and that every call of the two services keeps it, whatever round
  trips to the database fail.
\<close>

section \<open>The invariant\<close>

definition is_unsorted :: "'a collection_scheme \<Rightarrow> bool" where
  "is_unsorted c \<longleftrightarrow> c_system_key c = Some ''unsorted''"

text \<open>
  A system collection is identified by its key, which is its own name as the unique index reads it:
  \<open>unsorted\<close> for the one every library has, the platform's name for the others.
\<close>

definition collection_kind_ok :: "collection \<Rightarrow> bool" where
  "collection_kind_ok c \<longleftrightarrow>
     c_type c = ''user'' \<and> c_system_key c = None \<and> rune_count (c_name c) \<le> collection_name_max_length \<or>
     c_type c = ''system'' \<and> c_system_key c = Some (pg_name_key (c_name c))"

definition collection_ok :: "collection \<Rightarrow> bool" where
  "collection_ok c \<longleftrightarrow>
     collection_kind_ok c \<and> trim_space (c_name c) = c_name c \<and> c_name c \<noteq> '''' \<and>
     c_id c \<noteq> uuid_nil \<and> rfc3339_time (c_created_at c)"

definition collections_ok :: "collection list \<Rightarrow> bool" where
  "collections_ok cs \<longleftrightarrow>
     distinct (map c_id cs) \<and> distinct (map (\<lambda>c. (c_user c, pg_name_key (c_name c))) cs) \<and>
     (\<forall>c\<in>set cs. collection_ok c)"

definition unsorted_ok :: "uuid list \<Rightarrow> collection list \<Rightarrow> bool" where
  "unsorted_ok us cs \<longleftrightarrow>
     (\<forall>c\<in>set cs. c_user c \<in> set us) \<and> (\<forall>u\<in>set us. rows_where (\<lambda>c. c_user c = u \<and> is_unsorted c) cs = 1)"

definition platform_ok :: "string \<Rightarrow> bool" where
  "platform_ok p \<longleftrightarrow> p \<noteq> '''' \<and> trim_space p = p"

definition item_ok :: "saved_item \<Rightarrow> bool" where
  "item_ok i \<longleftrightarrow> si_id i \<noteq> uuid_nil \<and> rfc3339_time (si_created_at i) \<and> pred_option platform_ok (si_platform i)"

definition items_filed :: "saved_item list \<Rightarrow> collection list \<Rightarrow> bool" where
  "items_filed is cs \<longleftrightarrow> (\<forall>i\<in>set is. \<exists>c\<in>set cs. c_id c = si_collection i \<and> c_user c = si_user i)"

definition library_ok :: "library_db \<Rightarrow> bool" where
  "library_ok db \<longleftrightarrow>
     collections_ok (lib_collections db) \<and> unsorted_ok (lib_users db) (lib_collections db) \<and>
     distinct (map si_id (lib_items db)) \<and> (\<forall>i\<in>set (lib_items db). item_ok i) \<and>
     items_filed (lib_items db) (lib_collections db)"

lemma library_okD:
  assumes "library_ok db"
  shows "collections_ok (lib_collections db)" "unsorted_ok (lib_users db) (lib_collections db)"
    "distinct (map si_id (lib_items db))" "\<And>i. i \<in> set (lib_items db) \<Longrightarrow> item_ok i"
    "items_filed (lib_items db) (lib_collections db)"
  using assms by (auto simp: library_ok_def)

lemma owns_collection_iff:
  "owns_collection uid cid db \<longleftrightarrow> (\<exists>c\<in>set (lib_collections db). c_id c = cid \<and> c_user c = uid)"
  by (auto simp: owns_collection_def list_ex_iff)

lemma name_taken_iff:
  "name_taken uid name db \<longleftrightarrow> (uid, pg_name_key name) \<in> (\<lambda>c. (c_user c, pg_name_key (c_name c))) ` set (lib_collections db)"
  by (auto simp: name_taken_def list_ex_iff image_iff)

lemma owned_item_Inr:
  assumes "owned_item iid uid db = Inr i"
  shows "i \<in> set (lib_items db)" "si_id i = iid" "si_user i = uid"
  using assms by (auto simp: owned_item_def dest!: first_row_Inr)

section \<open>What each change does to it\<close>

lemma collections_ok_add:
  assumes "collections_ok cs" and "collection_ok c" and "\<not> has_key c_id (c_id c) cs"
    and "(c_user c, pg_name_key (c_name c)) \<notin> (\<lambda>c. (c_user c, pg_name_key (c_name c))) ` set cs"
  shows "collections_ok (cs @ [c])"
  using assms by (auto simp: collections_ok_def has_key_iff)

lemma rows_where_add: "rows_where p (xs @ [x]) = rows_where p xs + (if p x then 1 else 0)"
  by (simp add: rows_where_def)

lemma unsorted_ok_add: "unsorted_ok us cs \<Longrightarrow> c_user c \<in> set us \<Longrightarrow> \<not> is_unsorted c \<Longrightarrow> unsorted_ok us (cs @ [c])"
  by (simp add: unsorted_ok_def rows_where_add)

lemma unsorted_ok_open:
  assumes "unsorted_ok us cs" and "uid \<notin> set us" and "c_user c = uid" and "is_unsorted c"
  shows "unsorted_ok (us @ [uid]) (cs @ [c])"
proof -
  have "rows_where (\<lambda>c. c_user c = uid \<and> is_unsorted c) cs = 0"
    using assms(1,2) by (auto simp: unsorted_ok_def rows_where_0)
  then show ?thesis using assms by (auto simp: unsorted_ok_def rows_where_add)
qed

lemma items_filed_add: "items_filed is cs \<Longrightarrow> items_filed is (cs @ [c])"
  by (auto simp: items_filed_def)

lemma items_filed_move:
  assumes "items_filed is cs" and "\<And>i. p i \<Longrightarrow> i \<in> set is \<Longrightarrow> \<exists>c\<in>set cs. c_id c = cid \<and> c_user c = si_user i"
  shows "items_filed (update_where p (filed now cid) is) cs"
  using assms by (auto simp: items_filed_def set_update_where filed_def)

lemma map_filed: "map si_id (update_where p (filed now cid) is) = map si_id is"
  by (rule map_update_where) (simp add: filed_def)

lemma item_ok_filed: "item_ok i \<Longrightarrow> item_ok (filed now cid i)"
  by (simp add: item_ok_def filed_def)

lemma library_ok_items:
  assumes "library_ok db" and "distinct (map si_id is)" and "\<And>i. i \<in> set is \<Longrightarrow> item_ok i"
    and "items_filed is (lib_collections db)"
  shows "library_ok (db\<lparr>lib_items := is\<rparr>)"
  using assms by (simp add: library_ok_def)

lemma library_ok_fewer_items: "library_ok db \<Longrightarrow> library_ok (db\<lparr>lib_items := filter p (lib_items db)\<rparr>)"
  by (rule library_ok_items) (auto simp: library_ok_def items_filed_def distinct_map_filter)

lemma library_ok_move:
  assumes "library_ok db"
    and "\<And>i. p i \<Longrightarrow> i \<in> set (lib_items db) \<Longrightarrow> owns_collection (si_user i) cid db"
  shows "library_ok (db\<lparr>lib_items := update_where p (filed now cid) (lib_items db)\<rparr>)"
proof (rule library_ok_items[OF assms(1)])
  show "distinct (map si_id (update_where p (filed now cid) (lib_items db)))"
    using library_okD(3)[OF assms(1)] by (simp only: map_filed)
  show "item_ok i" if "i \<in> set (update_where p (filed now cid) (lib_items db))" for i
    using that library_okD(4)[OF assms(1)] by (auto simp: set_update_where item_ok_filed)
  show "items_filed (update_where p (filed now cid) (lib_items db)) (lib_collections db)"
    by (rule items_filed_move[OF library_okD(5)[OF assms(1)]]) (use assms(2) in \<open>simp add: owns_collection_iff\<close>)
qed

section \<open>Statements\<close>

lemma kept_open_library:
  assumes "cid \<noteq> uuid_nil" and "rfc3339_time now"
  shows "kept library_ok (q_open_library now cid uid)"
proof (rule keptI)
  fix d x d' assume ok: "library_ok d" and q: "q_open_library now cid uid d = Inr (x, d')"
  let ?c = "\<lparr>c_id = cid, c_user = uid, c_name = ''Unsorted'', c_type = ''system'', c_system_key = Some ''unsorted'',
             c_created_at = now, c_updated_at = now\<rparr>"
  from q have new: "uid \<notin> set (lib_users d)" "\<not> has_key c_id cid (lib_collections d)"
    "\<not> name_taken uid ''Unsorted'' d"
    and d': "d' = d\<lparr>lib_users := lib_users d @ [uid], lib_collections := lib_collections d @ [?c]\<rparr>"
    by (auto simp: q_open_library_def q_create_unsorted_def name_taken_def split: if_splits)
  have "trim_space ''Unsorted'' = ''Unsorted''" "pg_name_key ''Unsorted'' = ''unsorted''" by code_simp+
  then have "collection_ok ?c" using assms by (simp add: collection_ok_def collection_kind_ok_def)
  moreover have "(uid, pg_name_key ''Unsorted'') \<notin> (\<lambda>c. (c_user c, pg_name_key (c_name c))) ` set (lib_collections d)"
    using new(3) by (simp only: name_taken_iff not_False_eq_True)
  ultimately have "collections_ok (lib_collections d @ [?c])"
    using collections_ok_add[OF library_okD(1)[OF ok], of ?c] new(2) by simp
  moreover have "unsorted_ok (lib_users d @ [uid]) (lib_collections d @ [?c])"
    using unsorted_ok_open[OF library_okD(2)[OF ok] new(1), of ?c] by (simp add: is_unsorted_def)
  ultimately show "library_ok d'" using ok items_filed_add by (simp add: library_ok_def d')
qed

definition name_ok :: "string \<Rightarrow> bool" where
  "name_ok name \<longleftrightarrow> trim_space name = name \<and> name \<noteq> '''' \<and> rune_count name \<le> collection_name_max_length"

lemma kept_create_user_collection:
  assumes "cid \<noteq> uuid_nil" and "rfc3339_time now" and "name_ok name"
  shows "kept library_ok (q_create_user_collection now cid uid name)"
proof (rule keptI)
  fix d x d' assume ok: "library_ok d" and q: "q_create_user_collection now cid uid name d = Inr (x, d')"
  let ?c = "\<lparr>c_id = cid, c_user = uid, c_name = name, c_type = ''user'', c_system_key = None,
             c_created_at = now, c_updated_at = now\<rparr>"
  from q have new: "uid \<in> set (lib_users d)" "\<not> has_key c_id cid (lib_collections d)" "\<not> name_taken uid name d"
    and d': "d' = d\<lparr>lib_collections := lib_collections d @ [?c]\<rparr>"
    by (auto simp: q_create_user_collection_def Let_def split: if_splits)
  have "collection_ok ?c" using assms by (simp add: collection_ok_def collection_kind_ok_def name_ok_def)
  moreover have "(uid, pg_name_key name) \<notin> (\<lambda>c. (c_user c, pg_name_key (c_name c))) ` set (lib_collections d)"
    using new(3) by (simp only: name_taken_iff not_False_eq_True)
  ultimately have "collections_ok (lib_collections d @ [?c])"
    using collections_ok_add[OF library_okD(1)[OF ok], of ?c] new(2) by simp
  moreover have "unsorted_ok (lib_users d) (lib_collections d @ [?c])"
    using unsorted_ok_add[OF library_okD(2)[OF ok], of ?c] new(1) by (simp add: is_unsorted_def)
  ultimately show "library_ok d'" using ok items_filed_add by (simp add: library_ok_def d')
qed

lemma kept_create_saved_item:
  assumes "iid \<noteq> uuid_nil" and "rfc3339_time now" and "pred_option platform_ok platform"
  shows "kept library_ok (q_create_saved_item now iid uid url domain platform title cid)"
proof (rule keptI)
  fix d x d' assume ok: "library_ok d"
    and q: "q_create_saved_item now iid uid url domain platform title cid d = Inr (x, d')"
  from q have new: "\<not> has_key si_id iid (lib_items d)" "owns_collection uid cid d"
    and x: "si_id x = iid" "si_user x = uid" "si_collection x = cid" "si_created_at x = now" "si_platform x = platform"
    and d': "d' = d\<lparr>lib_items := lib_items d @ [x]\<rparr>"
    by (auto simp: q_create_saved_item_def Let_def split: if_splits)
  show "library_ok d'" unfolding d'
  proof (rule library_ok_items[OF ok])
    show "distinct (map si_id (lib_items d @ [x]))"
      using library_okD(3)[OF ok] new(1) x(1) by (auto simp: has_key_iff)
    show "item_ok i" if "i \<in> set (lib_items d @ [x])" for i
      using that library_okD(4)[OF ok] assms x by (auto simp: item_ok_def)
    show "items_filed (lib_items d @ [x]) (lib_collections d)"
      using library_okD(5)[OF ok] new(2) x by (auto simp: items_filed_def owns_collection_iff)
  qed
qed

lemma kept_delete_saved_item: "kept library_ok (q_delete_saved_item iid uid)"
  by (rule keptI) (auto simp: q_delete_saved_item_def library_ok_fewer_items split: sum.splits)

lemma kept_delete_saved_items: "kept library_ok (q_delete_saved_items cid uid)"
  by (rule keptI) (auto simp: q_delete_saved_items_def library_ok_fewer_items)

lemma kept_move_saved_item: "kept library_ok (q_move_saved_item now cid iid uid)"
  by (rule keptI) (auto simp: q_move_saved_item_def split: sum.splits if_splits intro!: library_ok_move)

lemma kept_move_saved_items: "kept library_ok (q_move_saved_items now target cid uid)"
  by (rule keptI) (auto simp: q_move_saved_items_def list_ex_iff split: if_splits intro!: library_ok_move)

lemma delete_collection_keeps:
  assumes "library_ok d" and "q_delete_collection cid uid d = Inr (x, d')"
    and "\<And>c. c \<in> set (lib_collections d) \<Longrightarrow> c_id c = cid \<Longrightarrow> c_user c = uid \<Longrightarrow> \<not> is_unsorted c"
  shows "library_ok d'"
proof -
  let ?p = "\<lambda>c. \<not> (c_id c = cid \<and> c_user c = uid)"
  from assms(2) have d': "d' = d\<lparr>lib_collections := filter ?p (lib_collections d)\<rparr>"
    and empty: "\<And>i. i \<in> set (lib_items d) \<Longrightarrow> \<not> (si_collection i = cid \<and> si_user i = uid)"
    by (auto simp: q_delete_collection_def list_ex_iff split: if_splits)
  have "filter (\<lambda>c. c_user c = u \<and> is_unsorted c) (filter ?p (lib_collections d)) =
        filter (\<lambda>c. c_user c = u \<and> is_unsorted c) (lib_collections d)" for u
    unfolding filter_filter using assms(3) by (intro filter_cong) auto
  then have "unsorted_ok (lib_users d) (filter ?p (lib_collections d))"
    using library_okD(2)[OF assms(1)] by (simp add: unsorted_ok_def rows_where_def)
  moreover have "collections_ok (filter ?p (lib_collections d))"
    using library_okD(1)[OF assms(1)] by (auto simp: collections_ok_def distinct_map_filter)
  moreover have "items_filed (lib_items d) (filter ?p (lib_collections d))"
    using library_okD(5)[OF assms(1)] empty by (fastforce simp: items_filed_def)
  ultimately show ?thesis using assms(1) by (simp add: library_ok_def d')
qed

section \<open>Repository methods and services\<close>

lemma wp_on_no_rows [wp_intros]:
  "(\<And>e. Q (Inl e) d) \<Longrightarrow> wp Q (on_no_rows refusal e) d w"
  by (simp add: on_no_rows_def wp_fail wp_fail_internal)

lemma wp_pool_keeps:
  assumes "kept I q" and "I d" and "\<And>e d'. I d' \<Longrightarrow> wp (\<lambda>_. I) (on_err e) d' w"
    and "\<And>x d'. I d' \<Longrightarrow> wp (\<lambda>_. I) (k x) d' w"
  shows "wp (\<lambda>_. I) (pool q on_err k) d w"
  using assms by (rule wp_pool_kept)

lemma create_saved_item_inv:
  assumes "library_ok d" and "iid \<noteq> uuid_nil" and "rfc3339_time now"
  shows "wp (\<lambda>_. library_ok) (create_saved_item now iid parse_host enqueuer uid raw_url) d w"
  unfolding create_saved_item_def repo_get_unsorted_collection_def repo_create_saved_item_def q_get_unsorted_collection_def
  by (intro wp_intros wp_call_inv wp_pool_kept kept_reading kept_create_saved_item assms; (assumption | simp))

lemma delete_saved_item_inv: "library_ok d \<Longrightarrow> wp (\<lambda>_. library_ok) (delete_saved_item uid iid) d w"
  unfolding delete_saved_item_def repo_delete_saved_item_def repo_count_saved_items_def Let_def
    repo_get_collection_system_key_def q_count_saved_items_def q_get_collection_system_key_def
  by (intro wp_intros wp_call_inv wp_pool_kept kept_reading kept_delete_saved_item; assumption)

text \<open>The filing transaction with its helpers unfolded.\<close>

definition file_into ::
  "time \<Rightarrow> uuid \<Rightarrow> uuid \<Rightarrow> saved_item \<Rightarrow> bool \<Rightarrow> collection \<Rightarrow> (library_db, put_result) prog" where
  "file_into now iid uid locked created c =
     (if si_collection locked = c_id c then
        commit fail_internal (ret
          \<lparr>pu_collection = c, pu_created = created, pu_already = True, pu_item = new_item_summary locked\<rparr>)
      else
        exec (q_move_saved_item now (c_id c) iid uid)
          (\<lambda>e. if errors_is e err_no_rows
               then fail_internal (Sentinel ''locked saved item disappeared before it could be moved'')
               else fail_internal e) (\<lambda>moved.
        commit fail_internal (ret
          \<lparr>pu_collection = c, pu_created = created, pu_already = False, pu_item = new_item_summary moved\<rparr>)))"

lemma call_on_no_rows [call_simps]:
  "call (on_no_rows refusal e) on_err k =
     (if errors_is e err_no_rows then on_err (refusal e) else on_err (internal (Some e)))"
  by (simp add: on_no_rows_def call_simps)

lemma if_not_swap: "(if \<not> b then x else y) = (if b then y else x)"
  by simp

lemma repo_put_saved_item_flat:
  "repo_put_saved_item now cid uid iid name intent =
     begin_tx fail_internal
      (exec (q_lock_saved_item iid uid) (on_no_rows (\<lambda>e. saved_item_not_found (Some e))) (\<lambda>locked.
       exec (q_create_user_collection now cid uid name)
         (\<lambda>e. if \<not> errors_is e err_no_rows then fail (internal (Some e))
              else if intent = ''create'' then fail (collection_name_exists (Some e))
              else exec (q_get_collection_by_name uid name)
                     (\<lambda>e. if errors_is e err_no_rows
                        then fail (internal (Some (Sentinel ''collection name conflict resolved to no collection'')))
                        else fail (internal (Some e)))
                     (\<lambda>c. file_into now iid uid locked False c))
         (\<lambda>c. file_into now iid uid locked True c)))"
  unfolding repo_put_saved_item_def create_new_user_collection_def create_or_get_user_collection_def
    file_into_def[symmetric] call_simps prod.case
  by (cases "intent = ''create''")
    (simp_all add: if_not_swap cong: if_cong)

lemma file_into_inv: "library_ok d \<Longrightarrow> library_ok w \<Longrightarrow> wp (\<lambda>_. library_ok) (file_into now iid uid locked created c) d w"
  unfolding file_into_def by (intro wp_intros wp_exec_kept[OF kept_move_saved_item]; assumption)

lemma repo_put_saved_item_inv:
  assumes "library_ok d" and "cid \<noteq> uuid_nil" and "rfc3339_time now" and "name_ok name"
  shows "wp (\<lambda>_. library_ok) (repo_put_saved_item now cid uid iid name intent) d w"
  unfolding repo_put_saved_item_flat q_lock_saved_item_def q_get_collection_by_name_def
  by (intro wp_begin_tx wp_fail wp_fail_internal wp_if wp_on_no_rows wp_exec_kept[OF kept_reading] file_into_inv
      wp_exec_kept[OF kept_create_user_collection[OF assms(2-4)]] assms(1); assumption)

lemma normalize_collection_name_ok: "normalize_collection_name raw = Inr name \<Longrightarrow> name_ok name"
  by (auto simp: normalize_collection_name_def name_ok_def Let_def trim_space_def trim_with_idem not_less split: if_splits)

lemma put_saved_item_inv:
  assumes "library_ok d" and "cid \<noteq> uuid_nil" and "rfc3339_time now"
  shows "wp (\<lambda>_. library_ok) (put_saved_item now cid uid iid raw intent) d w"
proof -
  have "wp (\<lambda>_. library_ok) (call (repo_put_saved_item now cid uid iid name intent) fail ret) d w"
    if "normalize_collection_name raw = Inr name" for name
    by (intro wp_call_inv wp_fail wp_ret repo_put_saved_item_inv[OF assms normalize_collection_name_ok[OF that]]; assumption)
  then show ?thesis unfolding put_saved_item_def by (intro wp_intros assms(1))
qed

definition deletable :: "delete_params \<Rightarrow> library_db \<Rightarrow> bool" where
  "deletable p db \<longleftrightarrow> library_ok db \<and>
     (\<forall>c\<in>set (lib_collections db). c_id c = dp_collection p \<and> c_user c = dp_user p \<longrightarrow> \<not> is_unsorted c)"

lemma q_get_collection_Inr:
  "q_get_collection cid uid d = Inr (c, d') \<Longrightarrow> d' = d \<and> c \<in> set (lib_collections d) \<and> c_id c = cid \<and> c_user c = uid"
  by (auto simp: q_get_collection_def reading_Inr dest!: first_row_Inr)

lemma collection_unique:
  "library_ok d \<Longrightarrow> c \<in> set (lib_collections d) \<Longrightarrow> c' \<in> set (lib_collections d) \<Longrightarrow> c_id c = c_id c' \<Longrightarrow> c = c'"
  by (auto simp: library_ok_def collections_ok_def intro: distinct_map_filter_inj)

lemma deletable_source:
  assumes "library_ok d" and "q_get_collection (dp_collection p) (dp_user p) d = Inr (c, d')"
    and "\<not> collection_is_unsorted (c_system_key c)"
  shows "deletable p d'"
proof -
  note c = q_get_collection_Inr[OF assms(2)]
  have "x = c" if "x \<in> set (lib_collections d)" "c_id x = dp_collection p" for x
    using collection_unique[OF assms(1), of x c] c that by simp
  then show ?thesis using c assms(1,3) unfolding deletable_def collection_is_unsorted_def is_unsorted_def by blast
qed

lemma deletable_moved: "deletable p d \<Longrightarrow> q_move_saved_items now target cid uid d = Inr (x, d') \<Longrightarrow> deletable p d'"
  using keptD[OF kept_move_saved_items, of d] q_move_saved_items_def[of now target cid uid d]
  by (auto simp: deletable_def split: if_splits)

lemma deletable_emptied: "deletable p d \<Longrightarrow> q_delete_saved_items cid uid d = Inr (x, d') \<Longrightarrow> deletable p d'"
  using keptD[OF kept_delete_saved_items, of d] q_delete_saved_items_def[of cid uid d]
  by (auto simp: deletable_def)

lemma delete_source_inv:
  assumes "library_ok d" and "deletable p w"
  shows "wp (\<lambda>_. library_ok) (delete_source p) d w"
proof -
  have "library_ok w'" if "q_delete_collection (dp_collection p) (dp_user p) w = Inr (x, w')" for x w'
    by (rule delete_collection_keeps[OF _ that]) (use assms(2) in \<open>auto simp: deletable_def\<close>)
  then show ?thesis unfolding delete_source_def by (intro wp_intros assms(1))
qed

lemma repo_delete_collection_inv:
  assumes "library_ok d"
  shows "wp (\<lambda>_. library_ok) (repo_delete_collection now p) d w"
proof -
  note source = deletable_source[OF assms, of p]
  have move: "wp (\<lambda>_. library_ok)
      (exec (q_get_collection (dp_target p) (dp_user p)) (on_no_rows (\<lambda>e. target_not_found (Some e))) (\<lambda>_.
       exec (q_move_saved_items now (dp_target p) (dp_collection p) (dp_user p))
         (\<lambda>e. fail (map_collection_children_error e)) (\<lambda>_. delete_source p))) d w" if "deletable p w" for w
    using deletable_moved[OF that] that
    by (auto intro!: wp_exec wp_on_no_rows wp_fail delete_source_inv assms dest: q_get_collection_Inr)
  have remove: "wp (\<lambda>_. library_ok)
      (exec (q_delete_saved_items (dp_collection p) (dp_user p)) (\<lambda>e. fail (map_collection_children_error e)) (\<lambda>_.
       delete_source p)) d w" if "deletable p w" for w
    using deletable_emptied[OF that] by (auto intro!: wp_exec wp_fail delete_source_inv assms)
  show ?thesis unfolding repo_delete_collection_def
    by (intro wp_begin_tx wp_fail_internal wp_fail wp_exec wp_if wp_on_no_rows assms move remove; erule (1) source)
qed

lemma delete_collection_inv: "library_ok d \<Longrightarrow> wp (\<lambda>_. library_ok) (delete_collection now p) d w"
  unfolding delete_collection_def by (intro wp_intros repo_delete_collection_inv; assumption)

section \<open>Enriching and organising\<close>

lemma library_ok_update:
  assumes "library_ok db" and "\<And>i. si_id (f i) = si_id i \<and> si_user (f i) = si_user i \<and> si_collection (f i) = si_collection i"
    and "\<And>i. p i \<Longrightarrow> item_ok i \<Longrightarrow> item_ok (f i)"
  shows "library_ok (db\<lparr>lib_items := update_where p f (lib_items db)\<rparr>)"
proof (rule library_ok_items[OF assms(1)])
  have "map si_id (update_where p f (lib_items db)) = map si_id (lib_items db)"
    using assms(2) by (simp add: map_update_where)
  then show "distinct (map si_id (update_where p f (lib_items db)))" using library_okD(3)[OF assms(1)] by simp
  show "item_ok i" if "i \<in> set (update_where p f (lib_items db))" for i
    using that library_okD(4)[OF assms(1)] assms(3) by (auto simp: set_update_where)
  show "items_filed (update_where p f (lib_items db)) (lib_collections db)"
    using library_okD(5)[OF assms(1)] assms(2) by (auto simp: items_filed_def set_update_where)
qed

lemma kept_update_item:
  assumes "\<And>i. si_id (f i) = si_id i \<and> si_user (f i) = si_user i \<and> si_collection (f i) = si_collection i"
    and "\<And>i. item_ok i \<Longrightarrow> item_ok (f i)"
  shows "kept library_ok (update_item p f)"
  by (rule keptI) (auto simp: update_item_def assms split: sum.splits intro!: library_ok_update)

lemma kept_map_sum: "kept I q \<Longrightarrow> kept I (\<lambda>d. map_sum id (map_prod g id) (q d))"
proof (rule keptI)
  fix d x d' assume "kept I q" "I d" "map_sum id (map_prod g id) (q d) = Inr (x, d')"
  then show "I d'" by (cases "q d") (auto dest: keptD)
qed

definition params_ok :: "enrichment_params \<Rightarrow> bool" where
  "params_ok p \<longleftrightarrow> pred_option platform_ok (ep_platform p)"

lemma kept_enriched: "params_ok p \<Longrightarrow> kept library_ok (update_item q (enriched now p))"
  by (rule kept_update_item) (simp_all add: enriched_def item_ok_def params_ok_def)

lemma kept_enrich_failed: "kept library_ok (update_item q (enrich_failed now))"
  by (rule kept_update_item) (simp_all add: enrich_failed_def item_ok_def)

lemma enrich_item_now_inv:
  assumes "library_ok d" and "\<And>url m. enricher url = Inr m \<Longrightarrow> params_ok (params_of m)"
  shows "wp (\<lambda>_. library_ok) (enrich_item_now enricher now uid iid) d w"
  unfolding enrich_item_now_def repo_get_url_for_enrichment_def repo_complete_enrichment_def repo_fail_enrichment_def
    q_get_url_for_enrichment_def q_complete_enrichment_def q_fail_enrichment_def
  by (intro wp_intros wp_call_inv wp_pool_kept kept_reading kept_enriched kept_enrich_failed assms; assumption)

lemma enrich_saved_item_inv:
  assumes "library_ok d" and "\<And>url m. enricher url = Inr m \<Longrightarrow> params_ok (params_of m)"
  shows "wp (\<lambda>_. library_ok) (enrich_saved_item enricher organizer now iid) d w"
  unfolding enrich_saved_item_def repo_get_for_background_def repo_complete_background_def repo_fail_background_def
    q_get_for_background_enrichment_def q_complete_background_enrichment_def q_fail_background_enrichment_def
  by (intro wp_intros wp_call_inv wp_pool_kept kept_reading kept_map_sum kept_enriched kept_enrich_failed assms; assumption)

lemma handle_enrich_task_inv:
  assumes "library_ok d" and "\<And>url m. enricher url = Inr m \<Longrightarrow> params_ok (params_of m)"
  shows "wp (\<lambda>_. library_ok) (handle_enrich_task enricher organizer now payload) d w"
  unfolding handle_enrich_task_def
  by (intro wp_intros wp_call_inv enrich_saved_item_inv assms; assumption)

lemma kept_create_system_collection:
  assumes "cid \<noteq> uuid_nil" and "rfc3339_time now" and "platform_ok name" and "organize_key name \<noteq> ''unsorted''"
  shows "kept library_ok (q_create_system_collection now cid uid name (system_key_for_platform name))"
proof (rule keptI)
  fix d x d' assume ok: "library_ok d"
    and q: "q_create_system_collection now cid uid name (system_key_for_platform name) d = Inr (x, d')"
  let ?c = "\<lparr>c_id = cid, c_user = uid, c_name = name, c_type = ''system'',
             c_system_key = Some (system_key_for_platform name), c_created_at = now, c_updated_at = now\<rparr>"
  from q have new: "uid \<in> set (lib_users d)" "\<not> has_key c_id cid (lib_collections d)" "\<not> name_taken uid name d"
    and d': "d' = d\<lparr>lib_collections := lib_collections d @ [?c]\<rparr>"
    by (auto simp: q_create_system_collection_def Let_def split: if_splits)
  have key: "system_key_for_platform name = pg_name_key name"
    using assms(3) btrim_trimmed by (simp add: system_key_for_platform_def organize_key_def pg_name_key_def platform_ok_def)
  have "collection_ok ?c" using assms key by (simp add: collection_ok_def collection_kind_ok_def platform_ok_def)
  moreover have "(uid, pg_name_key name) \<notin> (\<lambda>c. (c_user c, pg_name_key (c_name c))) ` set (lib_collections d)"
    using new(3) by (simp only: name_taken_iff not_False_eq_True)
  ultimately have "collections_ok (lib_collections d @ [?c])"
    using collections_ok_add[OF library_okD(1)[OF ok], of ?c] new(2) by simp
  moreover have "unsorted_ok (lib_users d) (lib_collections d @ [?c])"
    using unsorted_ok_add[OF library_okD(2)[OF ok], of ?c] new(1) assms(4)
    by (simp add: is_unsorted_def system_key_for_platform_def)
  ultimately show "library_ok d'" using ok items_filed_add by (simp add: library_ok_def d')
qed

lemma kept_move_for_organization: "kept library_ok (q_move_for_organization now cid iid uid)"
  by (rule keptI) (auto simp: q_move_for_organization_def split: sum.splits if_splits intro!: library_ok_move)

text \<open>The organising transaction with its helper unfolded.\<close>

definition organize_into ::
  "time \<Rightarrow> uuid \<Rightarrow> uuid \<Rightarrow> organizing_item \<Rightarrow> bool \<Rightarrow> collection \<Rightarrow> (library_db, outcome) prog" where
  "organize_into now iid uid locked created c =
     (if oi_collection locked = c_id c then commit fail_internal (ret OutcomeAlreadyOrganized)
      else
        exec (q_move_for_organization now (c_id c) iid uid)
          (\<lambda>e. if errors_is e err_no_rows
               then fail_internal (Sentinel ''locked saved item disappeared before it could be filed'')
               else fail_internal e) (\<lambda>_.
        commit fail_internal (ret (if created then OutcomeCollectionCreated else OutcomeMoved))))"

definition organize_platform ::
  "time \<Rightarrow> uuid \<Rightarrow> uuid \<Rightarrow> uuid \<Rightarrow> organizing_item \<Rightarrow> string \<Rightarrow> (library_db, outcome) prog" where
  "organize_platform now cid iid uid locked name =
     (if organize_key name = ''unsorted'' then fail reserved_name_error
      else
        exec (q_get_collection_for_organization uid name)
          (\<lambda>e. if errors_is e err_no_rows then
                 exec (q_create_system_collection now cid uid name (system_key_for_platform name))
                   (\<lambda>e. if errors_is e err_no_rows then
                          exec (q_get_collection_for_organization uid name)
                            (on_no_rows (\<lambda>_. reserved_name_error)) (organize_into now iid uid locked False)
                        else fail_internal e)
                   (organize_into now iid uid locked True)
               else fail_internal e)
          (organize_into now iid uid locked False))"

lemma organize_key_unsorted: "organize_key unsorted_system_key = ''unsorted''"
  by code_simp

lemma fail_internal_eq: "fail (internal (Some e)) = fail_internal e"
  by (simp add: fail_internal_def fun_eq_iff)

lemma organize_platform_flat:
  "call (create_or_get_collection now cid uid platform) fail (\<lambda>(c, created).
     if oi_collection locked = c_id c then commit fail_internal (ret OutcomeAlreadyOrganized)
     else
       exec (q_move_for_organization now (c_id c) iid uid)
         (\<lambda>e. if errors_is e err_no_rows
              then fail_internal (Sentinel ''locked saved item disappeared before it could be filed'')
              else fail_internal e) (\<lambda>_.
       commit fail_internal (ret (if created then OutcomeCollectionCreated else OutcomeMoved))))
   = organize_platform now cid iid uid locked (trim_space platform)"
  unfolding create_or_get_collection_def Let_def organize_platform_def organize_key_unsorted
    organize_into_def[symmetric] call_simps prod.case
  by (simp add: if_not_swap on_no_rows_def[abs_def] fail_internal_eq call_simps cong: if_cong)

lemma organize_into_inv: "library_ok d \<Longrightarrow> library_ok w \<Longrightarrow> wp (\<lambda>_. library_ok) (organize_into now iid uid locked created c) d w"
  unfolding organize_into_def by (intro wp_intros wp_exec_kept[OF kept_move_for_organization]; assumption)

lemma organize_platform_inv:
  assumes "library_ok d" and "library_ok w" and "cid \<noteq> uuid_nil" and "rfc3339_time now" and "platform_ok name"
  shows "wp (\<lambda>_. library_ok) (organize_platform now cid iid uid locked name) d w"
proof (cases "organize_key name = ''unsorted''")
  case True
  then show ?thesis by (simp add: organize_platform_def wp_fail assms(1))
next
  case False
  show ?thesis
    unfolding organize_platform_def if_not_P[OF False] q_get_collection_for_organization_def
    by (intro wp_exec_kept[OF kept_reading] wp_exec_kept[OF kept_create_system_collection[OF assms(3,4,5) False]]
      wp_if wp_fail_internal wp_fail wp_on_no_rows organize_into_inv assms; assumption)
qed

lemma q_lock_for_organization_Inr:
  assumes "q_lock_for_organization iid d = Inr (locked, d')"
  shows "d' = d \<and> (\<exists>i\<in>set (lib_items d). si_id i = iid \<and> (\<exists>c. item_collection d i = Some c \<and> locked = organizing_row i c))"
  using assms unfolding q_lock_for_organization_def reading_Inr
  by (fastforce dest!: first_row_Inr simp: List.map_filter_def)

lemma locked_platform_ok:
  assumes "library_ok d" and "q_lock_for_organization iid d = Inr (locked, d')" and "item_has_platform locked"
  shows "platform_ok (trim_space (the (oi_platform locked)))"
  using q_lock_for_organization_Inr[OF assms(2)] assms(3) library_okD(4)[OF assms(1)]
  by (fastforce simp: organizing_row_def item_has_platform_def item_ok_def platform_ok_def)

lemma repo_organize_saved_item_inv:
  assumes "library_ok d" and "cid \<noteq> uuid_nil" and "rfc3339_time now"
  shows "wp (\<lambda>_. library_ok) (repo_organize_saved_item now cid iid uid) d w"
  unfolding repo_organize_saved_item_def organize_platform_flat
proof (intro wp_begin_tx wp_fail_internal assms(1) wp_exec wp_on_no_rows)
  fix locked w' assume q: "q_lock_for_organization iid d = Inr (locked, w')"
  then have w': "w' = d" using q_lock_for_organization_Inr by blast
  show "wp (\<lambda>_. library_ok) (if oi_user locked \<noteq> uid then fail (ownership_mismatch_error iid uid)
       else if \<not> enrichment_completed locked then commit fail_internal (ret OutcomeEnrichmentNotCompleted)
       else if \<not> item_has_platform locked then commit fail_internal (ret OutcomeNoPlatform)
       else if \<not> in_unsorted locked then commit fail_internal (ret OutcomeNotInUnsorted)
       else organize_platform now cid iid uid locked (trim_space (the (oi_platform locked)))) d w'"
    unfolding w' using assms locked_platform_ok[OF assms(1) q]
    by (intro wp_if wp_fail wp_commit wp_fail_internal wp_ret organize_platform_inv) simp_all
qed

lemma handle_organize_task_inv:
  assumes "library_ok d" and "cid \<noteq> uuid_nil" and "rfc3339_time now"
  shows "wp (\<lambda>_. library_ok) (handle_organize_task now cid payload) d w"
  unfolding handle_organize_task_def organize_saved_item_def
  by (intro wp_intros wp_call_inv repo_organize_saved_item_inv assms; assumption)

section \<open>Every run\<close>

text \<open>
  What happens to a library: it is opened with the account, and then any of the calls that change it.
  Each call meets its own round-trip fates; the ids the database generates are not the nil id and its
  clock is within the years RFC 3339 writes.
\<close>

datatype library_call =
    OpenLibrary time uuid uuid
  | CreateSavedItem time uuid "string \<Rightarrow> go_error + string" "(uuid \<Rightarrow> go_error option) option" uuid string
  | DeleteSavedItem uuid uuid
  | PutSavedItem time uuid uuid uuid string string
  | DeleteCollection time delete_params
  | EnrichItem "string \<Rightarrow> failure + metadata" time uuid uuid
  | EnrichTask "string \<Rightarrow> failure + metadata" organizer time "go_error + uuid"
  | OrganizeTask time uuid "go_error + uuid \<times> uuid"

text \<open>What the tables rely on from an enricher: a platform it reports is trimmed and not empty.\<close>

definition sound_enricher :: "(string \<Rightarrow> failure + metadata) \<Rightarrow> bool" where
  "sound_enricher enricher \<longleftrightarrow> (\<forall>url m. enricher url = Inr m \<longrightarrow> params_ok (params_of m))"

fun sound_call :: "library_call \<Rightarrow> bool" where
  "sound_call (OpenLibrary now cid uid) \<longleftrightarrow> cid \<noteq> uuid_nil \<and> rfc3339_time now"
| "sound_call (CreateSavedItem now iid parse_host enqueuer uid url) \<longleftrightarrow> iid \<noteq> uuid_nil \<and> rfc3339_time now"
| "sound_call (DeleteSavedItem uid iid) \<longleftrightarrow> True"
| "sound_call (PutSavedItem now cid uid iid name intent) \<longleftrightarrow> cid \<noteq> uuid_nil \<and> rfc3339_time now"
| "sound_call (DeleteCollection now p) \<longleftrightarrow> True"
| "sound_call (EnrichItem enricher now uid iid) \<longleftrightarrow> sound_enricher enricher"
| "sound_call (EnrichTask enricher organizer now payload) \<longleftrightarrow> sound_enricher enricher"
| "sound_call (OrganizeTask now cid payload) \<longleftrightarrow> cid \<noteq> uuid_nil \<and> rfc3339_time now"

fun run_library :: "library_call \<Rightarrow> fate list \<Rightarrow> library_db \<Rightarrow> library_db" where
  "run_library (OpenLibrary now cid uid) fs d = snd (run (pool (q_open_library now cid uid) fail_internal ret) d fs)"
| "run_library (CreateSavedItem now iid parse_host enqueuer uid url) fs d =
     snd (run (create_saved_item now iid parse_host enqueuer uid url) d fs)"
| "run_library (DeleteSavedItem uid iid) fs d = snd (run (delete_saved_item uid iid) d fs)"
| "run_library (PutSavedItem now cid uid iid name intent) fs d = snd (run (put_saved_item now cid uid iid name intent) d fs)"
| "run_library (DeleteCollection now p) fs d = snd (run (delete_collection now p) d fs)"
| "run_library (EnrichItem enricher now uid iid) fs d = snd (run (enrich_item_now enricher now uid iid) d fs)"
| "run_library (EnrichTask enricher organizer now payload) fs d =
     snd (run (handle_enrich_task enricher organizer now payload) d fs)"
| "run_library (OrganizeTask now cid payload) fs d = snd (run (handle_organize_task now cid payload) d fs)"

definition empty_library :: library_db where
  "empty_library = \<lparr>lib_users = [], lib_collections = [], lib_items = []\<rparr>"

definition library_step :: "library_db \<Rightarrow> library_db \<Rightarrow> bool" where
  "library_step d d' \<longleftrightarrow> (\<exists>x fs. sound_call x \<and> d' = run_library x fs d)"

lemma library_ok_empty: "library_ok empty_library"
  by (simp add: library_ok_def empty_library_def collections_ok_def unsorted_ok_def items_filed_def)

lemma run_library_keeps: "library_ok d \<Longrightarrow> sound_call x \<Longrightarrow> library_ok (run_library x fs d)"
  by (cases x) (auto simp: sound_enricher_def intro!: wp_run_snd[where I = library_ok] wp_pool_kept
    kept_open_library wp_fail_internal wp_ret create_saved_item_inv delete_saved_item_inv put_saved_item_inv
    delete_collection_inv enrich_item_now_inv handle_enrich_task_inv handle_organize_task_inv)

interpretation library: invariant_system "\<lambda>d. d = empty_library" library_step library_ok
  by unfold_locales (auto simp: library_ok_empty library_step_def run_library_keeps)

abbreviation library_reachable :: "library_db \<Rightarrow> bool" where
  "library_reachable \<equiv> reachable_from (\<lambda>d. d = empty_library) library_step"

lemma library_reachable_run:
  "library_reachable d \<Longrightarrow> sound_call x \<Longrightarrow> library_reachable (run_library x fs d)"
  by (rule reachable_from.next_step) (auto simp: library_step_def)

end
