(* ===== verification/LibraryPages.thy ===== *)
theory LibraryPages
  imports LibraryInv "HOL-Library.Multiset"
begin

text \<open>
  The listings of the library as keyset listings: what the client that follows \<open>next_cursor\<close> receives,
  for the items of a user, the items of a collection, and the collections under each sort.
\<close>

section \<open>Sorting\<close>

lemma sort_key_map_eq:
  assumes "\<And>x y. x \<in> set xs \<Longrightarrow> y \<in> set xs \<Longrightarrow> key (g x) \<le> key (g y) \<longleftrightarrow> f x \<le> f y"
    and "distinct (map (\<lambda>x. key (g x)) xs)"
  shows "map g (sort_key f xs) = sort_key key (map g xs)"
proof (rule sort_key_inj_key_eq[symmetric])
  show "mset (map g xs) = mset (map g (sort_key f xs))" by simp
  show "inj_on key (set (map g xs))" using assms(2) by (auto simp: distinct_map inj_on_def)
  have "sorted (map f (sort_key f xs))" by simp
  moreover have "key (g x) \<le> key (g y)" if "x \<in> set xs" "y \<in> set xs" "f x \<le> f y" for x y
    using assms(1) that by simp
  ultimately show "sorted (map key (map g (sort_key f xs)))"
    by (auto simp: sorted_map map_map comp_def elim!: sorted_wrt_mono_rel[rotated])
qed

section \<open>One page\<close>

lemma list_limit_bounds:
  "0 < standard \<Longrightarrow> standard \<le> maximum \<Longrightarrow> maximum \<le> 50 \<Longrightarrow>
     0 < list_limit standard maximum limit \<and> list_limit standard maximum limit \<le> 50"
  by (simp add: list_limit_def Let_def)

definition outcome_of :: "go_error + 'r page_result \<Rightarrow> 'r list \<times> string option" where
  "outcome_of r = (case r of Inl e \<Rightarrow> ([], None) | Inr page \<Rightarrow> (pg_rows page, pg_next_cursor page))"

lemma finish_page_run:
  assumes "0 < n" and "n \<le> 50" and "\<And>zs. zs \<noteq> [] \<Longrightarrow> set zs \<subseteq> set xs \<Longrightarrow> encode zs = Inr (tok (last zs))"
    and "xs = rest key rows cur"
  shows "outcome_of (fst (finish_page encode (build_page (take (nat (n + 1)) xs) n) c)) = keyset_page key tok (nat n) rows cur"
proof -
  define m where "m = nat n"
  have m: "n = int m" "0 < m" "nat (n + 1) = Suc m" using assms(1) by (auto simp: m_def)
  have "set (take m xs) \<subseteq> set xs" by (rule set_take_subset)
  then show ?thesis using m(2) assms(3)[of "take m xs"]
    unfolding m(1) m(3)[unfolded m(1)] assms(4)[symmetric]
    by (auto simp: finish_page_def build_page_def keyset_page_def Let_def outcome_of_def ret_def assms(4)[symmetric]
        min_def not_less split: if_splits)
qed

section \<open>Cursors of items\<close>

definition token_of :: "go_error + string \<Rightarrow> string" where
  "token_of r = (case r of Inl e \<Rightarrow> '''' | Inr token \<Rightarrow> token)"

definition item_token :: "library_codec \<Rightarrow> 'a saved_item_scheme \<Rightarrow> string" where
  "item_token cdc i = token_of (encode_items_cursor cdc [i])"

definition item_known :: "'a saved_item_scheme \<Rightarrow> bool" where
  "item_known i \<longleftrightarrow> si_id i \<noteq> uuid_nil \<and> rfc3339_time (si_created_at i)"

lemma codec_okD:
  assumes "codec_ok cdc"
  shows "ic_timestamp c = None \<Longrightarrow> \<exists>b. marshal_items cdc c = Inr b \<and> b \<noteq> '''' \<and> unmarshal_items cdc b = Inr c"
    and "cc_timestamp k = None \<Longrightarrow>
      \<exists>b. marshal_collections cdc k = Inr b \<and> b \<noteq> '''' \<and> unmarshal_collections cdc b = Inr k"
    and "rfc3339_time t \<Longrightarrow> parse_time cdc (format_time cdc t) = Inr t \<and> format_time cdc t \<noteq> ''''"
  using assms unfolding codec_ok_def by blast+

lemma base64_encode_nonempty: "b \<noteq> '''' \<Longrightarrow> base64_encode b \<noteq> ''''"
  using length_base64_encode[of b] by (cases b) auto

lemma items_cursor_roundtrip:
  assumes "codec_ok cdc" and "item_known i"
  shows "encode_items_cursor cdc [i] = Inr (item_token cdc i)" and "item_token cdc i \<noteq> ''''"
    and "\<exists>c. decode_items_cursor cdc (item_token cdc i) = Inr c \<and> cursor_time c = si_created_at i \<and> cursor_item c = si_id i"
proof -
  let ?c = "\<lparr>ic_version = current_version, ic_value = Some (format_time cdc (si_created_at i)),
         ic_id = Some (si_id i), ic_timestamp = None\<rparr>"
  obtain b where b: "marshal_items cdc ?c = Inr b" "b \<noteq> ''''" "unmarshal_items cdc b = Inr ?c"
    using codec_okD(1)[OF assms(1), of ?c] by auto
  have enc: "encode_items_cursor cdc [i] = Inr (base64_encode b)"
    by (simp add: encode_items_cursor_def cursor_encode_def b)
  then have tok: "item_token cdc i = base64_encode b" by (simp add: item_token_def token_of_def)
  show "encode_items_cursor cdc [i] = Inr (item_token cdc i)" "item_token cdc i \<noteq> ''''"
    using enc tok base64_encode_nonempty[OF b(2)] by simp_all
  have "parse_time cdc (format_time cdc (si_created_at i)) = Inr (si_created_at i)"
    "format_time cdc (si_created_at i) \<noteq> ''''" using codec_okD(3)[OF assms(1)] assms(2) by (auto simp: item_known_def)
  then show "\<exists>c. decode_items_cursor cdc (item_token cdc i) = Inr c \<and> cursor_time c = si_created_at i \<and> cursor_item c = si_id i"
    using assms(2) by (simp add: tok decode_items_cursor_def decode_versioned_def cursor_decode_def check_version_def
        base64_roundtrip b item_known_def cursor_time_def cursor_item_def)
qed

lemma encode_items_last: "zs \<noteq> [] \<Longrightarrow> encode_items_cursor cdc zs = encode_items_cursor cdc [last zs]"
  by (simp add: encode_items_cursor_def)

section \<open>The items of a user\<close>

definition user_items :: "uuid \<Rightarrow> library_db \<Rightarrow> listed_item list" where
  "user_items uid db = items_with_names db (filter (\<lambda>i. si_user i = uid) (lib_items db))"

text \<open>One request, without faults: the page and the position to go on from.\<close>

definition fetch_items :: "library_codec \<Rightarrow> uuid \<Rightarrow> int \<Rightarrow> library_db \<Rightarrow> string option \<Rightarrow> listed_item list \<times> string option" where
  "fetch_items cdc uid limit db cur =
     outcome_of (fst (run (list_saved_items cdc uid limit (case cur of None \<Rightarrow> '''' | Some t \<Rightarrow> t)) db []))"

lemma with_name_sel:
  "si_id (with_name n i) = si_id i" "si_created_at (with_name n i) = si_created_at i" "si_user (with_name n i) = si_user i"
  by (simp_all add: with_name_def saved_item.defs)

lemma item_known_with_name: "item_known (with_name n i) = item_known i"
  by (simp add: item_known_def with_name_sel)

lemma items_with_names_all:
  assumes "library_ok db" and "set is \<subseteq> set (lib_items db)"
  shows "map si_id (items_with_names db is) = map si_id is \<and> (\<forall>r\<in>set (items_with_names db is). item_known r)"
  using assms(2)
proof (induction "is")
  case (Cons i "is")
  then have i: "i \<in> set (lib_items db)" by simp
  obtain c where "c \<in> set (lib_collections db)" "c_id c = si_collection i" "c_user c = si_user i"
    using library_okD(5)[OF assms(1)] i by (auto simp: items_filed_def)
  then obtain c where "item_collection db i = Some c"
    unfolding item_collection_def by (metis (mono_tags, lifting) find_None_iff not_None_eq)
  moreover have "item_known i" using library_okD(4)[OF assms(1) i] by (simp add: item_ok_def item_known_def)
  ultimately show ?case using Cons
    by (auto simp: items_with_names_def List.map_filter_simps with_name_sel item_known_with_name)
qed (simp add: items_with_names_def List.map_filter_simps)

lemma user_items_unique: "library_ok db \<Longrightarrow> distinct (map item_position (user_items uid db))"
proof -
  assume ok: "library_ok db"
  have "map si_id (user_items uid db) = map si_id (filter (\<lambda>i. si_user i = uid) (lib_items db))"
    using items_with_names_all[OF ok] by (auto simp: user_items_def)
  then have "distinct (map si_id (user_items uid db))"
    using library_okD(3)[OF ok] by (simp add: distinct_map_filter)
  then show ?thesis by (auto simp: distinct_map inj_on_def)
qed

lemma user_items_known: "library_ok db \<Longrightarrow> r \<in> set (user_items uid db) \<Longrightarrow> item_known r"
  using items_with_names_all[of db "filter (\<lambda>i. si_user i = uid) (lib_items db)"] by (auto simp: user_items_def)

lemma after_item: "(si_created_at i, si_id i) < (t, k) \<longleftrightarrow> NewestFirst t k < item_position i"
  by (auto simp: less_newest_first_def)

lemma list_pool_run:
  assumes "0 < n" and "n \<le> 50" and "q db = limit_rows (page_limit_of n) xs" and "xs = rest key rows cur"
    and "\<And>r. r \<in> set rows \<Longrightarrow> encode [r] = Inr (tok r)"
    and "\<And>zs. zs \<noteq> [] \<Longrightarrow> encode zs = encode [last zs]"
  shows "outcome_of (fst (run (call (pool (reading q) fail_internal (\<lambda>rows. ret (build_page rows n))) fail (finish_page encode)) db [])) =
         keyset_page key tok (nat n) rows cur"
proof -
  have "encode zs = Inr (tok (last zs))" if "zs \<noteq> []" "set zs \<subseteq> set xs" for zs
    using assms(6)[OF that(1)] assms(5)[of "last zs"] subsetD[OF that(2) last_in_set[OF that(1)]]
    by (simp add: assms(4) set_rest)
  from finish_page_run[where encode = encode and tok = tok and xs = xs, OF assms(1,2) this assms(4)] show ?thesis
    using assms(1-3) page_limit_of_small[of n]
    by (simp add: run_def conn_of_def call_simps pool_def next_fate_def advance_def reading_def limit_rows_def
        case_prod_beta)
qed

lemma fetch_items_page:
  assumes "codec_ok cdc" and "library_ok db" and "pred_option item_known cur"
  shows "fetch_items cdc uid limit db (map_option (item_token cdc) cur) =
     keyset_page item_position (item_token cdc)
       (nat (list_limit saved_item_list_default_limit saved_item_list_max_limit limit))
       (user_items uid db) (map_option item_position cur)"
proof -
  let ?n = "list_limit saved_item_list_default_limit saved_item_list_max_limit limit"
  have n: "0 < ?n" "?n \<le> 50"
    using list_limit_bounds by (auto simp: saved_item_list_default_limit_def saved_item_list_max_limit_def)
  have tok: "encode_items_cursor cdc [r] = Inr (item_token cdc r)" if "r \<in> set (user_items uid db)" for r
    using items_cursor_roundtrip(1)[OF assms(1) user_items_known[OF assms(2) that]] .
  note page = list_pool_run[where key = item_position and rows = "user_items uid db" and tok = "item_token cdc"
      and encode = "encode_items_cursor cdc", OF n _ _ tok encode_items_last]
  show ?thesis
  proof (cases cur)
    case None
    have "rest item_position (user_items uid db) None = sort_key item_position (user_items uid db)"
      by (simp add: rest_def beyond_def)
    with None show ?thesis
      by (simp add: fetch_items_def list_saved_items_def Let_def with_cursor_def repo_list_saved_items_def
          q_list_saved_items_first_def user_items_def[symmetric] page)
  next
    case (Some i)
    with assms(3) have i: "item_known i" by simp
    obtain c where c: "decode_items_cursor cdc (item_token cdc i) = Inr c"
      "cursor_time c = si_created_at i" "cursor_item c = si_id i"
      using items_cursor_roundtrip(3)[OF assms(1) i] by blast
    have "rest item_position (user_items uid db) (Some (item_position i)) =
          sort_key item_position (filter (\<lambda>r. (si_created_at r, si_id r) < (si_created_at i, si_id i)) (user_items uid db))"
      by (simp only: rest_def beyond_def[abs_def] after_item option.case)
    with Some items_cursor_roundtrip(2)[OF assms(1) i] show ?thesis
      by (simp add: fetch_items_def list_saved_items_def Let_def with_cursor_def repo_list_saved_items_def c
          q_list_saved_items_after_row_def user_items_def[symmetric] page)
  qed
qed

interpretation items: keyset_listing item_position "\<lambda>db. codec_ok cdc \<and> library_ok db" "user_items uid" item_known
    "item_token cdc" "nat (list_limit saved_item_list_default_limit saved_item_list_max_limit limit)"
    "fetch_items cdc uid limit" for cdc uid limit
proof unfold_locales
  show "0 < nat (list_limit saved_item_list_default_limit saved_item_list_max_limit limit)"
    using list_limit_bounds by (auto simp: saved_item_list_default_limit_def saved_item_list_max_limit_def)
qed (auto simp: user_items_unique user_items_known fetch_items_page)

section \<open>The items of a collection\<close>

definition collection_items :: "uuid \<Rightarrow> uuid \<Rightarrow> library_db \<Rightarrow> saved_item list" where
  "collection_items uid cid db = filter (\<lambda>i. si_collection i = cid \<and> si_user i = uid) (lib_items db)"

definition fetch_collection_items ::
  "library_codec \<Rightarrow> uuid \<Rightarrow> uuid \<Rightarrow> int \<Rightarrow> library_db \<Rightarrow> string option \<Rightarrow> saved_item list \<times> string option" where
  "fetch_collection_items cdc uid cid limit db cur =
     outcome_of (map_sum id snd (fst
       (run (list_saved_items_in_collection cdc uid cid limit (case cur of None \<Rightarrow> '''' | Some t \<Rightarrow> t)) db [])))"

text \<open>A collection that is gone has no items left: the request is refused, and there is nothing to list.\<close>

lemma no_collection_no_items:
  assumes "library_ok db" and "q_get_collection cid uid db = Inl e"
  shows "collection_items uid cid db = []"
proof -
  from assms(2) have "filter (\<lambda>c. c_id c = cid \<and> c_user c = uid) (lib_collections db) = []"
    by (auto simp: q_get_collection_def reading_def first_row_def split: list.splits)
  then show ?thesis using library_okD(5)[OF assms(1)]
    by (fastforce simp: items_filed_def collection_items_def filter_empty_conv)
qed

lemma collection_items_unique: "library_ok db \<Longrightarrow> distinct (map item_position (collection_items uid cid db))"
  using library_okD(3)[of db] by (auto simp: collection_items_def distinct_map inj_on_def)

lemma collection_items_known: "library_ok db \<Longrightarrow> r \<in> set (collection_items uid cid db) \<Longrightarrow> item_known r"
  using library_okD(4)[of db r] by (auto simp: collection_items_def item_known_def item_ok_def)

lemma pool_read_run:
  "fst (run (pool (reading q) on_err k) db []) = (case q db of
      Inl e \<Rightarrow> fst (on_err e \<lparr>stored = db, work = db, sched = []\<rparr>)
    | Inr x \<Rightarrow> fst (k x \<lparr>stored = db, work = db, sched = []\<rparr>))"
  by (simp add: run_def conn_of_def pool_def next_fate_def advance_def reading_def case_prod_beta split: sum.split)

lemma pool_read_at:
  "pool (reading q) on_err k \<lparr>stored = db, work = w, sched = []\<rparr> = (case q db of
      Inl e \<Rightarrow> on_err e \<lparr>stored = db, work = w, sched = []\<rparr>
    | Inr x \<Rightarrow> k x \<lparr>stored = db, work = w, sched = []\<rparr>)"
  by (simp add: pool_def next_fate_def advance_def reading_def split: sum.split)

lemma call_finish_run:
  "map_sum id snd (fst (call (finish_page encode p) fail (\<lambda>page. ret (row, page)) c)) = fst (finish_page encode p c)"
  by (auto simp: finish_page_def call_def ret_def fail_def fail_internal_def split: sum.split)

lemma fetch_collection_items_page:
  fixes cur :: "saved_item option"
  assumes "codec_ok cdc" and "library_ok db" and "pred_option item_known cur"
  shows "fetch_collection_items cdc uid cid limit db (map_option (item_token cdc) cur) =
     keyset_page item_position (item_token cdc)
       (nat (list_limit collection_items_default_limit collection_items_max_limit limit))
       (collection_items uid cid db) (map_option item_position cur)"
proof -
  let ?n = "list_limit collection_items_default_limit collection_items_max_limit limit"
  let ?rows = "collection_items uid cid db"
  have n: "0 < ?n" "?n \<le> 50"
    using list_limit_bounds by (auto simp: collection_items_default_limit_def collection_items_max_limit_def)
  have enc: "encode_items_cursor cdc zs = Inr (item_token cdc (last zs))"
    if "zs \<noteq> []" "set zs \<subseteq> set (rest item_position ?rows k)" for zs :: "saved_item list" and k
    using encode_items_last[OF that(1), of cdc]
      items_cursor_roundtrip(1)[OF assms(1) collection_items_known[OF assms(2), of _ uid cid]]
      subsetD[OF that(2) last_in_set[OF that(1)]] by (simp add: set_rest)
  have page: "outcome_of (fst (finish_page (encode_items_cursor cdc)
      (build_page (take (nat (?n + 1)) (rest item_position ?rows k)) ?n) c)) =
      keyset_page item_position (item_token cdc) (nat ?n) ?rows k" for k c
    by (rule finish_page_run[OF n _ refl]) (rule enc)
  have first: "rest item_position ?rows None = sort_key item_position ?rows" by (simp add: rest_def beyond_def)
  have after: "rest item_position ?rows (Some (item_position i)) =
      sort_key item_position (filter (\<lambda>r. si_collection r = cid \<and> si_user r = uid \<and>
        (si_created_at r, si_id r) < (si_created_at i, si_id i)) (lib_items db))" for i :: saved_item
    by (simp only: rest_def beyond_def[abs_def] after_item option.case collection_items_def filter_filter)
      (simp add: conj_ac)
  have limited: "limit_rows (page_limit_of ?n) xs = Inr (take (nat (?n + 1)) xs)" for xs :: "saved_item list"
    using n page_limit_of_small[of ?n] by (simp add: limit_rows_def)
  show ?thesis
  proof (cases "q_get_collection cid uid db")
    case (Inl e)
    then obtain c where "with_cursor (decode_items_cursor cdc) (case map_option (item_token cdc) cur of None \<Rightarrow> '''' | Some t \<Rightarrow> t)
        = (\<lambda>k :: _ \<Rightarrow> (library_db, collection \<times> saved_item page_result) prog. k c)"
      using assms(3) items_cursor_roundtrip(2,3)[OF assms(1)] by (cases cur) (fastforce simp: with_cursor_def)+
    then show ?thesis using Inl no_collection_no_items[OF assms(2) Inl]
      by (simp add: fetch_collection_items_def list_saved_items_in_collection_def Let_def repo_get_collection_def
          call_simps keyset_page_def rest_def outcome_of_def run_def conn_of_def pool_def next_fate_def advance_def
          fail_def fail_internal_def)
  next
    case (Inr x)
    then obtain row where row: "(first_row (filter (\<lambda>c. c_id c = cid \<and> c_user c = uid) (lib_collections db))) = Inr row"
      by (cases x) (auto simp: q_get_collection_def reading_Inr)
    show ?thesis
    proof (cases cur)
      case None
      then show ?thesis using page[of None]
        by (simp add: fetch_collection_items_def list_saved_items_in_collection_def Let_def with_cursor_def
            repo_get_collection_def repo_list_saved_items_in_collection_def list_saved_item_rows_def call_simps
            q_get_collection_def q_list_saved_items_in_collection_first_def pool_read_run pool_read_at row limited
            call_finish_run first collection_items_def[symmetric])
    next
      case (Some i)
      with assms(3) have i: "item_known i" by simp
      obtain c where c: "decode_items_cursor cdc (item_token cdc i) = Inr c"
        "cursor_time c = si_created_at i" "cursor_item c = si_id i"
        using items_cursor_roundtrip(3)[OF assms(1) i] by blast
      show ?thesis using Some items_cursor_roundtrip(2)[OF assms(1) i] page[of "Some (item_position i)"]
        unfolding after
        by (simp add: fetch_collection_items_def list_saved_items_in_collection_def Let_def with_cursor_def c
            repo_get_collection_def repo_list_saved_items_in_collection_def list_saved_item_rows_def call_simps
            q_get_collection_def q_list_saved_items_in_collection_after_row_def pool_read_run pool_read_at row limited
            call_finish_run del: less_prod_simp)
    qed
  qed
qed

interpretation collection_items: keyset_listing item_position "\<lambda>db. codec_ok cdc \<and> library_ok db"
    "collection_items uid cid" item_known "item_token cdc"
    "nat (list_limit collection_items_default_limit collection_items_max_limit limit)"
    "fetch_collection_items cdc uid cid limit" for cdc uid cid limit
proof unfold_locales
  show "0 < nat (list_limit collection_items_default_limit collection_items_max_limit limit)"
    using list_limit_bounds by (auto simp: collection_items_default_limit_def collection_items_max_limit_def)
qed (auto simp: collection_items_unique collection_items_known fetch_collection_items_page)

section \<open>Collections\<close>

text \<open>
  The position of a collection under each sort: the unsorted collection first, then the others by the
  sort's columns; the components of a descending order are negated.
\<close>

definition collection_position :: "string \<Rightarrow> 'a collection_scheme \<Rightarrow> nat \<times> int \<times> string \<times> int" where
  "collection_position srt c =
     (if is_unsorted c then (0, 0, '''', 0)
      else if srt = ''oldest'' then (1, c_created_at c, '''', int (c_id c))
      else if srt = ''name'' then (1, 0, pg_name_key (c_name c), int (c_id c))
      else (1, - c_created_at c, '''', - int (c_id c)))"

definition user_collections :: "uuid \<Rightarrow> library_db \<Rightarrow> listed_collection list" where
  "user_collections uid db =
     map (with_count collection_saved_items_count_cap db) (filter (\<lambda>c. c_user c = uid) (lib_collections db))"

definition fetch_collections ::
  "library_codec \<Rightarrow> uuid \<Rightarrow> string \<Rightarrow> int \<Rightarrow> library_db \<Rightarrow> string option \<Rightarrow> listed_collection list \<times> string option" where
  "fetch_collections cdc uid srt limit db cur =
     outcome_of (fst (run (list_collections cdc uid srt limit (case cur of None \<Rightarrow> '''' | Some t \<Rightarrow> t)) db []))"

definition collection_token :: "library_codec \<Rightarrow> string \<Rightarrow> listed_collection \<Rightarrow> string" where
  "collection_token cdc srt c = token_of (encode_collections_cursor cdc srt [c])"

definition collection_known :: "'a collection_scheme \<Rightarrow> bool" where
  "collection_known c \<longleftrightarrow> c_id c \<noteq> uuid_nil \<and> rfc3339_time (c_created_at c) \<and>
     trim_space (c_name c) = c_name c \<and> c_name c \<noteq> ''''"

lemma with_count_sel:
  "c_id (with_count cap db c) = c_id c" "c_user (with_count cap db c) = c_user c"
  "c_name (with_count cap db c) = c_name c" "c_created_at (with_count cap db c) = c_created_at c"
  "c_system_key (with_count cap db c) = c_system_key c"
  by (simp_all add: with_count_def collection.defs Let_def)

lemma with_count_position:
  "collection_position srt (with_count cap db c) = collection_position srt c"
  "collection_known (with_count cap db c) = collection_known c" "is_unsorted (with_count cap db c) = is_unsorted c"
  by (simp_all add: collection_position_def collection_known_def is_unsorted_def with_count_sel)

lemma one_unsorted:
  assumes "library_ok db" and "x \<in> set (lib_collections db)" and "y \<in> set (lib_collections db)"
    and "is_unsorted x" and "is_unsorted y" and "c_user x = c_user y"
  shows "x = y"
proof -
  have "c_user x \<in> set (lib_users db)" using library_okD(2)[OF assms(1)] assms(2) by (auto simp: unsorted_ok_def)
  then have "length (filter (\<lambda>c. c_user c = c_user x \<and> is_unsorted c) (lib_collections db)) = 1"
    using library_okD(2)[OF assms(1)] by (auto simp: unsorted_ok_def rows_where_def)
  then obtain z where "filter (\<lambda>c. c_user c = c_user x \<and> is_unsorted c) (lib_collections db) = [z]"
    by (auto simp: length_Suc_conv)
  then have "set (filter (\<lambda>c. c_user c = c_user x \<and> is_unsorted c) (lib_collections db)) = {z}" by simp
  then have "\<And>c. c \<in> set (lib_collections db) \<Longrightarrow> c_user c = c_user x \<Longrightarrow> is_unsorted c \<Longrightarrow> c = z" by auto
  then show ?thesis using assms(2-6) by metis
qed

lemma collection_position_inj:
  assumes "library_ok db"
  shows "distinct (map (collection_position srt) (filter (\<lambda>c. c_user c = uid) (lib_collections db)))"
proof -
  have "x = y" if xy: "x \<in> set (lib_collections db)" "y \<in> set (lib_collections db)" "c_user x = c_user y"
    "collection_position srt x = collection_position srt y" for x y
  proof (cases "is_unsorted x \<and> is_unsorted y")
    case True
    then show ?thesis using one_unsorted[OF assms xy(1,2)] xy(3) by blast
  next
    case False
    then have "c_id x = c_id y" using xy(4) by (auto simp: collection_position_def split: if_splits)
    then show ?thesis using collection_unique[OF assms xy(1,2)] by blast
  qed
  moreover have "distinct (lib_collections db)"
    using library_okD(1)[OF assms] by (auto simp: collections_ok_def distinct_map)
  ultimately show ?thesis by (auto simp: distinct_map inj_on_def)
qed

lemma user_collections_unique: "library_ok db \<Longrightarrow> distinct (map (collection_position srt) (user_collections uid db))"
  using collection_position_inj[of db srt uid] by (simp add: user_collections_def comp_def with_count_position)

lemma user_collections_known: "library_ok db \<Longrightarrow> r \<in> set (user_collections uid db) \<Longrightarrow> collection_known r"
  using library_okD(1)[of db]
  by (auto simp: user_collections_def with_count_sel collections_ok_def collection_ok_def collection_known_def)

lemma listed_rows:
  fixes key :: "collection \<Rightarrow> 'k::linorder"
  assumes "library_ok db"
    and "\<And>c. p c = beyond (collection_position srt) cur c"
    and "\<And>x y. p x \<Longrightarrow> p y \<Longrightarrow> c_user x = uid \<Longrightarrow> c_user y = uid \<Longrightarrow> x \<in> set (lib_collections db) \<Longrightarrow>
      y \<in> set (lib_collections db) \<Longrightarrow> collection_position srt x \<le> collection_position srt y \<longleftrightarrow> key x \<le> key y"
  shows "map (with_count collection_saved_items_count_cap db)
           (sort_key key (filter (\<lambda>c. c_user c = uid \<and> p c) (lib_collections db))) =
         rest (collection_position srt) (user_collections uid db) cur"
proof -
  let ?g = "with_count collection_saved_items_count_cap db"
  have p: "p c = beyond (collection_position srt) cur (?g c)" for c
    by (simp add: assms(2) beyond_def with_count_position split: option.split)
  have "distinct (map (\<lambda>c. collection_position srt (?g c)) (filter (\<lambda>c. c_user c = uid \<and> p c) (lib_collections db)))"
    using distinct_map_filter[OF collection_position_inj[OF assms(1), of srt uid], of p]
    by (simp add: with_count_position filter_filter conj_ac)
  then have "map ?g (sort_key key (filter (\<lambda>c. c_user c = uid \<and> p c) (lib_collections db))) =
        sort_key (collection_position srt) (map ?g (filter (\<lambda>c. c_user c = uid \<and> p c) (lib_collections db)))"
    by (intro sort_key_map_eq) (use assms(3) in \<open>auto simp: with_count_position\<close>)
  also have "map ?g (filter (\<lambda>c. c_user c = uid \<and> p c) (lib_collections db)) =
        filter (beyond (collection_position srt) cur) (user_collections uid db)"
    by (simp add: user_collections_def filter_map comp_def p filter_filter conj_ac)
  finally show ?thesis by (simp only: rest_def)
qed

lemma collections_cursor_roundtrip:
  assumes "codec_ok cdc" and "sort_is_valid srt" and "collection_known c"
  shows "encode_collections_cursor cdc srt [c] = Inr (collection_token cdc srt c)"
    and "collection_token cdc srt c \<noteq> ''''"
    and "\<exists>k. decode_collections_cursor cdc srt (collection_token cdc srt c) = Inr k \<and>
           has_position k = (\<not> is_unsorted c) \<and>
           (\<not> is_unsorted c \<longrightarrow> the (cc_id k) = c_id c \<and>
              (if srt = ''name'' then the (cc_value k) = pg_name_key (c_name c)
               else the (cc_timestamp k) = c_created_at c))"
proof -
  have name: "normalize_collection_name_for_cursor (c_name c) = pg_name_key (c_name c)"
    "pg_name_key (c_name c) \<noteq> ''''"
    using assms(3) btrim_trimmed[of "c_name c"]
    by (auto simp: normalize_collection_name_for_cursor_def pg_name_key_def collection_known_def to_lower_def)
  have time: "parse_time cdc (format_time cdc (c_created_at c)) = Inr (c_created_at c)"
    "format_time cdc (c_created_at c) \<noteq> ''''"
    using codec_okD(3)[OF assms(1)] assms(3) by (auto simp: collection_known_def)
  define k where "k = (if is_unsorted c then
          \<lparr>cc_version = current_version, cc_sort = srt, cc_group = Some cursor_group_after_unsorted,
           cc_value = None, cc_id = None, cc_timestamp = None\<rparr>
      else \<lparr>cc_version = current_version, cc_sort = srt, cc_group = Some cursor_group_after_row,
           cc_value = Some (format_cursor_value cdc srt c), cc_id = Some (c_id c), cc_timestamp = None\<rparr>)"
  have "cc_timestamp k = None" by (simp add: k_def)
  with codec_okD(2)[OF assms(1)] obtain b where
    b: "marshal_collections cdc k = Inr b" "b \<noteq> ''''" "unmarshal_collections cdc b = Inr k" by blast
  have enc: "encode_collections_cursor cdc srt [c] = Inr (base64_encode b)"
    using b(1) by (simp add: encode_collections_cursor_def cursor_encode_def k_def is_unsorted_def
        collection_is_unsorted_def split: if_splits)
  then have tok: "collection_token cdc srt c = base64_encode b" by (simp add: collection_token_def token_of_def)
  show "encode_collections_cursor cdc srt [c] = Inr (collection_token cdc srt c)"
    "collection_token cdc srt c \<noteq> ''''" using enc tok base64_encode_nonempty[OF b(2)] by simp_all
  have version: "cc_version k = current_version" "cc_sort k = srt" by (simp_all add: k_def)
  have dec: "decode_versioned (\<lambda>c. Some (cc_version c)) (unmarshal_collections cdc) (base64_encode b) = Inr k"
    by (simp add: decode_versioned_def cursor_decode_def check_version_def base64_roundtrip b version)
  show "\<exists>k. decode_collections_cursor cdc srt (collection_token cdc srt c) = Inr k \<and>
           has_position k = (\<not> is_unsorted c) \<and>
           (\<not> is_unsorted c \<longrightarrow> the (cc_id k) = c_id c \<and>
              (if srt = ''name'' then the (cc_value k) = pg_name_key (c_name c)
               else the (cc_timestamp k) = c_created_at c))"
    unfolding tok decode_collections_cursor_def dec using assms(2,3) name time
    by (auto simp: version k_def has_position_def format_cursor_value_def parse_cursor_timestamp_def
        cursor_group_after_unsorted_def cursor_group_after_row_def collection_known_def)
qed

lemma encode_collections_last:
  "zs \<noteq> [] \<Longrightarrow> encode_collections_cursor cdc srt zs = encode_collections_cursor cdc srt [last zs]"
  by (simp add: encode_collections_cursor_def)

lemma position_order:
  assumes "srt = ''oldest'' \<or> srt = ''name'' \<or> srt = ''newest''" and "\<not> is_unsorted x" and "\<not> is_unsorted y"
  shows "collection_position srt x \<le> collection_position srt y \<longleftrightarrow>
    (if srt = ''oldest'' then oldest_key x \<le> oldest_key y else if srt = ''name'' then name_key x \<le> name_key y
     else newest_key x \<le> newest_key y)"
  using assms by (auto simp: collection_position_def less_eq_newest_first_def)

lemma position_rank:
  assumes "library_ok db" and "x \<in> set (lib_collections db)" and "y \<in> set (lib_collections db)" and "c_user x = c_user y"
    and "\<And>x y. \<not> is_unsorted x \<Longrightarrow> \<not> is_unsorted y \<Longrightarrow> collection_position srt x \<le> collection_position srt y \<longleftrightarrow> key x \<le> key y"
  shows "collection_position srt x \<le> collection_position srt y \<longleftrightarrow> (unsorted_rank x, key x) \<le> (unsorted_rank y, key y :: 'k::linorder)"
proof (cases "is_unsorted x"; cases "is_unsorted y")
  assume "is_unsorted x" "is_unsorted y"
  then show ?thesis using one_unsorted[OF assms(1-3) _ _ assms(4)] by simp
next
  assume "is_unsorted x" "\<not> is_unsorted y"
  then show ?thesis by (auto simp: collection_position_def unsorted_rank_def is_unsorted_def)
next
  assume "\<not> is_unsorted x" "is_unsorted y"
  then show ?thesis by (auto simp: collection_position_def unsorted_rank_def is_unsorted_def)
next
  assume u: "\<not> is_unsorted x" "\<not> is_unsorted y"
  then have "unsorted_rank x = 1" "unsorted_rank y = 1" by (simp_all add: unsorted_rank_def is_unsorted_def)
  then show ?thesis using assms(5)[OF u] by simp
qed

text \<open>The three queries of a sort, as the rows left from a position.\<close>

lemma listed_from:
  fixes key :: "collection \<Rightarrow> 'k::linorder" and r :: listed_collection
  assumes "library_ok db" and "srt = ''oldest'' \<or> srt = ''name'' \<or> srt = ''newest''"
    and "\<And>x y. \<not> is_unsorted x \<Longrightarrow> \<not> is_unsorted y \<Longrightarrow> collection_position srt x \<le> collection_position srt y \<longleftrightarrow> key x \<le> key y"
  shows "list_collections_where (\<lambda>c. True) (\<lambda>c. (unsorted_rank c, key c)) collection_saved_items_count_cap uid l db =
           reading (\<lambda>_. limit_rows l (rest (collection_position srt) (user_collections uid db) None)) db"
    and "is_unsorted r \<Longrightarrow>
         list_collections_where (\<lambda>c. c_system_key c \<noteq> Some ''unsorted'') key collection_saved_items_count_cap uid l db =
           reading (\<lambda>_. limit_rows l (rest (collection_position srt) (user_collections uid db) (Some (collection_position srt r)))) db"
    and "\<not> is_unsorted r \<Longrightarrow> (\<And>c. \<not> is_unsorted c \<Longrightarrow> p c = (collection_position srt r < collection_position srt c)) \<Longrightarrow>
         list_collections_where (\<lambda>c. c_system_key c \<noteq> Some ''unsorted'' \<and> p c) key collection_saved_items_count_cap uid l db =
           reading (\<lambda>_. limit_rows l (rest (collection_position srt) (user_collections uid db) (Some (collection_position srt r)))) db"
proof -
  have all: "True = beyond (collection_position srt) None c" for c :: collection by (simp add: beyond_def)
  have "collection_position srt x \<le> collection_position srt y \<longleftrightarrow> (unsorted_rank x, key x) \<le> (unsorted_rank y, key y)"
    if "c_user x = uid" "c_user y = uid" "x \<in> set (lib_collections db)" "y \<in> set (lib_collections db)" for x y
    by (rule position_rank[OF assms(1) that(3,4) _ assms(3)]) (use that in simp_all)
  from listed_rows[OF assms(1) all this]
  show "list_collections_where (\<lambda>c. True) (\<lambda>c. (unsorted_rank c, key c)) collection_saved_items_count_cap uid l db =
           reading (\<lambda>_. limit_rows l (rest (collection_position srt) (user_collections uid db) None)) db"
    unfolding list_collections_where_def reading_def by simp
next
  assume "is_unsorted r"
  then have "(c_system_key c \<noteq> Some ''unsorted'') = beyond (collection_position srt) (Some (collection_position srt r)) c"
    for c :: collection by (auto simp: beyond_def collection_position_def is_unsorted_def)
  from listed_rows[OF assms(1) this assms(3)]
  show "list_collections_where (\<lambda>c. c_system_key c \<noteq> Some ''unsorted'') key collection_saved_items_count_cap uid l db =
           reading (\<lambda>_. limit_rows l (rest (collection_position srt) (user_collections uid db) (Some (collection_position srt r)))) db"
    unfolding list_collections_where_def reading_def by (simp add: is_unsorted_def)
next
  assume r: "\<not> is_unsorted r" "\<And>c. \<not> is_unsorted c \<Longrightarrow> p c = (collection_position srt r < collection_position srt c)"
  then have "(c_system_key c \<noteq> Some ''unsorted'' \<and> p c) =
      beyond (collection_position srt) (Some (collection_position srt r)) c" for c :: collection
    by (cases "is_unsorted c") (auto simp: beyond_def collection_position_def is_unsorted_def split: if_splits)
  from listed_rows[OF assms(1) this assms(3)]
  show "list_collections_where (\<lambda>c. c_system_key c \<noteq> Some ''unsorted'' \<and> p c) key collection_saved_items_count_cap uid l db =
           reading (\<lambda>_. limit_rows l (rest (collection_position srt) (user_collections uid db) (Some (collection_position srt r)))) db"
    unfolding list_collections_where_def reading_def by (simp add: is_unsorted_def)
qed

lemma rows_query:
  fixes r :: listed_collection
  assumes "library_ok db" and "sort_is_valid srt"
  shows "\<exists>q. list_first_page uid srt l = pool q fail_internal ret \<and>
             q db = reading (\<lambda>_. limit_rows l (rest (collection_position srt) (user_collections uid db) None)) db"
    and "is_unsorted r \<Longrightarrow> \<exists>q. list_after_unsorted uid srt l = pool q fail_internal ret \<and>
             q db = reading (\<lambda>_. limit_rows l (rest (collection_position srt) (user_collections uid db)
                      (Some (collection_position srt r)))) db"
    and "\<not> is_unsorted r \<Longrightarrow> the (cc_id k) = c_id r \<Longrightarrow>
           (if srt = ''name'' then the (cc_value k) = pg_name_key (c_name r) else the (cc_timestamp k) = c_created_at r) \<Longrightarrow>
           \<exists>q. list_after_position uid srt k l = pool q fail_internal ret \<and>
             q db = reading (\<lambda>_. limit_rows l (rest (collection_position srt) (user_collections uid db)
                      (Some (collection_position srt r)))) db"
proof -
  have srt: "srt = ''oldest'' \<or> srt = ''name'' \<or> srt = ''newest''" using assms(2) by (auto simp: sort_is_valid_def)
  have oldest: "srt = ''oldest'' \<Longrightarrow> \<not> is_unsorted x \<Longrightarrow> \<not> is_unsorted y \<Longrightarrow>
      collection_position srt x \<le> collection_position srt y \<longleftrightarrow> oldest_key x \<le> oldest_key y"
    and name: "srt = ''name'' \<Longrightarrow> \<not> is_unsorted x \<Longrightarrow> \<not> is_unsorted y \<Longrightarrow>
      collection_position srt x \<le> collection_position srt y \<longleftrightarrow> name_key x \<le> name_key y"
    and newest: "srt = ''newest'' \<Longrightarrow> \<not> is_unsorted x \<Longrightarrow> \<not> is_unsorted y \<Longrightarrow>
      collection_position srt x \<le> collection_position srt y \<longleftrightarrow> newest_key x \<le> newest_key y" for x y :: collection
    using position_order[OF srt] by auto
  note from_oldest = listed_from[OF assms(1) srt oldest] and from_name = listed_from[OF assms(1) srt name]
    and from_newest = listed_from[OF assms(1) srt newest]
  show "\<exists>q. list_first_page uid srt l = pool q fail_internal ret \<and>
             q db = reading (\<lambda>_. limit_rows l (rest (collection_position srt) (user_collections uid db) None)) db"
    using srt from_oldest(1) from_name(1) from_newest(1)
    by (auto simp: list_first_page_def collection_listing_defs)
  show "\<exists>q. list_after_unsorted uid srt l = pool q fail_internal ret \<and>
             q db = reading (\<lambda>_. limit_rows l (rest (collection_position srt) (user_collections uid db)
                      (Some (collection_position srt r)))) db" if "is_unsorted r"
    using srt from_oldest(2)[OF _ _ _ that] from_name(2)[OF _ _ _ that] from_newest(2)[OF _ _ _ that]
    by (auto simp: list_after_unsorted_def collection_listing_defs)
  show "\<exists>q. list_after_position uid srt k l = pool q fail_internal ret \<and>
             q db = reading (\<lambda>_. limit_rows l (rest (collection_position srt) (user_collections uid db)
                      (Some (collection_position srt r)))) db"
    if r: "\<not> is_unsorted r" and "the (cc_id k) = c_id r"
    "if srt = ''name'' then the (cc_value k) = pg_name_key (c_name r) else the (cc_timestamp k) = c_created_at r"
  proof -
    have less: "collection_position srt r < collection_position srt c \<longleftrightarrow>
      (if srt = ''oldest'' then oldest_key r < oldest_key c else if srt = ''name'' then name_key r < name_key c
       else oldest_key c < oldest_key r)" if "\<not> is_unsorted c" for c :: collection
      using srt r that by (auto simp: collection_position_def)
    from srt show ?thesis
    proof (elim disjE)
      assume s: "srt = ''oldest''"
      then show ?thesis using listed_from(3)[OF assms(1) srt oldest[OF s] r, of "\<lambda>c. oldest_key r < oldest_key c"] less that(2,3)
        by (auto simp: list_after_position_def collection_listing_defs simp del: less_prod_simp)
    next
      assume s: "srt = ''name''"
      then show ?thesis using listed_from(3)[OF assms(1) srt name[OF s] r, of "\<lambda>c. name_key r < name_key c"] less that(2,3)
        by (auto simp: list_after_position_def collection_listing_defs simp del: less_prod_simp)
    next
      assume s: "srt = ''newest''"
      then show ?thesis using listed_from(3)[OF assms(1) srt newest[OF s] r, of "\<lambda>c. oldest_key c < oldest_key r"] less that(2,3)
        by (auto simp: list_after_position_def collection_listing_defs simp del: less_prod_simp)
    qed
  qed
qed

lemma fetch_collections_page:
  assumes "codec_ok cdc" and "library_ok db" and "sort_is_valid srt" and "pred_option collection_known cur"
  shows "fetch_collections cdc uid srt limit db (map_option (collection_token cdc srt) cur) =
     keyset_page (collection_position srt) (collection_token cdc srt)
       (nat (list_limit collection_list_default_limit collection_list_max_limit limit))
       (user_collections uid db) (map_option (collection_position srt) cur)"
proof -
  let ?n = "list_limit collection_list_default_limit collection_list_max_limit limit"
  let ?rows = "user_collections uid db"
  have n: "0 < ?n" "?n \<le> 50"
    using list_limit_bounds by (auto simp: collection_list_default_limit_def collection_list_max_limit_def)
  have enc: "encode_collections_cursor cdc srt zs = Inr (collection_token cdc srt (last zs))"
    if "zs \<noteq> []" "set zs \<subseteq> set (rest (collection_position srt) ?rows k)" for zs k
    using encode_collections_last[OF that(1), of cdc srt]
      collections_cursor_roundtrip(1)[OF assms(1,3) user_collections_known[OF assms(2), of _ uid]]
      subsetD[OF that(2) last_in_set[OF that(1)]] by (simp add: set_rest)
  have page: "outcome_of (fst (finish_page (encode_collections_cursor cdc srt)
      (build_page (take (nat (?n + 1)) (rest (collection_position srt) ?rows k)) ?n) c)) =
      keyset_page (collection_position srt) (collection_token cdc srt) (nat ?n) ?rows k" for k c
    by (rule finish_page_run[OF n _ refl]) (rule enc)
  have limited: "limit_rows (page_limit_of ?n) xs = Inr (take (nat (?n + 1)) xs)" for xs :: "listed_collection list"
    using n page_limit_of_small[of ?n] by (simp add: limit_rows_def)
  have run: "outcome_of (fst (run (call (repo_list_collections uid srt ?n c) fail (finish_page (encode_collections_cursor cdc srt))) db [])) =
      keyset_page (collection_position srt) (collection_token cdc srt) (nat ?n) ?rows k"
    if "\<exists>q. list_collections_rows uid srt ?n c = pool q fail_internal ret \<and>
          q db = reading (\<lambda>_. limit_rows (page_limit_of ?n) (rest (collection_position srt) ?rows k)) db" for c k
    using that page[of k]
    by (auto simp: repo_list_collections_def call_simps run_def conn_of_def pool_def next_fate_def advance_def
        reading_def limited case_prod_beta)
  have "srt \<noteq> ''''" using assms(3) by (auto simp: sort_is_valid_def)
  then have fetch: "fetch_collections cdc uid srt limit db cur =
      outcome_of (fst (run (with_cursor (decode_collections_cursor cdc srt) (case cur of None \<Rightarrow> '''' | Some t \<Rightarrow> t) (\<lambda>c.
         call (repo_list_collections uid srt ?n c) fail (finish_page (encode_collections_cursor cdc srt)))) db []))" for cur
    using assms(3) by (simp add: fetch_collections_def list_collections_def Let_def)
  show ?thesis
  proof (cases cur)
    case None
    have "\<exists>q. list_collections_rows uid srt ?n None = pool q fail_internal ret \<and>
          q db = reading (\<lambda>_. limit_rows (page_limit_of ?n) (rest (collection_position srt) ?rows None)) db"
      using rows_query(1)[OF assms(2,3)] by (simp add: list_collections_rows_def Let_def)
    from run[OF this] None show ?thesis by (simp add: fetch with_cursor_def)
  next
    case (Some r)
    with assms(4) have "collection_known r" by simp
    note token = collections_cursor_roundtrip[OF assms(1,3) this]
    from token(3) obtain k where k: "decode_collections_cursor cdc srt (collection_token cdc srt r) = Inr k"
      "has_position k = (\<not> is_unsorted r)" "\<not> is_unsorted r \<longrightarrow> the (cc_id k) = c_id r \<and>
              (if srt = ''name'' then the (cc_value k) = pg_name_key (c_name r) else the (cc_timestamp k) = c_created_at r)"
      by blast
    have "\<exists>q. list_collections_rows uid srt ?n (Some k) = pool q fail_internal ret \<and>
          q db = reading (\<lambda>_. limit_rows (page_limit_of ?n) (rest (collection_position srt) ?rows (Some (collection_position srt r)))) db"
      using rows_query(2,3)[OF assms(2,3), of r] k(2,3)
      by (cases "is_unsorted r") (simp_all add: list_collections_rows_def Let_def)
    from run[OF this] show ?thesis using Some token(2) by (simp add: fetch with_cursor_def k(1))
  qed
qed

interpretation collections: keyset_listing "collection_position srt"
    "\<lambda>db. codec_ok cdc \<and> library_ok db \<and> sort_is_valid srt" "user_collections uid" collection_known
    "collection_token cdc srt" "nat (list_limit collection_list_default_limit collection_list_max_limit limit)"
    "fetch_collections cdc uid srt limit" for cdc uid srt limit
proof unfold_locales
  show "0 < nat (list_limit collection_list_default_limit collection_list_max_limit limit)"
    using list_limit_bounds by (auto simp: collection_list_default_limit_def collection_list_max_limit_def)
qed (auto simp: user_collections_unique user_collections_known fetch_collections_page)

end
