(* ===== verification/LibraryProps.thy ===== *)
theory LibraryProps
  imports LibraryPages
begin

text \<open>
  What the library promises: its invariant, what filing an item and deleting a collection do on every
  branch, and what a client that walks a listing receives.
\<close>

section \<open>A codec and a library to try things on\<close>

text \<open>Any injective coding will do for a codec; this one writes numbers in unary.\<close>

definition nats_text :: "nat list \<Rightarrow> string" where
  "nats_text ns = concat (map (\<lambda>n. replicate n CHR ''1'' @ '','') ns)"

fun text_nats :: "nat \<Rightarrow> string \<Rightarrow> nat list" where
  "text_nats n [] = []"
| "text_nats n (c # cs) = (if c = CHR '','' then n # text_nats 0 cs else text_nats (Suc n) cs)"

definition int_nats :: "int \<Rightarrow> nat list" where
  "int_nats i = [if i < 0 then 1 else 0, nat \<bar>i\<bar>]"
fun take_int :: "nat list \<Rightarrow> int \<times> nat list" where
  "take_int (s # n # ns) = (if s = 0 then int n else - int n, ns)"
| "take_int ns = (0, ns)"

definition string_nats :: "string \<Rightarrow> nat list" where
  "string_nats s = length s # map of_char s"
fun take_string :: "nat list \<Rightarrow> string \<times> nat list" where
  "take_string (n # ns) = (map char_of (take n ns), drop n ns)"
| "take_string [] = ('''', [])"

definition option_nats :: "('a \<Rightarrow> nat list) \<Rightarrow> 'a option \<Rightarrow> nat list" where
  "option_nats f x = (case x of None \<Rightarrow> [0] | Some y \<Rightarrow> 1 # f y)"
fun take_option :: "(nat list \<Rightarrow> 'a \<times> nat list) \<Rightarrow> nat list \<Rightarrow> 'a option \<times> nat list" where
  "take_option f (n # ns) = (if n = 0 then (None, ns) else map_prod Some id (f ns))"
| "take_option f [] = (None, [])"

definition items_nats :: "items_cursor \<Rightarrow> nat list" where
  "items_nats c = int_nats (ic_version c) @ option_nats string_nats (ic_value c) @ option_nats (\<lambda>n. [n]) (ic_id c)"
definition take_items :: "nat list \<Rightarrow> items_cursor" where
  "take_items ns =
     (let (v, ns) = take_int ns; (s, ns) = take_option take_string ns; (i, ns) = take_option (\<lambda>ns. (hd ns, tl ns)) ns
      in \<lparr>ic_version = v, ic_value = s, ic_id = i, ic_timestamp = None\<rparr>)"

definition collections_nats :: "collections_cursor \<Rightarrow> nat list" where
  "collections_nats c = int_nats (cc_version c) @ string_nats (cc_sort c) @ option_nats int_nats (cc_group c) @
     option_nats string_nats (cc_value c) @ option_nats (\<lambda>n. [n]) (cc_id c)"
definition take_collections :: "nat list \<Rightarrow> collections_cursor" where
  "take_collections ns =
     (let (v, ns) = take_int ns; (s, ns) = take_string ns; (g, ns) = take_option take_int ns;
          (w, ns) = take_option take_string ns; (i, ns) = take_option (\<lambda>ns. (hd ns, tl ns)) ns
      in \<lparr>cc_version = v, cc_sort = s, cc_group = g, cc_value = w, cc_id = i, cc_timestamp = None\<rparr>)"

definition demo_codec :: library_codec where
  "demo_codec =
     \<lparr>marshal_items = (\<lambda>c. Inr (nats_text (items_nats c))),
      unmarshal_items = (\<lambda>b. Inr (take_items (text_nats 0 b))),
      marshal_collections = (\<lambda>c. Inr (nats_text (collections_nats c))),
      unmarshal_collections = (\<lambda>b. Inr (take_collections (text_nats 0 b))),
      format_time = (\<lambda>t. nats_text (int_nats t)),
      parse_time = (\<lambda>s. Inr (fst (take_int (text_nats 0 s))))\<rparr>"

lemma text_nats_ones: "text_nats m (replicate n CHR ''1'' @ CHR '','' # s) = (m + n) # text_nats 0 s"
  by (induction n arbitrary: m) simp_all

lemma text_nats_text: "text_nats 0 (nats_text ns) = ns"
  by (induction ns) (simp_all add: nats_text_def text_nats_ones)

lemma nats_text_nonempty: "ns \<noteq> [] \<Longrightarrow> nats_text ns \<noteq> ''''"
  by (cases ns) (simp_all add: nats_text_def)

lemma take_int_nats: "take_int (int_nats i @ ns) = (i, ns)"
  by (simp add: int_nats_def)

lemma take_string_nats: "take_string (string_nats s @ ns) = (s, ns)"
  by (simp add: string_nats_def comp_def)

lemma take_option_nats:
  "(\<And>x ns. g (f x @ ns) = (x, ns)) \<Longrightarrow> take_option g (option_nats f x @ ns) = (x, ns)"
  by (simp add: option_nats_def split: option.split)

lemma demo_codec_ok: "codec_ok demo_codec"
proof -
  note takes = take_int_nats take_string_nats take_option_nats[OF take_string_nats] take_option_nats[OF take_int_nats]
  have id: "take_option (\<lambda>ns. (hd ns, tl ns)) (option_nats (\<lambda>n. [n]) x) = (x, [])" for x
    by (simp add: option_nats_def split: option.split)
  have "take_items (items_nats c) = c" if "ic_timestamp c = None" for c
    using that by (simp add: take_items_def items_nats_def takes id)
  moreover have "take_collections (collections_nats c) = c" if "cc_timestamp c = None" for c
    using that by (simp add: take_collections_def collections_nats_def takes id)
  moreover have "items_nats c \<noteq> []" "collections_nats k \<noteq> []" "int_nats t \<noteq> []" for c k t
    by (simp_all add: items_nats_def collections_nats_def int_nats_def)
  ultimately show ?thesis using take_int_nats[of _ "[]"]
    by (simp add: codec_ok_def demo_codec_def text_nats_text nats_text_nonempty)
qed

definition demo_calls :: "library_call list" where
  "demo_calls =
     [OpenLibrary 5 10 1, CreateSavedItem 6 21 (\<lambda>s. Inr ''www.example.org'') None 1 ''https://www.example.org/a'',
      CreateSavedItem 7 22 (\<lambda>s. Inr ''example.org'') None 1 ''https://example.org/b'',
      PutSavedItem 8 11 1 22 '' Wishlist '' ''create'']"

definition demo_library :: library_db where
  "demo_library = fold (\<lambda>x. run_library x []) demo_calls empty_library"

lemma fold_reachable: "library_reachable d \<Longrightarrow> \<forall>x\<in>set xs. sound_call x \<Longrightarrow> library_reachable (fold (\<lambda>x. run_library x []) xs d)"
  by (induction xs arbitrary: d) (auto intro: library_reachable_run)

lemma demo_library_reachable: "library_reachable demo_library"
  unfolding demo_library_def
proof (rule fold_reachable)
  show "library_reachable empty_library" by (rule reachable_from.start) simp
  show "\<forall>x\<in>set demo_calls. sound_call x"
    by (simp add: demo_calls_def rfc3339_time_def uuid_nil_def)
qed

lemma demo_library_items: "map si_id (lib_items demo_library) = [21, 22]" "map c_name (lib_collections demo_library) = [''Unsorted'', ''Wishlist'']"
  by code_simp+

section \<open>The invariant, spelled out\<close>

text \<open>
  C6. At every moment, whatever calls were made and whatever round trips failed: every saved item lies in
  exactly one collection, and it belongs to the item's owner; every user has exactly one unsorted
  collection; a user's collection names differ even when case and outer spaces are ignored; a name is
  trimmed and not empty; a collection of the user's own has no system key and a name of at most 100
  characters, and a system collection carries its own name, in lower case, as its system key.
\<close>

theorem library_is_sound:
  assumes "library_reachable db"
  shows "(\<forall>i\<in>set (lib_items db). \<exists>!c. c \<in> set (lib_collections db) \<and> c_id c = si_collection i \<and> c_user c = si_user i) \<and>
    (\<forall>u\<in>set (lib_users db). \<exists>!c. c \<in> set (lib_collections db) \<and> c_user c = u \<and> is_unsorted c) \<and>
    (\<forall>c\<in>set (lib_collections db). \<forall>c'\<in>set (lib_collections db).
       c_user c = c_user c' \<and> to_lower (btrim (c_name c)) = to_lower (btrim (c_name c')) \<longrightarrow> c = c') \<and>
    (\<forall>c\<in>set (lib_collections db).
       trim_space (c_name c) = c_name c \<and> c_name c \<noteq> '''' \<and> c_user c \<in> set (lib_users db) \<and>
       (c_type c = ''user'' \<and> c_system_key c = None \<and> rune_count (c_name c) \<le> 100 \<or>
        c_type c = ''system'' \<and> c_system_key c = Some (to_lower (btrim (c_name c)))))"
proof -
  have ok: "library_ok db" by (rule library.reachable_inv[OF assms])
  note cs = library_okD(1)[OF ok, unfolded collections_ok_def] and us = library_okD(2)[OF ok, unfolded unsorted_ok_def]
  have "\<exists>!c. c \<in> set (lib_collections db) \<and> c_id c = si_collection i \<and> c_user c = si_user i"
    if "i \<in> set (lib_items db)" for i
    using library_okD(5)[OF ok] collection_unique[OF ok] that unfolding items_filed_def by metis
  moreover have "\<exists>!c. c \<in> set (lib_collections db) \<and> c_user c = u \<and> is_unsorted c" if "u \<in> set (lib_users db)" for u
  proof -
    have "0 < rows_where (\<lambda>c. c_user c = u \<and> is_unsorted c) (lib_collections db)" using us that by simp
    then show ?thesis using one_unsorted[OF ok] unfolding rows_where_pos by metis
  qed
  moreover have "c = c'" if "c \<in> set (lib_collections db)" "c' \<in> set (lib_collections db)" "c_user c = c_user c'"
    "pg_name_key (c_name c) = pg_name_key (c_name c')" for c c'
    using distinct_map_filter_inj[OF cs[THEN conjunct2, THEN conjunct1] that(1,2)] that(3,4) by simp
  moreover have "trim_space (c_name c) = c_name c \<and> c_name c \<noteq> '''' \<and> c_user c \<in> set (lib_users db) \<and>
       (c_type c = ''user'' \<and> c_system_key c = None \<and> rune_count (c_name c) \<le> 100 \<or>
        c_type c = ''system'' \<and> c_system_key c = Some (pg_name_key (c_name c)))" if "c \<in> set (lib_collections db)" for c
  proof -
    have "collection_ok c" "c_user c \<in> set (lib_users db)" using cs us that by blast+
    then show ?thesis by (simp add: collection_ok_def collection_kind_ok_def collection_name_max_length_def)
  qed
  ultimately show ?thesis unfolding pg_name_key_def by blast
qed

theorem library_is_sound_witness:
  "map si_collection (lib_items demo_library) = [10, 11] \<and>
   (\<exists>!c. c \<in> set (lib_collections demo_library) \<and> c_user c = 1 \<and> is_unsorted c)"
proof -
  have "map si_collection (lib_items demo_library) = [10, 11]" "1 \<in> set (lib_users demo_library)" by code_simp+
  then show ?thesis using library_is_sound[OF demo_library_reachable] by blast
qed

section \<open>Filing an item\<close>

definition named_collection :: "uuid \<Rightarrow> string \<Rightarrow> library_db \<Rightarrow> collection option" where
  "named_collection uid name db =
     find (\<lambda>c. c_user c = uid \<and> pg_name_key (c_name c) = pg_name_key name) (lib_collections db)"

definition file_item :: "time \<Rightarrow> uuid \<Rightarrow> uuid \<Rightarrow> library_db \<Rightarrow> library_db" where
  "file_item now cid iid db = db\<lparr>lib_items := update_where (\<lambda>i. si_id i = iid) (filed now cid) (lib_items db)\<rparr>"

lemma first_row_find: "first_row (filter p xs) = (case find p xs of None \<Rightarrow> Inl err_no_rows | Some x \<Rightarrow> Inr x)"
  by (induction xs) (auto simp: first_row_def)

lemma no_rows_itself: "errors_is err_no_rows err_no_rows"
  by (simp add: errors_is_def error_chain_self)

lemma name_taken_named: "name_taken uid name db \<longleftrightarrow> named_collection uid name db \<noteq> None"
  by (auto simp: name_taken_def named_collection_def list_ex_iff find_None_iff)

lemma run_fail: "run (fail e) d fs = (Inl e, d)"
  by (simp add: run_def fail_def conn_of_def)

lemma call_fail_ret: "call p fail ret = p"
  by (simp add: fun_eq_iff call_def fail_def ret_def split: prod.split sum.split)

lemma owner_exists: "library_ok db \<Longrightarrow> owned_item iid uid db = Inr i \<Longrightarrow> uid \<in> set (lib_users db)"
  using owned_item_Inr[of iid uid db i] library_okD(2,5)[of db] by (fastforce simp: items_filed_def unsorted_ok_def)

lemma file_item_where:
  assumes "library_ok db" and "owned_item iid uid db = Inr i"
  shows "update_where (\<lambda>i. si_id i = iid \<and> si_user i = uid) f (lib_items db) = update_where (\<lambda>i. si_id i = iid) f (lib_items db)"
proof -
  have "si_user x = uid" if "x \<in> set (lib_items db)" "si_id x = iid" for x
    using distinct_map_filter_inj[OF library_okD(3)[OF assms(1)] that(1) owned_item_Inr(1)[OF assms(2)]] that(2)
      owned_item_Inr[OF assms(2)] by simp
  then show ?thesis by (auto simp: update_where_def)
qed

lemma move_saved_item_to:
  assumes "library_ok db" and "owned_item iid uid db = Inr i" and "owns_collection uid cid d"
    and "lib_items d = lib_items db"
  shows "q_move_saved_item now cid iid uid d = Inr (filed now cid i, file_item now cid iid d)"
  using assms(2-4) file_item_where[OF assms(1,2)] by (simp add: q_move_saved_item_def file_item_def owned_item_def)

lemmas steps_without_faults = run_def conn_of_def begin_tx_def exec_def commit_def next_fate_def advance_def
  ret_def fail_def fail_internal_def on_no_rows_def no_rows_itself

lemma owned_item_find:
  "owned_item iid uid db = (case find (\<lambda>i. si_id i = iid \<and> si_user i = uid) (lib_items db) of
     None \<Rightarrow> Inl err_no_rows | Some i \<Rightarrow> Inr i)"
  by (simp add: owned_item_def first_row_find)

lemma named_collectionD:
  "named_collection uid name db = Some c \<Longrightarrow> c \<in> set (lib_collections db) \<and> c_user c = uid"
  by (auto simp: named_collection_def find_Some_iff)

lemma repo_put_saved_item_run:
  assumes "library_ok db" and "cid \<notin> c_id ` set (lib_collections db)"
  shows "run (repo_put_saved_item now cid uid iid name intent) db [] =
    (case find (\<lambda>i. si_id i = iid \<and> si_user i = uid) (lib_items db) of
       None \<Rightarrow> (Inl (saved_item_not_found (Some err_no_rows)), db)
     | Some i \<Rightarrow>
         (case named_collection uid name db of
            None \<Rightarrow>
              (let c = \<lparr>c_id = cid, c_user = uid, c_name = name, c_type = ''user'', c_system_key = None,
                        c_created_at = now, c_updated_at = now\<rparr>
               in (Inr \<lparr>pu_collection = c, pu_created = True, pu_already = False,
                        pu_item = new_item_summary (filed now cid i)\<rparr>,
                   file_item now cid iid (db\<lparr>lib_collections := lib_collections db @ [c]\<rparr>)))
          | Some c \<Rightarrow>
              if intent = ''create'' then (Inl (collection_name_exists (Some err_no_rows)), db)
              else if si_collection i = c_id c then
                (Inr \<lparr>pu_collection = c, pu_created = False, pu_already = True,
                      pu_item = new_item_summary i\<rparr>, db)
              else
                (Inr \<lparr>pu_collection = c, pu_created = False, pu_already = False,
                      pu_item = new_item_summary (filed now (c_id c) i)\<rparr>, file_item now (c_id c) iid db)))"
proof (cases "find (\<lambda>i. si_id i = iid \<and> si_user i = uid) (lib_items db)")
  case None
  then show ?thesis
    by (simp add: repo_put_saved_item_flat q_lock_saved_item_def reading_def owned_item_find steps_without_faults)
next
  case (Some i)
  then have i: "owned_item iid uid db = Inr i" by (simp add: owned_item_find)
  have lock: "q_lock_saved_item iid uid db = Inr (i, db)" by (simp add: q_lock_saved_item_def reading_def i)
  show ?thesis
  proof (cases "named_collection uid name db")
    case None
    let ?c = "\<lparr>c_id = cid, c_user = uid, c_name = name, c_type = ''user'', c_system_key = None,
               c_created_at = now, c_updated_at = now\<rparr>"
    let ?d = "db\<lparr>lib_collections := lib_collections db @ [?c]\<rparr>"
    have create: "q_create_user_collection now cid uid name db = Inr (?c, ?d)"
      using None assms(2) owner_exists[OF assms(1) i] by (simp add: q_create_user_collection_def name_taken_named has_key_iff Let_def)
    have "si_collection i \<noteq> cid"
      using library_okD(5)[OF assms(1)] owned_item_Inr(1)[OF i] assms(2) by (force simp: items_filed_def)
    moreover have "q_move_saved_item now cid iid uid ?d = Inr (filed now cid i, file_item now cid iid ?d)"
      by (rule move_saved_item_to[OF assms(1) i]) (simp_all add: owns_collection_iff)
    ultimately show ?thesis using Some None lock create
      by (simp add: repo_put_saved_item_flat file_into_def steps_without_faults Let_def)
  next
    case taken: (Some c)
    have create: "q_create_user_collection now cid uid name db = Inl err_no_rows"
      using taken by (simp add: q_create_user_collection_def name_taken_named)
    have existing: "q_get_collection_by_name uid name db = Inr (c, db)"
      using taken by (simp add: q_get_collection_by_name_def reading_def first_row_find named_collection_def)
    have "q_move_saved_item now (c_id c) iid uid db = Inr (filed now (c_id c) i, file_item now (c_id c) iid db)"
      by (rule move_saved_item_to[OF assms(1) i]) (use named_collectionD[OF taken] in \<open>auto simp: owns_collection_iff\<close>)
    then show ?thesis using Some taken lock create existing
      by (simp add: repo_put_saved_item_flat file_into_def steps_without_faults)
  qed
qed



section \<open>Deleting a collection\<close>

text \<open>What the transaction commits, when it commits.\<close>

definition in_source :: "delete_params \<Rightarrow> saved_item \<Rightarrow> bool" where
  "in_source p i \<longleftrightarrow> si_collection i = dp_collection p \<and> si_user i = dp_user p"

definition collection_deleted :: "time \<Rightarrow> delete_params \<Rightarrow> library_db \<Rightarrow> library_db \<Rightarrow> bool" where
  "collection_deleted now p d d' \<longleftrightarrow>
     (\<exists>c\<in>set (lib_collections d). c_id c = dp_collection p \<and> c_user c = dp_user p \<and> \<not> is_unsorted c) \<and>
     (dp_action p = ''move'' \<and> dp_target p \<noteq> dp_collection p \<and> owns_collection (dp_user p) (dp_target p) d \<or>
      dp_action p = ''delete'') \<and>
     d' = d\<lparr>lib_collections := filter (\<lambda>c. \<not> (c_id c = dp_collection p \<and> c_user c = dp_user p)) (lib_collections d),
            lib_items := (if dp_action p = ''move'' then update_where (in_source p) (filed now (dp_target p)) (lib_items d)
                          else filter (\<lambda>i. \<not> in_source p i) (lib_items d))\<rparr>"

definition delete_outcome :: "time \<Rightarrow> delete_params \<Rightarrow> library_db \<Rightarrow> go_error + unit \<Rightarrow> library_db \<Rightarrow> bool" where
  "delete_outcome now p d r d' \<longleftrightarrow> d' = d \<and> isl r \<or> collection_deleted now p d d'"

lemma delete_source_wp:
  assumes "\<And>x w'. q_delete_collection (dp_collection p) (dp_user p) w = Inr (x, w') \<Longrightarrow> collection_deleted now p d w'"
  shows "wp (delete_outcome now p d) (delete_source p) d w"
  unfolding delete_source_def
  by (intro wp_intros) (auto simp: delete_outcome_def dest: assms)

lemma q_delete_collection_Inr:
  "q_delete_collection cid uid w = Inr (x, w') \<Longrightarrow>
     w' = w\<lparr>lib_collections := filter (\<lambda>c. \<not> (c_id c = cid \<and> c_user c = uid)) (lib_collections w)\<rparr>"
  by (auto simp: q_delete_collection_def split: if_splits)

lemma repo_delete_collection_wp:
  assumes "dp_action p = ''move'' \<and> dp_target p \<noteq> dp_collection p \<or> dp_action p = ''delete''"
  shows "wp (delete_outcome now p d) (repo_delete_collection now p) d w"
proof -
  have refuse: "delete_outcome now p d (Inl e) d" for e by (simp add: delete_outcome_def)
  have move: "collection_deleted now p d w'"
    if "q_get_collection (dp_collection p) (dp_user p) d = Inr (c, w1)" "\<not> collection_is_unsorted (c_system_key c)"
      "dp_action p = ''move''" "q_get_collection (dp_target p) (dp_user p) w1 = Inr (t, w2)"
      "q_move_saved_items now (dp_target p) (dp_collection p) (dp_user p) w2 = Inr (u, w3)"
      "q_delete_collection (dp_collection p) (dp_user p) w3 = Inr (x, w')" for c w1 t w2 u w3 x w'
  proof -
    note c = q_get_collection_Inr[OF that(1)] and t = q_get_collection_Inr[OF that(4)]
    have "w3 = d\<lparr>lib_items := update_where (in_source p) (filed now (dp_target p)) (lib_items d)\<rparr>"
      using that(5) c t unfolding in_source_def[abs_def] by (auto simp: q_move_saved_items_def split: if_splits)
    then show ?thesis using q_delete_collection_Inr[OF that(6)] c t that(2,3) assms
      by (auto simp: collection_deleted_def owns_collection_iff is_unsorted_def collection_is_unsorted_def)
  qed
  have remove: "collection_deleted now p d w'"
    if "q_get_collection (dp_collection p) (dp_user p) d = Inr (c, w1)" "\<not> collection_is_unsorted (c_system_key c)"
      "dp_action p \<noteq> ''move''" "q_delete_saved_items (dp_collection p) (dp_user p) w1 = Inr (u, w3)"
      "q_delete_collection (dp_collection p) (dp_user p) w3 = Inr (x, w')" for c w1 u w3 x w'
  proof -
    note c = q_get_collection_Inr[OF that(1)]
    have "w3 = d\<lparr>lib_items := filter (\<lambda>i. \<not> in_source p i) (lib_items d)\<rparr>"
      using that(4) c by (auto simp: q_delete_saved_items_def in_source_def)
    then show ?thesis using q_delete_collection_Inr[OF that(5)] c that(2,3) assms
      by (auto simp: collection_deleted_def is_unsorted_def collection_is_unsorted_def)
  qed
  show ?thesis unfolding repo_delete_collection_def
    by (intro wp_intros delete_source_wp refuse; (erule (5) move | erule (4) remove))
qed

interpretation delete_tx: repo_method "delete_collection now p" "collection_deleted now p" for now p
proof unfold_locales
  fix d fs r d'
  assume run: "run (delete_collection now p) d fs = (r, d')"
  have "wp (delete_outcome now p d) (delete_collection now p) d d"
    unfolding delete_collection_def
    by (intro wp_intros repo_delete_collection_wp) (auto simp: delete_outcome_def)
  from wp_run[OF this run] show "(d' = d \<and> isl r) \<or> collection_deleted now p d d'"
    by (simp add: delete_outcome_def)
qed

text \<open>
  C25. Deleting a collection, whatever round trip to the database fails: either nothing changed and an
  error is reported, or exactly the named collection of the user is gone. It was not the unsorted one.
  With \<open>move\<close>, no item is lost: the same items remain, those of the collection lie in the target, which
  is another collection of the same user, and the others are as they were. With \<open>delete\<close>, exactly the
  items of the collection are gone.
\<close>

theorem delete_collection_loses_nothing:
  assumes "library_reachable db" and "run (delete_collection now p) db fs = (r, db')"
  shows "(db' = db \<and> isl r) \<or>
    (\<exists>c\<in>set (lib_collections db). c_id c = dp_collection p \<and> c_user c = dp_user p \<and> \<not> is_unsorted c \<and>
       set (lib_collections db') = set (lib_collections db) - {c} \<and> lib_users db' = lib_users db \<and>
       (if dp_action p = ''move''
        then map si_id (lib_items db') = map si_id (lib_items db) \<and>
             (\<exists>t\<in>set (lib_collections db'). c_id t = dp_target p \<and> c_user t = dp_user p) \<and>
             list_all2 (\<lambda>i i'. i' = (if si_collection i = c_id c then filed now (dp_target p) i else i))
               (lib_items db) (lib_items db')
        else dp_action p = ''delete'' \<and> lib_items db' = filter (\<lambda>i. si_collection i \<noteq> c_id c) (lib_items db)))"
proof -
  have ok: "library_ok db" by (rule library.reachable_inv[OF assms(1)])
  show ?thesis
  proof (rule disjE[OF delete_tx.all_or_nothing[OF assms(2)]])
    assume del: "collection_deleted now p db db'"
    then obtain c where c: "c \<in> set (lib_collections db)" "c_id c = dp_collection p" "c_user c = dp_user p" "\<not> is_unsorted c"
      by (auto simp: collection_deleted_def)
    have only: "(c_id x = dp_collection p \<and> c_user x = dp_user p) = (x = c)" if "x \<in> set (lib_collections db)" for x
      using collection_unique[OF ok that c(1)] c by auto
    then have cs: "set (lib_collections db') = set (lib_collections db) - {c}"
      using del by (auto simp: collection_deleted_def)
    have src: "in_source p i = (si_collection i = c_id c)" if i: "i \<in> set (lib_items db)" for i
    proof -
      obtain k where "k \<in> set (lib_collections db)" "c_id k = si_collection i" "c_user k = si_user i"
        using library_okD(5)[OF ok] i by (auto simp: items_filed_def)
      then show ?thesis using collection_unique[OF ok _ c(1), of k] c(2,3) by (auto simp: in_source_def)
    qed
    have users: "lib_users db' = lib_users db" using del by (simp add: collection_deleted_def)
    show ?thesis
    proof (cases "dp_action p = ''move''")
      case True
      with del have items: "lib_items db' = update_where (in_source p) (filed now (dp_target p)) (lib_items db)"
        and target: "dp_target p \<noteq> dp_collection p" "owns_collection (dp_user p) (dp_target p) db"
        by (auto simp: collection_deleted_def)
      have "map si_id (lib_items db') = map si_id (lib_items db)" unfolding items by (rule map_filed)
      moreover have "\<exists>t\<in>set (lib_collections db'). c_id t = dp_target p \<and> c_user t = dp_user p"
        using target c(2) unfolding cs owns_collection_iff by auto
      moreover have "list_all2 (\<lambda>i i'. i' = (if si_collection i = c_id c then filed now (dp_target p) i else i))
               (lib_items db) (lib_items db')"
        unfolding items update_where_def by (simp add: list.rel_map list.rel_refl_strong src)
      ultimately show ?thesis using True c cs users by auto
    next
      case False
      with del have "dp_action p = ''delete''" "lib_items db' = filter (\<lambda>i. \<not> in_source p i) (lib_items db)"
        by (auto simp: collection_deleted_def)
      moreover have "filter (\<lambda>i. \<not> in_source p i) (lib_items db) = filter (\<lambda>i. si_collection i \<noteq> c_id c) (lib_items db)"
        by (rule filter_cong) (simp_all add: src)
      ultimately show ?thesis using c cs users False by auto
    qed
  qed simp
qed

definition demo_delete :: delete_params where
  "demo_delete = \<lparr>dp_user = 1, dp_collection = 11, dp_action = ''move'', dp_target = 10\<rparr>"

theorem delete_collection_loses_nothing_witness:
  "\<exists>db'. run (delete_collection 9 demo_delete) demo_library [] = (Inr (), db') \<and>
     map si_id (lib_items db') = [21, 22] \<and> map si_collection (lib_items db') = [10, 10]"
proof -
  obtain r db' where run: "run (delete_collection 9 demo_delete) demo_library [] = (r, db')" by (rule prod.exhaust)
  have "fst (run (delete_collection 9 demo_delete) demo_library []) = Inr ()"
    "map si_collection (lib_items (snd (run (delete_collection 9 demo_delete) demo_library []))) = [10, 10]"
    by code_simp+
  with run have r: "r = Inr ()" "map si_collection (lib_items db') = [10, 10]" by simp_all
  then show ?thesis
    using delete_collection_loses_nothing[OF demo_library_reachable run] run demo_library_items(1)
    by (auto simp: demo_delete_def)
qed

section \<open>Walking a listing\<close>

lemma follow_everything:
  assumes "\<exists>pages. follow f None = Some pages \<and> concat pages = rest key rows None \<and>
    length pages = Suc ((length (rest key rows None) - Suc 0) div limit)"
  shows "\<exists>pages. follow f None = Some pages \<and> concat pages = sort_key key rows \<and>
    length pages = Suc ((length rows - 1) div limit)"
  using assms by (simp add: rest_def beyond_def)

text \<open>
  C30. Every listing ends and is complete. A client that follows \<open>next_cursor\<close> from the first page on
  tables that stand still stops, after as many requests as there are pages of the effective limit, and has
  received every row exactly once and in the order of the listing: the items of a user newest first, the
  items of a collection newest first, and the collections with the unsorted one first and the rest in the
  order of the sort asked for. The limit is the default for a non-positive request and at most the maximum.
\<close>

theorem listings_end:
  assumes "library_reachable db" and "codec_ok cdc" and "sort_is_valid srt"
  shows "(\<exists>pages. follow (fetch_items cdc uid limit db) None = Some pages \<and>
       concat pages = sort_key item_position (user_items uid db) \<and>
       length pages = Suc ((length (user_items uid db) - 1) div nat (list_limit 20 50 limit))) \<and>
    (\<exists>pages. follow (fetch_collection_items cdc uid cid limit db) None = Some pages \<and>
       concat pages = sort_key item_position (collection_items uid cid db) \<and>
       length pages = Suc ((length (collection_items uid cid db) - 1) div nat (list_limit 20 50 limit))) \<and>
    (\<exists>pages. follow (fetch_collections cdc uid srt limit db) None = Some pages \<and>
       concat pages = sort_key (collection_position srt) (user_collections uid db) \<and>
       length pages = Suc ((length (user_collections uid db) - 1) div nat (list_limit 20 50 limit)))"
proof -
  have ok: "library_ok db" by (rule library.reachable_inv[OF assms(1)])
  show ?thesis
    using follow_everything[OF items.follow_all[of cdc db None uid limit, simplified, OF conjI[OF assms(2) ok]]]
      follow_everything[OF collection_items.follow_all[of cdc db None uid cid limit, simplified, OF conjI[OF assms(2) ok]]]
      follow_everything[OF collections.follow_all[of cdc db srt None uid limit, simplified,
          OF conjI[OF assms(2) conjI[OF ok assms(3)]]]]
    by (simp add: saved_item_list_default_limit_def saved_item_list_max_limit_def collection_items_default_limit_def
        collection_items_max_limit_def collection_list_default_limit_def collection_list_max_limit_def)
qed

theorem listings_end_witness:
  "\<exists>pages. follow (fetch_items demo_codec 1 1 demo_library) None = Some pages \<and>
     map si_id (concat pages) = [22, 21] \<and> length pages = 2"
proof -
  have "map si_id (sort_key item_position (user_items 1 demo_library)) = [22, 21]"
    "length (user_items 1 demo_library) = 2" by code_simp+
  moreover have "sort_is_valid ''name''" by (simp add: sort_is_valid_def)
  from listings_end[OF demo_library_reachable demo_codec_ok this, of 1 1, THEN conjunct1] obtain pages
    where "follow (fetch_items demo_codec 1 1 demo_library) None = Some pages"
    "concat pages = sort_key item_position (user_items 1 demo_library)"
    "length pages = Suc ((length (user_items 1 demo_library) - 1) div nat (list_limit 20 50 1))" by blast
  ultimately show ?thesis by (simp add: list_limit_def)
qed

text \<open>
  A listing is dependable while the library changes. Whatever happens between the requests (items
  saved, filed, deleted, collections deleted), a client that walks its saved items to the end receives no
  item twice and in strictly newest-first order, receives only items that were there at one of its
  requests, and misses no item that was there at all of them.
\<close>

theorem walk_misses_nothing_stable:
  assumes "codec_ok cdc" and "\<forall>db\<in>set dbs. library_reachable db"
    and "walk (fetch_items cdc uid limit) dbs None = Some rows"
  shows "sorted_wrt (<) (map item_position rows) \<and> distinct (map item_position rows) \<and>
    (\<forall>r\<in>set rows. \<exists>db\<in>set dbs. r \<in> set (user_items uid db)) \<and>
    (\<forall>p. (\<forall>db\<in>set dbs. p \<in> item_position ` set (user_items uid db)) \<longrightarrow> p \<in> item_position ` set rows)"
proof -
  have ok: "\<forall>db\<in>set dbs. codec_ok cdc \<and> library_ok db"
    using assms(1,2) library.reachable_inv by blast
  have "walk (fetch_items cdc uid limit) dbs (map_option (item_token cdc) (None :: listed_item option)) = Some rows"
    using assms(3) by simp
  note walk = items.walk_through_changes[OF this ok, simplified]
  from walk[THEN conjunct1] have "distinct (map item_position rows)" by (simp add: strict_sorted_iff)
  with walk show ?thesis by blast
qed

theorem walk_misses_nothing_stable_witness:
  "\<exists>later rows. later = run_library (PutSavedItem 9 12 1 21 ''Later'' ''existing'') [] demo_library \<and>
     walk (fetch_items demo_codec 1 1) [demo_library, later] None = Some rows \<and>
     sorted_wrt (<) (map item_position rows) \<and> map si_id rows = [22, 21]"
proof -
  define later where "later = run_library (PutSavedItem 9 12 1 21 ''Later'' ''existing'') [] demo_library"
  have reachable: "library_reachable later" unfolding later_def
    by (rule library_reachable_run[OF demo_library_reachable]) (simp add: rfc3339_time_def uuid_nil_def)
  have ok: "library_ok demo_library" "library_ok later"
    using library.reachable_inv[OF demo_library_reachable] library.reachable_inv[OF reachable] by this+
  have "map (\<lambda>r. (si_created_at r, si_id r)) (rest item_position (user_items 1 demo_library) None) = [(7, 22), (6, 21)]"
    by code_simp
  moreover have "map si_id (rest item_position (user_items 1 later) (Some (NewestFirst 7 22))) = [21]"
    unfolding later_def by code_simp
  ultimately obtain a b b' where rests: "rest item_position (user_items 1 demo_library) None = [a, b]"
    "item_position a = NewestFirst 7 22" "rest item_position (user_items 1 later) (Some (item_position a)) = [b']" "si_id b' = 21"
    by auto
  have "item_known a" using rests(2) by (simp add: item_known_def uuid_nil_def rfc3339_time_def)
  then have "fetch_items demo_codec 1 1 demo_library None = ([a], Some (item_token demo_codec a))"
    "fetch_items demo_codec 1 1 later (Some (item_token demo_codec a)) = ([b'], None)"
    using fetch_items_page[OF demo_codec_ok ok(1), of None 1 1] fetch_items_page[OF demo_codec_ok ok(2), of "Some a" 1 1] rests
    by (simp_all add: keyset_page_def list_limit_def saved_item_list_max_limit_def Let_def)
  then have rows: "walk (fetch_items demo_codec 1 1) [demo_library, later] None = Some [a, b']" "map si_id [a, b'] = [22, 21]"
    using rests(2,4) by simp_all
  have "\<forall>db\<in>set [demo_library, later]. library_reachable db" using demo_library_reachable reachable by simp
  from walk_misses_nothing_stable[OF demo_codec_ok this rows(1)] have "sorted_wrt (<) (map item_position [a, b'])"
    by (rule conjunct1)
  with rows show ?thesis by (intro exI[of _ later] exI[of _ "[a, b']"] conjI later_def)
qed

end
