(* ===== verification/JobProps.thy ===== *)
theory JobProps
  imports LibraryProps
begin

text \<open>
  What the background jobs promise: what organising an item does on every branch and under every
  fault, what enrichment may touch, how the two follow each other, and when the queue retries.
\<close>

section \<open>Organising\<close>

text \<open>The collection an item is in, and whether it is the unsorted one.\<close>

definition filed_unsorted :: "library_db \<Rightarrow> saved_item \<Rightarrow> bool" where
  "filed_unsorted db i \<longleftrightarrow>
     list_ex (\<lambda>c. c_id c = si_collection i \<and> c_user c = si_user i \<and> is_unsorted c) (lib_collections db)"

definition platform_collection :: "time \<Rightarrow> uuid \<Rightarrow> uuid \<Rightarrow> string \<Rightarrow> collection" where
  "platform_collection now cid uid platform =
     \<lparr>c_id = cid, c_user = uid, c_name = platform, c_type = ''system'',
      c_system_key = Some (to_lower platform), c_created_at = now, c_updated_at = now\<rparr>"

definition add_collection :: "collection \<Rightarrow> library_db \<Rightarrow> library_db" where
  "add_collection c db = db\<lparr>lib_collections := lib_collections db @ [c]\<rparr>"

lemma item_by_id_row: "item_by_id iid db = (case row_with si_id iid (lib_items db) of None \<Rightarrow> Inl err_no_rows | Some i \<Rightarrow> Inr i)"
  by (simp add: item_by_id_def first_row_find row_with_def)

lemma filter_by_id:
  assumes "library_ok db"
  shows "filter (\<lambda>i. si_id i = iid) (lib_items db) = (case row_with si_id iid (lib_items db) of None \<Rightarrow> [] | Some i \<Rightarrow> [i])"
proof (cases "row_with si_id iid (lib_items db)")
  case None
  then have "iid \<notin> si_id ` set (lib_items db)" by (simp add: row_with_None_iff)
  then show ?thesis by (auto simp: None filter_empty_conv)
next
  case (Some i)
  have "i \<in> set (filter (\<lambda>i. si_id i = iid) (lib_items db))" using row_with_SomeD[OF Some] by simp
  moreover have "length (filter (\<lambda>i. si_id i = iid) (lib_items db)) \<le> 1"
    using rows_where_unique[OF library_okD(3)[OF assms], of "\<lambda>i. si_id i = iid" iid] by (simp add: rows_where_def)
  ultimately have "filter (\<lambda>i. si_id i = iid) (lib_items db) = [i]"
    by (cases "filter (\<lambda>i. si_id i = iid) (lib_items db)") simp_all
  then show ?thesis using Some by simp
qed

lemma item_collection_row:
  assumes "library_ok db" and "i \<in> set (lib_items db)"
  obtains c where "item_collection db i = Some c" "c \<in> set (lib_collections db)" "c_id c = si_collection i"
    "c_user c = si_user i" "filed_unsorted db i \<longleftrightarrow> is_unsorted c"
proof -
  obtain c where c: "c \<in> set (lib_collections db)" "c_id c = si_collection i" "c_user c = si_user i"
    using library_okD(5)[OF assms(1)] assms(2) unfolding items_filed_def by blast
  then have "item_collection db i \<noteq> None" by (auto simp: item_collection_def find_None_iff)
  then obtain k where k: "item_collection db i = Some k" by blast
  then have k': "k \<in> set (lib_collections db)" "c_id k = si_collection i" "c_user k = si_user i"
    by (auto simp: item_collection_def find_Some_iff)
  have "x = k" if "x \<in> set (lib_collections db)" "c_id x = si_collection i" for x
    using collection_unique[OF assms(1), of x k] k' that by simp
  then have "filed_unsorted db i \<longleftrightarrow> is_unsorted k"
    using k' unfolding filed_unsorted_def list_ex_iff by blast
  with k k' show ?thesis using that by blast
qed

lemma q_lock_for_organization_row:
  assumes "library_ok db"
  shows "q_lock_for_organization iid db =
    (case row_with si_id iid (lib_items db) of
       None \<Rightarrow> Inl err_no_rows
     | Some i \<Rightarrow> Inr (organizing_row i (the (item_collection db i)), db))"
proof (cases "row_with si_id iid (lib_items db)")
  case (Some i)
  then obtain c where "item_collection db i = Some c"
    using item_collection_row[OF assms, of i] row_with_SomeD[OF Some] by metis
  then show ?thesis using Some
    by (simp add: q_lock_for_organization_def filter_by_id[OF assms] reading_def map_filter_simps first_row_def)
qed (simp add: q_lock_for_organization_def filter_by_id[OF assms] reading_def map_filter_simps first_row_def)

lemma q_get_for_organization: "q_get_collection_for_organization uid name db =
    (case named_collection uid name db of None \<Rightarrow> Inl err_no_rows | Some c \<Rightarrow> Inr (c, db))"
  by (simp add: q_get_collection_for_organization_def reading_def first_row_find named_collection_def split: option.split)

text \<open>A name in lower case that is not the reserved one never leads to the unsorted collection.\<close>

lemma named_not_unsorted:
  assumes "library_ok db" and "named_collection uid name db = Some c" and "platform_ok name"
    and "organize_key name \<noteq> ''unsorted''"
  shows "\<not> is_unsorted c"
proof
  assume "is_unsorted c"
  have c: "c \<in> set (lib_collections db)" "pg_name_key (c_name c) = pg_name_key name"
    using assms(2) by (auto simp: named_collection_def find_Some_iff)
  then have "collection_kind_ok c" using library_okD(1)[OF assms(1)] by (simp add: collections_ok_def collection_ok_def)
  then have "pg_name_key (c_name c) = ''unsorted''" using \<open>is_unsorted c\<close> by (auto simp: collection_kind_ok_def is_unsorted_def)
  moreover have "pg_name_key name = organize_key name"
    using assms(3) btrim_trimmed by (simp add: pg_name_key_def organize_key_def platform_ok_def)
  ultimately show False using c(2) assms(4) by simp
qed

text \<open>System keys are names, so a free name has a free key.\<close>

lemma system_key_free:
  assumes "library_ok db" and "named_collection uid name db = None" and "platform_ok name"
  shows "\<not> list_ex (\<lambda>c. c_user c = uid \<and> c_system_key c = Some (system_key_for_platform name)) (lib_collections db)"
proof
  assume "list_ex (\<lambda>c. c_user c = uid \<and> c_system_key c = Some (system_key_for_platform name)) (lib_collections db)"
  then obtain c where c: "c \<in> set (lib_collections db)" "c_user c = uid" "c_system_key c = Some (system_key_for_platform name)"
    by (auto simp: list_ex_iff)
  then have "collection_kind_ok c" using library_okD(1)[OF assms(1)] by (simp add: collections_ok_def collection_ok_def)
  then have "pg_name_key (c_name c) = system_key_for_platform name" using c(3) by (auto simp: collection_kind_ok_def)
  also have "\<dots> = pg_name_key name"
    using assms(3) btrim_trimmed by (simp add: pg_name_key_def system_key_for_platform_def organize_key_def platform_ok_def)
  finally show False using assms(2) c(1,2) by (auto simp: named_collection_def find_None_iff)
qed

lemma move_for_organization_to:
  assumes "library_ok db" and "owned_item iid uid db = Inr i" and "owns_collection uid cid d"
    and "lib_items d = lib_items db"
  shows "q_move_for_organization now cid iid uid d = Inr (iid, file_item now cid iid d)"
  using assms(2-4) file_item_where[OF assms(1,2)] owned_item_Inr(2)[OF assms(2)]
  by (simp add: q_move_for_organization_def file_item_def owned_item_def)

lemma owned_item_row:
  assumes "library_ok db" and "row_with si_id iid (lib_items db) = Some i"
  shows "owned_item iid (si_user i) db = Inr i"
proof -
  have "filter (\<lambda>x. si_id x = iid \<and> si_user x = si_user i) (lib_items db)
      = filter (\<lambda>x. si_user x = si_user i) (filter (\<lambda>x. si_id x = iid) (lib_items db))"
    by (simp add: conj_commute)
  then show ?thesis by (simp add: owned_item_def filter_by_id[OF assms(1)] assms(2) first_row_def)
qed

lemma organize_platform_run:
  assumes ok: "library_ok db" and fresh: "cid \<notin> c_id ` set (lib_collections db)"
    and i: "row_with si_id iid (lib_items db) = Some i" "si_user i = uid" and p: "platform_ok platform"
    and c: "oi_collection locked = si_collection i" "filed_unsorted db i"
  shows "organize_platform now cid iid uid locked platform \<lparr>stored = db, work = db, sched = []\<rparr> =
    (if organize_key platform = ''unsorted'' then (Inl reserved_name_error, \<lparr>stored = db, work = db, sched = []\<rparr>)
     else case named_collection uid platform db of
       Some c \<Rightarrow> (Inr OutcomeMoved,
         \<lparr>stored = file_item now (c_id c) iid db, work = file_item now (c_id c) iid db, sched = []\<rparr>)
     | None \<Rightarrow>
        (let d = file_item now cid iid (add_collection (platform_collection now cid uid platform) db)
         in (Inr OutcomeCollectionCreated, \<lparr>stored = d, work = d, sched = []\<rparr>)))"
proof (cases "organize_key platform = ''unsorted''")
  case True
  then show ?thesis by (simp add: organize_platform_def fail_def)
next
  case False
  have owned: "owned_item iid uid db = Inr i" using owned_item_row[OF ok i(1)] i(2) by simp
  show ?thesis
  proof (cases "named_collection uid platform db")
    case None
    let ?c = "platform_collection now cid uid platform"
    let ?d = "add_collection ?c db"
    have create: "q_create_system_collection now cid uid platform (system_key_for_platform platform) db = Inr (?c, ?d)"
      using None fresh owner_exists[OF ok owned] system_key_free[OF ok None p] p
      by (simp add: q_create_system_collection_def name_taken_named has_key_iff Let_def platform_collection_def
          add_collection_def system_key_for_platform_def organize_key_def platform_ok_def)
    have "si_collection i \<noteq> cid"
      using library_okD(5)[OF ok] owned_item_Inr(1)[OF owned] fresh by (force simp: items_filed_def)
    moreover have "q_move_for_organization now cid iid uid ?d = Inr (iid, file_item now cid iid ?d)"
      by (rule move_for_organization_to[OF ok owned]) (simp_all add: owns_collection_iff add_collection_def platform_collection_def)
    ultimately show ?thesis using False None create
      by (simp add: organize_platform_def organize_into_def q_get_for_organization steps_without_faults c Let_def platform_collection_def)
  next
    case (Some k)
    have "si_collection i \<noteq> c_id k"
    proof
      assume same: "si_collection i = c_id k"
      obtain x where x: "x \<in> set (lib_collections db)" "c_id x = si_collection i" "is_unsorted x"
        using c(2) by (auto simp: filed_unsorted_def list_ex_iff)
      then have "x = k" using collection_unique[OF ok] named_collectionD[OF Some] same by simp
      then show False using named_not_unsorted[OF ok Some p False] x(3) by simp
    qed
    moreover have "q_move_for_organization now (c_id k) iid uid db = Inr (iid, file_item now (c_id k) iid db)"
      by (rule move_for_organization_to[OF ok owned]) (use named_collectionD[OF Some] in \<open>auto simp: owns_collection_iff\<close>)
    ultimately show ?thesis using False Some
      by (simp add: organize_platform_def organize_into_def q_get_for_organization steps_without_faults c)
  qed
qed

lemma organize_flat:
  "organize_saved_item now cid iid uid =
     begin_tx fail_internal
      (exec (q_lock_for_organization iid) (on_no_rows (\<lambda>_. worker_item_not_found)) (\<lambda>locked.
       if oi_user locked \<noteq> uid then fail (ownership_mismatch_error iid uid)
       else if \<not> enrichment_completed locked then commit fail_internal (ret OutcomeEnrichmentNotCompleted)
       else if \<not> item_has_platform locked then commit fail_internal (ret OutcomeNoPlatform)
       else if \<not> in_unsorted locked then commit fail_internal (ret OutcomeNotInUnsorted)
       else organize_platform now cid iid uid locked (trim_space (the (oi_platform locked)))))"
  by (simp only: organize_saved_item_def call_fail_ret repo_organize_saved_item_def organize_platform_flat)

lemma organize_run:
  assumes ok: "library_ok db" and fresh: "cid \<notin> c_id ` set (lib_collections db)"
  shows "run (organize_saved_item now cid iid uid) db [] =
    (case row_with si_id iid (lib_items db) of
       None \<Rightarrow> (Inl worker_item_not_found, db)
     | Some i \<Rightarrow>
         if si_user i \<noteq> uid then (Inl (ownership_mismatch_error iid uid), db)
         else if si_status i \<noteq> ''completed'' then (Inr OutcomeEnrichmentNotCompleted, db)
         else (case si_platform i of
           None \<Rightarrow> (Inr OutcomeNoPlatform, db)
         | Some platform \<Rightarrow>
             if \<not> filed_unsorted db i then (Inr OutcomeNotInUnsorted, db)
             else if organize_key platform = ''unsorted'' then (Inl reserved_name_error, db)
             else (case named_collection uid platform db of
               Some c \<Rightarrow> (Inr OutcomeMoved, file_item now (c_id c) iid db)
             | None \<Rightarrow> (Inr OutcomeCollectionCreated,
                 file_item now cid iid (add_collection (platform_collection now cid uid platform) db)))))"

proof -
  show ?thesis
  proof (cases "row_with si_id iid (lib_items db)")
    case None
    then show ?thesis
      by (simp add: organize_flat q_lock_for_organization_row[OF ok] steps_without_faults)
  next
    case (Some i)
    obtain c where c: "item_collection db i = Some c" "filed_unsorted db i \<longleftrightarrow> is_unsorted c"
      using item_collection_row[OF ok, of i] row_with_SomeD[OF Some] by metis
    have p: "platform_ok platform" if "si_platform i = Some platform" for platform
      using library_okD(4)[OF ok, of i] row_with_SomeD[OF Some] that by (simp add: item_ok_def)
    show ?thesis
    proof (cases "si_user i = uid \<and> si_status i = ''completed'' \<and> si_platform i \<noteq> None \<and> filed_unsorted db i")
      case True
      then obtain platform where pl: "si_platform i = Some platform" by blast
      note trimmed = p[OF pl, unfolded platform_ok_def]
      have "oi_collection (organizing_row i c) = si_collection i" by (simp add: organizing_row_def)
      note org = organize_platform_run[OF ok fresh Some _ p[OF pl] this, of uid now]
      show ?thesis using True org trimmed pl c
        by (simp add: organize_flat q_lock_for_organization_row[OF ok] Some steps_without_faults organizing_row_def enrichment_completed_def
            item_has_platform_def in_unsorted_def unsorted_system_key_def is_unsorted_def Let_def
            split: option.split cong: if_cong)
    next
      case False
      then show ?thesis using p c
        by (auto simp: organize_flat q_lock_for_organization_row[OF ok] Some steps_without_faults organizing_row_def enrichment_completed_def
            item_has_platform_def in_unsorted_def unsorted_system_key_def is_unsorted_def platform_ok_def
            split: option.split)
    qed
  qed
qed

text \<open>
  Organising an item decides every case as documented, on the state it reads when it runs. A task for
  a deleted item, or one that names the wrong owner, is refused. An item whose enrichment is not completed, that
  has no platform, or that its owner has moved out of the unsorted collection, stays where it is. A platform called
  as the unsorted collection is refused. Otherwise the item moves to the owner's collection of the platform's
  name, up to case, whoever made it, or to a new system collection of that name. Nothing else changes.
\<close>

theorem organizing_decides:
  assumes "library_reachable db" and "cid \<notin> c_id ` set (lib_collections db)"
  shows "run (organize_saved_item now cid iid uid) db [] =
    (case row_with si_id iid (lib_items db) of
       None \<Rightarrow> (Inl worker_item_not_found, db)
     | Some i \<Rightarrow>
         if si_user i \<noteq> uid then (Inl (ownership_mismatch_error iid uid), db)
         else if si_status i \<noteq> ''completed'' then (Inr OutcomeEnrichmentNotCompleted, db)
         else (case si_platform i of
           None \<Rightarrow> (Inr OutcomeNoPlatform, db)
         | Some platform \<Rightarrow>
             if \<not> filed_unsorted db i then (Inr OutcomeNotInUnsorted, db)
             else if organize_key platform = ''unsorted'' then (Inl reserved_name_error, db)
             else (case named_collection uid platform db of
               Some c \<Rightarrow> (Inr OutcomeMoved, file_item now (c_id c) iid db)
             | None \<Rightarrow> (Inr OutcomeCollectionCreated,
                 file_item now cid iid (add_collection (platform_collection now cid uid platform) db)))))"
  by (rule organize_run[OF library.reachable_inv[OF assms(1)] assms(2)])

text \<open>A library whose item 21 has been enriched with the platform YouTube.\<close>

definition demo_youtube :: metadata where
  "demo_youtube = \<lparr>m_title = Some ''A video'', m_platform = Some ''YouTube'', m_description = None,
     m_image_url = None, m_canonical_url = None, m_site_name = None, m_author = None\<rparr>"

definition enriched_library :: library_db where
  "enriched_library = run_library (EnrichTask (\<lambda>_. Inr demo_youtube) None 9 (Inr 21)) [] demo_library"

lemma enriched_library_reachable: "library_reachable enriched_library"
proof -
  have "trim_space ''YouTube'' = ''YouTube''" by code_simp
  then show ?thesis unfolding enriched_library_def
    by (intro library_reachable_run[OF demo_library_reachable])
      (simp add: sound_enricher_def params_ok_def params_of_def demo_youtube_def platform_ok_def)
qed

theorem organizing_decides_witness:
  "run (organize_saved_item 10 13 21 1) enriched_library [] =
     (Inr OutcomeCollectionCreated,
      file_item 10 13 21 (add_collection (platform_collection 10 13 1 ''YouTube'') enriched_library)) \<and>
   run (organize_saved_item 10 13 22 1) enriched_library [] = (Inr OutcomeEnrichmentNotCompleted, enriched_library)"
proof -
  have fresh: "13 \<notin> c_id ` set (lib_collections enriched_library)" by code_simp
  have "map_option (\<lambda>i. (si_user i, si_status i, si_platform i, filed_unsorted enriched_library i))
          (row_with si_id 21 (lib_items enriched_library)) = Some (1, ''completed'', Some ''YouTube'', True)"
    "map_option (\<lambda>i. (si_user i, si_status i)) (row_with si_id 22 (lib_items enriched_library)) = Some (1, ''pending'')"
    "organize_key ''YouTube'' = ''youtube''" "named_collection 1 ''YouTube'' enriched_library = None"
    by code_simp+
  then show ?thesis unfolding organizing_decides[OF enriched_library_reachable fresh] by auto
qed

section \<open>Organising under faults\<close>

text \<open>The one change an organisation task may make.\<close>

definition organized :: "time \<Rightarrow> uuid \<Rightarrow> uuid \<Rightarrow> uuid \<Rightarrow> library_db \<Rightarrow> library_db \<Rightarrow> bool" where
  "organized now cid iid uid d d' \<longleftrightarrow>
     (\<exists>i platform. row_with si_id iid (lib_items d) = Some i \<and> si_user i = uid \<and> si_status i = ''completed'' \<and>
        si_platform i = Some platform \<and> filed_unsorted d i \<and> organize_key platform \<noteq> ''unsorted'' \<and>
        (\<exists>c. named_collection uid platform d = Some c \<and> d' = file_item now (c_id c) iid d \<or>
             named_collection uid platform d = None \<and> cid \<notin> c_id ` set (lib_collections d) \<and>
             c = platform_collection now cid uid platform \<and> d' = file_item now cid iid (add_collection c d)))"

definition organize_outcome ::
  "time \<Rightarrow> uuid \<Rightarrow> uuid \<Rightarrow> uuid \<Rightarrow> library_db \<Rightarrow> go_error + outcome \<Rightarrow> library_db \<Rightarrow> bool" where
  "organize_outcome now cid iid uid d r d' \<longleftrightarrow>
     d' = d \<and> (\<forall>x. r = Inr x \<longrightarrow> \<not> did_move x) \<or> organized now cid iid uid d d'"

lemma organize_into_wp:
  assumes "oi_collection locked \<noteq> c_id c"
    and "\<And>x w'. q_move_for_organization now (c_id c) iid uid w = Inr (x, w') \<Longrightarrow> organized now cid iid uid d w'"
  shows "wp (organize_outcome now cid iid uid d) (organize_into now iid uid locked created c) d w"
  unfolding organize_into_def if_not_P[OF assms(1)]
  by (intro wp_intros) (auto simp: organize_outcome_def dest: assms(2))

lemma q_move_for_organization_Inr:
  assumes "library_ok db" and "owned_item iid uid db = Inr i" and "lib_items d = lib_items db"
    and "q_move_for_organization now cid iid uid d = Inr (x, d')"
  shows "d' = file_item now cid iid d"
proof -
  have "owned_item iid uid d = Inr i" using assms(2,3) by (simp add: owned_item_def)
  then show ?thesis using assms(3,4) file_item_where[OF assms(1,2)]
    by (simp add: q_move_for_organization_def file_item_def split: if_splits)
qed

lemma organize_platform_wp:
  assumes ok: "library_ok d" and i: "row_with si_id iid (lib_items d) = Some i" "si_user i = uid"
    "si_status i = ''completed''" "si_platform i = Some platform" "filed_unsorted d i" and p: "platform_ok platform"
    and l: "oi_collection locked = si_collection i"
  shows "wp (organize_outcome now cid iid uid d) (organize_platform now cid iid uid locked platform) d d"
proof (cases "organize_key platform = ''unsorted''")
  case True
  then show ?thesis by (simp add: organize_platform_def wp_fail organize_outcome_def)
next
  case False
  have refuse: "organize_outcome now cid iid uid d (Inl e) d" for e by (simp add: organize_outcome_def)
  have owned: "owned_item iid uid d = Inr i" using owned_item_row[OF ok i(1)] i(2) by simp
  have existing: "wp (organize_outcome now cid iid uid d) (organize_into now iid uid locked created c) d d"
    if "named_collection uid platform d = Some c" for c created
  proof (rule organize_into_wp)
    obtain x where x: "x \<in> set (lib_collections d)" "c_id x = si_collection i" "is_unsorted x"
      using i(5) by (auto simp: filed_unsorted_def list_ex_iff)
    show "oi_collection locked \<noteq> c_id c"
      using collection_unique[OF ok, of x c] named_collectionD[OF that] named_not_unsorted[OF ok that p False] x l by auto
    show "organized now cid iid uid d w'" if "q_move_for_organization now (c_id c) iid uid d = Inr (y, w')" for y w'
      using q_move_for_organization_Inr[OF ok owned refl that] i False \<open>named_collection uid platform d = Some c\<close>
      by (auto simp: organized_def)
  qed
  have created: "wp (organize_outcome now cid iid uid d) (organize_into now iid uid locked True c) d w"
    if q: "q_create_system_collection now cid uid platform (system_key_for_platform platform) d = Inr (c, w)" for c w
  proof (rule organize_into_wp)
    have c: "c = platform_collection now cid uid platform" "w = add_collection c d" "cid \<notin> c_id ` set (lib_collections d)"
      "named_collection uid platform d = None"
      using q p by (auto simp: q_create_system_collection_def Let_def name_taken_named has_key_iff platform_collection_def
          add_collection_def system_key_for_platform_def organize_key_def platform_ok_def split: if_splits)
    show "oi_collection locked \<noteq> c_id c"
      using library_okD(5)[OF ok] owned_item_Inr(1)[OF owned] c(1,3) l
      by (force simp: items_filed_def platform_collection_def)
    show "organized now cid iid uid d w'" if "q_move_for_organization now (c_id c) iid uid w = Inr (y, w')" for y w'
      using q_move_for_organization_Inr[OF ok owned _ that] i False c
      by (auto simp: organized_def add_collection_def platform_collection_def)
  qed
  show ?thesis unfolding organize_platform_def if_not_P[OF False] q_get_for_organization
    by (intro wp_exec wp_if wp_fail_internal wp_fail wp_on_no_rows refuse)
      (auto simp: q_get_for_organization refuse intro: existing created split: option.splits)
qed

lemma organize_wp:
  assumes ok: "library_ok d"
  shows "wp (organize_outcome now cid iid uid d) (organize_saved_item now cid iid uid) d d"
  unfolding organize_flat
proof (intro wp_begin_tx wp_fail_internal wp_exec wp_on_no_rows)
  fix locked w assume q: "q_lock_for_organization iid d = Inr (locked, w)"
  have "row_with si_id iid (lib_items d) \<noteq> None"
    using q q_lock_for_organization_row[OF ok, of iid] by (auto split: option.splits)
  then obtain i where i: "row_with si_id iid (lib_items d) = Some i" by blast
  then have "Inr (organizing_row i (the (item_collection d i)), d) = q_lock_for_organization iid d"
    using q_lock_for_organization_row[OF ok, of iid] by simp
  also note q
  finally have "Inr (organizing_row i (the (item_collection d i)), d) = (Inr (locked, w) :: go_error + _)" .
  then have l: "locked = organizing_row i (the (item_collection d i))" and w: "w = d" by blast+
  obtain c where c: "item_collection d i = Some c" "filed_unsorted d i \<longleftrightarrow> is_unsorted c"
    using item_collection_row[OF ok, of i] row_with_SomeD[OF i] by metis
  have p: "platform_ok platform" if "si_platform i = Some platform" for platform
    using library_okD(4)[OF ok, of i] row_with_SomeD[OF i] that by (simp add: item_ok_def)
  have stay: "organize_outcome now cid iid uid d (Inl e) d" "\<not> did_move x \<Longrightarrow> organize_outcome now cid iid uid d (Inr x) d"
    for e x by (simp_all add: organize_outcome_def)
  have go: "wp (organize_outcome now cid iid uid d)
      (organize_platform now cid iid uid locked (trim_space (the (oi_platform locked)))) d d"
    if "\<not> oi_user locked \<noteq> uid" "\<not> \<not> enrichment_completed locked" "\<not> \<not> item_has_platform locked" "\<not> \<not> in_unsorted locked"
  proof -
    from that(3) obtain platform where pl: "si_platform i = Some platform"
      by (auto simp: l item_has_platform_def organizing_row_def)
    show ?thesis using organize_platform_wp[OF ok i _ _ pl _ p[OF pl], of uid locked now cid] that pl p[OF pl] c
      by (simp add: l organizing_row_def enrichment_completed_def in_unsorted_def unsorted_system_key_def is_unsorted_def
          platform_ok_def)
  qed
  show "wp (organize_outcome now cid iid uid d)
      (if oi_user locked \<noteq> uid then fail (ownership_mismatch_error iid uid)
       else if \<not> enrichment_completed locked then commit fail_internal (ret OutcomeEnrichmentNotCompleted)
       else if \<not> item_has_platform locked then commit fail_internal (ret OutcomeNoPlatform)
       else if \<not> in_unsorted locked then commit fail_internal (ret OutcomeNotInUnsorted)
       else organize_platform now cid iid uid locked (trim_space (the (oi_platform locked)))) d w"
    unfolding w by (intro wp_if wp_fail wp_commit wp_fail_internal wp_ret stay go) (simp_all add: did_move_def)
qed (simp_all add: organize_outcome_def)

lemma organized_leaves_unsorted:
  assumes ok: "library_ok d" and "organized now cid iid uid d d'"
  shows "\<not> organized now' cid' iid uid' d' d''"
proof
  assume "organized now' cid' iid uid' d' d''"
  then obtain j where j: "row_with si_id iid (lib_items d') = Some j" "filed_unsorted d' j" by (auto simp: organized_def)
  from assms(2) obtain i platform c where i: "row_with si_id iid (lib_items d) = Some i" "si_platform i = Some platform"
    and key: "organize_key platform \<noteq> ''unsorted''"
    and c: "named_collection uid platform d = Some c \<and> d' = file_item now (c_id c) iid d \<or>
      cid \<notin> c_id ` set (lib_collections d) \<and> c = platform_collection now cid uid platform \<and>
      d' = file_item now cid iid (add_collection c d)"
    unfolding organized_def by blast
  have p: "platform_ok platform" using library_okD(4)[OF ok, of i] row_with_SomeD[OF i(1)] i(2) by (simp add: item_ok_def)
  have "si_collection j = c_id c"
    using j(1) c i(1) row_with_SomeD[OF i(1)] by (auto simp: file_item_def filed_def add_collection_def platform_collection_def row_with_update_where
        dest: row_with_SomeD)
  then obtain x where x: "x \<in> set (lib_collections d')" "c_id x = c_id c" "is_unsorted x"
    using j(2) by (auto simp: filed_unsorted_def list_ex_iff)
  from c show False
  proof (elim disjE conjE)
    assume n: "named_collection uid platform d = Some c" and d': "d' = file_item now (c_id c) iid d"
    then have "x = c" using x collection_unique[OF ok, of x c] named_collectionD[OF n] by (simp add: file_item_def)
    then show False using named_not_unsorted[OF ok n p key] x(3) by simp
  next
    assume f: "cid \<notin> c_id ` set (lib_collections d)" and k: "c = platform_collection now cid uid platform"
      and d': "d' = file_item now cid iid (add_collection c d)"
    then have "x = c" using x by (auto simp: file_item_def add_collection_def platform_collection_def)
    then show False using x(3) key p by (simp add: k platform_collection_def is_unsorted_def organize_key_def platform_ok_def)
  qed
qed

text \<open>
  C24. Whatever round trips fail, an organisation task either leaves the library as it was, and then does not
  report a move, or makes exactly its one change: the item, and only it, goes from the unsorted collection to the
  platform's, which is created in the same transaction when the user has none. Repeated deliveries of the task, with
  any faults, file the item at most once.
\<close>

theorem organizing_is_atomic_and_happens_once:
  assumes "library_reachable d" and "run (organize_saved_item now cid iid uid) d fs = (r, d')"
    and "cid \<noteq> uuid_nil" and "rfc3339_time now"
    and "run (organize_saved_item now' cid' iid uid) d' fs' = (r', d'')"
  shows "(d' = d \<and> r \<noteq> Inr OutcomeMoved \<and> r \<noteq> Inr OutcomeCollectionCreated \<or> organized now cid iid uid d d') \<and>
    (d' = d \<or> d'' = d')"
proof -
  have ok: "library_ok d" by (rule library.reachable_inv[OF assms(1)])
  have one: "organize_outcome now cid iid uid d r d'" by (rule wp_run[OF organize_wp[OF ok] assms(2)])
  have "library_ok d'"
    using wp_run_snd[where I = library_ok, OF handle_organize_task_inv[OF ok assms(3,4)], of "Inr (iid, uid)" fs] assms(2)
      wp_run[OF repo_organize_saved_item_inv[OF ok assms(3,4)] assms(2)[unfolded organize_saved_item_def call_fail_ret]]
    by simp
  then have "organize_outcome now' cid' iid uid d' r' d''" using wp_run[OF organize_wp assms(5)] by blast
  then show ?thesis using one organized_leaves_unsorted[OF ok]
    unfolding organize_outcome_def did_move_def by blast
qed

theorem organizing_is_atomic_and_happens_once_witness:
  "\<exists>r' d'' fs'. run (organize_saved_item 10 13 21 1) enriched_library [] =
     (Inr OutcomeCollectionCreated,
      file_item 10 13 21 (add_collection (platform_collection 10 13 1 ''YouTube'') enriched_library)) \<and>
   run (organize_saved_item 11 14 21 1)
     (file_item 10 13 21 (add_collection (platform_collection 10 13 1 ''YouTube'') enriched_library)) fs' = (r', d'') \<and>
   d'' = file_item 10 13 21 (add_collection (platform_collection 10 13 1 ''YouTube'') enriched_library)"
proof -
  let ?d' = "file_item 10 13 21 (add_collection (platform_collection 10 13 1 ''YouTube'') enriched_library)"
  have first: "run (organize_saved_item 10 13 21 1) enriched_library [] = (Inr OutcomeCollectionCreated, ?d')"
  proof -
    have fresh: "13 \<notin> c_id ` set (lib_collections enriched_library)" by code_simp
    have "map_option (\<lambda>i. (si_user i, si_status i, si_platform i, filed_unsorted enriched_library i))
          (row_with si_id 21 (lib_items enriched_library)) = Some (1, ''completed'', Some ''YouTube'', True)"
      "organize_key ''YouTube'' = ''youtube''" "named_collection 1 ''YouTube'' enriched_library = None"
      by code_simp+
    then show ?thesis
      unfolding organize_run[OF library.reachable_inv[OF enriched_library_reachable] fresh] by auto
  qed
  obtain r' d'' where again: "run (organize_saved_item 11 14 21 1) ?d' [AckLost] = (r', d'')" by fastforce
  have "map si_collection (lib_items ?d') \<noteq> map si_collection (lib_items enriched_library)" by code_simp
  then have "?d' \<noteq> enriched_library" by metis
  then have "d'' = ?d'"
    using organizing_is_atomic_and_happens_once[OF enriched_library_reachable first _ _ again]
    by (simp add: uuid_nil_def rfc3339_time_def)
  with first again show ?thesis by blast
qed

section \<open>Enriching\<close>

text \<open>What an enrichment writes: the result of the fetch, on its item only.\<close>

definition record_enrichment :: "time \<Rightarrow> failure + metadata \<Rightarrow> uuid \<Rightarrow> library_db \<Rightarrow> library_db" where
  "record_enrichment now answer iid d =
     d\<lparr>lib_items := update_where (\<lambda>i. si_id i = iid)
         (case answer of Inl _ \<Rightarrow> enrich_failed now | Inr m \<Rightarrow> enriched now (params_of m)) (lib_items d)\<rparr>"

definition enrich_task_outcome ::
  "time \<Rightarrow> failure + metadata \<Rightarrow> uuid \<Rightarrow> library_db \<Rightarrow> go_error + task_result \<Rightarrow> library_db \<Rightarrow> bool" where
  "enrich_task_outcome now answer iid d r d' \<longleftrightarrow>
     (d' = d \<and> r = Inr TaskRetry \<or> d' = record_enrichment now answer iid d \<and>
        (r = Inr TaskRetry \<or>
         r = Inr (case answer of Inl failure \<Rightarrow> settle_failure (IsFailure failure) | Inr _ \<Rightarrow> TaskDone)))"

lemma update_item_found:
  assumes "library_ok d" and "row_with si_id iid (lib_items d) = Some i"
  shows "update_item (\<lambda>i. si_id i = iid) f d
     = Inr (f i, d\<lparr>lib_items := update_where (\<lambda>i. si_id i = iid) f (lib_items d)\<rparr>)"
  by (simp add: update_item_def filter_by_id[OF assms(1)] assms(2) first_row_def)

lemma db_fault_retries: "settle_failure (PlainError e) = TaskRetry"
  by (simp add: settle_failure_def is_permanent_def)

lemma fault_is_not_gone: "\<not> errors_is (internal (Some DbFault)) err_saved_item_gone" "\<not> errors_is DbFault err_no_rows"
  by code_simp+

lemma handle_enrich_task_wp:
  assumes ok: "library_ok d" and "iid \<noteq> uuid_nil" and i: "row_with si_id iid (lib_items d) = Some i"
  shows "wp (enrich_task_outcome now (enricher (si_url i)) iid d) (handle_enrich_task enricher organizer now (Inr iid)) d d"
proof -
  let ?settled = "\<lambda>e. ret (if errors_is e err_saved_item_gone then TaskDone else settle_failure (PlainError e))"
  have fault: "wp (enrich_task_outcome now answer iid d) (?settled (internal (Some DbFault))) d' w"
    if "d' = d \<or> d' = record_enrichment now answer iid d" for answer d' w
    using that by (auto simp: enrich_task_outcome_def fault_is_not_gone db_fault_retries intro!: wp_ret)
  have get: "q_get_for_background_enrichment iid d = Inr (\<lparr>bi_id = si_id i, bi_user = si_user i, bi_url = si_url i\<rparr>, d)"
    by (simp add: q_get_for_background_enrichment_def reading_def item_by_id_row i)
  show ?thesis
  proof (cases "enricher (si_url i)")
    case (Inl failure)
    have put: "q_fail_background_enrichment now iid d = Inr (si_id i, record_enrichment now (Inl failure) iid d)"
      by (simp add: q_fail_background_enrichment_def update_item_found[OF ok i] record_enrichment_def enrich_failed_def)
    show ?thesis
      unfolding handle_enrich_task_def sum.case if_not_P[OF assms(2)] enrich_saved_item_def repo_get_for_background_def
        repo_fail_background_def repo_complete_background_def call_simps on_no_rows_def
      by (rule wp_pool)
        (auto simp: get put Inl fault_is_not_gone call_simps intro!: wp_pool wp_ret fault, 
         auto simp: enrich_task_outcome_def db_fault_retries)
  next
    case (Inr m)
    have put: "q_complete_background_enrichment now (params_of m) iid d
        = Inr ((si_id i, si_user i), record_enrichment now (Inr m) iid d)"
      by (simp add: q_complete_background_enrichment_def update_item_found[OF ok i] record_enrichment_def enriched_def)
    show ?thesis
      unfolding handle_enrich_task_def sum.case if_not_P[OF assms(2)] enrich_saved_item_def repo_get_for_background_def
        repo_fail_background_def repo_complete_background_def call_simps on_no_rows_def
      by (rule wp_pool)
        (auto simp: get put Inr fault_is_not_gone call_simps intro!: wp_pool wp_ret fault,
         auto simp: enrich_task_outcome_def db_fault_retries)
  qed
qed


definition gone_page :: failure where
  "gone_page = \<lparr>f_kind = status_failure_kind 410, f_status = 410, f_err = UnexpectedStatus 410\<rparr>"


section \<open>One after the other\<close>

lemma record_enrichment_row:
  assumes "row_with si_id iid (lib_items d) = Some i"
  shows "row_with si_id iid (lib_items (record_enrichment now answer iid d))
     = Some ((case answer of Inl _ \<Rightarrow> enrich_failed now | Inr m \<Rightarrow> enriched now (params_of m)) i)"
proof -
  have "si_id i = iid" using row_with_SomeD[OF assms] by simp
  then show ?thesis using assms
    by (cases answer) (simp_all add: record_enrichment_def row_with_update_where enrich_failed_def enriched_def)
qed

lemma enrich_saved_item_run:
  assumes "library_ok d" and "row_with si_id iid (lib_items d) = Some i" and "enricher (si_url i) = Inr m"
  shows "run (enrich_saved_item enricher organizer now iid) d [] =
    (Inr (Inr (schedule_organization organizer \<lparr>ci_item = iid, ci_user = si_user i, ci_platform = m_platform m\<rparr>)),
     record_enrichment now (Inr m) iid d)"
proof -
  have "si_id i = iid" using row_with_SomeD[OF assms(2)] by simp
  moreover have "ep_platform (params_of m) = m_platform m" by (simp add: params_of_def)
  ultimately show ?thesis
    by (simp add: enrich_saved_item_def repo_get_for_background_def repo_complete_background_def call_simps
        q_get_for_background_enrichment_def q_complete_background_enrichment_def reading_def item_by_id_row assms
        update_item_found[OF assms(1,2)] steps_without_faults pool_def record_enrichment_def enriched_def)
qed

lemma record_enrichment_ok: "library_ok d \<Longrightarrow> params_ok (params_of m) \<Longrightarrow> library_ok (record_enrichment now (Inr m) iid d)"
  unfolding record_enrichment_def sum.case
  by (rule library_ok_update) (simp_all add: enriched_def item_ok_def params_ok_def)

lemma filed_unsorted_enriched:
  "filed_unsorted (record_enrichment now (Inr m) iid d) (enriched now p i) = filed_unsorted d i"
  by (simp add: filed_unsorted_def record_enrichment_def enriched_def)

lemma file_item_row:
  assumes "row_with si_id iid (lib_items d) = Some i"
  shows "row_with si_id iid (lib_items (file_item now cid iid d)) = Some (filed now cid i)"
  using assms row_with_SomeD[OF assms] by (simp add: file_item_def row_with_update_where filed_def)



section \<open>Retries\<close>

lemma retry_doubling_closed:
  assumes "0 < delay"
  shows "retry_doubling n delay = min (delay * 2 ^ n) enrichment_retry_max_delay"
  using assms
proof (induction n arbitrary: delay)
  case (Suc n)
  have "(1 :: int) \<le> 2 * 2 ^ n" using one_le_power[of "2 :: int" "Suc n"] by simp
  then have "delay \<le> delay * (2 * 2 ^ n)" using Suc.prems by (simp add: mult_le_cancel_left1)
  then have "enrichment_retry_max_delay \<le> delay \<Longrightarrow> enrichment_retry_max_delay \<le> delay * 2 ^ Suc n"
    unfolding power_Suc by linarith
  then show ?case using Suc by (auto simp: min.absorb2 mult.assoc)
qed (auto simp: min_def)

text \<open>
  The waits between attempts: 30 seconds doubled at every retry, at most 30 minutes, and never further from that than
  the jitter of a fifth, whatever the die shows.
\<close>

theorem retry_delay_bounds:
  assumes "0 \<le> roll" and "roll < 1" and "0 \<le> n"
  shows "\<lfloor>of_int (min (30 * second * 2 ^ nat n) (30 * minute)) * (4 / 5 :: rat)\<rfloor> \<le> enrichment_retry_delay roll n \<and>
    enrichment_retry_delay roll n \<le> \<lfloor>of_int (min (30 * second * 2 ^ nat n) (30 * minute)) * (6 / 5 :: rat)\<rfloor> \<and>
    24 * second \<le> enrichment_retry_delay roll n \<and> enrichment_retry_delay roll n \<le> 36 * minute"
proof -
  define d where "d = min (30 * second * 2 ^ nat n) (30 * minute)"
  have "(1 :: int) \<le> 2 ^ nat n" by simp
  then have d: "30 * second \<le> d" "d \<le> 30 * minute" by (auto simp: d_def min_def)
  have v: "enrichment_retry_delay roll n = \<lfloor>of_int d + (roll * 2 - 1) * (of_int d * (1 / 5))\<rfloor>"
    by (simp add: enrichment_retry_delay_def jittered_retry_delay_def Let_def retry_doubling_closed
        enrichment_retry_base_delay_def enrichment_retry_max_delay_def enrichment_retry_jitter_def d_def)
  have d0: "0 \<le> (of_int d :: rat)" using d(1) by simp
  have "(- 1) * (of_int d * (1 / 5)) \<le> (roll * 2 - 1) * (of_int d * (1 / 5))"
    "(roll * 2 - 1) * (of_int d * (1 / 5)) \<le> 1 * (of_int d * (1 / 5))"
    using assms(1,2) d0 by (intro mult_right_mono; simp)+
  then have b: "of_int d * (4 / 5 :: rat) \<le> of_int d + (roll * 2 - 1) * (of_int d * (1 / 5))"
    "of_int d + (roll * 2 - 1) * (of_int d * (1 / 5)) \<le> of_int d * (6 / 5 :: rat)" by linarith+
  have "(of_int (24 * second) :: rat) \<le> of_int d * (4 / 5)" "of_int d * (6 / 5 :: rat) \<le> of_int (36 * minute)"
    using d by linarith+
  then have w: "of_int (24 * second) \<le> of_int d + (roll * 2 - 1) * (of_int d * (1 / 5))"
    "of_int d + (roll * 2 - 1) * (of_int d * (1 / 5)) \<le> of_int (36 * minute)" using b by linarith+
  show ?thesis unfolding d_def[symmetric] v
    by (intro conjI floor_mono b floor_mono[OF w(1), unfolded floor_of_int] floor_mono[OF w(2), unfolded floor_of_int])
qed

theorem retry_delay_bounds_witness:
  "enrichment_retry_delay (1 / 2) 1 = minute \<and> 24 * second \<le> enrichment_retry_delay (1 / 2) 1"
proof -
  have "enrichment_retry_delay (1 / 2) 1 = minute" by code_simp
  then show ?thesis using retry_delay_bounds[of "1 / 2" 1] by simp
qed

text \<open>
  The organisation queue does not wait as its constants say: the worker process installs the enrichment delay for
  every task, so the first retry of an organisation task comes after at least 24 seconds where a base of 5 seconds, 6 with
  jitter, is declared, and later ones wait past the declared maximum of a minute.
\<close>

theorem organization_retries_wait_like_enrichment:
  "worker_retry_delay OrganizeSavedItemTask roll n = enrichment_retry_delay roll n \<and>
   of_int organization_retry_base_delay * (1 + organization_retry_jitter)
     < of_int (worker_retry_delay OrganizeSavedItemTask 0 0) \<and>
   of_int organization_retry_max_delay * (1 + organization_retry_jitter)
     < of_int (worker_retry_delay OrganizeSavedItemTask 0 2)"
  unfolding worker_retry_delay_def
  by (intro conjI refl) code_simp+

section \<open>The two ends meet\<close>

text \<open>
  The extractor gives what the tables rely on: whatever a page declares, a platform that is reported is trimmed and
  not empty. So every enrichment with the code's own extractor is one of the calls the library invariant covers.
\<close>

lemma enrich_is_sound: "sound_enricher (enrich env request_ok fetch)"
proof -
  have "pred_option platform_ok (m_platform m)" if "enrich env request_ok fetch url = Inr m" for url m
  proof -
    from that obtain doc base where m: "m = select_metadata (e_url env) doc base"
      by (auto simp: enrich_def split: option.splits sum.splits)
    have "pred_option clean_text (m_platform m)" by (simp add: m select_metadata_def optional_text_ok)
    then show ?thesis
      by (rule option.pred_mono_strong) (simp add: platform_ok_def clean_text_trimmed, simp add: clean_text_def)
  qed
  then show ?thesis by (simp add: sound_enricher_def params_ok_def params_of_def)
qed

text \<open>
  The endpoint that files items follows no distinction of type: it files into a collection the worker made for a platform.
\<close>

theorem endpoint_files_into_platform_collections:
  "map si_collection (lib_items (snd (run (put_saved_item 11 14 1 22 ''youtube'' ''existing'')
     (file_item 10 13 21 (add_collection (platform_collection 10 13 1 ''YouTube'') enriched_library)) []))) = [13, 13]"
  by code_simp

end
