(* ===== verification/Passwords.thy ===== *)
theory Passwords
  imports PasswordWork Base64 "HOL-Library.Word"
begin

text \<open>
  The password hasher of \<open>internal/security/password.go\<close>: the PHC string a credential row stores, its
  reader with the bounds on what a stored string may ask for, and the three operations that derive a
  key, each under a slot of the password-work limiter. A byte is a \<open>char\<close>, the parameters keep their Go
  widths. Argon2 itself (\<open>golang.org/x/crypto/argon2\<close>) is the argument \<open>idkey\<close>, what the limiter answers
  is \<open>acquire\<close> (an error, or a slot), what the system's random source answers is \<open>rand\<close>. Each operation
  returns its result and the list of the slot and derivation events it caused, in order.
\<close>

section \<open>Parameters and the stored form\<close>

record argon2_params =
  memory :: "32 word"
  iterations :: "32 word"
  parallelism :: "8 word"

definition argon2_memory :: "32 word" where "argon2_memory = 64 * 1024"
definition argon2_iterations :: "32 word" where "argon2_iterations = 3"
definition argon2_parallelism :: "8 word" where "argon2_parallelism = 4"
definition argon2_salt_length :: nat where "argon2_salt_length = 16"
definition argon2_key_length :: "32 word" where "argon2_key_length = 32"
definition argon2_max_memory :: "32 word" where "argon2_max_memory = 128 * 1024"
definition argon2_max_iterations :: "32 word" where "argon2_max_iterations = 8"
definition phc_algorithm :: string where "phc_algorithm = ''argon2id''"
definition phc_version :: string where "phc_version = ''v=19''"

definition dummy_salt :: string where "dummy_salt = ''stash-it-dummy!!''"
definition dummy_password :: string where "dummy_password = ''stash-it-unknown-account''"

lemmas argon2_defs = argon2_memory_def argon2_iterations_def argon2_parallelism_def argon2_salt_length_def
  argon2_key_length_def argon2_max_memory_def argon2_max_iterations_def

definition active_params :: argon2_params where
  "active_params = \<lparr>memory = argon2_memory, iterations = argon2_iterations, parallelism = argon2_parallelism\<rparr>"

definition needs_rehash :: "argon2_params \<Rightarrow> bool" where
  "needs_rehash ps \<longleftrightarrow> memory ps < argon2_memory \<or> iterations ps < argon2_iterations
     \<or> parallelism ps < argon2_parallelism"

definition encode_phc :: "string \<Rightarrow> string \<Rightarrow> string" where
  "encode_phc salt hash =
     ''$'' @ phc_algorithm @ ''$'' @ phc_version @ ''$m='' @ decimal (unat argon2_memory) @ '',t=''
     @ decimal (unat argon2_iterations) @ '',p='' @ decimal (unat argon2_parallelism)
     @ ''$'' @ std_base64_encode salt @ ''$'' @ std_base64_encode hash"

text \<open>One \<open>key=value\<close> part; the loop of \<open>parseArgon2Params\<close> runs over the parts from the left.\<close>

definition parse_argon2_part :: "string \<Rightarrow> argon2_params \<Rightarrow> go_error + argon2_params" where
  "parse_argon2_part part ps =
     (case split_two CHR ''='' part of
        [key, text] \<Rightarrow>
          (case parse_uint 32 text of
             None \<Rightarrow> Inl (Sentinel ''invalid Argon2id parameter value'')
           | Some v \<Rightarrow>
             if v = 0 then Inl (Sentinel ''invalid Argon2id parameter value'')
             else if key = ''m'' then
               if v > unat argon2_max_memory then Inl (Sentinel ''Argon2id memory exceeds the maximum'')
               else Inr (ps\<lparr>memory := word_of_nat v\<rparr>)
             else if key = ''t'' then
               if v > unat argon2_max_iterations then Inl (Sentinel ''Argon2id iterations exceeds the maximum'')
               else Inr (ps\<lparr>iterations := word_of_nat v\<rparr>)
             else if key = ''p'' then
               if v > 255 then Inl (Sentinel ''invalid Argon2id parallelism'')
               else Inr (ps\<lparr>parallelism := word_of_nat v\<rparr>)
             else Inl (Sentinel ''unsupported Argon2id parameter''))
      | _ \<Rightarrow> Inl (Sentinel ''invalid Argon2id parameters''))"

fun parse_argon2_parts :: "string list \<Rightarrow> argon2_params \<Rightarrow> go_error + argon2_params" where
  "parse_argon2_parts [] ps = Inr ps"
| "parse_argon2_parts (part # parts) ps =
     (case parse_argon2_part part ps of Inl e \<Rightarrow> Inl e | Inr ps' \<Rightarrow> parse_argon2_parts parts ps')"

definition parse_argon2_params :: "string \<Rightarrow> go_error + argon2_params" where
  "parse_argon2_params encoded =
     (case parse_argon2_parts (split_on CHR '','' encoded) \<lparr>memory = 0, iterations = 0, parallelism = 0\<rparr> of
        Inl e \<Rightarrow> Inl e
      | Inr ps \<Rightarrow> if memory ps = 0 \<or> iterations ps = 0 \<or> parallelism ps = 0
                  then Inl (Sentinel ''incomplete Argon2id parameters'') else Inr ps)"

definition decode_phc :: "string \<Rightarrow> go_error + (argon2_params \<times> string \<times> string)" where
  "decode_phc encoded =
     (case split_on CHR ''$'' encoded of
        [p0, p1, p2, p3, p4, p5] \<Rightarrow>
          if p0 \<noteq> '''' then Inl (Sentinel ''invalid password hash format'')
          else if p1 \<noteq> phc_algorithm then Inl (Sentinel ''unsupported password hash algorithm'')
          else if p2 \<noteq> phc_version then Inl (Sentinel ''unsupported password hash version'')
          else (case parse_argon2_params p3 of
             Inl e \<Rightarrow> Inl e
           | Inr ps \<Rightarrow>
             (case std_base64_decode p4 of
                None \<Rightarrow> Inl (Sentinel ''invalid password hash salt'')
              | Some salt \<Rightarrow>
                if salt = [] then Inl (Sentinel ''invalid password hash salt'')
                else (case std_base64_decode p5 of
                   None \<Rightarrow> Inl (Sentinel ''invalid password hash'')
                 | Some hash \<Rightarrow> if hash = [] then Inl (Sentinel ''invalid password hash'')
                                else Inr (ps, salt, hash))))
      | _ \<Rightarrow> Inl (Sentinel ''invalid password hash format''))"

section \<open>Hash, Verify and DummyVerify\<close>

type_synonym idkey = "string \<Rightarrow> string \<Rightarrow> 32 word \<Rightarrow> 32 word \<Rightarrow> 8 word \<Rightarrow> 32 word \<Rightarrow> string"

text \<open>What a derivation costs is its parameters and the lengths of its salt and key.\<close>

datatype work_event =
    SlotTaken | Derived argon2_params (ev_salt: nat) (ev_key: "32 word") | SlotReturned

record verification_result =
  pw_match :: bool
  pw_needs_rehash :: bool

definition password_hash ::
  "idkey \<Rightarrow> go_error option \<Rightarrow> go_error + string \<Rightarrow> string \<Rightarrow> (go_error + string) \<times> work_event list" where
  "password_hash idkey acquire rand password =
     (case acquire of
        Some e \<Rightarrow> (Inl e, [])
      | None \<Rightarrow>
        (case rand of
           Inl e \<Rightarrow> (Inl (Wrapped ''generate password salt'' e), [SlotTaken, SlotReturned])
         | Inr salt \<Rightarrow>
           (Inr (encode_phc salt
              (idkey password salt argon2_iterations argon2_memory argon2_parallelism argon2_key_length)),
            [SlotTaken, Derived active_params (length salt) argon2_key_length, SlotReturned])))"

text \<open>The unexported \<open>verify\<close>: one derivation, with the stored parameters and the stored hash's length.\<close>

definition verify_decoded ::
  "idkey \<Rightarrow> string \<Rightarrow> argon2_params \<Rightarrow> string \<Rightarrow> string \<Rightarrow> verification_result \<times> work_event list" where
  "verify_decoded idkey password ps salt expected =
     (let actual = idkey password salt (iterations ps) (memory ps) (parallelism ps) (word_of_nat (length expected));
          ok = (actual = expected)
      in (\<lparr>pw_match = ok, pw_needs_rehash = ok \<and> needs_rehash ps\<rparr>,
          [Derived ps (length salt) (word_of_nat (length expected))]))"

definition password_verify ::
  "idkey \<Rightarrow> go_error option \<Rightarrow> string \<Rightarrow> string \<Rightarrow> (go_error + verification_result) \<times> work_event list" where
  "password_verify idkey acquire password encoded =
     (case decode_phc encoded of
        Inl e \<Rightarrow> (Inl e, [])
      | Inr (ps, salt, expected) \<Rightarrow>
        (case acquire of
           Some e \<Rightarrow> (Inl e, [])
         | None \<Rightarrow>
           (case verify_decoded idkey password ps salt expected of
              (r, evs) \<Rightarrow> (Inr r, SlotTaken # evs @ [SlotReturned]))))"

text \<open>\<open>dummyHash\<close> is computed by the first call that needs it (\<open>sync.OnceValue\<close>) and kept.\<close>

definition dummy_hash :: "idkey \<Rightarrow> string option \<Rightarrow> string \<times> work_event list" where
  "dummy_hash idkey cache =
     (case cache of
        Some encoded \<Rightarrow> (encoded, [])
      | None \<Rightarrow>
        (encode_phc dummy_salt
           (idkey dummy_password dummy_salt argon2_iterations argon2_memory argon2_parallelism argon2_key_length),
         [Derived active_params (length dummy_salt) argon2_key_length]))"

definition dummy_verify ::
  "idkey \<Rightarrow> string option \<Rightarrow> go_error option \<Rightarrow> string \<Rightarrow> go_error option \<times> string option \<times> work_event list" where
  "dummy_verify idkey cache acquire password =
     (case dummy_hash idkey cache of
        (encoded, evs) \<Rightarrow>
        (case decode_phc encoded of
           Inl e \<Rightarrow> (Some e, Some encoded, evs)
         | Inr (ps, salt, expected) \<Rightarrow>
           (case acquire of
              Some e \<Rightarrow> (Some e, Some encoded, evs)
            | None \<Rightarrow>
              (case verify_decoded idkey password ps salt expected of
                 (r, evs') \<Rightarrow> (None, Some encoded, evs @ SlotTaken # evs' @ [SlotReturned])))))"

section \<open>Reading back what was written\<close>

lemma base64_no_dollar: "CHR ''$'' \<notin> set (std_base64_encode bs)"
proof
  assume "CHR ''$'' \<in> set (std_base64_encode bs)"
  then have "std_char_sextet CHR ''$'' \<noteq> None" unfolding std_base64_encode_def by (rule std.only_letters)
  then show False by (simp add: std_char_sextet_def)
qed

definition params_text :: string where
  "params_text = ''m=65536,t=3,p=4''"

lemma encode_phc_parts:
  "encode_phc salt hash =
     '''' @ CHR ''$'' # ''argon2id'' @ CHR ''$'' # ''v=19'' @ CHR ''$'' # params_text @ CHR ''$'' #
     std_base64_encode salt @ CHR ''$'' # std_base64_encode hash"
proof -
  have "unat argon2_memory = 65536" "unat argon2_iterations = 3" "unat argon2_parallelism = 4"
    by (simp_all add: argon2_defs)
  moreover have "decimal 65536 = ''65536''" "decimal 3 = ''3''" "decimal 4 = ''4''"
    by (simp_all add: decimal.simps char_of_eq_iff)
  ultimately show ?thesis by (simp add: encode_phc_def params_text_def phc_algorithm_def phc_version_def)
qed

lemma split_encode_phc:
  "split_on CHR ''$'' (encode_phc salt hash) =
     ['''', ''argon2id'', ''v=19'', params_text, std_base64_encode salt, std_base64_encode hash]"
  unfolding encode_phc_parts params_text_def
  using base64_no_dollar[of salt] base64_no_dollar[of hash] by (simp add: split_on_first split_on_plain)

lemma parse_params_text: "parse_argon2_params params_text = Inr active_params"
proof -
  have "split_on CHR '','' params_text = [''m=65536'', ''t=3'', ''p=4'']" by (simp add: params_text_def)
  moreover have "split_two CHR ''='' ''m=65536'' = [''m'', ''65536'']" "split_two CHR ''='' ''t=3'' = [''t'', ''3'']"
    "split_two CHR ''='' ''p=4'' = [''p'', ''4'']" by (simp_all add: split_two_def)
  moreover have "parse_uint 32 ''65536'' = Some 65536" "parse_uint 32 ''3'' = Some 3" "parse_uint 32 ''4'' = Some 4"
    by (simp_all add: parse_uint_def digit_of_def)
  ultimately show ?thesis
    by (simp add: parse_argon2_params_def parse_argon2_part_def argon2_defs active_params_def)
qed

lemma decode_encode_phc:
  assumes "salt \<noteq> ''''" and "hash \<noteq> ''''"
  shows "decode_phc (encode_phc salt hash) = Inr (active_params, salt, hash)"
  using assms by (simp add: decode_phc_def split_encode_phc phc_algorithm_def phc_version_def parse_params_text
      std_base64_roundtrip)

section \<open>Properties\<close>

text \<open>What a stored string may cost: within the ceilings, and in the domain on which Argon2 is defined.\<close>

definition affordable :: "argon2_params \<Rightarrow> bool" where
  "affordable ps \<longleftrightarrow> 0 < memory ps \<and> memory ps \<le> argon2_max_memory \<and> 0 < iterations ps
     \<and> iterations ps \<le> argon2_max_iterations \<and> 0 < parallelism ps"

definition within_ceilings :: "argon2_params \<Rightarrow> bool" where
  "within_ceilings ps \<longleftrightarrow> memory ps \<le> argon2_max_memory \<and> iterations ps \<le> argon2_max_iterations"

lemma word_of_nat_le: "n \<le> unat w \<Longrightarrow> (word_of_nat n :: 'a::len word) \<le> w"
  unfolding word_le_nat_alt unat_of_nat by (meson le_trans mod_less_eq_dividend)

lemma parse_part_ceilings:
  "within_ceilings ps \<Longrightarrow> parse_argon2_part part ps = Inr ps' \<Longrightarrow> within_ceilings ps'"
  by (auto simp: parse_argon2_part_def within_ceilings_def word_of_nat_le not_less
      split: list.splits option.splits if_splits)

lemma parse_parts_ceilings:
  "within_ceilings ps \<Longrightarrow> parse_argon2_parts parts ps = Inr ps' \<Longrightarrow> within_ceilings ps'"
  by (induction parts arbitrary: ps) (auto split: sum.splits dest: parse_part_ceilings)

lemma parse_params_affordable:
  assumes "parse_argon2_params encoded = Inr ps"
  shows "affordable ps"
proof -
  have "within_ceilings \<lparr>memory = 0, iterations = 0, parallelism = 0\<rparr>" by (simp add: within_ceilings_def)
  with assms have "within_ceilings ps" "memory ps \<noteq> 0" "iterations ps \<noteq> 0" "parallelism ps \<noteq> 0"
    by (auto simp: parse_argon2_params_def split: sum.splits if_splits dest: parse_parts_ceilings)
  then show ?thesis by (simp add: affordable_def within_ceilings_def word_neq_0_conv)
qed

lemma decode_phc_affordable:
  assumes "decode_phc encoded = Inr (ps, salt, hash)"
  shows "affordable ps \<and> salt \<noteq> '''' \<and> hash \<noteq> ''''"
  using assms by (auto simp: decode_phc_def split: list.splits if_splits sum.splits option.splits
      intro: parse_params_affordable)

fun event_affordable :: "work_event \<Rightarrow> bool" where
  "event_affordable (Derived ps s k) = (affordable ps \<and> 0 < s)"
| "event_affordable _ = True"

text \<open>A derivation is only ever between the taking and the return of a slot.\<close>

fun slots_respected :: "bool \<Rightarrow> work_event list \<Rightarrow> bool" where
  "slots_respected busy [] \<longleftrightarrow> \<not> busy"
| "slots_respected busy (SlotTaken # evs) \<longleftrightarrow> \<not> busy \<and> slots_respected True evs"
| "slots_respected busy (SlotReturned # evs) \<longleftrightarrow> busy \<and> slots_respected False evs"
| "slots_respected busy (Derived ps s k # evs) \<longleftrightarrow> busy \<and> slots_respected busy evs"

text \<open>
  C38. Whatever string a credential row holds, verifying a password against it derives at most one key,
  with one to 128 MiB of memory, one to eight passes, at least one lane and a non-empty salt, inside a slot
  of the work limiter that is given back; a string that cannot be read takes no slot, and neither does
  a call the limiter refuses.
\<close>

theorem stored_hash_cannot_overspend:
  "case password_verify idkey acquire password encoded of
     (r, evs) \<Rightarrow>
       list_all event_affordable evs \<and> slots_respected False evs \<and> length evs \<le> 3 \<and>
       (case decode_phc encoded of
          Inl e \<Rightarrow> r = Inl e \<and> evs = []
        | Inr _ \<Rightarrow> (case acquire of Some e \<Rightarrow> r = Inl e \<and> evs = [] | None \<Rightarrow> \<not> isl r))"
  by (auto simp: password_verify_def verify_decoded_def Let_def split: sum.split option.split
      dest: decode_phc_affordable)

lemma derived_nonempty:
  assumes "\<And>p s t m l k. length (idkey p s t m l k) = unat k"
  shows "idkey p s t m l argon2_key_length \<noteq> ''''"
proof -
  have "length (idkey p s t m l argon2_key_length) = 32"
    unfolding assms argon2_key_length_def by simp
  then show ?thesis by auto
qed

text \<open>
  C37. A password that was hashed verifies, and nothing else does unless Argon2 itself collides: the string
  \<open>Hash\<close> produces is read back with its salt and parameters, \<open>Verify\<close> matches exactly the passwords that
  derive the same key under that salt, and a hash made with the active parameters never asks to be
  made again. The limiter's refusal and a failing random source are handed on, the slot returned.
\<close>

theorem hashed_password_verifies:
  assumes key_length: "\<And>p s t m l k. length (idkey p s t m l k) = unat k"
    and salt_length: "\<And>s. rand = Inr s \<Longrightarrow> length s = argon2_salt_length"
  shows "case password_hash idkey acquire rand password of
     (Inl e, evs) \<Rightarrow> (case acquire of Some e' \<Rightarrow> e = e' \<and> evs = []
        | None \<Rightarrow> \<exists>e'. rand = Inl e' \<and> e = Wrapped ''generate password salt'' e' \<and> evs = [SlotTaken, SlotReturned])
   | (Inr encoded, evs) \<Rightarrow> slots_respected False evs \<and> list_all event_affordable evs \<and>
       (\<exists>salt. rand = Inr salt \<and> decode_phc encoded =
          Inr (active_params, salt, idkey password salt argon2_iterations argon2_memory argon2_parallelism argon2_key_length)
        \<and> (let key = (\<lambda>p. idkey p salt argon2_iterations argon2_memory argon2_parallelism argon2_key_length) in
           (\<forall>candidate. fst (password_verify idkey None candidate encoded) =
              Inr \<lparr>pw_match = (key candidate = key password), pw_needs_rehash = False\<rparr>)))"
proof (cases acquire)
  case Some
  then show ?thesis by (simp add: password_hash_def)
next
  case None
  show ?thesis
  proof (cases rand)
    case (Inl e)
    with None show ?thesis by (simp add: password_hash_def)
  next
    case (Inr salt)
    have s: "salt \<noteq> ''''" using salt_length[OF Inr] by (auto simp: argon2_salt_length_def)
    let ?key = "\<lambda>p. idkey p salt argon2_iterations argon2_memory argon2_parallelism argon2_key_length"
    have l: "length (?key p) = unat argon2_key_length" for p by (simp add: key_length)
    have ne: "?key p \<noteq> ''''" for p by (rule derived_nonempty[OF key_length])
    note d = decode_encode_phc[OF s ne]
    have fresh: "\<not> needs_rehash active_params" by (simp add: needs_rehash_def active_params_def)
    have "fst (password_verify idkey None p (encode_phc salt (?key password))) =
        Inr \<lparr>pw_match = (?key p = ?key password), pw_needs_rehash = False\<rparr>" for p
      using fresh by (simp add: password_verify_def d verify_decoded_def l Let_def active_params_def)
    moreover have "affordable active_params"
      by (simp add: affordable_def active_params_def argon2_defs)
    ultimately show ?thesis using None Inr s d by (simp add: password_hash_def Let_def)
  qed
qed

definition demo_idkey :: idkey where
  "demo_idkey p s t m l k = map (\<lambda>i. if i < length (p @ s) then (p @ s) ! i else CHR ''.'') [0..<unat k]"

theorem hashed_password_verifies_witness:
  "\<exists>encoded. fst (password_hash demo_idkey None (Inr ''0123456789abcdef'') ''secret'') = Inr encoded \<and>
     fst (password_verify demo_idkey None ''secret'' encoded) = Inr \<lparr>pw_match = True, pw_needs_rehash = False\<rparr> \<and>
     fst (password_verify demo_idkey None ''Secret'' encoded) = Inr \<lparr>pw_match = False, pw_needs_rehash = False\<rparr>"
proof -
  have len: "length (demo_idkey p s t m l k) = unat k" for p s t m l k by (simp add: demo_idkey_def)
  have salt: "length s = argon2_salt_length" if "Inr ''0123456789abcdef'' = (Inr s :: go_error + string)" for s
    using that by (auto simp: argon2_salt_length_def)
  obtain encoded where e: "fst (password_hash demo_idkey None (Inr ''0123456789abcdef'') ''secret'') = Inr encoded"
    by (auto simp: password_hash_def)
  let ?key = "\<lambda>p. demo_idkey p ''0123456789abcdef'' argon2_iterations argon2_memory argon2_parallelism argon2_key_length"
  have "hd (?key ''Secret'') \<noteq> hd (?key ''secret'')"
    by (simp add: demo_idkey_def argon2_key_length_def hd_map upt_rec)
  then have k: "?key ''Secret'' \<noteq> ?key ''secret''" by metis
  have "fst (password_verify demo_idkey None p encoded) =
      Inr \<lparr>pw_match = (?key p = ?key ''secret''), pw_needs_rehash = False\<rparr>" for p
    using hashed_password_verifies[of demo_idkey "Inr ''0123456789abcdef''" None "''secret''", OF len salt] e
    by (auto simp: Let_def split: prod.splits sum.splits)
  with e k show ?thesis by simp
qed

text \<open>
  Refusing an unknown address costs what refusing a known one costs. Once the fixed hash exists,
  \<open>DummyVerify\<close> goes through the same slot and derivation events as \<open>Verify\<close> on any hash \<open>Hash\<close> made,
  with the same memory, passes, lanes, salt and key lengths, and it is refused with the same error
  when there is no slot.
\<close>

theorem dummy_verification_costs_a_real_one:
  assumes key_length: "\<And>p s t m l k. length (idkey p s t m l k) = unat k"
    and salt_length: "length salt = argon2_salt_length"
    and hashed: "fst (password_hash idkey None (Inr salt) password) = Inr encoded"
    and cached: "cache = Some (fst (dummy_hash idkey None))"
  shows "case dummy_verify idkey cache acquire p of
     (err, cache', evs) \<Rightarrow>
       evs = snd (password_verify idkey acquire q encoded) \<and> cache' = cache \<and> slots_respected False evs \<and>
       (case fst (password_verify idkey acquire q encoded) of Inl e \<Rightarrow> err = Some e | Inr _ \<Rightarrow> err = None)"
proof -
  have s: "salt \<noteq> ''''" "dummy_salt \<noteq> ''''" using salt_length by (auto simp: argon2_salt_length_def dummy_salt_def)
  let ?key = "\<lambda>p salt. idkey p salt argon2_iterations argon2_memory argon2_parallelism argon2_key_length"
  have ne: "?key p x \<noteq> ''''" for p x by (rule derived_nonempty[OF key_length])
  note d = decode_encode_phc[OF s(1) ne] decode_encode_phc[OF s(2) ne]
  have e: "encoded = encode_phc salt (?key password salt)" using hashed by (simp add: password_hash_def)
  have ds: "length dummy_salt = length salt" using salt_length by (simp add: dummy_salt_def argon2_salt_length_def)
  show ?thesis
    by (simp add: dummy_verify_def dummy_hash_def cached password_verify_def e d verify_decoded_def key_length ds Let_def
        split: option.split)
qed

theorem dummy_verification_costs_a_real_one_witness:
  "\<exists>encoded. fst (password_hash demo_idkey None (Inr ''0123456789abcdef'') ''secret'') = Inr encoded \<and>
     snd (snd (dummy_verify demo_idkey (Some (fst (dummy_hash demo_idkey None))) None ''guess'')) =
     snd (password_verify demo_idkey None ''guess'' encoded)"
proof -
  have len: "length (demo_idkey p s t m l k) = unat k" for p s t m l k by (simp add: demo_idkey_def)
  obtain encoded where e: "fst (password_hash demo_idkey None (Inr ''0123456789abcdef'') ''secret'') = Inr encoded"
    by (auto simp: password_hash_def)
  have "length ''0123456789abcdef'' = argon2_salt_length" by (simp add: argon2_salt_length_def)
  from dummy_verification_costs_a_real_one[OF len this e refl, of None "''guess''" "''guess''"] e show ?thesis
    by (auto split: prod.splits)
qed

text \<open>
  The first \<open>DummyVerify\<close> of a process computes the fixed hash before it asks for a slot: one derivation
  outside the limiter's capacity, and two where a real verification has one.
\<close>

lemma first_dummy_verification_derives_outside_the_limiter:
  assumes "\<And>p s t m l k. length (idkey p s t m l k) = unat k"
  shows "case dummy_verify idkey None None p of (err, cache, evs) \<Rightarrow> \<not> slots_respected False evs \<and> length evs = 4"
    and "case dummy_verify idkey None (Some e) p of (err, cache, evs) \<Rightarrow> err = Some e \<and> length evs = 1"
proof -
  let ?h = "idkey dummy_password dummy_salt argon2_iterations argon2_memory argon2_parallelism argon2_key_length"
  have ne: "?h \<noteq> ''''" by (rule derived_nonempty[OF assms])
  have s: "dummy_salt \<noteq> ''''" by (simp add: dummy_salt_def)
  show "case dummy_verify idkey None None p of (err, cache, evs) \<Rightarrow> \<not> slots_respected False evs \<and> length evs = 4"
    "case dummy_verify idkey None (Some e) p of (err, cache, evs) \<Rightarrow> err = Some e \<and> length evs = 1"
    by (simp_all add: dummy_verify_def dummy_hash_def decode_encode_phc[OF s ne] verify_decoded_def Let_def)
qed

end
