(* ===== verification/OutboundFetch.thy ===== *)
theory OutboundFetch
  imports Enrichment "HOL-Library.Word"
begin

text \<open>
  The outbound fetch guard, \<open>internal/security/outbound_fetch.go\<close>, and the limiter's address form,
  \<open>internal/ratelimit/ip.go\<close>. An address is a \<open>netip.Addr\<close>: nothing, 32 bits, or 128 bits with a
  zone. Parsing texts (\<open>net/netip\<close>, \<open>net/url\<close>, \<open>net.SplitHostPort\<close>) is an argument.
\<close>

section \<open>Addresses\<close>

datatype addr = NoAddr | Addr4 "32 word" | Addr6 "128 word" string

definition v4 :: "nat \<Rightarrow> nat \<Rightarrow> nat \<Rightarrow> nat \<Rightarrow> 32 word" where
  "v4 a b c d = word_of_nat (((a * 256 + b) * 256 + c) * 256 + d)"

definition v6 :: "nat list \<Rightarrow> 128 word" where
  "v6 groups = word_of_nat (foldl (\<lambda>n g. n * 65536 + g) 0 groups)"

datatype prefix = Prefix4 "32 word" nat | Prefix6 "128 word" nat

text \<open>\<open>Prefix.Contains\<close>: the leading bits agree; families do not mix and a zoned address is in no prefix.\<close>

fun prefix_contains :: "prefix \<Rightarrow> addr \<Rightarrow> bool" where
  "prefix_contains (Prefix4 p n) (Addr4 a) \<longleftrightarrow> drop_bit (32 - n) a = drop_bit (32 - n) p"
| "prefix_contains (Prefix6 p n) (Addr6 a zone) \<longleftrightarrow>
     zone = '''' \<and> drop_bit (128 - n) a = drop_bit (128 - n) p"
| "prefix_contains _ _ \<longleftrightarrow> False"

text \<open>The methods of \<open>netip.Addr\<close> the code calls.\<close>

fun addr_is_valid :: "addr \<Rightarrow> bool" where
  "addr_is_valid NoAddr = False"
| "addr_is_valid _ = True"

fun addr_zone :: "addr \<Rightarrow> string" where
  "addr_zone (Addr6 a zone) = zone"
| "addr_zone _ = ''''"

fun addr_unmap :: "addr \<Rightarrow> addr" where
  "addr_unmap (Addr6 a zone) =
     (if drop_bit 32 a = 0xFFFF then Addr4 (ucast a) else Addr6 a zone)"
| "addr_unmap x = x"

fun addr_is_loopback :: "addr \<Rightarrow> bool" where
  "addr_is_loopback (Addr4 a) \<longleftrightarrow> prefix_contains (Prefix4 (v4 127 0 0 0) 8) (Addr4 a)"
| "addr_is_loopback (Addr6 a zone) \<longleftrightarrow> a = 1"
| "addr_is_loopback NoAddr \<longleftrightarrow> False"

fun addr_is_multicast :: "addr \<Rightarrow> bool" where
  "addr_is_multicast (Addr4 a) \<longleftrightarrow> drop_bit 28 a = 0xE"
| "addr_is_multicast (Addr6 a zone) \<longleftrightarrow> drop_bit 120 a = 0xFF"
| "addr_is_multicast NoAddr \<longleftrightarrow> False"

fun addr_is_link_local_unicast :: "addr \<Rightarrow> bool" where
  "addr_is_link_local_unicast (Addr4 a) \<longleftrightarrow> drop_bit 16 a = 0xA9FE"
| "addr_is_link_local_unicast (Addr6 a zone) \<longleftrightarrow> drop_bit 118 a = 0x3FA"
| "addr_is_link_local_unicast NoAddr \<longleftrightarrow> False"

fun addr_is_unspecified :: "addr \<Rightarrow> bool" where
  "addr_is_unspecified (Addr4 a) \<longleftrightarrow> a = 0"
| "addr_is_unspecified (Addr6 a zone) \<longleftrightarrow> a = 0 \<and> zone = ''''"
| "addr_is_unspecified NoAddr \<longleftrightarrow> False"

definition addr_is_global_unicast :: "addr \<Rightarrow> bool" where
  "addr_is_global_unicast a \<longleftrightarrow>
     a \<noteq> NoAddr \<and> a \<noteq> Addr4 (- 1) \<and> \<not> addr_is_unspecified a \<and> \<not> addr_is_loopback a \<and>
     \<not> addr_is_multicast a \<and> \<not> addr_is_link_local_unicast a"

fun addr_is_private :: "addr \<Rightarrow> bool" where
  "addr_is_private (Addr4 a) \<longleftrightarrow>
     drop_bit 24 a = 10 \<or> drop_bit 20 a = 0xAC1 \<or> drop_bit 16 a = 0xC0A8"
| "addr_is_private (Addr6 a zone) \<longleftrightarrow> drop_bit 121 a = 0x7E"
| "addr_is_private NoAddr \<longleftrightarrow> False"

section \<open>The policy\<close>

definition special_purpose_prefixes :: "prefix list" where
  "special_purpose_prefixes =
     [Prefix4 (v4 0 0 0 0) 8, Prefix4 (v4 100 64 0 0) 10, Prefix4 (v4 192 0 0 0) 24,
      Prefix4 (v4 192 0 2 0) 24, Prefix4 (v4 192 88 99 0) 24, Prefix4 (v4 198 18 0 0) 15,
      Prefix4 (v4 198 51 100 0) 24, Prefix4 (v4 203 0 113 0) 24, Prefix4 (v4 240 0 0 0) 4,
      Prefix6 (v6 [0x100, 0, 0, 0, 0, 0, 0, 0]) 64, Prefix6 (v6 [0x2001, 0, 0, 0, 0, 0, 0, 0]) 23,
      Prefix6 (v6 [0x2001, 0xdb8, 0, 0, 0, 0, 0, 0]) 32, Prefix6 (v6 [0x2002, 0, 0, 0, 0, 0, 0, 0]) 16,
      Prefix6 (v6 [0x64, 0xff9b, 0, 0, 0, 0, 0, 0]) 96,
      Prefix6 (v6 [0xfd20, 0xce, 0, 0, 0, 0, 0, 0x254]) 128]"

definition is_publicly_routable :: "addr \<Rightarrow> bool" where
  "is_publicly_routable a \<longleftrightarrow>
     (if \<not> addr_is_valid a then False
      else if addr_zone a \<noteq> '''' then False
      else let a = addr_unmap a in
        if \<not> addr_is_global_unicast a \<or> addr_is_private a then False
        else \<not> list_ex (\<lambda>p. prefix_contains p a) special_purpose_prefixes)"

definition allowed_ports :: "nat list" where "allowed_ports = [80, 443]"

definition blocked_host_suffixes :: "string list" where
  "blocked_host_suffixes = [''.localhost'', ''.local'', ''.internal'']"

definition trim_suffix :: "string \<Rightarrow> string \<Rightarrow> string" where
  "trim_suffix suffix s =
     (if drop (length s - length suffix) s = suffix \<and> length suffix \<le> length s
      then take (length s - length suffix) s else s)"

definition has_suffix :: "string \<Rightarrow> string \<Rightarrow> bool" where
  "has_suffix s suffix \<longleftrightarrow>
     length suffix \<le> length s \<and> drop (length s - length suffix) s = suffix"

definition is_blocked_host_name :: "string \<Rightarrow> bool" where
  "is_blocked_host_name host \<longleftrightarrow>
     (let normalized = to_lower (trim_suffix ''.'' host) in
      normalized \<in> {''localhost'', ''localhost.localdomain''} \<or>
      list_ex (has_suffix normalized) blocked_host_suffixes)"

definition is_allowed_port_string :: "string \<Rightarrow> bool" where
  "is_allowed_port_string port \<longleftrightarrow> port = ''80'' \<or> port = ''443''"

datatype outbound_error =
    OutboundURLInvalid
  | OutboundSchemeNotAllowed string
  | OutboundUserInfoNotAllowed
  | OutboundHostMissing
  | OutboundHostNotAllowed string
  | OutboundAddressBlocked
  | OutboundPortNotAllowed string

text \<open>What \<open>url.Parse\<close> yields, as far as the check looks at it.\<close>

record outbound_url =
  ou_scheme :: string
  ou_has_user :: bool
  ou_hostname :: string
  ou_port :: string

definition validate_outbound_url ::
  "(string \<Rightarrow> outbound_url option) \<Rightarrow> (string \<Rightarrow> addr option) \<Rightarrow> string
     \<Rightarrow> outbound_error + outbound_url" where
  "validate_outbound_url parse_url parse_addr raw_url =
     (case parse_url (trim_space raw_url) of
        None \<Rightarrow> Inl OutboundURLInvalid
      | Some parsed \<Rightarrow>
          if to_lower (ou_scheme parsed) \<notin> {''http'', ''https''}
          then Inl (OutboundSchemeNotAllowed (ou_scheme parsed))
          else if ou_has_user parsed then Inl OutboundUserInfoNotAllowed
          else if ou_hostname parsed = '''' then Inl OutboundHostMissing
          else if is_blocked_host_name (ou_hostname parsed)
          then Inl (OutboundHostNotAllowed (ou_hostname parsed))
          else if (case parse_addr (ou_hostname parsed) of
                     None \<Rightarrow> False | Some a \<Rightarrow> \<not> is_publicly_routable a)
          then Inl OutboundAddressBlocked
          else if ou_port parsed \<noteq> '''' \<and> \<not> is_allowed_port_string (ou_port parsed)
          then Inl (OutboundPortNotAllowed (ou_port parsed))
          else Inr parsed)"

text \<open>The dialer's control: \<open>None\<close> lets the connection be made.\<close>

definition guarded_dial_control ::
  "(string \<Rightarrow> (addr \<times> nat) option) \<Rightarrow> string \<Rightarrow> outbound_error option" where
  "guarded_dial_control parse_addr_port address =
     (case parse_addr_port address of
        None \<Rightarrow> Some OutboundAddressBlocked
      | Some (a, port) \<Rightarrow>
          if port \<notin> set allowed_ports then Some OutboundAddressBlocked
          else if \<not> is_publicly_routable a then Some OutboundAddressBlocked
          else None)"

record fetch_policy =
  fp_user_agent :: string
  fp_timeout :: duration
  fp_response_header_timeout :: duration
  fp_max_redirects :: nat
  fp_max_response_bytes :: nat
  fp_max_response_header_bytes :: nat
  fp_dial_timeout :: duration
  fp_tls_handshake_timeout :: duration
  fp_keep_alive :: duration
  fp_idle_conn_timeout :: duration
  fp_max_idle_conns :: nat
  fp_max_idle_conns_per_host :: nat

definition default_fetch_policy :: fetch_policy where
  "default_fetch_policy =
     \<lparr>fp_user_agent = ''StashItEnrichmentBot/1.0'', fp_timeout = 10 * second,
      fp_response_header_timeout = 5 * second, fp_max_redirects = 3,
      fp_max_response_bytes = 2 * 2 ^ 20, fp_max_response_header_bytes = 64 * 2 ^ 10,
      fp_dial_timeout = 5 * second, fp_tls_handshake_timeout = 5 * second,
      fp_keep_alive = 15 * second, fp_idle_conn_timeout = 30 * second,
      fp_max_idle_conns = 64, fp_max_idle_conns_per_host = 2\<rparr>"

definition limit_outbound_body :: "fetch_policy \<Rightarrow> http_body \<Rightarrow> http_body" where
  "limit_outbound_body policy body = limit_body (fp_max_response_bytes policy) body"

text \<open>\<open>CheckRedirect\<close>: \<open>via\<close> requests have been made when the next one is considered.\<close>

definition check_redirect :: "fetch_policy \<Rightarrow> nat \<Rightarrow> bool" where
  "check_redirect policy via \<longleftrightarrow> \<not> fp_max_redirects policy < via"

text \<open>
  One call of the guarded client. \<open>hop n\<close> is the address the resolver produced for request \<open>n\<close> and
  whether the answer redirects; the result lists the addresses connected to.
\<close>

datatype 'a hop_answer = Redirected | Answered 'a | Broken

function guarded_fetch ::
  "fetch_policy \<Rightarrow> (string \<Rightarrow> (addr \<times> nat) option) \<Rightarrow> (nat \<Rightarrow> string \<times> 'a hop_answer) \<Rightarrow> nat
     \<Rightarrow> string list \<times> (request_error + 'a)" where
  "guarded_fetch policy parse hop n =
     (let (address, answer) = hop n in
      case guarded_dial_control parse address of
        Some e \<Rightarrow> ([], Inl AddressBlocked)
      | None \<Rightarrow>
          (case answer of
             Answered x \<Rightarrow> ([address], Inr x)
           | Broken \<Rightarrow> ([address], Inl TransportError)
           | Redirected \<Rightarrow>
               if \<not> check_redirect policy (Suc n) then ([address], Inl TooManyRedirects)
               else let (dialled, r) = guarded_fetch policy parse hop (Suc n)
                    in (address # dialled, r)))"
  by pat_completeness auto
termination
  by (relation "measure (\<lambda>(policy, parse, hop, n). Suc (fp_max_redirects policy) - n)")
    (auto simp: check_redirect_def)

declare guarded_fetch.simps [simp del]

section \<open>The limiter's form of an address\<close>

text \<open>\<open>split_host_port\<close> is \<open>net.SplitHostPort\<close>, \<open>show_addr\<close> is \<open>Addr.String\<close>.\<close>

definition without_zone :: "string \<Rightarrow> string" where
  "without_zone s = takeWhile (\<lambda>c. c \<noteq> CHR ''%'') s"

definition normalize_ip ::
  "(string \<Rightarrow> string option) \<Rightarrow> (string \<Rightarrow> addr option) \<Rightarrow> (addr \<Rightarrow> string) \<Rightarrow> string
     \<Rightarrow> string option" where
  "normalize_ip split_host_port parse_addr show_addr raw =
     (let text = trim_space raw in
      if text = '''' then None
      else
        (let host = (case split_host_port text of Some h \<Rightarrow> h | None \<Rightarrow> text) in
         case parse_addr (without_zone host) of
           None \<Rightarrow> None
         | Some a \<Rightarrow> Some (show_addr (addr_unmap a))))"

definition is_unspecified_ip :: "(string \<Rightarrow> addr option) \<Rightarrow> string \<Rightarrow> bool" where
  "is_unspecified_ip parse_addr text =
     (case parse_addr text of None \<Rightarrow> False | Some a \<Rightarrow> addr_is_unspecified (addr_unmap a))"

section \<open>Ranges\<close>

lemma div_range:
  fixes a q m :: int
  assumes "0 < m"
  shows "a div m = q \<longleftrightarrow> q * m \<le> a \<and> a < q * m + m"
proof
  assume "a div m = q"
  moreover have "a = m * (a div m) + a mod m" "0 \<le> a mod m" "a mod m < m" using assms by simp_all
  ultimately show "q * m \<le> a \<and> a < q * m + m" by (simp add: mult.commute)
next
  assume "q * m \<le> a \<and> a < q * m + m"
  then show "a div m = q" by (intro int_div_pos_eq[of a m q "a - q * m"]) (simp_all add: mult.commute)
qed

lemma uint_drop: "uint (drop_bit k a) = uint a div 2 ^ k" for a :: "'a::len word"
  by (simp add: unsigned_drop_bit_eq drop_bit_int_def bintr_uint)

text \<open>The addresses that share their leading bits are the numbers of a range.\<close>

lemma leading_bits_range:
  fixes a c :: "'a::len word"
  shows "drop_bit k a = c \<longleftrightarrow> uint c * 2 ^ k \<le> uint a \<and> uint a < uint c * 2 ^ k + 2 ^ k"
  unfolding word_uint_eq_iff uint_drop by (rule div_range) simp

definition in_range :: "'a::len word \<Rightarrow> 'a word \<times> 'a word \<Rightarrow> bool" where
  "in_range a r \<longleftrightarrow> fst r \<le> a \<and> a \<le> snd r"

lemma leading_bits_in_range:
  fixes a c lo hi :: "'a::len word"
  assumes "uint lo = uint c * 2 ^ k" and "uint hi = uint c * 2 ^ k + 2 ^ k - 1"
  shows "drop_bit k a = c \<longleftrightarrow> in_range a (lo, hi)"
  by (auto simp: leading_bits_range in_range_def word_le_def assms)

text \<open>
  The IPv4 destinations a server must not reach, from the IANA special-purpose registry, as first and
  last address of each block.
\<close>

definition internal_ranges4 :: "(32 word \<times> 32 word) list" where
  "internal_ranges4 =
     [(v4 0 0 0 0, v4 0 255 255 255), (v4 10 0 0 0, v4 10 255 255 255), (v4 100 64 0 0, v4 100 127 255 255),
      (v4 127 0 0 0, v4 127 255 255 255), (v4 169 254 0 0, v4 169 254 255 255),
      (v4 172 16 0 0, v4 172 31 255 255), (v4 192 0 0 0, v4 192 0 0 255), (v4 192 0 2 0, v4 192 0 2 255),
      (v4 192 88 99 0, v4 192 88 99 255), (v4 192 168 0 0, v4 192 168 255 255),
      (v4 198 18 0 0, v4 198 19 255 255), (v4 198 51 100 0, v4 198 51 100 255),
      (v4 203 0 113 0, v4 203 0 113 255), (v4 224 0 0 0, v4 239 255 255 255), (v4 240 0 0 0, v4 255 255 255 255)]"

lemma blocks4:
  "drop_bit 24 a = drop_bit 24 (v4 0 0 0 0) \<longleftrightarrow> in_range a (v4 0 0 0 0, v4 0 255 255 255)"
  "drop_bit 24 a = (10 :: 32 word) \<longleftrightarrow> in_range a (v4 10 0 0 0, v4 10 255 255 255)"
  "drop_bit 22 a = drop_bit 22 (v4 100 64 0 0) \<longleftrightarrow> in_range a (v4 100 64 0 0, v4 100 127 255 255)"
  "drop_bit 24 a = drop_bit 24 (v4 127 0 0 0) \<longleftrightarrow> in_range a (v4 127 0 0 0, v4 127 255 255 255)"
  "drop_bit 16 a = (0xA9FE :: 32 word) \<longleftrightarrow> in_range a (v4 169 254 0 0, v4 169 254 255 255)"
  "drop_bit 20 a = (0xAC1 :: 32 word) \<longleftrightarrow> in_range a (v4 172 16 0 0, v4 172 31 255 255)"
  "drop_bit 8 a = drop_bit 8 (v4 192 0 0 0) \<longleftrightarrow> in_range a (v4 192 0 0 0, v4 192 0 0 255)"
  "drop_bit 8 a = drop_bit 8 (v4 192 0 2 0) \<longleftrightarrow> in_range a (v4 192 0 2 0, v4 192 0 2 255)"
  "drop_bit 8 a = drop_bit 8 (v4 192 88 99 0) \<longleftrightarrow> in_range a (v4 192 88 99 0, v4 192 88 99 255)"
  "drop_bit 16 a = (0xC0A8 :: 32 word) \<longleftrightarrow> in_range a (v4 192 168 0 0, v4 192 168 255 255)"
  "drop_bit 17 a = drop_bit 17 (v4 198 18 0 0) \<longleftrightarrow> in_range a (v4 198 18 0 0, v4 198 19 255 255)"
  "drop_bit 8 a = drop_bit 8 (v4 198 51 100 0) \<longleftrightarrow> in_range a (v4 198 51 100 0, v4 198 51 100 255)"
  "drop_bit 8 a = drop_bit 8 (v4 203 0 113 0) \<longleftrightarrow> in_range a (v4 203 0 113 0, v4 203 0 113 255)"
  "drop_bit 28 a = (0xE :: 32 word) \<longleftrightarrow> in_range a (v4 224 0 0 0, v4 239 255 255 255)"
  "drop_bit 28 a = drop_bit 28 (v4 240 0 0 0) \<longleftrightarrow> in_range a (v4 240 0 0 0, v4 255 255 255 255)"
  by (rule leading_bits_in_range; simp add: v4_def uint_drop)+

lemma ends4: "in_range 0 (v4 0 0 0 0, v4 0 255 255 255)" "in_range (- 1) (v4 240 0 0 0, v4 255 255 255 255)"
  by (simp_all add: in_range_def v4_def word_le_def unsigned_minus_1_eq_mask mask_eq_exp_minus_1)

lemma routable4_ranges: "is_publicly_routable (Addr4 a) \<longleftrightarrow> \<not> list_ex (in_range a) internal_ranges4"
  unfolding is_publicly_routable_def Let_def addr_is_global_unicast_def special_purpose_prefixes_def
    internal_ranges4_def
  by (simp add: blocks4) (use ends4 in blast)

section \<open>IPv6\<close>

definition internal_ranges6 :: "(128 word \<times> 128 word) list" where
  "internal_ranges6 =
     [(v6 [0x100, 0, 0, 0, 0, 0, 0, 0], v6 [0x100, 0, 0, 0, 0xffff, 0xffff, 0xffff, 0xffff]),
      (v6 [0x2001, 0, 0, 0, 0, 0, 0, 0], v6 [0x2001, 0x1ff, 0xffff, 0xffff, 0xffff, 0xffff, 0xffff, 0xffff]),
      (v6 [0x2001, 0xdb8, 0, 0, 0, 0, 0, 0], v6 [0x2001, 0xdb8, 0xffff, 0xffff, 0xffff, 0xffff, 0xffff, 0xffff]),
      (v6 [0x2002, 0, 0, 0, 0, 0, 0, 0], v6 [0x2002, 0xffff, 0xffff, 0xffff, 0xffff, 0xffff, 0xffff, 0xffff]),
      (v6 [0x64, 0xff9b, 0, 0, 0, 0, 0, 0], v6 [0x64, 0xff9b, 0, 0, 0, 0, 0xffff, 0xffff]),
      (v6 [0xfc00, 0, 0, 0, 0, 0, 0, 0], v6 [0xfdff, 0xffff, 0xffff, 0xffff, 0xffff, 0xffff, 0xffff, 0xffff]),
      (v6 [0xfe80, 0, 0, 0, 0, 0, 0, 0], v6 [0xfebf, 0xffff, 0xffff, 0xffff, 0xffff, 0xffff, 0xffff, 0xffff]),
      (v6 [0xff00, 0, 0, 0, 0, 0, 0, 0], v6 [0xffff, 0xffff, 0xffff, 0xffff, 0xffff, 0xffff, 0xffff, 0xffff])]"

lemma blocks6:
  "drop_bit 64 a = drop_bit 64 (v6 [0x100, 0, 0, 0, 0, 0, 0, 0]) \<longleftrightarrow>
     in_range a (v6 [0x100, 0, 0, 0, 0, 0, 0, 0], v6 [0x100, 0, 0, 0, 0xffff, 0xffff, 0xffff, 0xffff])"
  "drop_bit 105 a = drop_bit 105 (v6 [0x2001, 0, 0, 0, 0, 0, 0, 0]) \<longleftrightarrow>
     in_range a (v6 [0x2001, 0, 0, 0, 0, 0, 0, 0], v6 [0x2001, 0x1ff, 0xffff, 0xffff, 0xffff, 0xffff, 0xffff, 0xffff])"
  "drop_bit 96 a = drop_bit 96 (v6 [0x2001, 0xdb8, 0, 0, 0, 0, 0, 0]) \<longleftrightarrow>
     in_range a (v6 [0x2001, 0xdb8, 0, 0, 0, 0, 0, 0], v6 [0x2001, 0xdb8, 0xffff, 0xffff, 0xffff, 0xffff, 0xffff, 0xffff])"
  "drop_bit 112 a = drop_bit 112 (v6 [0x2002, 0, 0, 0, 0, 0, 0, 0]) \<longleftrightarrow>
     in_range a (v6 [0x2002, 0, 0, 0, 0, 0, 0, 0], v6 [0x2002, 0xffff, 0xffff, 0xffff, 0xffff, 0xffff, 0xffff, 0xffff])"
  "drop_bit 32 a = drop_bit 32 (v6 [0x64, 0xff9b, 0, 0, 0, 0, 0, 0]) \<longleftrightarrow>
     in_range a (v6 [0x64, 0xff9b, 0, 0, 0, 0, 0, 0], v6 [0x64, 0xff9b, 0, 0, 0, 0, 0xffff, 0xffff])"
  "drop_bit 121 a = (0x7E :: 128 word) \<longleftrightarrow>
     in_range a (v6 [0xfc00, 0, 0, 0, 0, 0, 0, 0], v6 [0xfdff, 0xffff, 0xffff, 0xffff, 0xffff, 0xffff, 0xffff, 0xffff])"
  "drop_bit 118 a = (0x3FA :: 128 word) \<longleftrightarrow>
     in_range a (v6 [0xfe80, 0, 0, 0, 0, 0, 0, 0], v6 [0xfebf, 0xffff, 0xffff, 0xffff, 0xffff, 0xffff, 0xffff, 0xffff])"
  "drop_bit 120 a = (0xFF :: 128 word) \<longleftrightarrow>
     in_range a (v6 [0xff00, 0, 0, 0, 0, 0, 0, 0], v6 [0xffff, 0xffff, 0xffff, 0xffff, 0xffff, 0xffff, 0xffff, 0xffff])"
  by (rule leading_bits_in_range; simp add: v6_def uint_drop)+

lemma metadata_server_is_private:
  "drop_bit 0 a = drop_bit 0 (v6 [0xfd20, 0xce, 0, 0, 0, 0, 0, 0x254]) \<Longrightarrow> drop_bit 121 a = (0x7E :: 128 word)"
  by (simp add: v6_def word_uint_eq_iff uint_drop)

lemma routable6_ranges:
  assumes "drop_bit 32 a \<noteq> 0xFFFF"
  shows "is_publicly_routable (Addr6 a '''') \<longleftrightarrow> a \<noteq> 0 \<and> a \<noteq> 1 \<and> \<not> list_ex (in_range a) internal_ranges6"
  unfolding is_publicly_routable_def Let_def addr_is_global_unicast_def special_purpose_prefixes_def
    internal_ranges6_def
  using assms metadata_server_is_private[of a] by (auto simp: blocks6)

section \<open>Properties\<close>

text \<open>
  The address test, written with predicates of \<open>netip\<close> and prefixes, is membership in explicit ranges: an
  IPv4 address is refused exactly when it lies in one of the fifteen special-purpose blocks, an IPv6 address when it has
  a zone, is unspecified or loopback, or lies in one of eight blocks, and an IPv4 address written as an IPv6 one is judged
  as the IPv4 address it is.
\<close>

theorem routable_is_outside_the_internal_ranges:
  "is_publicly_routable x \<longleftrightarrow>
     (case x of
        NoAddr \<Rightarrow> False
      | Addr4 a \<Rightarrow> \<not> list_ex (in_range a) internal_ranges4
      | Addr6 a zone \<Rightarrow> zone = '''' \<and>
          (if drop_bit 32 a = 0xFFFF then \<not> list_ex (in_range (ucast a)) internal_ranges4
           else a \<noteq> 0 \<and> a \<noteq> 1 \<and> \<not> list_ex (in_range a) internal_ranges6))"
proof (cases x)
  case NoAddr
  then show ?thesis by (simp add: is_publicly_routable_def)
next
  case (Addr4 a)
  then show ?thesis by (simp add: routable4_ranges)
next
  case (Addr6 a zone)
  have mapped: "is_publicly_routable (Addr6 a '''') \<longleftrightarrow> is_publicly_routable (Addr4 (ucast a))" if "drop_bit 32 a = 0xFFFF"
    by (simp add: is_publicly_routable_def that)
  show ?thesis
  proof (cases "zone = ''''")
    case True
    then show ?thesis using Addr6 mapped routable4_ranges[of "ucast a"] routable6_ranges[of a] by simp
  next
    case False
    then show ?thesis using Addr6 by (simp add: is_publicly_routable_def)
  qed
qed

lemma guarded_dial_control_None:
  "guarded_dial_control parse address = None \<longleftrightarrow>
     (\<exists>a port. parse address = Some (a, port) \<and> port \<in> {80, 443} \<and> is_publicly_routable a)"
  by (auto simp: guarded_dial_control_def allowed_ports_def split: option.split)

lemma guarded_fetch_contacts:
  "list_all (\<lambda>address. guarded_dial_control parse address = None) (fst (guarded_fetch policy parse hop n)) \<and>
   length (fst (guarded_fetch policy parse hop n)) \<le> Suc (fp_max_redirects policy - n)"
proof (induction policy parse hop n rule: guarded_fetch.induct)
  case (1 policy parse hop n)
  obtain address answer where h: "hop n = (address, answer)" by fastforce
  show ?case
  proof (cases "guarded_dial_control parse address = None \<and> answer = Redirected \<and> check_redirect policy (Suc n)")
    case True
    obtain dialled r where g: "guarded_fetch policy parse hop (Suc n) = (dialled, r)" by fastforce
    have "guarded_fetch policy parse hop n = (address # dialled, r)"
      using True h g by (simp add: guarded_fetch.simps[of policy parse hop n])
    moreover have "list_all (\<lambda>address. guarded_dial_control parse address = None) dialled \<and>
        length dialled \<le> Suc (fp_max_redirects policy - Suc n)"
      using 1[of "hop n" address answer] h True g by simp
    ultimately show ?thesis using True by (auto simp: check_redirect_def)
  next
    case False
    then show ?thesis using h
      by (auto simp: guarded_fetch.simps[of policy parse hop n] split: option.split hop_answer.split)
  qed
qed


text \<open>
  Three kinds of internal destination pass the test: the local-use translation prefix of RFC 8215, which
  embeds any IPv4 address like the one the list blocks, the IPv4-compatible form, and the former site-local range.
\<close>

theorem embedded_and_site_local_addresses_pass:
  "\<not> is_publicly_routable (Addr4 (v4 127 0 0 1)) \<and>
   \<not> is_publicly_routable (Addr6 (v6 [0x64, 0xff9b, 0, 0, 0, 0, 0x7f00, 1]) '''') \<and>
   is_publicly_routable (Addr6 (v6 [0x64, 0xff9b, 1, 0, 0, 0, 0x7f00, 1]) '''') \<and>
   is_publicly_routable (Addr6 (v6 [0, 0, 0, 0, 0, 0, 0x7f00, 1]) '''') \<and>
   is_publicly_routable (Addr6 (v6 [0xfec0, 0, 0, 0, 0, 0, 0, 1]) '''')"
proof -
  have plain: "drop_bit 32 (v6 [0x64, 0xff9b, 0, 0, 0, 0, 0x7f00, 1]) \<noteq> 0xFFFF"
    "drop_bit 32 (v6 [0x64, 0xff9b, 1, 0, 0, 0, 0x7f00, 1]) \<noteq> 0xFFFF"
    "drop_bit 32 (v6 [0, 0, 0, 0, 0, 0, 0x7f00, 1]) \<noteq> 0xFFFF"
    "drop_bit 32 (v6 [0xfec0, 0, 0, 0, 0, 0, 0, 1]) \<noteq> 0xFFFF"
    by (simp_all add: v6_def word_uint_eq_iff uint_drop)
  show ?thesis
    unfolding routable4_ranges routable6_ranges[OF plain(1)] routable6_ranges[OF plain(2)]
      routable6_ranges[OF plain(3)] routable6_ranges[OF plain(4)] internal_ranges4_def internal_ranges6_def
    by (simp add: in_range_def v4_def v6_def)
qed

end
