(* ===== verification/Access.thy ===== *)
theory Access
  imports FixedWindow OutboundFetch Base64
begin

text \<open>
  What stands between a request and a handler: opaque tokens and verification codes
  (\<open>internal/security/token.go\<close>, \<open>verification_code.go\<close>), access tokens (\<open>access_token.go\<close>) and the middleware
  that authenticates and limits requests (\<open>internal/middleware\<close>). SHA-256, HMAC, the random source and the
  JWT library are arguments; a handler is a function of the verified claims.
\<close>

section \<open>Opaque tokens\<close>

definition token_length :: nat where "token_length = 32"

text \<open>\<open>rand\<close> is what the random source put into the 32 bytes.\<close>

definition generate_token :: "go_error + string \<Rightarrow> go_error + string" where
  "generate_token rand = (case rand of Inl e \<Rightarrow> Inl e | Inr bs \<Rightarrow> Inr (base64_encode bs))"

definition hash_token :: "(string \<Rightarrow> string) \<Rightarrow> string \<Rightarrow> string" where
  "hash_token sha256 token = base64_encode (sha256 token)"

section \<open>Verification codes\<close>

definition verification_code_length :: nat where "verification_code_length = 6"
definition verification_code_max :: nat where "verification_code_max = 1000000"

text \<open>\<open>draw\<close> is what \<open>rand.Int\<close> answered for the bound.\<close>

definition generate_code :: "(nat \<Rightarrow> go_error + nat) \<Rightarrow> go_error + string" where
  "generate_code draw =
     (case draw verification_code_max of
        Inl e \<Rightarrow> Inl (Wrapped ''generate verification code'' e)
      | Inr n \<Rightarrow> Inr (zero_padded verification_code_length n))"

definition hash_code :: "(string \<Rightarrow> string \<Rightarrow> nat list) \<Rightarrow> string \<Rightarrow> string \<Rightarrow> string" where
  "hash_code mac secret code = hex_encode (mac secret code)"

definition verify_code :: "(string \<Rightarrow> string \<Rightarrow> nat list) \<Rightarrow> string \<Rightarrow> string \<Rightarrow> string \<Rightarrow> bool" where
  "verify_code mac secret code encoded \<longleftrightarrow> hash_code mac secret code = encoded"

section \<open>Access tokens\<close>

text \<open>Numeric dates are whole seconds; an absent one is \<open>None\<close>, absent texts and ids are the zero values.\<close>

record claims =
  subject :: string
  issued_at :: "int option"
  expires_at :: "int option"
  session_id :: uuid

definition numeric_date :: "time \<Rightarrow> int" where
  "numeric_date t = t div second"

definition access_claims :: "(uuid \<Rightarrow> string) \<Rightarrow> time \<Rightarrow> uuid \<Rightarrow> uuid \<Rightarrow> duration \<Rightarrow> claims" where
  "access_claims show_uuid now user session lifetime =
     \<lparr>subject = show_uuid user, issued_at = Some (numeric_date now),
      expires_at = Some (numeric_date (now + lifetime)), session_id = session\<rparr>"

definition hs256 :: string where "hs256 = ''HS256''"

text \<open>\<open>signed_string method claims secret\<close> is the library's \<open>NewWithClaims\<close> followed by \<open>SignedString\<close>.\<close>

definition access_generate ::
  "(string \<Rightarrow> claims \<Rightarrow> string \<Rightarrow> go_error + string) \<Rightarrow> (uuid \<Rightarrow> string) \<Rightarrow> string \<Rightarrow> time \<Rightarrow> uuid \<Rightarrow> uuid \<Rightarrow> duration
     \<Rightarrow> go_error + string" where
  "access_generate signed_string show_uuid secret now user session lifetime =
     signed_string hs256 (access_claims show_uuid now user session lifetime) secret"

definition err_required_claim_missing :: go_error where
  "err_required_claim_missing = Sentinel ''token is missing required claim''"
definition err_token_expired :: go_error where "err_token_expired = Sentinel ''token is expired''"

text \<open>\<open>parse methods secret now token\<close> is \<open>ParseWithClaims\<close> with the valid methods.\<close>

type_synonym jwt_parse = "string list \<Rightarrow> string \<Rightarrow> time \<Rightarrow> string \<Rightarrow> go_error + claims"

definition access_verify :: "jwt_parse \<Rightarrow> string \<Rightarrow> time \<Rightarrow> string \<Rightarrow> go_error + claims" where
  "access_verify parse secret now token =
     (case parse [hs256] secret now token of
        Inl e \<Rightarrow> Inl e
      | Inr cl \<Rightarrow> if subject cl = '''' then Inl err_required_claim_missing
                  else if session_id cl = uuid_nil then Inl err_required_claim_missing
                  else Inr cl)"

section \<open>Middleware\<close>

definition code_invalid_authorization_header :: string where
  "code_invalid_authorization_header = ''INVALID_AUTHORIZATION_HEADER''"
definition code_invalid_access_token :: string where "code_invalid_access_token = ''INVALID_ACCESS_TOKEN''"
definition code_access_token_expired :: string where "code_access_token_expired = ''ACCESS_TOKEN_EXPIRED''"
definition code_ip_rate_limit_exceeded :: string where "code_ip_rate_limit_exceeded = ''IP_RATE_LIMIT_EXCEEDED''"
definition code_ip_rate_limit_unavailable :: string where
  "code_ip_rate_limit_unavailable = ''IP_RATE_LIMIT_UNAVAILABLE''"
definition code_client_ip_unavailable :: string where "code_client_ip_unavailable = ''CLIENT_IP_UNAVAILABLE''"
definition code_user_rate_limit_exceeded :: string where
  "code_user_rate_limit_exceeded = ''USER_RATE_LIMIT_EXCEEDED''"
definition code_user_rate_limit_unavailable :: string where
  "code_user_rate_limit_unavailable = ''USER_RATE_LIMIT_UNAVAILABLE''"
definition err_claims_missing :: go_error where
  "err_claims_missing = Sentinel ''rate limited route reached without verified claims''"

definition bearer :: string where "bearer = ''Bearer ''"

text \<open>
  \<open>Auth\<close>: the claims it stores for the rest of the chain, or the error it answers with. The chain goes
  on exactly when it returns claims.
\<close>

definition auth_middleware :: "(string \<Rightarrow> go_error + claims) \<Rightarrow> string \<Rightarrow> go_error + claims" where
  "auth_middleware verify header =
     (if take (length bearer) header \<noteq> bearer then
        Inl (unauthorized_with code_invalid_authorization_header ''missing or invalid authorization header'' None)
      else
        (let token = trim_space (trim_prefix bearer header) in
         if token = '''' then
           Inl (unauthorized_with code_invalid_authorization_header ''missing or invalid authorization header'' None)
         else case verify token of
           Inl e \<Rightarrow>
             if errors_is e err_token_expired
             then Inl (unauthorized_with code_access_token_expired ''access token expired'' (Some e))
             else Inl (unauthorized_with code_invalid_access_token ''invalid access token'' (Some e))
         | Inr cl \<Rightarrow> Inr cl))"

text \<open>
  The two limiters over the fixed-window limiter: \<open>None\<close> lets the request on. \<open>limit_answer\<close> is the part
  they share, with the codes and messages of either.
\<close>

definition limit_answer :: "string \<Rightarrow> string \<Rightarrow> go_error + rl_result \<Rightarrow> go_error option" where
  "limit_answer unavailable exceeded r =
     (case r of
        Inl e \<Rightarrow> Some (service_unavailable_with unavailable
                   ''request limiting is unavailable, please try again shortly'' (Some e))
      | Inr res \<Rightarrow>
        if \<not> r_allowed res
        then Some (too_many_requests_with_retry_after exceeded ''too many requests, please try again later'' (r_retry_after res))
        else None)"

definition ip_rate_limit ::
  "(string \<Rightarrow> string \<Rightarrow> nat list) \<Rightarrow> string \<Rightarrow> (string \<Rightarrow> string option) \<Rightarrow> string \<Rightarrow> policy \<Rightarrow> fate \<Rightarrow> int \<Rightarrow> string
     \<Rightarrow> keyspace \<Rightarrow> go_error option \<times> keyspace" where
  "ip_rate_limit mac secret norm_ip namespace pol f t raw ks =
     (case norm_ip raw of
        None \<Rightarrow> (Some (service_unavailable_with code_client_ip_unavailable
                  ''unable to determine the client address'' None), ks)
      | Some ip \<Rightarrow>
        (case allow mac secret f t namespace ip pol ks of
           (r, ks') \<Rightarrow> (limit_answer code_ip_rate_limit_unavailable code_ip_rate_limit_exceeded r, ks')))"

definition user_rate_limit ::
  "(string \<Rightarrow> string \<Rightarrow> nat list) \<Rightarrow> string \<Rightarrow> string \<Rightarrow> policy \<Rightarrow> fate \<Rightarrow> int \<Rightarrow> claims option
     \<Rightarrow> keyspace \<Rightarrow> go_error option \<times> keyspace" where
  "user_rate_limit mac secret namespace pol f t cl ks =
     (case cl of
        None \<Rightarrow> (Some (internal (Some err_claims_missing)), ks)
      | Some c \<Rightarrow>
        if subject c = '''' then (Some (internal (Some err_claims_missing)), ks)
        else (case allow mac secret f t namespace (subject c) pol ks of
           (r, ks') \<Rightarrow> (limit_answer code_user_rate_limit_unavailable code_user_rate_limit_exceeded r, ks')))"

text \<open>A route that authenticates and then limits per user, as the API mounts them.\<close>

record request =
  rq_header :: string
  rq_time :: int
  rq_fate :: fate

definition guarded_route ::
  "(string \<Rightarrow> string \<Rightarrow> nat list) \<Rightarrow> string \<Rightarrow> string \<Rightarrow> policy \<Rightarrow> (time \<Rightarrow> string \<Rightarrow> go_error + claims)
     \<Rightarrow> request \<Rightarrow> keyspace \<Rightarrow> (go_error + claims) \<times> keyspace" where
  "guarded_route mac secret namespace pol verify rq ks =
     (case auth_middleware (verify (rq_time rq * millisecond)) (rq_header rq) of
        Inl e \<Rightarrow> (Inl e, ks)
      | Inr cl \<Rightarrow>
        (case user_rate_limit mac secret namespace pol (rq_fate rq) (rq_time rq) (Some cl) ks of
           (Some e, ks') \<Rightarrow> (Inl e, ks')
         | (None, ks') \<Rightarrow> (Inr cl, ks')))"

fun guarded_requests ::
  "(string \<Rightarrow> string \<Rightarrow> nat list) \<Rightarrow> string \<Rightarrow> string \<Rightarrow> policy \<Rightarrow> (time \<Rightarrow> string \<Rightarrow> go_error + claims)
     \<Rightarrow> request list \<Rightarrow> keyspace \<Rightarrow> claims list" where
  "guarded_requests mac secret namespace pol verify [] ks = []"
| "guarded_requests mac secret namespace pol verify (rq # rqs) ks =
     (case guarded_route mac secret namespace pol verify rq ks of
        (Inl e, ks') \<Rightarrow> guarded_requests mac secret namespace pol verify rqs ks'
      | (Inr cl, ks') \<Rightarrow> cl # guarded_requests mac secret namespace pol verify rqs ks')"

section \<open>Properties of tokens and codes\<close>

lemma hex_digit_injective: "m < 16 \<Longrightarrow> n < 16 \<Longrightarrow> hex_digit m = hex_digit n \<longleftrightarrow> m = n"
proof -
  have "distinct ''0123456789abcdef''" by simp
  then show "m < 16 \<Longrightarrow> n < 16 \<Longrightarrow> ?thesis" by (simp add: hex_digit_def nth_eq_iff_index_eq)
qed

lemma hex_encode_injective:
  "\<forall>b\<in>set bs. b < 256 \<Longrightarrow> \<forall>b\<in>set cs. b < 256 \<Longrightarrow> hex_encode bs = hex_encode cs \<longleftrightarrow> bs = cs"
proof (induction bs arbitrary: cs)
  case Nil
  show ?case by (cases cs) (simp_all add: hex_encode_def)
next
  case (Cons b bs)
  show ?case
  proof (cases cs)
    case Nil
    then show ?thesis by (simp add: hex_encode_def)
  next
    case (Cons c cs')
    have s: "b div 16 < 16" "c div 16 < 16" "b < 256" "c < 256" using Cons.prems Cons by (simp_all add: byte_digits(1))
    have "hex_encode (b # bs) = hex_encode (c # cs') \<longleftrightarrow> b div 16 = c div 16 \<and> b mod 16 = c mod 16 \<and> bs = cs'"
      using Cons.IH[of cs'] Cons.prems Cons s by (simp add: hex_encode_def hex_digit_injective)
    also have "\<dots> \<longleftrightarrow> b = c \<and> bs = cs'" by (metis div_mult_mod_eq)
    finally show ?thesis using Cons by simp
  qed
qed

text \<open>
  Every code the service issues is six digits, all numbers below a million are codes and no two numbers
  the same one; the code checks against its own stored hash, and another text checks against it only
  if the two collide under the keyed hash. A failing random source is reported, not replaced.
\<close>

theorem verification_codes_are_six_digits_and_verify:
  assumes draw_bound: "\<And>b n. draw b = Inr n \<Longrightarrow> n < b"
    and mac_bytes: "\<And>k x. list_all (\<lambda>b. b < 256) (mac k x)"
  shows "case generate_code draw of
     Inl e \<Rightarrow> (\<exists>e'. draw verification_code_max = Inl e' \<and> e = Wrapped ''generate verification code'' e')
   | Inr code \<Rightarrow> length code = 6 \<and> list_all (\<lambda>c. digit_of c \<noteq> None) code
       \<and> Inr (the (read_digits 0 code)) = draw verification_code_max
       \<and> (\<forall>guess. verify_code mac secret guess (hash_code mac secret code) = (mac secret guess = mac secret code))"
proof (cases "draw verification_code_max")
  case Inl
  then show ?thesis by (simp add: generate_code_def)
next
  case (Inr n)
  then have n: "n < 10 ^ 6" using draw_bound[OF Inr] by (simp add: verification_code_max_def)
  have "verify_code mac secret g (hash_code mac secret c) = (mac secret g = mac secret c)" for g c
    using mac_bytes[of secret g] mac_bytes[of secret c]
    by (simp add: verify_code_def hash_code_def hex_encode_injective list_all_iff)
  with n show ?thesis
    using zero_padded_digits[of 6 n]
    by (simp add: generate_code_def Inr verification_code_length_def length_zero_padded read_zero_padded list_all_iff)
qed

definition spelled_mac :: "string \<Rightarrow> string \<Rightarrow> nat list" where
  "spelled_mac k x = map of_char x"

theorem verification_codes_are_six_digits_and_verify_witness:
  "generate_code (\<lambda>b. Inr 4217) = Inr ''004217'' \<and>
   verify_code spelled_mac ''k'' ''004217'' (hash_code spelled_mac ''k'' ''004217'') \<and>
   \<not> verify_code spelled_mac ''k'' ''004218'' (hash_code spelled_mac ''k'' ''004217'')"

proof -
  have c: "generate_code (\<lambda>b. if 4217 < b then Inr 4217 else Inl DbFault) = Inr ''004217''"
  proof -
    have "decimal 4217 = ''4217''" by (simp add: decimal.simps char_of_eq_iff)
    then have "zero_padded 6 4217 = ''004217''" by (simp add: zero_padded_def numeral_2_eq_2)
    then show ?thesis by (simp add: generate_code_def verification_code_max_def verification_code_length_def)
  qed
  have bound: "n < b" if "(if 4217 < b then Inr 4217 else Inl DbFault) = (Inr n :: go_error + nat)" for b n
    using that by (simp split: if_split_asm)
  have bytes: "list_all (\<lambda>b. b < 256) (spelled_mac k x)" for k x by (simp add: spelled_mac_def list_all_iff)
  from verification_codes_are_six_digits_and_verify[where secret = "''k''" and mac = spelled_mac
      and draw = "\<lambda>b. if 4217 < b then Inr 4217 else Inl DbFault", OF bound bytes] c
  have "verify_code spelled_mac ''k'' guess (hash_code spelled_mac ''k'' ''004217'') =
      (spelled_mac ''k'' guess = spelled_mac ''k'' ''004217'')" for guess by simp
  then have "verify_code spelled_mac ''k'' ''004217'' (hash_code spelled_mac ''k'' ''004217'')"
    "\<not> verify_code spelled_mac ''k'' ''004218'' (hash_code spelled_mac ''k'' ''004217'')"
    by (simp_all add: spelled_mac_def)

  moreover have "generate_code (\<lambda>b. Inr 4217) = Inr ''004217''"
    using c by (simp add: generate_code_def verification_code_max_def)
  ultimately show ?thesis by blast
qed


text \<open>
  An opaque token is 43 URL-safe characters from which its 32 random bytes can be read back, and the
  digest a table stores for it is shared by two tokens only if SHA-256 collides on them.
\<close>

lemma tokens_keep_their_randomness:
  "length bs = token_length \<Longrightarrow> generate_token (Inr bs) = Inr token \<Longrightarrow>
     length token = 43 \<and> list_all url_safe token \<and> base64_decode token = Some bs"
  "hash_token sha256 t = hash_token sha256 t' \<longleftrightarrow> sha256 t = sha256 t'"
  using base64_encode_url_safe[of bs] base64_encode_injective[of "sha256 t" "sha256 t'"]
  by (auto simp: generate_token_def token_length_def length_base64_encode base64_roundtrip hash_token_def list_all_iff)

section \<open>Properties of the chain\<close>

text \<open>
  An access token opens the door for the user and session it was made for, until it expires and not
  after: presented as a bearer token it passes with its claims while the clock is before its expiry, is
  answered with \<open>ACCESS_TOKEN_EXPIRED\<close> from then on, and the expiry lies within the last second of the
  lifetime asked for. A token for the nil session never passes.
\<close>

theorem access_token_opens_until_it_expires:
  fixes parse :: jwt_parse
  assumes made: "access_generate signed_string show_uuid secret now user session lifetime = Inr token"
    and jwt: "\<And>t. parse [hs256] secret t token =
       (if t < numeric_date (now + lifetime) * second
        then Inr (access_claims show_uuid now user session lifetime) else Inl e)"
    and expired: "errors_is e err_token_expired"
    and shown: "show_uuid user \<noteq> ''''" and plain: "trim_space token = token" "token \<noteq> ''''"
  shows "let exp = numeric_date (now + lifetime) * second in
     auth_middleware (access_verify parse secret t) (bearer @ token) =
       (if exp \<le> t then Inl (unauthorized_with code_access_token_expired ''access token expired'' (Some e))
        else if session = uuid_nil
          then Inl (unauthorized_with code_invalid_access_token ''invalid access token'' (Some err_required_claim_missing))
        else Inr (access_claims show_uuid now user session lifetime))
     \<and> exp \<le> now + lifetime \<and> now + lifetime < exp + second"
proof -
  have range: "numeric_date x * second \<le> x \<and> x < numeric_date x * second + second" for x
    using div_mult_mod_eq[of x second] pos_mod_bound[of second x] pos_mod_sign[of second x]
    unfolding numeric_date_def by linarith
  have missing: "\<not> errors_is err_required_claim_missing err_token_expired"
    by (simp add: errors_is_def err_required_claim_missing_def err_token_expired_def)
  have "trim_prefix bearer (bearer @ token) = token" by (simp add: trim_prefix_def)
  with range[of "now + lifetime"] show ?thesis
    using plain expired shown missing
    by (auto simp: Let_def auth_middleware_def access_verify_def jwt access_claims_def)
qed

theorem access_token_opens_until_it_expires_witness:
  "let p = (\<lambda>ms secret t token. if t < 900 * second then Inr (access_claims (\<lambda>u. ''u7'') 0 7 3 (15 * minute))
            else Inl err_token_expired) in
   auth_middleware (access_verify p ''k'' (899 * second)) ''Bearer x.y.z'' =
     Inr (access_claims (\<lambda>u. ''u7'') 0 7 3 (15 * minute)) \<and>
   auth_middleware (access_verify p ''k'' (900 * second)) ''Bearer x.y.z'' =
     Inl (unauthorized_with code_access_token_expired ''access token expired'' (Some err_token_expired))"
proof -
  let ?p = "(\<lambda>ms secret t token. if t < 900 * second then Inr (access_claims (\<lambda>u. ''u7'') 0 7 3 (15 * minute))
            else Inl err_token_expired) :: jwt_parse"
  have made: "access_generate (\<lambda>m c s. Inr ''x.y.z'') (\<lambda>u. ''u7'') ''k'' 0 7 3 (15 * minute) = Inr ''x.y.z''"
    by (simp add: access_generate_def)
  have jwt: "?p [hs256] ''k'' t ''x.y.z'' = (if t < numeric_date (0 + 15 * minute) * second
      then Inr (access_claims (\<lambda>u. ''u7'') 0 7 3 (15 * minute)) else Inl err_token_expired)" for t
    by (simp add: numeric_date_def)
  have e: "errors_is err_token_expired err_token_expired" by (simp add: errors_is_def err_token_expired_def)
  have p: "trim_space ''x.y.z'' = ''x.y.z''" by code_simp
  note th = access_token_opens_until_it_expires[where parse = ?p, OF made jwt e _ p]
  show ?thesis
    using th[of "899 * second"] th[of "900 * second"] by (simp add: numeric_date_def uuid_nil_def bearer_def Let_def)
qed

text \<open>
  Whatever is sent, a request passes \<open>Auth\<close> only as \<open>Bearer\<close> and a token that the verifier accepted
  with the signing method and key of this service, with a subject and a session; everything else is
  answered 401, with a code that tells an expired token from any other.
\<close>

theorem only_verified_tokens_pass:
  "case auth_middleware (access_verify parse secret now) header of
     Inr cl \<Rightarrow> (\<exists>token. header = bearer @ token \<and> trim_space token \<noteq> '''' \<and>
        parse [hs256] secret now (trim_space token) = Inr cl \<and> subject cl \<noteq> '''' \<and> session_id cl \<noteq> uuid_nil)
   | Inl e \<Rightarrow> is_app_error e \<and> ae_status e = 401 \<and>
        ae_code e \<in> {code_invalid_authorization_header, code_invalid_access_token, code_access_token_expired} \<and>
        (ae_code e = code_access_token_expired) =
          (take 7 header = bearer \<and> trim_space (drop 7 header) \<noteq> '''' \<and>
           (\<exists>e'. parse [hs256] secret now (trim_space (drop 7 header)) = Inl e' \<and> errors_is e' err_token_expired))"
proof -
  have codes: "code_invalid_authorization_header \<noteq> code_access_token_expired"
    "code_invalid_access_token \<noteq> code_access_token_expired"
    by (simp_all add: code_invalid_authorization_header_def code_invalid_access_token_def code_access_token_expired_def)
  have missing: "\<not> errors_is err_required_claim_missing err_token_expired"
    by (simp add: errors_is_def err_required_claim_missing_def err_token_expired_def)
  have l: "length bearer = 7" by (simp add: bearer_def)
  have u: "is_app_error (unauthorized_with c m x) \<and> ae_status (unauthorized_with c m x) = 401
      \<and> ae_code (unauthorized_with c m x) = c" if "c \<noteq> ''''" "m \<noteq> ''''" for c m x
    using that by (simp add: unauthorized_with_def with_defaults_def new_error_def)
  have ne: "code_invalid_authorization_header \<noteq> ''''" "code_invalid_access_token \<noteq> ''''" "code_access_token_expired \<noteq> ''''"
    by (simp_all add: code_invalid_authorization_header_def code_invalid_access_token_def code_access_token_expired_def)
  show ?thesis
  proof (cases "take 7 header = bearer")
    case False
    then show ?thesis by (simp add: auth_middleware_def l u ne codes)
  next
    case True
    then obtain token where h: "header = bearer @ token" by (metis append_take_drop_id)
    then have t: "trim_prefix bearer (bearer @ token) = token" "drop 7 (bearer @ token) = token"
      by (simp_all add: trim_prefix_def l)
    show ?thesis
      using True h codes missing
      by (auto simp: auth_middleware_def access_verify_def l t u ne Let_def split: sum.splits)
  qed
qed

text \<open>Requests that got through, against the limiter's own count of admissions.\<close>

definition limiter_calls ::
  "string \<Rightarrow> policy \<Rightarrow> (time \<Rightarrow> string \<Rightarrow> go_error + claims) \<Rightarrow> request list \<Rightarrow> rl_call list" where
  "limiter_calls namespace pol verify rqs =
     concat (map (\<lambda>rq. case auth_middleware (verify (rq_time rq * millisecond)) (rq_header rq) of
        Inl e \<Rightarrow> []
      | Inr cl \<Rightarrow> if subject cl = '''' then []
                  else [CallAllow (rq_fate rq) (rq_time rq) namespace (subject cl) pol]) rqs)"

lemma passed_are_admitted:
  "int (length (filter (\<lambda>cl. subject cl = u) (guarded_requests mac secret ns pol verify rqs ks)))
     \<le> admitted mac secret (limiter_key mac secret ns u) (limiter_calls ns pol verify rqs) ks"
proof (induction rqs arbitrary: ks)
  case Nil
  then show ?case by (simp add: limiter_calls_def)
next
  case (Cons rq rqs)
  have nonneg: "0 \<le> admitted mac secret k cs x" for k cs x by (induction cs arbitrary: x) simp_all
  note split_defs = guarded_route_def user_rate_limit_def limit_answer_def limiter_calls_def
  show ?case
  proof (cases "auth_middleware (verify (rq_time rq * millisecond)) (rq_header rq)")
    case (Inl e)
    then show ?thesis using Cons.IH[of ks] by (simp add: split_defs)
  next
    case (Inr cl)
    show ?thesis
    proof (cases "subject cl = ''''")
      case True
      then show ?thesis using Inr Cons.IH[of ks] by (simp add: split_defs)
    next
      case False
      obtain r ks' where a: "allow mac secret (rq_fate rq) (rq_time rq) ns (subject cl) pol ks = (r, ks')" by fastforce
      show ?thesis using Inr False a Cons.IH[of ks']
        by (auto simp: split_defs split: sum.splits)
    qed
  qed
qed

lemma limiter_calls_charge:
  assumes "c \<in> set (limiter_calls ns pol verify rqs)"
  shows "charges_only mac secret k pol c \<and> (\<exists>rq\<in>set rqs. call_time c = rq_time rq)"
  using assms by (auto simp: limiter_calls_def split: sum.splits if_splits)

lemma length_limiter_calls: "length (limiter_calls ns pol verify rqs) \<le> length rqs"
  by (induction rqs) (auto simp: limiter_calls_def split: sum.splits)

text \<open>
  A user gets at most the policy's number of requests through a guarded route in one window, whatever
  tokens, sessions and headers they are sent with and whatever other users do: only what passes \<open>Auth\<close>
  is counted, under its subject, and what the limiter does not admit does not reach the handler.
\<close>

theorem guarded_route_serves_at_most_max:
  assumes "policy_error pol = None" and "live t0 ks (limiter_key mac secret ns u) = None"
    and "int (length rqs) + 1 < 2 ^ 63"
    and "\<forall>rq\<in>set rqs. t0 \<le> rq_time rq \<and> rq_time rq < t0 + window_seconds pol * 1000"
  shows "int (length (filter (\<lambda>cl. subject cl = u) (guarded_requests mac secret ns pol verify rqs ks))) \<le> p_max pol"
proof -
  have "admitted mac secret (limiter_key mac secret ns u) (limiter_calls ns pol verify rqs) ks \<le> p_max pol"
  proof (rule admitted_from_none[OF assms(1,2)])
    show "int (length (limiter_calls ns pol verify rqs)) + 1 < 2 ^ 63"
      using length_limiter_calls[of ns pol verify rqs] assms(3) by linarith
    show "\<forall>c\<in>set (limiter_calls ns pol verify rqs). charges_only mac secret (limiter_key mac secret ns u) pol c \<and>
        t0 \<le> call_time c \<and> call_time c < t0 + window_seconds pol * 1000"
    proof
      fix c assume "c \<in> set (limiter_calls ns pol verify rqs)"
      from limiter_calls_charge[OF this, of mac secret "limiter_key mac secret ns u"] assms(4)
      show "charges_only mac secret (limiter_key mac secret ns u) pol c \<and>
        t0 \<le> call_time c \<and> call_time c < t0 + window_seconds pol * 1000" by auto
    qed
  qed
  with passed_are_admitted[of u mac secret ns pol verify rqs ks] show ?thesis by linarith
qed

theorem guarded_route_serves_at_most_max_witness:
  "let verify = (\<lambda>t token. if token = ''good'' then Inr (access_claims (\<lambda>u. ''u7'') 0 7 3 minute) else Inl DbFault);
       rq = (\<lambda>h t. \<lparr>rq_header = h, rq_time = t, rq_fate = StmtOk\<rparr>) in
   int (length (filter (\<lambda>cl. subject cl = ''u7'')
     (guarded_requests demo_mac ''s'' ''list'' demo_policy verify
        [rq ''Bearer good'' 0, rq ''Bearer bad'' 1, rq ''Bearer good'' 9999] (\<lambda>_. None)))) \<le> 1"
  using guarded_route_serves_at_most_max[OF demo_policy_ok, of 0 "\<lambda>_. None" demo_mac "''s''" "''list''" "''u7''"
      "[\<lparr>rq_header = ''Bearer good'', rq_time = 0, rq_fate = StmtOk\<rparr>,
        \<lparr>rq_header = ''Bearer bad'', rq_time = 1, rq_fate = StmtOk\<rparr>,
        \<lparr>rq_header = ''Bearer good'', rq_time = 9999, rq_fate = StmtOk\<rparr>]"
      "\<lambda>t token. if token = ''good'' then Inr (access_claims (\<lambda>u. ''u7'') 0 7 3 minute) else Inl DbFault"]
  by (simp add: demo_policy_def window_seconds_def live_def Let_def)

end
