(* ===== verification/Login.thy ===== *)
theory Login
  imports Registration SessionTokens Passwords
begin

text \<open>
  Logging in: \<open>internal/api/auth/login\<close>. With a password, charged against the address's failure budget
  before anything else; with a Google ID token, which signs in a linked identity, opens an account link
  confirmation or starts a social registration; and the confirmation of a link. The accounts, credentials
  and identities are those of registration.
\<close>

section \<open>State\<close>

record account_link =
  al_id :: uuid
  al_user :: uuid
  al_provider :: string
  al_subject :: string
  al_display_name :: "string option"
  al_created_at :: time
  al_expires_at :: time
  al_confirmed_at :: "time option"

record login_db =
  lg_tables :: registration_db
  lg_links :: "account_link list"

definition account_link_confirmation_lifetime :: duration where "account_link_confirmation_lifetime = 15 * minute"
definition google_auth_provider :: string where "google_auth_provider = ''google''"
definition login_email_failure_limit :: int where "login_email_failure_limit = 10"
definition login_email_failure_window :: duration where "login_email_failure_window = 15 * minute"
definition login_email_failure_namespace :: string where "login_email_failure_namespace = ''login-email''"

section \<open>SQL statements\<close>

definition ql_get_user_for_login :: "string \<Rightarrow> (login_db, user \<times> string) query" where
  "ql_get_user_for_login email db =
     (case row_with u_email email (accounts (lg_tables db)) of
        None \<Rightarrow> Inl err_no_rows
      | Some u \<Rightarrow>
          (case row_with pc_user (u_id u) (credentials (lg_tables db)) of
             None \<Rightarrow> Inl err_no_rows
           | Some c \<Rightarrow> Inr ((u, pc_hash c), db)))"

text \<open>A left join: the hash is \<open>NULL\<close> for an account without a password.\<close>

definition ql_get_user_for_login_by_id :: "uuid \<Rightarrow> (login_db, user \<times> string option) query" where
  "ql_get_user_for_login_by_id uid db =
     (case row_with u_id uid (accounts (lg_tables db)) of
        None \<Rightarrow> Inl err_no_rows
      | Some u \<Rightarrow> Inr ((u, map_option pc_hash (row_with pc_user uid (credentials (lg_tables db)))), db))"

definition ql_get_auth_identity :: "string \<Rightarrow> string \<Rightarrow> (login_db, auth_identity) query" where
  "ql_get_auth_identity provider subject db =
     (case row_with (\<lambda>i. (ai_provider i, ai_subject i)) (provider, subject) (identities (lg_tables db)) of
        None \<Rightarrow> Inl err_no_rows
      | Some i \<Rightarrow> if has_key u_id (ai_user i) (accounts (lg_tables db)) then Inr (i, db) else Inl err_no_rows)"

definition ql_get_user_by_email :: "string \<Rightarrow> (login_db, user) query" where
  "ql_get_user_by_email email db =
     (case row_with u_email email (accounts (lg_tables db)) of None \<Rightarrow> Inl err_no_rows | Some u \<Rightarrow> Inr (u, db))"

definition ql_create_auth_identity ::
  "uuid \<Rightarrow> uuid \<Rightarrow> string \<Rightarrow> string \<Rightarrow> string option \<Rightarrow> string option \<Rightarrow> (login_db, auth_identity) query" where
  "ql_create_auth_identity aid uid provider subject email name db =
     (case q_create_auth_identity aid uid provider subject email name (lg_tables db) of
        Inl e \<Rightarrow> Inl e
      | Inr (_, tables) \<Rightarrow>
          Inr (\<lparr>ai_id = aid, ai_user = uid, ai_provider = provider, ai_subject = subject,
                ai_email_snapshot = email, ai_display_name_snapshot = name\<rparr>, db\<lparr>lg_tables := tables\<rparr>))"

definition ql_create_account_link_confirmation ::
  "time \<Rightarrow> uuid \<Rightarrow> uuid \<Rightarrow> string \<Rightarrow> string \<Rightarrow> string option \<Rightarrow> time \<Rightarrow> (login_db, account_link) query" where
  "ql_create_account_link_confirmation now lid uid provider subject name expires db =
     (if has_key al_id lid (lg_links db) then Inl (PgError ''account_link_confirmations_pkey'')
      else if \<not> has_key u_id uid (accounts (lg_tables db))
      then Inl (PgError ''account_link_confirmations_user_id_fkey'')
      else
        (let l = \<lparr>al_id = lid, al_user = uid, al_provider = provider, al_subject = subject,
                  al_display_name = name, al_created_at = now, al_expires_at = expires, al_confirmed_at = None\<rparr>
         in Inr (l, db\<lparr>lg_links := lg_links db @ [l]\<rparr>)))"

text \<open>The two reads of a confirmation differ in the columns and in the row lock only.\<close>

definition link_active :: "time \<Rightarrow> account_link \<Rightarrow> bool" where
  "link_active now l \<longleftrightarrow> al_confirmed_at l = None \<and> al_expires_at l > now"

definition ql_get_active_account_link_confirmation ::
  "time \<Rightarrow> uuid \<Rightarrow> (login_db, account_link \<times> string) query" where
  "ql_get_active_account_link_confirmation now lid db =
     (case row_with al_id lid (filter (link_active now) (lg_links db)) of
        None \<Rightarrow> Inl err_no_rows
      | Some l \<Rightarrow>
          (case row_with u_id (al_user l) (accounts (lg_tables db)) of
             None \<Rightarrow> Inl err_no_rows
           | Some u \<Rightarrow> Inr ((l, u_email u), db)))"

definition ql_get_account_link_confirmation_for_update ::
  "time \<Rightarrow> uuid \<Rightarrow> (login_db, account_link \<times> string) query" where
  "ql_get_account_link_confirmation_for_update = ql_get_active_account_link_confirmation"

definition link_confirmable :: "uuid \<Rightarrow> account_link \<Rightarrow> bool" where
  "link_confirmable lid l \<longleftrightarrow> al_id l = lid \<and> al_confirmed_at l = None"

definition ql_mark_account_link_confirmation_confirmed :: "time \<Rightarrow> uuid \<Rightarrow> (login_db, nat) query" where
  "ql_mark_account_link_confirmation_confirmed now lid db =
     Inr (rows_where (link_confirmable lid) (lg_links db),
          db\<lparr>lg_links := update_where (link_confirmable lid) (\<lambda>l. l\<lparr>al_confirmed_at := Some now\<rparr>) (lg_links db)\<rparr>)"

section \<open>Repository\<close>

definition err_invalid_credentials :: "go_error option \<Rightarrow> go_error" where
  "err_invalid_credentials = unauthorized_with ''INVALID_CREDENTIALS'' ''invalid email or password''"

definition err_link_invalid :: "go_error option \<Rightarrow> go_error" where
  "err_link_invalid = conflict_with ''ACCOUNT_LINK_CONFIRMATION_INVALID'' ''account link confirmation is invalid''"

definition repo_get_user_for_login :: "string \<Rightarrow> (login_db, user \<times> string) prog" where
  "repo_get_user_for_login email =
     pool (ql_get_user_for_login email)
       (\<lambda>e. if errors_is e err_no_rows then fail (err_invalid_credentials (Some e)) else fail_internal e) ret"

definition repo_get_user_for_login_by_id :: "uuid \<Rightarrow> (login_db, user \<times> string option) prog" where
  "repo_get_user_for_login_by_id uid =
     pool (ql_get_user_for_login_by_id uid)
       (\<lambda>e. if errors_is e err_no_rows then fail (not_found (Some e)) else fail_internal e) ret"

text \<open>No row is the zero value: the nil id, of which the service knows it. Answers are the id and the user's id.\<close>

definition repo_get_auth_identity :: "string \<Rightarrow> string \<Rightarrow> (login_db, uuid \<times> uuid) prog" where
  "repo_get_auth_identity provider subject =
     pool (ql_get_auth_identity provider subject)
       (\<lambda>e. if errors_is e err_no_rows then ret (uuid_nil, uuid_nil) else fail_internal e)
       (\<lambda>i. ret (ai_id i, ai_user i))"

definition repo_get_login_user_by_email :: "string \<Rightarrow> (login_db, uuid) prog" where
  "repo_get_login_user_by_email email =
     pool (ql_get_user_by_email email)
       (\<lambda>e. if errors_is e err_no_rows then ret uuid_nil else fail_internal e) (\<lambda>u. ret (u_id u))"

definition repo_get_active_account_link_confirmation :: "time \<Rightarrow> uuid \<Rightarrow> (login_db, account_link \<times> string) prog" where
  "repo_get_active_account_link_confirmation now lid =
     pool (ql_get_active_account_link_confirmation now lid)
       (\<lambda>e. if errors_is e err_no_rows then fail (err_link_invalid (Some e)) else fail_internal e) ret"

definition repo_create_account_link_confirmation ::
  "time \<Rightarrow> uuid \<Rightarrow> uuid \<Rightarrow> string \<Rightarrow> string \<Rightarrow> string option \<Rightarrow> time \<Rightarrow> (login_db, account_link) prog" where
  "repo_create_account_link_confirmation now lid uid provider subject name expires =
     pool (ql_create_account_link_confirmation now lid uid provider subject name expires) fail_internal ret"

definition map_login_db_error :: "go_error \<Rightarrow> go_error" where
  "map_login_db_error e =
     (if pg_constraint e = Some ''auth_identities_provider_subject_unique'' then
        conflict_with ''AUTH_IDENTITY_ALREADY_EXISTS'' ''auth identity already exists'' (Some e)
      else internal (Some e))"

definition fail_login :: "go_error \<Rightarrow> (login_db, 'a) prog" where
  "fail_login e = fail (map_login_db_error e)"

definition repo_confirm_account_link :: "time \<Rightarrow> uuid \<Rightarrow> uuid \<Rightarrow> (login_db, auth_identity) prog" where
  "repo_confirm_account_link now aid lid =
     begin_tx fail_internal
      (exec (ql_get_account_link_confirmation_for_update now lid)
        (\<lambda>e. if errors_is e err_no_rows then fail (err_link_invalid (Some e)) else fail_internal e)
        (\<lambda>(l, email).
         exec (ql_create_auth_identity aid (al_user l) (al_provider l) (al_subject l) (Some email) (al_display_name l))
           fail_login (\<lambda>i.
         exec_one (ql_mark_account_link_confirmation_confirmed now lid) (err_link_invalid None)
         (commit fail_internal (ret i)))))"

section \<open>Google ID tokens\<close>

text \<open>
  \<open>idtoken.Validate\<close> is an argument: the payload of a token for one audience, or its error. A claim holds a
  string, a boolean or something else.
\<close>

datatype claim_value = ClaimString string | ClaimBool bool | ClaimOther

record google_payload =
  gp_subject :: string
  gp_claims :: "string \<rightharpoonup> claim_value"

type_synonym validator = "string \<Rightarrow> string \<Rightarrow> go_error + google_payload"

record google_identity =
  gi_subject :: string
  gi_email :: string
  gi_email_verified :: bool
  gi_display_name :: string

definition google_audiences :: "string \<Rightarrow> string \<Rightarrow> string list" where
  "google_audiences web desktop = web # (if desktop \<noteq> '''' \<and> desktop \<noteq> web then [desktop] else [])"

definition invalid_google_token :: "go_error option \<Rightarrow> go_error" where
  "invalid_google_token = unauthorized_with ''INVALID_GOOGLE_TOKEN'' ''invalid Google ID token''"

fun validate_for_any_audience ::
  "validator \<Rightarrow> string \<Rightarrow> string list \<Rightarrow> go_error option \<Rightarrow> go_error + google_payload" where
  "validate_for_any_audience validate token [] prev =
     Inl (case prev of None \<Rightarrow> Sentinel ''no Google audiences configured'' | Some e \<Rightarrow> e)"
| "validate_for_any_audience validate token (a # as) prev =
     (case validate token a of
        Inr p \<Rightarrow> Inr p
      | Inl e \<Rightarrow> validate_for_any_audience validate token as (Some e))"

definition get_string_claim :: "google_payload \<Rightarrow> string \<Rightarrow> go_error + string" where
  "get_string_claim p name =
     (case gp_claims p name of
        Some (ClaimString v) \<Rightarrow> if v = '''' then Inl (invalid_google_token None) else Inr v
      | _ \<Rightarrow> Inl (invalid_google_token None))"

definition get_optional_string_claim :: "google_payload \<Rightarrow> string \<Rightarrow> go_error + string" where
  "get_optional_string_claim p name =
     (case gp_claims p name of
        None \<Rightarrow> Inr ''''
      | Some (ClaimString v) \<Rightarrow> Inr v
      | Some _ \<Rightarrow> Inl (invalid_google_token None))"

definition get_bool_claim :: "google_payload \<Rightarrow> string \<Rightarrow> go_error + bool" where
  "get_bool_claim p name =
     (case gp_claims p name of
        Some (ClaimBool b) \<Rightarrow> Inr b
      | _ \<Rightarrow> Inl (invalid_google_token None))"

definition google_verify :: "validator \<Rightarrow> string list \<Rightarrow> string \<Rightarrow> go_error + google_identity" where
  "google_verify validate audiences token =
     (case validate_for_any_audience validate token audiences None of
        Inl e \<Rightarrow> Inl (invalid_google_token (Some e))
      | Inr p \<Rightarrow>
          if gp_subject p = '''' then Inl (invalid_google_token None)
          else
            (case get_string_claim p ''email'' of
               Inl e \<Rightarrow> Inl e
             | Inr email \<Rightarrow>
                 (case get_bool_claim p ''email_verified'' of
                    Inl e \<Rightarrow> Inl e
                  | Inr checked \<Rightarrow>
                      if \<not> checked then Inl (invalid_google_token None)
                      else
                        (case get_optional_string_claim p ''name'' of
                           Inl e \<Rightarrow> Inl e
                         | Inr name \<Rightarrow> Inr \<lparr>gi_subject = gp_subject p, gi_email = email, gi_email_verified = checked,
                                             gi_display_name = name\<rparr>))))"

section \<open>The masked address\<close>

text \<open>
  \<open>utf8.DecodeRuneInString\<close> followed by \<open>string(rune)\<close>: the bytes of the first character when they are
  well-formed UTF-8, and the replacement character when they are not.
\<close>

definition byte_in :: "nat \<Rightarrow> nat \<Rightarrow> char \<Rightarrow> bool" where
  "byte_in lo hi c \<longleftrightarrow> lo \<le> of_char c \<and> of_char c \<le> hi"

definition utf8_second :: "char \<Rightarrow> char \<Rightarrow> bool" where
  "utf8_second a b =
     (if of_char a = (224::nat) then byte_in 160 191 b
      else if of_char a = (237::nat) then byte_in 128 159 b
      else if of_char a = (240::nat) then byte_in 144 191 b
      else if of_char a = (244::nat) then byte_in 128 143 b
      else byte_in 128 191 b)"

definition utf8_width :: "char \<Rightarrow> nat" where
  "utf8_width a =
     (if byte_in 0 127 a then 1 else if byte_in 194 223 a then 2 else if byte_in 224 239 a then 3
      else if byte_in 240 244 a then 4 else 0)"

definition first_rune :: "string \<Rightarrow> string" where
  "first_rune s =
     (let n = utf8_width (hd s); r = take n s in
      if 0 < n \<and> length r = n \<and> (1 < n \<longrightarrow> utf8_second (r ! 0) (r ! 1)) \<and> list_all (byte_in 128 191) (drop 2 r)
      then r else map char_of [239::nat, 191, 189])"

definition last_index :: "char \<Rightarrow> string \<Rightarrow> nat option" where
  "last_index x s = (if x \<in> set s then Some (length s - 1 - length (takeWhile (\<lambda>c. c \<noteq> x) (rev s))) else None)"

definition mask_email :: "string \<Rightarrow> string" where
  "mask_email email =
     (case last_index CHR ''@'' email of
        None \<Rightarrow> ''''
      | Some i \<Rightarrow>
          if i = 0 \<or> i = length email - 1 then ''''
          else first_rune (take i email) @ ''***@'' @ drop (i + 1) email)"

section \<open>Service\<close>

text \<open>
  What a service call works on: the tables, the sessions, the failure counters, and the fixed hash of
  \<open>DummyVerify\<close> once it was computed. \<open>login_config\<close> is what the service is built with.
\<close>

record login_state =
  lt_db :: login_db
  lt_sessions :: session_db
  lt_counters :: keyspace
  lt_dummy :: "string option"

record login_config =
  lc_mac :: "string \<Rightarrow> string \<Rightarrow> nat list"
  lc_secret :: string
  lc_hash_token :: "string \<Rightarrow> string"
  lc_idkey :: idkey
  lc_wait :: duration
  lc_access :: "uuid \<Rightarrow> uuid \<Rightarrow> duration \<Rightarrow> go_error + string"
  lc_validate :: validator
  lc_audiences :: "string list"

text \<open>What one call meets: faults, clocks, generated ids and tokens, and the answer of the password limiter.\<close>

record login_env =
  le_charge :: "fate \<times> int"
  le_release :: "fate \<times> int"
  le_reads :: "nat \<Rightarrow> fate list"
  le_write :: "fate list"
  le_db_read :: time
  le_db_now :: time
  le_app_now :: time
  le_row_id :: uuid
  le_acquire :: "go_error option"
  le_session :: "fate list \<times> time \<times> time"
  le_session_ids :: "uuid \<times> uuid"
  le_refresh_token :: "go_error + string"
  le_social :: "(time \<times> time) \<times> (uuid \<times> uuid \<times> uuid) \<times> (uuid \<times> uuid \<times> uuid)"

record login_result =
  lr_user :: user
  lr_session :: session
  lr_access_token :: string
  lr_refresh_token :: string

definition login_policy :: policy where
  "login_policy = \<lparr>p_max = login_email_failure_limit, p_window = login_email_failure_window\<rparr>"

definition charge_email_failure ::
  "login_config \<Rightarrow> login_env \<Rightarrow> string \<Rightarrow> keyspace \<Rightarrow> (go_error + rl_result) \<times> keyspace" where
  "charge_email_failure cfg env email ks =
     (case allow (lc_mac cfg) (lc_secret cfg) (fst (le_charge env)) (snd (le_charge env))
             login_email_failure_namespace email login_policy ks of
        (Inl e, ks') \<Rightarrow> (Inl (service_unavailable_with ''LOGIN_RATE_LIMIT_UNAVAILABLE''
             ''login is temporarily unavailable, please try again shortly'' (Some e)), ks')
      | (Inr r, ks') \<Rightarrow> (Inr r, ks'))"

definition release_email_failure :: "login_config \<Rightarrow> login_env \<Rightarrow> string \<Rightarrow> keyspace \<Rightarrow> keyspace" where
  "release_email_failure cfg env email ks =
     snd (release (lc_mac cfg) (lc_secret cfg) (fst (le_release env)) (snd (le_release env))
            login_email_failure_namespace email ks)"

text \<open>The session and its tokens, which both ways of signing in end with.\<close>

definition start_session ::
  "login_config \<Rightarrow> login_env \<Rightarrow> uuid \<Rightarrow> session_metadata \<Rightarrow> session_db
     \<Rightarrow> (go_error + session \<times> string \<times> string) \<times> session_db" where
  "start_session cfg env uid md ss =
     (case le_session env of (fs, db_now, app_now) \<Rightarrow>
      (case run (create_session (lc_hash_token cfg) db_now app_now (fst (le_session_ids env)) (snd (le_session_ids env))
                  (le_refresh_token env) uid md) ss fs of
         (Inl e, ss') \<Rightarrow> (Inl e, ss')
       | (Inr c, ss') \<Rightarrow>
           (case lc_access cfg uid (s_id (cr_session c)) access_token_lifetime of
              Inl e \<Rightarrow> (Inl (internal (Some e)), ss')
            | Inr access \<Rightarrow> (Inr (cr_session c, access, cr_refresh_token c), ss'))))"

definition login_manual ::
  "login_config \<Rightarrow> login_env \<Rightarrow> string \<Rightarrow> string \<Rightarrow> session_metadata \<Rightarrow> login_state
     \<Rightarrow> (go_error + login_result) \<times> login_state \<times> work_event list" where
  "login_manual cfg env email0 password md st =
     (let email = normalize_email email0 in
      case charge_email_failure cfg env email (lt_counters st) of
        (Inl e, ks) \<Rightarrow> (Inl e, st\<lparr>lt_counters := ks\<rparr>, [])
      | (Inr budget, ks) \<Rightarrow>
      (let st = st\<lparr>lt_counters := ks\<rparr> in
       if \<not> r_allowed budget then
         (Inl (too_many_requests_with_retry_after ''LOGIN_RATE_LIMIT_EXCEEDED''
                 ''too many login attempts, please try again later'' (r_retry_after budget)), st, [])
       else
         (case run (repo_get_user_for_login email) (lt_db st) (le_reads env 0) of
            (Inl e, db) \<Rightarrow>
              (case dummy_verify (lc_idkey cfg) (lt_dummy st) (le_acquire env) password of
                 (Some e', cache, evs) \<Rightarrow>
                   (Inl (password_work_error e' (lc_wait cfg)), st\<lparr>lt_db := db, lt_dummy := cache\<rparr>, evs)
               | (None, cache, evs) \<Rightarrow> (Inl e, st\<lparr>lt_db := db, lt_dummy := cache\<rparr>, evs))
          | (Inr (u, hash), db) \<Rightarrow>
              (let st = st\<lparr>lt_db := db\<rparr> in
               case password_verify (lc_idkey cfg) (le_acquire env) password hash of
                 (Inl e, evs) \<Rightarrow>
                   (Inl (if errors_is e password_work_timeout then password_work_error e (lc_wait cfg)
                         else internal (Some e)), st, evs)
               | (Inr result, evs) \<Rightarrow>
                   if \<not> pw_match result then (Inl (err_invalid_credentials None), st, evs)
                   else
                     (let st = st\<lparr>lt_counters := release_email_failure cfg env email (lt_counters st)\<rparr> in
                      case start_session cfg env (u_id u) md (lt_sessions st) of
                        (Inl e, ss) \<Rightarrow> (Inl e, st\<lparr>lt_sessions := ss\<rparr>, evs)
                      | (Inr (s, access, refresh), ss) \<Rightarrow>
                          (Inr \<lparr>lr_user = u, lr_session = s, lr_access_token = access, lr_refresh_token = refresh\<rparr>,
                           st\<lparr>lt_sessions := ss\<rparr>, evs))))))"

datatype google_outcome =
    Authenticated login_result
  | AccountLinkRequired uuid
  | RegistrationRequired uuid

definition login_with_user ::
  "login_config \<Rightarrow> login_env \<Rightarrow> uuid \<Rightarrow> session_metadata \<Rightarrow> login_state \<Rightarrow> (go_error + google_outcome) \<times> login_state" where
  "login_with_user cfg env uid md st =
     (case run (repo_get_user_for_login_by_id uid) (lt_db st) (le_reads env 2) of
        (Inl e, db) \<Rightarrow> (Inl e, st\<lparr>lt_db := db\<rparr>)
      | (Inr (u, _), db) \<Rightarrow>
          (case start_session cfg env (u_id u) md (lt_sessions st) of
             (Inl e, ss) \<Rightarrow> (Inl e, st\<lparr>lt_db := db, lt_sessions := ss\<rparr>)
           | (Inr (s, access, refresh), ss) \<Rightarrow>
               (Inr (Authenticated \<lparr>lr_user = u, lr_session = s, lr_access_token = access, lr_refresh_token = refresh\<rparr>),
                st\<lparr>lt_db := db, lt_sessions := ss\<rparr>)))"

definition display_name_snapshot :: "google_identity \<Rightarrow> string option" where
  "display_name_snapshot g = (if gi_display_name g \<noteq> '''' then Some (gi_display_name g) else None)"

definition login_google ::
  "login_config \<Rightarrow> login_env \<Rightarrow> string \<Rightarrow> session_metadata \<Rightarrow> login_state \<Rightarrow> (go_error + google_outcome) \<times> login_state" where
  "login_google cfg env token md st =
     (case google_verify (lc_validate cfg) (lc_audiences cfg) token of
        Inl e \<Rightarrow> (Inl e, st)
      | Inr g \<Rightarrow>
      (let email = normalize_email (gi_email g) in
       case run (repo_get_auth_identity google_auth_provider (gi_subject g)) (lt_db st) (le_reads env 0) of
         (Inl e, db) \<Rightarrow> (Inl e, st\<lparr>lt_db := db\<rparr>)
       | (Inr (iid, uid), db) \<Rightarrow>
      (let st = st\<lparr>lt_db := db\<rparr> in
       if iid \<noteq> uuid_nil then login_with_user cfg env uid md st
       else
         (case run (repo_get_login_user_by_email email) (lt_db st) (le_reads env 1) of
            (Inl e, db) \<Rightarrow> (Inl e, st\<lparr>lt_db := db\<rparr>)
          | (Inr uid, db) \<Rightarrow>
              if uid \<noteq> uuid_nil then
                (case run (repo_create_account_link_confirmation (le_db_now env) (le_row_id env) uid google_auth_provider
                             (gi_subject g) (display_name_snapshot g)
                             (le_app_now env + account_link_confirmation_lifetime)) db (le_write env) of
                   (Inl e, db) \<Rightarrow> (Inl e, st\<lparr>lt_db := db\<rparr>)
                 | (Inr l, db) \<Rightarrow> (Inr (AccountLinkRequired (al_id l)), st\<lparr>lt_db := db\<rparr>))
              else
                (case le_social env of (nows, ids) \<Rightarrow>
                 (case run (create_social_registration (le_app_now env) nows ids
                              \<lparr>sp_email = email, sp_provider = google_auth_provider, sp_subject = gi_subject g,
                               sp_email_snapshot = Some email, sp_display_name_snapshot = display_name_snapshot g,
                               sp_expires_at = 0\<rparr>) (lg_tables db) (le_write env) of
                    (Inl e, tables) \<Rightarrow> (Inl e, st\<lparr>lt_db := db\<lparr>lg_tables := tables\<rparr>\<rparr>)
                  | (Inr vid, tables) \<Rightarrow> (Inr (RegistrationRequired vid), st\<lparr>lt_db := db\<lparr>lg_tables := tables\<rparr>\<rparr>)))))))"

record account_link_view =
  av_id :: uuid
  av_provider :: string
  av_display_name :: string
  av_masked_email :: string

definition get_account_link_confirmation :: "time \<Rightarrow> uuid \<Rightarrow> (login_db, account_link_view) prog" where
  "get_account_link_confirmation now lid =
     call (repo_get_active_account_link_confirmation now lid) fail (\<lambda>(l, email).
     ret \<lparr>av_id = al_id l, av_provider = al_provider l,
          av_display_name = (case al_display_name l of None \<Rightarrow> '''' | Some n \<Rightarrow> n), av_masked_email = mask_email email\<rparr>)"

definition account_link_session_failed :: "go_error \<Rightarrow> go_error" where
  "account_link_session_failed e = service_unavailable_with ''ACCOUNT_LINK_SESSION_FAILED''
     ''the account was linked but the session could not be created, please sign in with Google again'' (Some e)"

definition confirm_account_link ::
  "login_config \<Rightarrow> login_env \<Rightarrow> uuid \<Rightarrow> string \<Rightarrow> session_metadata \<Rightarrow> login_state
     \<Rightarrow> (go_error + google_outcome) \<times> login_state" where
  "confirm_account_link cfg env lid token md st =
     (case google_verify (lc_validate cfg) (lc_audiences cfg) token of
        Inl e \<Rightarrow> (Inl e, st)
      | Inr g \<Rightarrow>
      (case run (repo_get_active_account_link_confirmation (le_db_read env) lid) (lt_db st) (le_reads env 0) of
         (Inl e, db) \<Rightarrow> (Inl e, st\<lparr>lt_db := db\<rparr>)
       | (Inr (l, _), db) \<Rightarrow>
      (let st = st\<lparr>lt_db := db\<rparr> in
       if al_provider l \<noteq> google_auth_provider \<or> al_subject l \<noteq> gi_subject g then
         (Inl (conflict_with ''ACCOUNT_LINK_IDENTITY_MISMATCH''
                 ''account link confirmation does not match this Google account'' None), st)
       else
         (case run (repo_confirm_account_link (le_db_now env) (le_row_id env) lid) (lt_db st) (le_write env) of
            (Inl e, db) \<Rightarrow> (Inl e, st\<lparr>lt_db := db\<rparr>)
          | (Inr i, db) \<Rightarrow>
              (case login_with_user cfg env (ai_user i) md (st\<lparr>lt_db := db\<rparr>) of
                 (Inl e, st) \<Rightarrow> (Inl (account_link_session_failed e), st)
               | (Inr r, st) \<Rightarrow> (Inr r, st))))))"

end
