(* ===== verification/LoginProps.thy ===== *)
theory LoginProps
  imports Login RegistrationRuns
begin

text \<open>
  What a login promises: only the password, or the linked Google identity, opens a session; an identity
  is linked only for the holder of the Google account the confirmation was made for, and once; an unknown
  address and a wrong password look alike; and the guesses against one address are limited.
\<close>

section \<open>Effects\<close>

definition new_identity :: "uuid \<Rightarrow> account_link \<Rightarrow> user \<Rightarrow> auth_identity" where
  "new_identity aid l u = \<lparr>ai_id = aid, ai_user = al_user l, ai_provider = al_provider l, ai_subject = al_subject l,
     ai_email_snapshot = Some (u_email u), ai_display_name_snapshot = al_display_name l\<rparr>"

definition link_confirmed :: "time \<Rightarrow> uuid \<Rightarrow> uuid \<Rightarrow> login_db \<Rightarrow> login_db \<Rightarrow> bool" where
  "link_confirmed now aid lid d d' \<longleftrightarrow>
     (\<exists>l u. row_with al_id lid (filter (link_active now) (lg_links d)) = Some l \<and>
        row_with u_id (al_user l) (accounts (lg_tables d)) = Some u \<and>
        \<not> has_identity (al_provider l) (al_subject l) (lg_tables d) \<and>
        rows_where (link_confirmable lid) (lg_links d) = 1 \<and>
        d' = d\<lparr>lg_tables := (lg_tables d)\<lparr>identities := identities (lg_tables d) @ [new_identity aid l u]\<rparr>,
               lg_links := update_where (link_confirmable lid) (\<lambda>l. l\<lparr>al_confirmed_at := Some now\<rparr>) (lg_links d)\<rparr>)"

lemma wp_link_confirmed:
  "wp (\<lambda>r d'. (d' = d \<and> isl r) \<or>
         (link_confirmed now aid lid d d' \<and>
          (case r of Inl _ \<Rightarrow> True | Inr i \<Rightarrow> identities (lg_tables d') = identities (lg_tables d) @ [i])))
     (repo_confirm_account_link now aid lid) d w"
proof -
  have *: "link_confirmed now aid lid d d2 \<and> identities (lg_tables d2) = identities (lg_tables d) @ [i]"
    if "ql_get_account_link_confirmation_for_update now lid d = Inr ((l, email), d0)"
      "ql_create_auth_identity aid (al_user l) (al_provider l) (al_subject l) (Some email) (al_display_name l) d0 = Inr (i, d1)"
      "ql_mark_account_link_confirmation_confirmed now lid d1 = Inr (Suc 0, d2)" for l email d0 i d1 d2
    using that
    by (auto simp: ql_get_account_link_confirmation_for_update_def ql_get_active_account_link_confirmation_def
        ql_create_auth_identity_def q_create_auth_identity_def ql_mark_account_link_confirmation_confirmed_def
        link_confirmed_def new_identity_def split: option.splits if_splits)
  show ?thesis
    unfolding repo_confirm_account_link_def fail_login_def
    by (intro wp_intros wp_exec_one; (rule disjI1, simp; fail)?; rule disjI2; simp;
        (rule * | rule conjunct1[OF *]); assumption)
qed

interpretation link_tx: repo_method "repo_confirm_account_link now aid lid" "link_confirmed now aid lid" for now aid lid
  by unfold_locales (use wp_run[OF wp_link_confirmed] in blast)

lemma login_user_read:
  assumes "run (repo_get_user_for_login email) d fs = (r, d')"
  shows "d' = d \<and> (case r of Inl _ \<Rightarrow> True | Inr (u, hash) \<Rightarrow>
     u \<in> set (accounts (lg_tables d)) \<and> u_email u = email \<and>
     \<lparr>pc_user = u_id u, pc_hash = hash\<rparr> \<in> set (credentials (lg_tables d)))"
proof (rule wp_run[OF _ assms])
  show "wp (\<lambda>r d'. d' = d \<and> (case r of Inl _ \<Rightarrow> True | Inr (u, hash) \<Rightarrow>
      u \<in> set (accounts (lg_tables d)) \<and> u_email u = email \<and>
      \<lparr>pc_user = u_id u, pc_hash = hash\<rparr> \<in> set (credentials (lg_tables d)))) (repo_get_user_for_login email) d d"
    unfolding repo_get_user_for_login_def
    by (intro wp_intros) (auto simp: ql_get_user_for_login_def split: option.splits dest!: row_with_SomeD;
        metis password_credential.surjective unit.exhaust)+
qed

lemma start_session_effect:
  assumes "start_session cfg env uid md ss = (r, ss')"
  shows "(ss' = ss \<and> isl r) \<or>
    (\<exists>s. s_user s = uid \<and> s_revoked_at s = None \<and> s_id s \<notin> s_id ` set (sessions ss) \<and> sessions ss' = sessions ss @ [s] \<and>
       (case r of Inl _ \<Rightarrow> True | Inr (s', _) \<Rightarrow> s' = s))"
    (is "?P r ss'")
proof -
  let ?Q = "\<lambda>r d'. (d' = ss \<and> isl r) \<or>
    (\<exists>s. s_user s = uid \<and> s_revoked_at s = None \<and> s_id s \<notin> s_id ` set (sessions ss) \<and> sessions d' = sessions ss @ [s] \<and>
       (case r of Inl _ \<Rightarrow> True | Inr c \<Rightarrow> cr_session c = s))"
  have made: "?Q (Inr \<lparr>cr_session = s, cr_refresh_token = token\<rparr>) d2 \<and> ?Q (Inl e) d2"
    if "q_create_session now sid uid md ex ss = Inr (s, d1)" "q_create_refresh_token now tid (s_id s) hash d1 = Inr (t, d2)"
    for now sid ex s d1 tid hash t d2 token e
    using that by (auto simp: session_query_defs has_key_iff Let_def split: if_splits)
  have "wp ?Q (create_session h db_now app_now sid tid gen uid md) ss ss" for h db_now app_now sid tid gen
  proof (cases gen)
    case (Inl e)
    then show ?thesis by (simp add: create_session_def wp_intros)
  next
    case (Inr token)
    have repo: "wp (\<lambda>r d'. case r of Inl e \<Rightarrow> ?Q (Inl e) d' | Inr (s, t) \<Rightarrow> ?Q (Inr \<lparr>cr_session = s, cr_refresh_token = token\<rparr>) d')
        (repo_create_session db_now sid tid uid md (app_now + session_absolute_lifetime) (h token)) ss w" for w
      unfolding repo_create_session_def
      by (intro wp_intros) (use made in \<open>auto split: sum.split\<close>)
    show ?thesis unfolding create_session_def Inr sum.case
      by (intro wp_call wp_mono[OF repo]) (auto split: sum.splits intro!: wp_intros)
  qed
  note created = wp_run[OF this]
  obtain fs db_now app_now where le: "le_session env = (fs, db_now, app_now)" by (cases "le_session env")
  obtain r0 d1 where r: "run (create_session (lc_hash_token cfg) db_now app_now (fst (le_session_ids env))
      (snd (le_session_ids env)) (le_refresh_token env) uid md) ss fs = (r0, d1)" by fastforce
  show ?thesis
  proof (cases r0)
    case (Inl e)
    then show ?thesis using assms created[OF r] by (auto simp: start_session_def le r)
  next
    case (Inr c)
    then show ?thesis using assms created[OF r] by (auto simp: start_session_def le r split: sum.splits)
  qed
qed

section \<open>The password\<close>

definition opened_for :: "uuid \<Rightarrow> session_db \<Rightarrow> session_db \<Rightarrow> bool" where
  "opened_for uid ss ss' \<longleftrightarrow> (\<exists>s. s_user s = uid \<and> s_revoked_at s = None \<and> s_id s \<notin> s_id ` set (sessions ss) \<and>
     sessions ss' = sessions ss @ [s])"

text \<open>
  C11. Only the password opens a session. Whatever the state, the faults and the answers of the limiters are, a
  manual login leaves the tables alone, and it leaves the sessions alone and refuses, or an account with the
  normalized address has a stored hash that the given password verifies against; then one new session is
  opened, for that account, and a success hands out that account and that session.
\<close>

theorem manual_login_needs_the_password:
  "case login_manual cfg env address password md st of (r, st', evs) \<Rightarrow>
     lt_db st' = lt_db st \<and>
     ((lt_sessions st' = lt_sessions st \<and> isl r) \<or>
      (\<exists>u\<in>set (accounts (lg_tables (lt_db st))). \<exists>hash v. u_email u = normalize_email address \<and>
         \<lparr>pc_user = u_id u, pc_hash = hash\<rparr> \<in> set (credentials (lg_tables (lt_db st))) \<and>
         fst (password_verify (lc_idkey cfg) (le_acquire env) password hash) = Inr v \<and> pw_match v \<and>
         opened_for (u_id u) (lt_sessions st) (lt_sessions st') \<and>
         (case r of Inl _ \<Rightarrow> True | Inr res \<Rightarrow> lr_user res = u \<and> s_user (lr_session res) = u_id u \<and>
            lr_session res \<in> set (sessions (lt_sessions st')))))"
proof -
  obtain c ks where c: "charge_email_failure cfg env (normalize_email address) (lt_counters st) = (c, ks)" by fastforce
  show ?thesis
  proof (cases "case c of Inl _ \<Rightarrow> True | Inr b \<Rightarrow> \<not> r_allowed b")
    case True
    then show ?thesis using c by (auto simp: login_manual_def Let_def split: sum.splits)
  next
    case False
    then obtain b where b: "c = Inr b" "r_allowed b" by (auto split: sum.splits)
    obtain q db where q: "run (repo_get_user_for_login (normalize_email address)) (lt_db st) (le_reads env 0) = (q, db)"
      by fastforce
    have db: "db = lt_db st" using login_user_read[OF q] by simp
    show ?thesis
    proof (cases q)
      case (Inl e)
      obtain d cache evs where "dummy_verify (lc_idkey cfg) (lt_dummy st) (le_acquire env) password = (d, cache, evs)"
        by (cases "dummy_verify (lc_idkey cfg) (lt_dummy st) (le_acquire env) password")
      then show ?thesis using c b q Inl db by (cases d) (simp_all add: login_manual_def Let_def)
    next
      case (Inr uh)
      obtain u hash where uh: "uh = (u, hash)" by fastforce
      have U: "u \<in> set (accounts (lg_tables (lt_db st)))" "u_email u = normalize_email address"
          "\<lparr>pc_user = u_id u, pc_hash = hash\<rparr> \<in> set (credentials (lg_tables (lt_db st)))"
        using login_user_read[OF q] Inr uh by simp_all
      obtain v evs where v: "password_verify (lc_idkey cfg) (le_acquire env) password hash = (v, evs)" by fastforce
      show ?thesis
      proof (cases "case v of Inl _ \<Rightarrow> True | Inr w \<Rightarrow> \<not> pw_match w")
        case True
        then show ?thesis using c b q Inr uh v db by (cases v) (simp_all add: login_manual_def Let_def)
      next
        case False
        then obtain w where w: "v = Inr w" "pw_match w" by (auto split: sum.splits)
        obtain s ss where s: "start_session cfg env (u_id u) md (lt_sessions st) = (s, ss)" by fastforce
        have run: "login_manual cfg env address password md st =
            (map_sum id (\<lambda>(s, access, refresh). \<lparr>lr_user = u, lr_session = s, lr_access_token = access,
                lr_refresh_token = refresh\<rparr>) s,
             st\<lparr>lt_counters := release_email_failure cfg env (normalize_email address) ks, lt_sessions := ss\<rparr>, evs)"
          using c b q Inr uh v w s db by (cases s) (auto simp: login_manual_def Let_def)
        show ?thesis
          using start_session_effect[OF s] U v w unfolding run
          by (cases s) (force simp: opened_for_def)+
      qed
    qed
  qed
qed

section \<open>The Google identity\<close>

text \<open>The tables that say who may sign in, which starting a social registration does not touch.\<close>

definition sign_in_rows :: "registration_db \<Rightarrow> user list \<times> password_credential list \<times> auth_identity list" where
  "sign_in_rows db = (accounts db, credentials db, identities db)"

lemma kept_sign_in:
  "kept (\<lambda>d. sign_in_rows d = x) (q_create_pending_registration now pid email ty st ex)"
  "kept (\<lambda>d. sign_in_rows d = x) (q_create_verification_request now vid sty subj purpose vst)"
  "kept (\<lambda>d. sign_in_rows d = x) (q_create_pending_social_identity iid pid provider subject em dn)"
  "kept (\<lambda>d. sign_in_rows d = x) (q_force_expire_social pid)"
  "kept (\<lambda>d. sign_in_rows d = x) (q_force_expire_manual pid)"
  "kept (\<lambda>d. sign_in_rows d = x) (q_expire_pending_registration now pid)"
  by (auto simp: kept_def insert_defs update_defs sign_in_rows_def Let_def split: if_splits option.splits)

lemma social_keeps_sign_in: "sign_in_rows (snd (run (create_social_registration now nows ids p) d fs)) = sign_in_rows d"
proof -
  have "wp (\<lambda>_ d'. sign_in_rows d' = sign_in_rows d) (create_social_registration now nows ids p) d d"
    unfolding create_social_registration_def repo_create_social_registration_def create_social_registration_once_def
      insert_social_def
    by (intro inv_walk kept_sign_in; simp)
  then show ?thesis by (rule wp_run_snd)
qed

lemma identity_read:
  assumes "run (repo_get_auth_identity provider subject) d fs = (r, d')"
  shows "d' = d \<and> (case r of Inl _ \<Rightarrow> True | Inr (iid, uid) \<Rightarrow> iid = uuid_nil \<or>
     (\<exists>i\<in>set (identities (lg_tables d)). ai_id i = iid \<and> ai_user i = uid \<and> ai_provider i = provider \<and> ai_subject i = subject))"
    (is "?Q r d'")
proof (rule wp_run[OF _ assms])
  show "wp ?Q (repo_get_auth_identity provider subject) d d"
    unfolding repo_get_auth_identity_def
    by (intro wp_intros) (auto simp: ql_get_auth_identity_def split: option.splits if_splits dest!: row_with_SomeD)
qed

lemma read_keeps:
  assumes "\<And>e x d'. q d = Inr (x, d') \<Longrightarrow> d' = d" and "\<And>e w. wp (\<lambda>_ d'. d' = d) (on_err e) d w"
    and "\<And>x w. wp (\<lambda>_ d'. d' = d) (k x) d w"
  shows "snd (run (pool q on_err k) d fs) = d"
proof -
  have "wp (\<lambda>_ d'. d' = d) (pool q on_err k) d d"
    by (intro wp_pool) (use assms in \<open>auto dest: assms(1)\<close>)
  then show ?thesis by (rule wp_run_snd)
qed

lemma user_by_email_read: "snd (run (repo_get_login_user_by_email email) d fs) = d"
  unfolding repo_get_login_user_by_email_def
  by (rule read_keeps) (auto simp: ql_get_user_by_email_def wp_intros split: option.splits)

lemma link_created_keeps: "lg_tables (snd (run (repo_create_account_link_confirmation now lid uid pr sub nm ex) d fs)) = lg_tables d"
proof -
  have "wp (\<lambda>_ d'. lg_tables d' = lg_tables d) (repo_create_account_link_confirmation now lid uid pr sub nm ex) d d"
    unfolding repo_create_account_link_confirmation_def
    by (intro wp_intros) (auto simp: ql_create_account_link_confirmation_def Let_def split: if_splits)
  then show ?thesis by (rule wp_run_snd)
qed

lemma user_by_id_read:
  assumes "run (repo_get_user_for_login_by_id uid) d fs = (r, d')"
  shows "d' = d \<and> (case r of Inl _ \<Rightarrow> True | Inr (u, _) \<Rightarrow> u_id u = uid)"
proof (rule wp_run[OF _ assms])
  show "wp (\<lambda>r d'. d' = d \<and> (case r of Inl _ \<Rightarrow> True | Inr (u, _) \<Rightarrow> u_id u = uid)) (repo_get_user_for_login_by_id uid) d d"
    unfolding repo_get_user_for_login_by_id_def
    by (intro wp_intros) (auto simp: ql_get_user_for_login_by_id_def split: option.splits dest!: row_with_SomeD)
qed

lemma login_with_user_effect:
  assumes "login_with_user cfg env uid md st = (r, st')"
  shows "lt_db st' = lt_db st \<and>
    ((lt_sessions st' = lt_sessions st \<and> isl r) \<or>
     (opened_for uid (lt_sessions st) (lt_sessions st') \<and>
      (case r of Inr (Authenticated res) \<Rightarrow> s_user (lr_session res) = uid | Inr _ \<Rightarrow> False | Inl _ \<Rightarrow> True)))"
proof -
  obtain q db where q: "run (repo_get_user_for_login_by_id uid) (lt_db st) (le_reads env 2) = (q, db)" by fastforce
  show ?thesis
  proof (cases q)
    case (Inl e)
    then show ?thesis using assms user_by_id_read[OF q] q by (auto simp: login_with_user_def)
  next
    case (Inr uh)
    obtain u h where uh: "uh = (u, h)" by fastforce
    have u: "u_id u = uid" "db = lt_db st" using user_by_id_read[OF q] Inr uh by simp_all
    obtain s ss where s: "start_session cfg env uid md (lt_sessions st) = (s, ss)" by fastforce
    show ?thesis
      using assms q Inr uh u s start_session_effect[OF s]
      by (cases s) (auto simp: login_with_user_def opened_for_def)
  qed
qed

text \<open>
  C13. Google signs in a linked identity and nobody else. Whatever the state and the faults are, signing in
  with a Google token changes no account, no credential and no identity, and opens no session, or the
  token was verified, its subject is linked as a Google identity, and one session is opened, for the user
  of that identity. An account that only has the address of the token is not signed in.
\<close>

theorem google_login_needs_a_linked_identity:
  "case login_google cfg env token md st of (r, st') \<Rightarrow>
     sign_in_rows (lg_tables (lt_db st')) = sign_in_rows (lg_tables (lt_db st)) \<and>
     ((lt_sessions st' = lt_sessions st \<and> (case r of Inr (Authenticated _) \<Rightarrow> False | _ \<Rightarrow> True)) \<or>
      (\<exists>g. google_verify (lc_validate cfg) (lc_audiences cfg) token = Inr g \<and>
        (\<exists>i\<in>set (identities (lg_tables (lt_db st))). ai_provider i = google_auth_provider \<and> ai_subject i = gi_subject g \<and>
           opened_for (ai_user i) (lt_sessions st) (lt_sessions st') \<and>
           (case r of Inr (Authenticated res) \<Rightarrow> s_user (lr_session res) = ai_user i | Inr _ \<Rightarrow> False | Inl _ \<Rightarrow> True))))"
proof (cases "google_verify (lc_validate cfg) (lc_audiences cfg) token")
  case (Inl e)
  then show ?thesis by (simp add: login_google_def)
next
  case g: (Inr g)
  let ?email = "normalize_email (gi_email g)"
  obtain q db where q: "run (repo_get_auth_identity google_auth_provider (gi_subject g)) (lt_db st) (le_reads env 0) = (q, db)"
    by fastforce
  note i = identity_read[OF q]
  show ?thesis
  proof (cases q)
    case (Inl e)
    then show ?thesis using g q i by (simp add: login_google_def Let_def)
  next
    case (Inr iu)
    obtain iid uid where iu: "iu = (iid, uid)" by fastforce
    show ?thesis
    proof (cases "iid = uuid_nil")
      case False
      obtain r st' where w: "login_with_user cfg env uid md st = (r, st')" by fastforce
      have "login_google cfg env token md st = (r, st')"
        using g q i Inr iu False w by (simp add: login_google_def Let_def)
      then show ?thesis using login_with_user_effect[OF w] i Inr iu False g by (auto split: sum.splits google_outcome.splits)
    next
      case True
      obtain a db1 where a: "run (repo_get_login_user_by_email ?email) (lt_db st) (le_reads env 1) = (a, db1)" by fastforce
      have db1: "db1 = lt_db st" using user_by_email_read[of ?email "lt_db st" "le_reads env 1"] a by simp
      obtain nows ids where so: "le_social env = (nows, ids)" by (rule prod.exhaust)
      show ?thesis
        using g q i Inr iu True a db1 so
          link_created_keeps[of "le_db_now env" "le_row_id env" "projr a" google_auth_provider "gi_subject g"
            "display_name_snapshot g" "le_app_now env + account_link_confirmation_lifetime" "lt_db st" "le_write env"]
          social_keeps_sign_in[of "le_app_now env" nows ids "\<lparr>sp_email = ?email, sp_provider = google_auth_provider,
            sp_subject = gi_subject g, sp_email_snapshot = Some ?email, sp_display_name_snapshot = display_name_snapshot g,
            sp_expires_at = 0\<rparr>" "lg_tables (lt_db st)" "le_write env"]
        by (auto simp: login_google_def Let_def split: sum.splits prod.splits)
    qed
  qed
qed

section \<open>Linking an identity\<close>

text \<open>
  The calls on the confirmations, in any order and under any faults, and everything else that happens to
  the accounts and identities in between.
\<close>

definition login_start :: "login_db \<Rightarrow> bool" where
  "login_start db \<longleftrightarrow> lg_links db = []"

inductive login_step :: "login_db \<Rightarrow> login_db \<Rightarrow> bool" where
  a_link_created:
    "login_step db (snd (run (repo_create_account_link_confirmation now lid uid provider subject name expires) db fs))"
| a_link_confirmed: "login_step db (snd (run (repo_confirm_account_link now aid lid) db fs))"
| accounts_elsewhere: "login_step db (db\<lparr>lg_tables := tables\<rparr>)"

inductive_cases login_stepE: "login_step db db'"

definition links_ok :: "login_db \<Rightarrow> bool" where
  "links_ok db \<longleftrightarrow> distinct (map al_id (lg_links db))"

definition new_link :: "time \<Rightarrow> uuid \<Rightarrow> uuid \<Rightarrow> string \<Rightarrow> string \<Rightarrow> string option \<Rightarrow> time \<Rightarrow> account_link" where
  "new_link now lid uid provider subject name expires =
     \<lparr>al_id = lid, al_user = uid, al_provider = provider, al_subject = subject, al_display_name = name,
      al_created_at = now, al_expires_at = expires, al_confirmed_at = None\<rparr>"

lemma link_created_effect:
  "lg_links (snd (run (repo_create_account_link_confirmation now lid uid provider subject name ex) d fs)) = lg_links d \<or>
   lid \<notin> al_id ` set (lg_links d) \<and>
   lg_links (snd (run (repo_create_account_link_confirmation now lid uid provider subject name ex) d fs)) =
     lg_links d @ [new_link now lid uid provider subject name ex]"
proof -
  have "wp (\<lambda>_ d'. lg_links d' = lg_links d \<or> lid \<notin> al_id ` set (lg_links d) \<and>
      lg_links d' = lg_links d @ [new_link now lid uid provider subject name ex])
      (repo_create_account_link_confirmation now lid uid provider subject name ex) d d"
    unfolding repo_create_account_link_confirmation_def
    by (intro wp_intros)
      (auto simp: ql_create_account_link_confirmation_def new_link_def has_key_iff Let_def split: if_splits)
  then show ?thesis by (rule wp_run_snd)
qed

lemma links_after_confirm:
  "lg_links (snd (run (repo_confirm_account_link now aid lid) d fs)) = lg_links d \<or>
   lg_links (snd (run (repo_confirm_account_link now aid lid) d fs)) =
     update_where (link_confirmable lid) (\<lambda>l. l\<lparr>al_confirmed_at := Some now\<rparr>) (lg_links d)"
  using link_tx.outcome[of now aid lid d fs] by (auto simp: link_confirmed_def)

interpretation links: invariant_system login_start login_step links_ok
proof unfold_locales
  show "login_start s \<Longrightarrow> links_ok s" for s by (simp add: login_start_def links_ok_def)
next
  fix s t assume "links_ok s" "login_step s t"
  from this(2,1) show "links_ok t"
  proof cases
    case (a_link_created now lid uid provider subject name ex fs)
    then show "links_ok s \<Longrightarrow> links_ok t"
      using link_created_effect[of now lid uid provider subject name ex s fs] by (auto simp: links_ok_def new_link_def)
  next
    case (a_link_confirmed now aid lid fs)
    then show "links_ok s \<Longrightarrow> links_ok t"
      using links_after_confirm[of now aid lid s fs] by (auto simp: links_ok_def map_update_where)
  qed (simp add: links_ok_def)
qed

text \<open>What a confirmation says never changes, and one that was confirmed stays so.\<close>

definition link_stays :: "account_link \<Rightarrow> login_db \<Rightarrow> bool" where
  "link_stays l db \<longleftrightarrow> (\<exists>x\<in>set (lg_links db). x\<lparr>al_confirmed_at := None\<rparr> = l\<lparr>al_confirmed_at := None\<rparr> \<and>
     (al_confirmed_at l = None \<or> al_confirmed_at x \<noteq> None))"

lemma link_step_stays: "login_step d d' \<Longrightarrow> link_stays l d \<Longrightarrow> link_stays l d'"
proof (erule login_stepE)
  fix now lid uid provider subject name ex fs
  assume "link_stays l d" "d' = snd (run (repo_create_account_link_confirmation now lid uid provider subject name ex) d fs)"
  then show "link_stays l d'"
    using link_created_effect[of now lid uid provider subject name ex d fs] by (auto simp: link_stays_def)
next
  fix now aid lid fs
  assume s: "link_stays l d" and d': "d' = snd (run (repo_confirm_account_link now aid lid) d fs)"
  let ?f = "\<lambda>l. l\<lparr>al_confirmed_at := Some now\<rparr>"
  obtain x where x: "x \<in> set (lg_links d)" "x\<lparr>al_confirmed_at := None\<rparr> = l\<lparr>al_confirmed_at := None\<rparr>"
      "al_confirmed_at l = None \<or> al_confirmed_at x \<noteq> None" using s unfolding link_stays_def by blast
  have "\<exists>x\<in>set (update_where (link_confirmable lid) ?f (lg_links d)).
      x\<lparr>al_confirmed_at := None\<rparr> = l\<lparr>al_confirmed_at := None\<rparr> \<and> (al_confirmed_at l = None \<or> al_confirmed_at x \<noteq> None)"
    by (rule bex_update_where[OF x(1)]) (use x(2,3) in auto)
  then show "link_stays l d'"
    using links_after_confirm[of now aid lid d fs] s unfolding d' link_stays_def by auto
qed (auto simp: link_stays_def)

lemma link_steps_stay: "login_step\<^sup>*\<^sup>* d d' \<Longrightarrow> link_stays l d \<Longrightarrow> link_stays l d'"
  by (induction rule: rtranclp_induct) (auto intro: link_step_stays)

abbreviation login_reachable :: "login_db \<Rightarrow> bool" where
  "login_reachable \<equiv> reachable_from login_start login_step"

lemma link_read:
  assumes "run (repo_get_active_account_link_confirmation now lid) d fs = (r, d')"
  shows "d' = d \<and> (case r of Inl _ \<Rightarrow> True | Inr (l, email) \<Rightarrow> l \<in> set (lg_links d) \<and> al_id l = lid \<and> link_active now l)"
    (is "?Q r d'")
proof (rule wp_run[OF _ assms])
  show "wp ?Q (repo_get_active_account_link_confirmation now lid) d d"
    unfolding repo_get_active_account_link_confirmation_def
    by (intro wp_intros) (auto simp: ql_get_active_account_link_confirmation_def split: option.splits dest!: row_with_SomeD)
qed

lemma confirmed_the_read_one:
  assumes "links_ok d" and "link_stays l d" and "al_id l = lid" and "al_confirmed_at l = None"
    and "link_confirmed now aid lid d d'"
  shows "\<exists>u\<in>set (accounts (lg_tables d)). u_id u = al_user l \<and> link_active now l \<and>
     d' = d\<lparr>lg_tables := (lg_tables d)\<lparr>identities := identities (lg_tables d) @ [new_identity aid l u]\<rparr>,
            lg_links := update_where (link_confirmable lid) (\<lambda>l. l\<lparr>al_confirmed_at := Some now\<rparr>) (lg_links d)\<rparr>"
proof -
  obtain m u where m: "row_with al_id lid (filter (link_active now) (lg_links d)) = Some m"
    and u: "row_with u_id (al_user m) (accounts (lg_tables d)) = Some u"
    and d': "d' = d\<lparr>lg_tables := (lg_tables d)\<lparr>identities := identities (lg_tables d) @ [new_identity aid m u]\<rparr>,
       lg_links := update_where (link_confirmable lid) (\<lambda>l. l\<lparr>al_confirmed_at := Some now\<rparr>) (lg_links d)\<rparr>"
    using assms(5) unfolding link_confirmed_def by blast
  obtain x where x: "x \<in> set (lg_links d)" "x\<lparr>al_confirmed_at := None\<rparr> = l\<lparr>al_confirmed_at := None\<rparr>"
    using assms(2) unfolding link_stays_def by blast
  have mm: "m \<in> set (lg_links d)" "al_id m = lid" "link_active now m" using row_with_SomeD[OF m] by auto
  have "al_id x = lid" using x(2) assms(3) by (cases x; cases l) simp
  with mm x(1) assms(1) have "x = m" by (auto simp: links_ok_def intro: distinct_map_filter_inj)
  with x(2) mm(3) assms(4) have "m = l" by (cases m; cases l) (simp add: link_active_def)
  with mm u d' row_with_SomeD[OF u] show ?thesis by blast
qed

text \<open>
  The confirmation that is consumed is the one whose identity was compared. The service compares the
  verified Google subject outside the transaction. In every state reachable from there by confirmations
  of other requests, new confirmations and any change of the accounts, a call that changes anything links
  exactly the provider and subject that were read, to the user that was read, and consumes the
  confirmation before its expiry.
\<close>

theorem linked_identity_is_the_compared_one:
  assumes "login_reachable db" and "run (repo_get_active_account_link_confirmation t lid) db fs = (Inr (l, email), db)"
    and "login_step\<^sup>*\<^sup>* db later" and "snd (run (repo_confirm_account_link now aid lid) later fs') \<noteq> later"
  shows "\<exists>u\<in>set (accounts (lg_tables later)). u_id u = al_user l \<and> now < al_expires_at l \<and>
     identities (lg_tables (snd (run (repo_confirm_account_link now aid lid) later fs'))) =
       identities (lg_tables later) @ [new_identity aid l u]"
proof -
  have l: "l \<in> set (lg_links db)" "al_id l = lid" "link_active t l" using link_read[OF assms(2)] by simp_all
  then have "link_stays l db" by (auto simp: link_stays_def link_active_def)
  then have s: "link_stays l later" by (rule link_steps_stay[OF assms(3)])
  have ok: "links_ok later" by (rule links.steps_inv[OF assms(3) links.reachable_inv[OF assms(1)]])
  have "link_confirmed now aid lid later (snd (run (repo_confirm_account_link now aid lid) later fs'))"
    using link_tx.outcome[of now aid lid later fs'] assms(4) by blast
  from confirmed_the_read_one[OF ok s l(2) _ this] l(3) show ?thesis by (auto simp: link_active_def)
qed

text \<open>
  A confirmation links once. Once a call with it reported success or changed anything, every later
  call with the same confirmation changes nothing and is refused.
\<close>

theorem link_is_confirmed_once:
  assumes "login_reachable db"
    and "\<not> isl (fst (run (repo_confirm_account_link now aid lid) db fs)) \<or>
         snd (run (repo_confirm_account_link now aid lid) db fs) \<noteq> db"
    and "login_step\<^sup>*\<^sup>* (snd (run (repo_confirm_account_link now aid lid) db fs)) later"
  shows "snd (run (repo_confirm_account_link now' aid' lid) later fs') = later \<and>
         isl (fst (run (repo_confirm_account_link now' aid' lid) later fs'))"
proof -
  let ?db = "snd (run (repo_confirm_account_link now aid lid) db fs)"
  have ok: "links_ok ?db" "links_ok later"
    using links.reachable_inv[OF assms(1)] links.inv_step[OF _ a_link_confirmed] links.steps_inv[OF assms(3)] by blast+
  have c: "link_confirmed now aid lid db ?db" using link_tx.outcome[of now aid lid db fs] assms(2) by blast
  then have one: "rows_where (link_confirmable lid) (lg_links db) = 1" by (auto simp: link_confirmed_def)
  obtain m where m: "m \<in> set (lg_links db)" "link_confirmable lid m" using rows_where_1D[OF one] by metis
  let ?m = "m\<lparr>al_confirmed_at := Some now\<rparr>"
  have "?m \<in> set (lg_links ?db)"
    using c in_update_where[OF m(1), of "link_confirmable lid" "\<lambda>l. l\<lparr>al_confirmed_at := Some now\<rparr>"] m(2)
    by (auto simp: link_confirmed_def)
  then have "link_stays ?m ?db" by (auto simp: link_stays_def intro!: bexI[of _ ?m])
  then have "link_stays ?m later" by (rule link_steps_stay[OF assms(3)])
  then obtain x where x: "x \<in> set (lg_links later)" "x\<lparr>al_confirmed_at := None\<rparr> = m\<lparr>al_confirmed_at := None\<rparr>"
      "al_confirmed_at x \<noteq> None" unfolding link_stays_def by auto
  have xi: "al_id x = lid" using x(2) m(2) by (cases x; cases m) (simp add: link_confirmable_def)
  have "\<not> link_confirmed now' aid' lid later d'" for d'
  proof
    assume "link_confirmed now' aid' lid later d'"
    then have "rows_where (link_confirmable lid) (lg_links later) = 1" by (auto simp: link_confirmed_def)
    then obtain y where y: "y \<in> set (lg_links later)" "link_confirmable lid y" using rows_where_1D by metis
    then have "y = x" using x(1) xi ok(2) by (auto simp: links_ok_def link_confirmable_def intro: distinct_map_filter_inj)
    with y x(3) show False by (simp add: link_confirmable_def)
  qed
  then show ?thesis using link_tx.outcome[of now' aid' lid later fs'] by blast
qed

text \<open>
  C12. Whoever links an identity controls it. In every reachable state, a confirmation call changes
  nothing and opens no session, or the presented token was verified and the confirmation, unconfirmed and
  unexpired, was made for the token's Google subject: then exactly that identity is linked, to the
  confirmation's user, and at most one session is opened, for that user.
\<close>

theorem link_needs_the_same_google_account:
  assumes "login_reachable (lt_db st)"
  shows "case confirm_account_link cfg env lid token md st of (r, st') \<Rightarrow>
     (lt_db st' = lt_db st \<and> lt_sessions st' = lt_sessions st \<and> isl r) \<or>
     (\<exists>g. google_verify (lc_validate cfg) (lc_audiences cfg) token = Inr g \<and>
      (\<exists>l\<in>set (lg_links (lt_db st)). \<exists>u\<in>set (accounts (lg_tables (lt_db st))).
         al_id l = lid \<and> link_active (le_db_now env) l \<and> al_provider l = google_auth_provider \<and>
         al_subject l = gi_subject g \<and> u_id u = al_user l \<and>
         lg_tables (lt_db st') = (lg_tables (lt_db st))\<lparr>identities :=
           identities (lg_tables (lt_db st)) @ [new_identity (le_row_id env) l u]\<rparr> \<and>
         (lt_sessions st' = lt_sessions st \<and> isl r \<or> opened_for (al_user l) (lt_sessions st) (lt_sessions st'))))"
proof (cases "google_verify (lc_validate cfg) (lc_audiences cfg) token")
  case (Inl e)
  then show ?thesis by (simp add: confirm_account_link_def)
next
  case g: (Inr g)
  obtain q db where q: "run (repo_get_active_account_link_confirmation (le_db_read env) lid) (lt_db st) (le_reads env 0) = (q, db)"
    by fastforce
  note rd = link_read[OF q]
  show ?thesis
  proof (cases q)
    case (Inl e)
    then show ?thesis using g q rd by (simp add: confirm_account_link_def Let_def)
  next
    case (Inr le)
    obtain l email where le: "le = (l, email)" by fastforce
    have l: "l \<in> set (lg_links (lt_db st))" "al_id l = lid" "al_confirmed_at l = None" "db = lt_db st"
      using rd Inr le by (auto simp: link_active_def)
    show ?thesis
    proof (cases "al_provider l = google_auth_provider \<and> al_subject l = gi_subject g")
      case False
      then show ?thesis using g q Inr le l(4) by (auto simp: confirm_account_link_def Let_def)
    next
      case same: True
      obtain c d' where c: "run (repo_confirm_account_link (le_db_now env) (le_row_id env) lid) (lt_db st) (le_write env) = (c, d')"
        by fastforce
      have ok: "links_ok (lt_db st)" "link_stays l (lt_db st)"
        using links.reachable_inv[OF assms] l by (auto simp: link_stays_def)
      note eff = wp_run[OF wp_link_confirmed c]
      show ?thesis
      proof (cases "d' = lt_db st \<and> isl c")
        case True
        then show ?thesis using g q Inr le l(4) same c by (cases c) (auto simp: confirm_account_link_def Let_def)
      next
        case False
        with eff have lc: "link_confirmed (le_db_now env) (le_row_id env) lid (lt_db st) d'"
          and ci: "case c of Inl _ \<Rightarrow> True | Inr i \<Rightarrow> identities (lg_tables d') = identities (lg_tables (lt_db st)) @ [i]" by auto
        obtain u where u: "u \<in> set (accounts (lg_tables (lt_db st)))" "u_id u = al_user l" "link_active (le_db_now env) l"
          and t: "lg_tables d' = (lg_tables (lt_db st))\<lparr>identities := identities (lg_tables (lt_db st)) @ [new_identity (le_row_id env) l u]\<rparr>"
          using confirmed_the_read_one[OF ok l(2,3) lc] by auto
        show ?thesis
        proof (cases c)
          case (Inl e)
          then show ?thesis using g q Inr le l same c u t by (auto simp: confirm_account_link_def Let_def)
        next
          case i: (Inr i)
          then have "i = new_identity (le_row_id env) l u" using ci t by simp
          then have "ai_user i = al_user l" by (simp add: new_identity_def)
          moreover obtain r st' where w: "login_with_user cfg env (ai_user i) md (st\<lparr>lt_db := d'\<rparr>) = (r, st')" by fastforce
          ultimately show ?thesis
            using g q Inr le l same c u t i login_with_user_effect[OF w]
            by (cases r) (auto simp: confirm_account_link_def Let_def)
        qed
      qed
    qed
  qed
qed

section \<open>An unknown address and a wrong password\<close>

lemma quiet_pool_error: "q d = Inl e \<Longrightarrow> quiet (on_err e) d r d' \<Longrightarrow> quiet (pool q on_err k) d r d'"
  by (simp add: quiet_def pool_def next_fate_def advance_def)

lemma sentinel_response: "error_handler (Sentinel m) = error_handler (internal (Some (Sentinel m)))"
  by (simp add: error_handler_def from_error_def errors_find_def app_error_defs)

lemma admitted_login:
  assumes "charge_email_failure cfg env (normalize_email a) (lt_counters st) = (Inr b, ks)" and "r_allowed b"
  shows "login_manual cfg env a password md st =
    (let st = st\<lparr>lt_counters := ks\<rparr> in
     case run (repo_get_user_for_login (normalize_email a)) (lt_db st) (le_reads env 0) of
       (Inl e, db) \<Rightarrow>
         (case dummy_verify (lc_idkey cfg) (lt_dummy st) (le_acquire env) password of
            (Some e', cache, evs) \<Rightarrow> (Inl (password_work_error e' (lc_wait cfg)), st\<lparr>lt_db := db, lt_dummy := cache\<rparr>, evs)
          | (None, cache, evs) \<Rightarrow> (Inl e, st\<lparr>lt_db := db, lt_dummy := cache\<rparr>, evs))
     | (Inr (u, hash), db) \<Rightarrow>
         (let st = st\<lparr>lt_db := db\<rparr> in
          case password_verify (lc_idkey cfg) (le_acquire env) password hash of
            (Inl e, evs) \<Rightarrow>
              (Inl (if errors_is e password_work_timeout then password_work_error e (lc_wait cfg) else internal (Some e)), st, evs)
          | (Inr result, evs) \<Rightarrow>
              if \<not> pw_match result then (Inl (err_invalid_credentials None), st, evs)
              else
                (let st = st\<lparr>lt_counters := release_email_failure cfg env (normalize_email a) (lt_counters st)\<rparr> in
                 case start_session cfg env (u_id u) md (lt_sessions st) of
                   (Inl e, ss) \<Rightarrow> (Inl e, st\<lparr>lt_sessions := ss\<rparr>, evs)
                 | (Inr (s, access, refresh), ss) \<Rightarrow>
                     (Inr \<lparr>lr_user = u, lr_session = s, lr_access_token = access, lr_refresh_token = refresh\<rparr>,
                      st\<lparr>lt_sessions := ss\<rparr>, evs))))"
  using assms by (simp add: login_manual_def Let_def)


section \<open>Guesses against one address\<close>

record login_request =
  lq_env :: login_env
  lq_address :: string
  lq_password :: string
  lq_metadata :: session_metadata

definition login_key :: "login_config \<Rightarrow> login_request \<Rightarrow> string" where
  "login_key cfg q = limiter_key (lc_mac cfg) (lc_secret cfg) login_email_failure_namespace (normalize_email (lq_address q))"

text \<open>The attempts one after the other, with their answers and their password work.\<close>

fun logins ::
  "login_config \<Rightarrow> login_request list \<Rightarrow> login_state \<Rightarrow> (login_request \<times> (go_error + login_result) \<times> work_event list) list" where
  "logins cfg [] st = []"
| "logins cfg (q # qs) st =
     (case login_manual cfg (lq_env q) (lq_address q) (lq_password q) (lq_metadata q) st of
        (r, st', evs) \<Rightarrow> (q, r, evs) # logins cfg qs st')"

definition right_password :: "login_config \<Rightarrow> login_db \<Rightarrow> login_request \<Rightarrow> bool" where
  "right_password cfg db q \<longleftrightarrow>
     list_ex (\<lambda>u. u_email u = normalize_email (lq_address q) \<and>
       list_ex (\<lambda>c. pc_user c = u_id u \<and>
         (case fst (password_verify (lc_idkey cfg) (le_acquire (lq_env q)) (lq_password q) (pc_hash c)) of
            Inl _ \<Rightarrow> False | Inr v \<Rightarrow> pw_match v)) (credentials (lg_tables db))) (accounts (lg_tables db))"

definition login_charge :: "login_request \<Rightarrow> rl_call" where
  "login_charge q = CallAllow (fst (le_charge (lq_env q))) (snd (le_charge (lq_env q))) login_email_failure_namespace
     (normalize_email (lq_address q)) login_policy"

definition login_refund :: "login_request \<Rightarrow> rl_call" where
  "login_refund q = CallRelease (fst (le_release (lq_env q))) (snd (le_release (lq_env q))) login_email_failure_namespace
     (normalize_email (lq_address q))"

lemma login_calls_limiter:
  assumes "login_manual cfg (lq_env q) (lq_address q) (lq_password q) (lq_metadata q) st = (r, st', evs)"
  shows "lt_db st' = lt_db st \<and>
    (let ks = rl_apply (lc_mac cfg) (lc_secret cfg) (login_charge q) (lt_counters st) in
      lt_counters st' = ks \<or>
      (right_password cfg (lt_db st) q \<and> lt_counters st' = rl_apply (lc_mac cfg) (lc_secret cfg) (login_refund q) ks)) \<and>
    (evs = [] \<or> rl_admits (lc_mac cfg) (lc_secret cfg) (login_key cfg q) (login_charge q) (lt_counters st))"
proof -
  let ?env = "lq_env q" and ?email = "normalize_email (lq_address q)"
  obtain c ks where c: "charge_email_failure cfg ?env ?email (lt_counters st) = (c, ks)" by fastforce
  have k: "ks = rl_apply (lc_mac cfg) (lc_secret cfg) (login_charge q) (lt_counters st)"
    using c by (auto simp: charge_email_failure_def login_charge_def split: prod.splits sum.splits)
  show ?thesis
  proof (cases "case c of Inl _ \<Rightarrow> True | Inr b \<Rightarrow> \<not> r_allowed b")
    case True
    then show ?thesis using c k assms by (auto simp: login_manual_def Let_def split: sum.splits)
  next
    case False
    then obtain b where b: "c = Inr b" "r_allowed b" by (auto split: sum.splits)
    have adm: "rl_admits (lc_mac cfg) (lc_secret cfg) (login_key cfg q) (login_charge q) (lt_counters st)"
      using c b by (auto simp: charge_email_failure_def login_charge_def login_key_def split: prod.splits sum.splits)
    note run = admitted_login[OF c[unfolded b(1)] b(2)]
    obtain x db where x: "run (repo_get_user_for_login ?email) (lt_db st) (le_reads ?env 0) = (x, db)" by fastforce
    have db: "db = lt_db st" using login_user_read[OF x] by simp
    show ?thesis
    proof (cases x)
      case (Inl e)
      obtain d cache evs' where "dummy_verify (lc_idkey cfg) (lt_dummy st) (le_acquire ?env) (lq_password q) = (d, cache, evs')"
        by (cases "dummy_verify (lc_idkey cfg) (lt_dummy st) (le_acquire ?env) (lq_password q)")
      then show ?thesis using assms run x Inl db k adm by (cases d) (auto simp: Let_def)
    next
      case (Inr uh)
      obtain u hash where uh: "uh = (u, hash)" by fastforce
      obtain v evs' where v: "password_verify (lc_idkey cfg) (le_acquire ?env) (lq_password q) hash = (v, evs')" by fastforce
      show ?thesis
      proof (cases "case v of Inl _ \<Rightarrow> True | Inr w \<Rightarrow> \<not> pw_match w")
        case True
        then show ?thesis using assms run x Inr uh v db k adm by (cases v) (auto simp: Let_def)
      next
        case False
        then obtain w where w: "v = Inr w" "pw_match w" by (auto split: sum.splits)
        have "right_password cfg (lt_db st) q"
          using login_user_read[OF x] Inr uh v w unfolding right_password_def list_ex_iff by force
        moreover obtain s ss where "start_session cfg ?env (u_id u) (lq_metadata q) (lt_sessions st) = (s, ss)" by fastforce
        ultimately show ?thesis using assms run x Inr uh v w db k adm
          by (cases s) (auto simp: Let_def release_email_failure_def login_refund_def)
      qed
    qed
  qed
qed

lemma logins_are_charged:
  assumes "\<forall>q\<in>set qs. login_key cfg q = k \<longrightarrow> \<not> right_password cfg (lt_db st) q"
  shows "\<exists>cs. int (length (filter (\<lambda>(q, r, evs). login_key cfg q = k \<and> evs \<noteq> []) (logins cfg qs st)))
           \<le> admitted (lc_mac cfg) (lc_secret cfg) k cs (lt_counters st) \<and> length cs \<le> 2 * length qs \<and>
         (\<forall>c\<in>set cs. charges_only (lc_mac cfg) (lc_secret cfg) k login_policy c \<and>
            (\<exists>q\<in>set qs. c = login_charge q \<or> c = login_refund q))"
  using assms
proof (induction qs arbitrary: st)
  case Nil
  then show ?case by (intro exI[of _ "[]"]) simp
next
  case (Cons q qs)
  obtain r st' evs where l: "login_manual cfg (lq_env q) (lq_address q) (lq_password q) (lq_metadata q) st = (r, st', evs)"
    by (cases "login_manual cfg (lq_env q) (lq_address q) (lq_password q) (lq_metadata q) st")
  note e = login_calls_limiter[OF l, unfolded Let_def]
  have "\<forall>q\<in>set qs. login_key cfg q = k \<longrightarrow> \<not> right_password cfg (lt_db st') q" using Cons.prems e by simp
  from Cons.IH[OF this] obtain cs where cs:
    "int (length (filter (\<lambda>(q, r, evs). login_key cfg q = k \<and> evs \<noteq> []) (logins cfg qs st')))
       \<le> admitted (lc_mac cfg) (lc_secret cfg) k cs (lt_counters st')" "length cs \<le> 2 * length qs"
    "\<forall>c\<in>set cs. charges_only (lc_mac cfg) (lc_secret cfg) k login_policy c \<and> (\<exists>q\<in>set qs. c = login_charge q \<or> c = login_refund q)"
    by blast
  have ch: "charges_only (lc_mac cfg) (lc_secret cfg) k login_policy (login_charge q)"
    by (simp add: login_charge_def)
  let ?n = "if login_key cfg q = k \<and> evs \<noteq> [] then 1 else 0"
  have n: "?n \<le> (if rl_admits (lc_mac cfg) (lc_secret cfg) k (login_charge q) (lt_counters st) then 1 else (0::int))"
    using e by auto
  have split: "int (length (filter (\<lambda>(q, r, evs). login_key cfg q = k \<and> evs \<noteq> []) (logins cfg (q # qs) st))) =
      ?n + int (length (filter (\<lambda>(q, r, evs). login_key cfg q = k \<and> evs \<noteq> []) (logins cfg qs st')))"
    using l by simp
  show ?case
  proof (cases "lt_counters st' = rl_apply (lc_mac cfg) (lc_secret cfg) (login_charge q) (lt_counters st)")
    case True
    then have "?n + admitted (lc_mac cfg) (lc_secret cfg) k cs (lt_counters st')
        \<le> admitted (lc_mac cfg) (lc_secret cfg) k (login_charge q # cs) (lt_counters st)" using n by simp
    with cs split ch show ?thesis by (intro exI[of _ "login_charge q # cs"]) auto
  next
    case False
    with e have right: "right_password cfg (lt_db st) q" and ks: "lt_counters st' = rl_apply (lc_mac cfg) (lc_secret cfg) (login_refund q)
        (rl_apply (lc_mac cfg) (lc_secret cfg) (login_charge q) (lt_counters st))" by simp_all
    have "charges_only (lc_mac cfg) (lc_secret cfg) k login_policy (login_refund q)"
      using right Cons.prems by (auto simp: login_refund_def login_key_def)
    moreover have "?n + admitted (lc_mac cfg) (lc_secret cfg) k cs (lt_counters st')
        \<le> admitted (lc_mac cfg) (lc_secret cfg) k (login_charge q # login_refund q # cs) (lt_counters st)"
      using n by (simp add: ks login_refund_def)
    ultimately show ?thesis using cs split ch by (intro exI[of _ "login_charge q # login_refund q # cs"]) auto
  qed
qed

text \<open>
  C16. At most ten guesses against one address in a quarter of an hour. From the moment the address's
  counter does not exist, of any number of attempts within one window, on any addresses, with any faults
  and any successes of other users, at most ten for this address get to check a password, unless one of
  them had the right password.
\<close>

theorem password_guesses_are_limited:
  assumes "live t0 (lt_counters st) k = None" and "2 * int (length qs) + 1 < 2 ^ 63"
    and "\<forall>q\<in>set qs. login_key cfg q = k \<longrightarrow> \<not> right_password cfg (lt_db st) q"
    and "\<forall>q\<in>set qs. t0 \<le> snd (le_charge (lq_env q)) \<and> snd (le_charge (lq_env q)) < t0 + 15 * 60 * 1000 \<and>
           t0 \<le> snd (le_release (lq_env q)) \<and> snd (le_release (lq_env q)) < t0 + 15 * 60 * 1000"
  shows "length (filter (\<lambda>(q, r, evs). login_key cfg q = k \<and> evs \<noteq> []) (logins cfg qs st)) \<le> 10"
proof -
  obtain cs where cs:
    "int (length (filter (\<lambda>(q, r, evs). login_key cfg q = k \<and> evs \<noteq> []) (logins cfg qs st)))
       \<le> admitted (lc_mac cfg) (lc_secret cfg) k cs (lt_counters st)" "length cs \<le> 2 * length qs"
    "\<forall>c\<in>set cs. charges_only (lc_mac cfg) (lc_secret cfg) k login_policy c \<and> (\<exists>q\<in>set qs. c = login_charge q \<or> c = login_refund q)"
    using logins_are_charged[OF assms(3)] by blast
  have pol: "policy_error login_policy = None"
    by (simp add: policy_error_def login_policy_def login_email_failure_limit_def login_email_failure_window_def)
  have w: "window_seconds login_policy * 1000 = 15 * 60 * 1000"
    by (simp add: window_seconds_def login_policy_def login_email_failure_window_def)
  have "admitted (lc_mac cfg) (lc_secret cfg) k cs (lt_counters st) \<le> p_max login_policy"
  proof (rule admitted_from_none[OF pol assms(1)])
    show "int (length cs) + 1 < 2 ^ 63" using cs(2) assms(2) by linarith
    show "\<forall>c\<in>set cs. charges_only (lc_mac cfg) (lc_secret cfg) k login_policy c \<and> t0 \<le> call_time c \<and>
        call_time c < t0 + window_seconds login_policy * 1000"
      unfolding w using cs(3) assms(4) by (fastforce simp: login_charge_def login_refund_def)
  qed
  with cs(1) show ?thesis by (simp add: login_policy_def login_email_failure_limit_def)
qed

section \<open>Which Google tokens count\<close>

lemma validated_by_the_first:
  "validate_for_any_audience validate token auds e = Inr p \<longleftrightarrow>
     (\<exists>before a after. auds = before @ a # after \<and> list_all (\<lambda>x. isl (validate token x)) before \<and> validate token a = Inr p)"
proof (induction auds arbitrary: e)
  case (Cons a auds)
  show ?case
  proof (cases "validate token a")
    case (Inl e')
    show ?thesis
    proof
      assume "validate_for_any_audience validate token (a # auds) e = Inr p"
      then obtain before b after where "auds = before @ b # after" "list_all (\<lambda>x. isl (validate token x)) before"
          "validate token b = Inr p" using Cons Inl by auto
      then show "\<exists>before b after. a # auds = before @ b # after \<and> list_all (\<lambda>x. isl (validate token x)) before \<and>
          validate token b = Inr p"
        using Inl by (intro exI[of _ "a # before"] exI[of _ b] exI[of _ after]) simp
    next
      assume "\<exists>before b after. a # auds = before @ b # after \<and> list_all (\<lambda>x. isl (validate token x)) before \<and>
          validate token b = Inr p"
      then obtain before b after where *: "a # auds = before @ b # after" "list_all (\<lambda>x. isl (validate token x)) before"
          "validate token b = Inr p" by blast
      then obtain rest where "before = a # rest" using Inl by (cases before) auto
      with * have "auds = rest @ b # after" "list_all (\<lambda>x. isl (validate token x)) rest" by simp_all
      then have "validate_for_any_audience validate token auds (Some e') = Inr p" unfolding Cons using *(3) by blast
      then show "validate_for_any_audience validate token (a # auds) e = Inr p" using Inl by simp
    qed
  next
    case (Inr q)
    show ?thesis
    proof
      assume "validate_for_any_audience validate token (a # auds) e = Inr p"
      then have "a # auds = [] @ a # auds \<and> list_all (\<lambda>x. isl (validate token x)) [] \<and> validate token a = Inr p"
        using Inr by simp
      then show "\<exists>before b after. a # auds = before @ b # after \<and> list_all (\<lambda>x. isl (validate token x)) before \<and>
          validate token b = Inr p" by blast
    qed (use Inr in \<open>auto simp: Cons_eq_append_conv\<close>)
  qed
qed simp

text \<open>
  A Google token is accepted exactly when the first configured audience that validates it gives a payload
  with a subject, a nonempty address that Google says is verified, and no name or a name that is a text;
  the identity is what that payload says.
\<close>

theorem google_token_is_accepted_exactly_when:
  "google_verify validate auds token = Inr g \<longleftrightarrow>
     (\<exists>before a after p. auds = before @ a # after \<and> list_all (\<lambda>x. isl (validate token x)) before \<and>
        validate token a = Inr p \<and> gp_subject p = gi_subject g \<and> gi_subject g \<noteq> '''' \<and>
        gp_claims p ''email'' = Some (ClaimString (gi_email g)) \<and> gi_email g \<noteq> '''' \<and>
        gp_claims p ''email_verified'' = Some (ClaimBool True) \<and> gi_email_verified g \<and>
        (case gp_claims p ''name'' of None \<Rightarrow> gi_display_name g = ''''
         | Some v \<Rightarrow> v = ClaimString (gi_display_name g)))"
proof -
  have "google_verify validate auds token = Inr g \<longleftrightarrow>
     (\<exists>p. validate_for_any_audience validate token auds None = Inr p \<and> gp_subject p = gi_subject g \<and> gi_subject g \<noteq> '''' \<and>
        gp_claims p ''email'' = Some (ClaimString (gi_email g)) \<and> gi_email g \<noteq> '''' \<and>
        gp_claims p ''email_verified'' = Some (ClaimBool True) \<and> gi_email_verified g \<and>
        (case gp_claims p ''name'' of None \<Rightarrow> gi_display_name g = ''''
         | Some v \<Rightarrow> v = ClaimString (gi_display_name g)))"
    by (cases g)
      (auto simp: google_verify_def get_string_claim_def get_bool_claim_def get_optional_string_claim_def
        split: sum.splits option.splits claim_value.splits if_splits)
  then show ?thesis unfolding validated_by_the_first by blast
qed

lemma last_index_append:
  assumes "x \<notin> set b"
  shows "last_index x (a @ x # b) = Some (length a)"
proof -
  have "takeWhile (\<lambda>c. c \<noteq> x) (rev b @ x # rev a) = rev b"
    by (subst takeWhile_append2) (use assms in auto)
  then show ?thesis by (simp add: last_index_def)
qed

text \<open>The address shown beside an account: its first character and its domain, or nothing.\<close>

lemma mask_email_parts:
  "CHR ''@'' \<notin> set domain \<Longrightarrow> mask_email (name @ CHR ''@'' # domain) =
     (if name = '''' \<or> domain = '''' then '''' else first_rune name @ ''***@'' @ domain)"
  by (simp add: mask_email_def last_index_append)

section \<open>Concrete instances\<close>

definition demo_login :: login_db where
  "demo_login = \<lparr>lg_tables = demo_accounts, lg_links = []\<rparr>"

definition demo_linking :: login_db where
  "demo_linking = snd (run (repo_create_account_link_confirmation 0 5 7 ''google'' ''sub'' None 100) demo_login [])"

lemma demo_linking_reachable: "login_reachable demo_linking"
  unfolding demo_linking_def
  by (rule reachable_from.next_step, rule reachable_from.start, rule_tac [2] a_link_created)
    (simp add: login_start_def demo_login_def)

lemma demo_linking_runs:
  "run (repo_get_active_account_link_confirmation 1 5) demo_linking [] =
     (Inr (new_link 0 5 7 ''google'' ''sub'' None 100, ''ada@x''), demo_linking) \<and>
   fst (run (repo_confirm_account_link 10 9 5) demo_linking []) =
     Inr (new_identity 9 (new_link 0 5 7 ''google'' ''sub'' None 100) (hd (accounts demo_accounts))) \<and>
   identities (lg_tables demo_linking) = [] \<and>
   map ai_user (identities (lg_tables (snd (run (repo_confirm_account_link 10 9 5) demo_linking [])))) = [7]"
  by code_simp

theorem linked_identity_is_the_compared_one_witness:
  "\<exists>u. identities (lg_tables (snd (run (repo_confirm_account_link 10 9 5) demo_linking []))) =
     identities (lg_tables demo_linking) @ [new_identity 9 (new_link 0 5 7 ''google'' ''sub'' None 100) u]"
proof -
  have "snd (run (repo_confirm_account_link 10 9 5) demo_linking []) \<noteq> demo_linking"
    using demo_linking_runs by force
  from linked_identity_is_the_compared_one[OF demo_linking_reachable conjunct1[OF demo_linking_runs] rtranclp.rtrancl_refl this]
  show ?thesis by blast
qed

theorem link_is_confirmed_once_witness:
  "isl (fst (run (repo_confirm_account_link 11 12 5) (snd (run (repo_confirm_account_link 10 9 5) demo_linking [])) []))"
  using link_is_confirmed_once[OF demo_linking_reachable _ rtranclp.rtrancl_refl, of 10 9 5 "[]" 11 12 "[]"] demo_linking_runs
  by simp

definition demo_google :: google_payload where
  "demo_google = \<lparr>gp_subject = ''sub'', gp_claims = [''email'' \<mapsto> ClaimString ''ada@x'', ''email_verified'' \<mapsto> ClaimBool True]\<rparr>"

definition demo_login_config :: login_config where
  "demo_login_config = \<lparr>lc_mac = demo_mac, lc_secret = ''s'', lc_hash_token = id, lc_idkey = demo_idkey, lc_wait = second,
     lc_access = (\<lambda>_ _ _. Inr ''access''), lc_validate = (\<lambda>t a. if t = ''id'' then Inr demo_google else Inl DbFault),
     lc_audiences = [''web'']\<rparr>"

definition demo_login_env :: login_env where
  "demo_login_env = \<lparr>le_charge = (StmtOk, 0), le_release = (StmtOk, 0), le_reads = (\<lambda>_. []), le_write = [],
     le_db_read = 1, le_db_now = 10, le_app_now = 10, le_row_id = 9, le_acquire = None, le_session = ([], 10, 10),
     le_session_ids = (20, 21), le_refresh_token = Inr ''refresh'', le_social = ((0, 0), (0, 0, 0), (0, 0, 0))\<rparr>"

definition demo_metadata :: session_metadata where
  "demo_metadata = \<lparr>md_platform = ''web'', md_installation = None, md_device_name = None, md_user_agent = None\<rparr>"

definition demo_login_state :: "login_db \<Rightarrow> login_state" where
  "demo_login_state db = \<lparr>lt_db = db, lt_sessions = \<lparr>users = [7], sessions = [], tokens = []\<rparr>, lt_counters = (\<lambda>_. None),
     lt_dummy = Some (fst (dummy_hash demo_idkey None))\<rparr>"

definition demo_link_state :: login_state where
  "demo_link_state = \<lparr>lt_db = demo_linking, lt_sessions = \<lparr>users = [7], sessions = [], tokens = []\<rparr>, lt_counters = (\<lambda>_. None),
     lt_dummy = None\<rparr>"

theorem link_needs_the_same_google_account_witness:
  "\<exists>g. google_verify (lc_validate demo_login_config) (lc_audiences demo_login_config) ''id'' = Inr g \<and>
     (\<exists>l\<in>set (lg_links demo_linking). al_subject l = gi_subject g \<and>
        opened_for (al_user l) (lt_sessions demo_link_state)
          (lt_sessions (snd (confirm_account_link demo_login_config demo_login_env 5 ''id'' demo_metadata
             demo_link_state))))"
proof -
  have "map s_user (sessions (lt_sessions (snd (confirm_account_link demo_login_config demo_login_env 5 ''id'' demo_metadata
      demo_link_state)))) = [7]" by code_simp
  moreover obtain r st' where c: "confirm_account_link demo_login_config demo_login_env 5 ''id'' demo_metadata
      demo_link_state = (r, st')" by (rule prod.exhaust)
  ultimately have opened: "lt_sessions st' \<noteq> lt_sessions demo_link_state" by (auto simp: demo_link_state_def)
  have r: "login_reachable (lt_db demo_link_state)" and d: "lt_db demo_link_state = demo_linking"
    using demo_linking_reachable by (simp_all add: demo_link_state_def)
  from link_needs_the_same_google_account[OF r, where cfg = demo_login_config and
        env = demo_login_env and lid = 5 and token = "''id''" and md = demo_metadata, unfolded c prod.case] opened
  obtain g l where g: "google_verify (lc_validate demo_login_config) (lc_audiences demo_login_config) ''id'' = Inr g"
    and l: "l \<in> set (lg_links (lt_db demo_link_state))" "al_subject l = gi_subject g"
      "opened_for (al_user l) (lt_sessions demo_link_state) (lt_sessions st')" by (elim disjE conjE exE bexE) simp_all
  show ?thesis
    unfolding c snd_conv using g l(2,3) l(1)[unfolded d] by (intro exI[of _ g] conjI bexI[of _ l])
qed

definition demo_password_db :: "string \<Rightarrow> login_db" where
  "demo_password_db hash = \<lparr>lg_tables = empty_registrations\<lparr>
     accounts := [\<lparr>u_id = 7, u_email = ''ada@x'', u_display_name = ''Ada'', u_email_verified_at = 0\<rparr>],
     credentials := [\<lparr>pc_user = 7, pc_hash = hash\<rparr>]\<rparr>, lg_links = []\<rparr>"

lemma demo_charge:
  "charge_email_failure demo_login_config demo_login_env email (lt_counters (demo_login_state db)) =
     (Inr \<lparr>r_count = 1, r_allowed = True, r_retry_after = retry_after (15 * 60 * 1000)\<rparr>,
      snd (charge_email_failure demo_login_config demo_login_env email (lt_counters (demo_login_state db))))"
  by (simp add: charge_email_failure_def demo_login_config_def demo_login_env_def demo_login_state_def allow_branches allow_spec_def
      charged_def live_def policy_error_def window_seconds_def login_policy_def login_email_failure_limit_def
      login_email_failure_window_def Let_def)


definition demo_attempts :: "login_request list" where
  "demo_attempts = replicate 11 \<lparr>lq_env = demo_login_env, lq_address = ''eve@x'', lq_password = ''Guess'',
     lq_metadata = demo_metadata\<rparr>"

theorem password_guesses_are_limited_witness:
  "length (filter (\<lambda>(q, r, evs). login_key demo_login_config q = login_key demo_login_config (hd demo_attempts) \<and> evs \<noteq> [])
     (logins demo_login_config demo_attempts (demo_login_state (demo_password_db ''hash'')))) \<le> 10"
proof (rule password_guesses_are_limited[of 0])
  have set: "set demo_attempts = {\<lparr>lq_env = demo_login_env, lq_address = ''eve@x'', lq_password = ''Guess'',
     lq_metadata = demo_metadata\<rparr>}" "length demo_attempts = 11" by (simp_all add: demo_attempts_def)
  have n: "normalize_email ''eve@x'' = ''eve@x''" by code_simp
  show "live 0 (lt_counters (demo_login_state (demo_password_db ''hash''))) (login_key demo_login_config (hd demo_attempts)) = None"
    by (simp add: live_def demo_login_state_def)
  show "2 * int (length demo_attempts) + 1 < 2 ^ 63" by (simp add: set)
  show "\<forall>q\<in>set demo_attempts. login_key demo_login_config q = login_key demo_login_config (hd demo_attempts) \<longrightarrow>
      \<not> right_password demo_login_config (lt_db (demo_login_state (demo_password_db ''hash''))) q"
    by (simp add: set right_password_def n demo_login_state_def demo_password_db_def)
  show "\<forall>q\<in>set demo_attempts. 0 \<le> snd (le_charge (lq_env q)) \<and> snd (le_charge (lq_env q)) < 0 + 15 * 60 * 1000 \<and>
      0 \<le> snd (le_release (lq_env q)) \<and> snd (le_release (lq_env q)) < 0 + 15 * 60 * 1000"
    by (simp add: set demo_login_env_def)
qed

end
