(* ===== verification/PasswordReset.thy ===== *)
theory PasswordReset
  imports RegistrationCodes
begin

text \<open>
  Password reset: \<open>internal/api/auth/password_reset\<close>. The tables a reset touches, one definition per SQL
  statement of the generated queries, one per repository method, and the service over them. The tables of
  requests, codes, users and credentials have the columns they have in \<open>Registration\<close>, whose record types
  are used again; of the shared tables only the rows of this component are here. The sessions are those of
  \<open>Sessions\<close>.
\<close>

section \<open>State\<close>

datatype reset_status = PendingPasswordResetPending | PendingPasswordResetCompleted | PendingPasswordResetExpired

record password_reset =
  ps_id :: uuid
  ps_email :: string
  ps_status :: reset_status
  ps_created_at :: time
  ps_expires_at :: time

record reset_continuation =
  rk_id :: uuid
  rk_reset :: uuid
  rk_hash :: string
  rk_expires_at :: time
  rk_consumed_at :: "time option"
  rk_created_at :: time

record reset_db =
  rs_resets :: "password_reset list"
  rs_requests :: "verification_request list"
  rs_codes :: "verification_code list"
  rs_continuations :: "reset_continuation list"
  rs_users :: "user list"
  rs_credentials :: "password_credential list"
  rs_sessions :: session_db

definition password_reset_expires_in :: duration where "password_reset_expires_in = 15 * minute"
definition reset_code_expires_in :: duration where "reset_code_expires_in = 5 * minute"
definition password_reset_continuation_expires_in :: duration where
  "password_reset_continuation_expires_in = 15 * minute"
definition reset_resend_cooldown :: duration where "reset_resend_cooldown = 60 * second"
definition reset_code_max_attempts :: int where "reset_code_max_attempts = 5"

section \<open>SQL statements\<close>

definition qr_get_user_by_email :: "string \<Rightarrow> (reset_db, user) query" where
  "qr_get_user_by_email email db =
     (case row_with u_email email (rs_users db) of None \<Rightarrow> Inl err_no_rows | Some u \<Rightarrow> Inr (u, db))"

definition ps_open :: "password_reset \<Rightarrow> bool" where
  "ps_open p \<longleftrightarrow> ps_status p = PendingPasswordResetPending"

text \<open>The join of a reset with its verification request.\<close>

definition reset_request :: "password_reset \<Rightarrow> verification_request \<Rightarrow> bool" where
  "reset_request p v \<longleftrightarrow> vr_subject_type v = VerificationSubjectPendingPasswordReset \<and>
     vr_subject v = ps_id p \<and> vr_purpose v = VerificationPurposePasswordReset"

definition with_request ::
  "(password_reset \<Rightarrow> bool) \<Rightarrow> reset_db \<Rightarrow> (password_reset \<times> verification_request) list" where
  "with_request f db =
     concat (map (\<lambda>p. map (Pair p) (filter (reset_request p) (rs_requests db))) (filter f (rs_resets db)))"

definition qr_get_active_password_reset_by_email ::
  "time \<Rightarrow> string \<Rightarrow> (reset_db, password_reset \<times> verification_request) query" where
  "qr_get_active_password_reset_by_email now email db =
     (case first_row (with_request (\<lambda>p. ps_email p = email \<and> ps_open p \<and> ps_expires_at p > now) db) of
        Inl e \<Rightarrow> Inl e
      | Inr pv \<Rightarrow> Inr (pv, db))"

definition qr_get_pending_password_reset_by_email_for_update ::
  "string \<Rightarrow> (reset_db, password_reset \<times> verification_request) query" where
  "qr_get_pending_password_reset_by_email_for_update email db =
     (case first_row (with_request (\<lambda>p. ps_email p = email \<and> ps_open p) db) of
        Inl e \<Rightarrow> Inl e
      | Inr pv \<Rightarrow> Inr (pv, db))"

text \<open>\<open>expires_at <= NOW() AS is_expired\<close>.\<close>

definition reset_expired :: "time \<Rightarrow> password_reset \<Rightarrow> bool" where
  "reset_expired now p \<longleftrightarrow> ps_expires_at p \<le> now"

definition expirable :: "time \<Rightarrow> uuid \<Rightarrow> password_reset \<Rightarrow> bool" where
  "expirable now pid p \<longleftrightarrow> ps_id p = pid \<and> ps_open p \<and> ps_expires_at p \<le> now"

definition qr_expire_pending_password_reset :: "time \<Rightarrow> uuid \<Rightarrow> (reset_db, nat) query" where
  "qr_expire_pending_password_reset now pid db =
     Inr (rows_where (expirable now pid) (rs_resets db),
          db\<lparr>rs_resets := update_where (expirable now pid) (\<lambda>p. p\<lparr>ps_status := PendingPasswordResetExpired\<rparr>) (rs_resets db)\<rparr>)"

definition pending_password_reset_email_index :: string where
  "pending_password_reset_email_index = ''pending_password_resets_email_pending_idx''"

definition qr_create_pending_password_reset ::
  "time \<Rightarrow> uuid \<Rightarrow> string \<Rightarrow> time \<Rightarrow> (reset_db, password_reset) query" where
  "qr_create_pending_password_reset now pid email expires db =
     (if has_key ps_id pid (rs_resets db) then Inl (PgError ''pending_password_resets_pkey'')
      else if has_key ps_email email (filter ps_open (rs_resets db))
      then Inl (PgError pending_password_reset_email_index)
      else
        (let p = \<lparr>ps_id = pid, ps_email = email, ps_status = PendingPasswordResetPending, ps_created_at = now,
                  ps_expires_at = expires\<rparr>
         in Inr (p, db\<lparr>rs_resets := rs_resets db @ [p]\<rparr>)))"

definition qr_create_verification_request ::
  "time \<Rightarrow> uuid \<Rightarrow> uuid \<Rightarrow> (reset_db, verification_request) query" where
  "qr_create_verification_request now vid subject db =
     (if has_key vr_id vid (rs_requests db) then Inl (PgError ''verification_requests_pkey'')
      else
        (let v = \<lparr>vr_id = vid, vr_subject_type = VerificationSubjectPendingPasswordReset, vr_subject = subject,
                  vr_purpose = VerificationPurposePasswordReset, vr_status = VerificationRequestPending,
                  vr_pin_issued_count = 0, vr_last_sent_at = None, vr_created_at = now\<rparr>
         in Inr (v, db\<lparr>rs_requests := rs_requests db @ [v]\<rparr>)))"

definition qr_create_verification_code ::
  "time \<Rightarrow> uuid \<Rightarrow> uuid \<Rightarrow> string \<Rightarrow> time \<Rightarrow> (reset_db, verification_code) query" where
  "qr_create_verification_code now cid vid hash expires db =
     (if has_key vc_id cid (rs_codes db) then Inl (PgError ''verification_codes_pkey'')
      else if has_key vc_request vid (filter code_active (rs_codes db))
      then Inl (PgError ''verification_codes_one_active_per_request_idx'')
      else if \<not> has_key vr_id vid (rs_requests db)
      then Inl (PgError ''verification_codes_verification_request_id_fkey'')
      else Inr (new_code now cid vid hash expires,
                db\<lparr>rs_codes := rs_codes db @ [new_code now cid vid hash expires]\<rparr>))"

definition qr_get_verification :: "uuid \<Rightarrow> (reset_db, verification_request \<times> password_reset) query" where
  "qr_get_verification vid db =
     (case row_with vr_id vid (rs_requests db) of
        None \<Rightarrow> Inl err_no_rows
      | Some v \<Rightarrow>
          (case row_with ps_id (vr_subject v) (rs_resets db) of
             None \<Rightarrow> Inl err_no_rows
           | Some p \<Rightarrow> Inr ((v, p), db)))"

definition qr_invalidate_verification_code :: "time \<Rightarrow> uuid \<Rightarrow> (reset_db, unit) query" where
  "qr_invalidate_verification_code now vid db =
     Inr ((), case first_by newest_code (filter (\<lambda>c. vc_request c = vid \<and> code_active c) (rs_codes db)) of
        None \<Rightarrow> db
      | Some old \<Rightarrow> db\<lparr>rs_codes :=
          update_where (\<lambda>c. vc_id c = vc_id old) (\<lambda>c. c\<lparr>vc_invalidated_at := Some now\<rparr>) (rs_codes db)\<rparr>)"

definition qr_update_verification_request_resend :: "time \<Rightarrow> uuid \<Rightarrow> (reset_db, verification_request) query" where
  "qr_update_verification_request_resend now vid db =
     (case row_with vr_id vid (rs_requests db) of
        None \<Rightarrow> Inl err_no_rows
      | Some v \<Rightarrow>
          (let bump = (\<lambda>v. v\<lparr>vr_pin_issued_count := vr_pin_issued_count v + 1, vr_last_sent_at := Some now\<rparr>)
           in Inr (bump v, db\<lparr>rs_requests := update_where (\<lambda>v. vr_id v = vid) bump (rs_requests db)\<rparr>)))"

definition qr_get_active_verification_code :: "time \<Rightarrow> uuid \<Rightarrow> int \<Rightarrow> (reset_db, verification_code) query" where
  "qr_get_active_verification_code now vid max_attempts db =
     (case first_by newest_code (filter (\<lambda>c. vc_request c = vid \<and> code_active c
             \<and> vc_expires_at c > now \<and> vc_attempts c < max_attempts) (rs_codes db)) of
        None \<Rightarrow> Inl err_no_rows
      | Some c \<Rightarrow> Inr (c, db))"

definition qr_increment_verification_code_attempts :: "uuid \<Rightarrow> int \<Rightarrow> (reset_db, int) query" where
  "qr_increment_verification_code_attempts cid max_attempts db =
     (case row_with vc_id cid (filter (\<lambda>c. vc_attempts c < max_attempts) (rs_codes db)) of
        None \<Rightarrow> Inl err_no_rows
      | Some c \<Rightarrow> Inr (vc_attempts c + 1, db\<lparr>rs_codes :=
          update_where (\<lambda>c. vc_id c = cid \<and> vc_attempts c < max_attempts)
            (\<lambda>c. c\<lparr>vc_attempts := vc_attempts c + 1\<rparr>) (rs_codes db)\<rparr>))"

definition qr_consume_verification_code :: "time \<Rightarrow> uuid \<Rightarrow> (reset_db, nat) query" where
  "qr_consume_verification_code now cid db =
     Inr (rows_where (consumable now cid) (rs_codes db),
          db\<lparr>rs_codes := update_where (consumable now cid) (\<lambda>c. c\<lparr>vc_consumed_at := Some now\<rparr>) (rs_codes db)\<rparr>)"

definition qr_mark_verification_request_verified :: "uuid \<Rightarrow> (reset_db, nat) query" where
  "qr_mark_verification_request_verified vid db =
     Inr (rows_where (verifiable vid) (rs_requests db),
          db\<lparr>rs_requests := update_where (verifiable vid)
                              (\<lambda>v. v\<lparr>vr_status := VerificationRequestVerified\<rparr>) (rs_requests db)\<rparr>)"

definition qr_create_password_reset_continuation ::
  "time \<Rightarrow> uuid \<Rightarrow> uuid \<Rightarrow> string \<Rightarrow> time \<Rightarrow> (reset_db, reset_continuation) query" where
  "qr_create_password_reset_continuation now kid pid hash expires db =
     (if has_key rk_id kid (rs_continuations db) then Inl (PgError ''password_reset_continuations_pkey'')
      else if has_key rk_hash hash (rs_continuations db)
      then Inl (PgError ''password_reset_continuations_token_hash_idx'')
      else if \<not> has_key ps_id pid (rs_resets db)
      then Inl (PgError ''password_reset_continuations_pending_password_reset_id_fkey'')
      else
        (let k = \<lparr>rk_id = kid, rk_reset = pid, rk_hash = hash, rk_expires_at = expires,
                  rk_consumed_at = None, rk_created_at = now\<rparr>
         in Inr (k, db\<lparr>rs_continuations := rs_continuations db @ [k]\<rparr>)))"

text \<open>Joined with its reset and the account of the address, and whether that has a password.\<close>

definition qr_get_password_reset_continuation ::
  "string \<Rightarrow> (reset_db, reset_continuation \<times> password_reset \<times> bool) query" where
  "qr_get_password_reset_continuation hash db =
     (case row_with rk_hash hash (rs_continuations db) of
        None \<Rightarrow> Inl err_no_rows
      | Some k \<Rightarrow>
          (case row_with ps_id (rk_reset k) (rs_resets db) of
             None \<Rightarrow> Inl err_no_rows
           | Some p \<Rightarrow>
               (case row_with u_email (ps_email p) (rs_users db) of
                  None \<Rightarrow> Inl err_no_rows
                | Some u \<Rightarrow> Inr ((k, p, has_key pc_user (u_id u) (rs_credentials db)), db))))"

text \<open>\<open>ON CONFLICT (user_id) DO UPDATE\<close>.\<close>

definition qr_upsert_password_credential :: "uuid \<Rightarrow> string \<Rightarrow> (reset_db, unit) query" where
  "qr_upsert_password_credential uid hash db =
     (if has_key pc_user uid (rs_credentials db)
      then Inr ((), db\<lparr>rs_credentials :=
             update_where (\<lambda>c. pc_user c = uid) (\<lambda>c. c\<lparr>pc_hash := hash\<rparr>) (rs_credentials db)\<rparr>)
      else if \<not> has_key u_id uid (rs_users db) then Inl (PgError ''password_credentials_user_id_fkey'')
      else Inr ((), db\<lparr>rs_credentials := rs_credentials db @ [\<lparr>pc_user = uid, pc_hash = hash\<rparr>]\<rparr>))"

definition rk_usable :: "time \<Rightarrow> uuid \<Rightarrow> reset_continuation \<Rightarrow> bool" where
  "rk_usable now kid k \<longleftrightarrow> rk_id k = kid \<and> rk_consumed_at k = None \<and> rk_expires_at k > now"

definition qr_consume_password_reset_continuation :: "time \<Rightarrow> uuid \<Rightarrow> (reset_db, nat) query" where
  "qr_consume_password_reset_continuation now kid db =
     Inr (rows_where (rk_usable now kid) (rs_continuations db),
          db\<lparr>rs_continuations := update_where (rk_usable now kid)
               (\<lambda>k. k\<lparr>rk_consumed_at := Some now\<rparr>) (rs_continuations db)\<rparr>)"

definition ps_completable :: "time \<Rightarrow> uuid \<Rightarrow> password_reset \<Rightarrow> bool" where
  "ps_completable now pid p \<longleftrightarrow> ps_id p = pid \<and> ps_open p \<and> ps_expires_at p > now"

definition qr_complete_pending_password_reset :: "time \<Rightarrow> uuid \<Rightarrow> (reset_db, nat) query" where
  "qr_complete_pending_password_reset now pid db =
     Inr (rows_where (ps_completable now pid) (rs_resets db),
          db\<lparr>rs_resets := update_where (ps_completable now pid)
               (\<lambda>p. p\<lparr>ps_status := PendingPasswordResetCompleted\<rparr>) (rs_resets db)\<rparr>)"

definition revoke_all :: "time \<Rightarrow> uuid \<Rightarrow> session_db \<Rightarrow> session_db" where
  "revoke_all now uid sdb = sdb\<lparr>sessions :=
     update_where (\<lambda>s. s_user s = uid \<and> s_revoked_at s = None) (\<lambda>s. s\<lparr>s_revoked_at := Some now\<rparr>) (sessions sdb)\<rparr>"

definition qr_revoke_all_sessions_for_user :: "time \<Rightarrow> uuid \<Rightarrow> (reset_db, unit) query" where
  "qr_revoke_all_sessions_for_user now uid db = Inr ((), db\<lparr>rs_sessions := revoke_all now uid (rs_sessions db)\<rparr>)"

section \<open>Repository\<close>

definition map_password_reset_db_error :: "go_error \<Rightarrow> go_error" where
  "map_password_reset_db_error e =
     (if pg_constraint e = Some pending_password_reset_email_index then
        conflict_with ''PASSWORD_RESET_ALREADY_PENDING'' ''password reset already pending'' (Some e)
      else if pg_constraint e = Some ''verification_codes_one_active_per_request_idx'' then
        conflict_with ''ACTIVE_VERIFICATION_CODE_EXISTS'' ''an active verification code already exists'' (Some e)
      else internal (Some e))"

definition fail_reset :: "go_error \<Rightarrow> (reset_db, 'a) prog" where
  "fail_reset e = fail (map_password_reset_db_error e)"

definition is_pending_password_reset_email_conflict :: "go_error \<Rightarrow> bool" where
  "is_pending_password_reset_email_conflict e = (pg_constraint e = Some pending_password_reset_email_index)"

definition reset_no_longer_pending :: go_error where
  "reset_no_longer_pending = conflict_with '''' ''password reset is no longer pending'' None"
definition reset_continuation_unavailable :: "go_error option \<Rightarrow> go_error" where
  "reset_continuation_unavailable = conflict_with '''' ''password reset continuation is no longer available''"

definition repo_user_exists :: "string \<Rightarrow> (reset_db, bool) prog" where
  "repo_user_exists email =
     pool (qr_get_user_by_email email)
       (\<lambda>e. if errors_is e err_no_rows then ret False else fail_internal e) (\<lambda>u. ret (u_id u \<noteq> uuid_nil))"

definition repo_get_user_by_email :: "string \<Rightarrow> (reset_db, user) prog" where
  "repo_get_user_by_email email =
     pool (qr_get_user_by_email email)
       (\<lambda>e. if errors_is e err_no_rows then fail (not_found_with '''' ''User not found'' (Some e)) else fail_internal e) ret"

definition repo_get_active_password_reset_by_email ::
  "time \<Rightarrow> string \<Rightarrow> (reset_db, (password_reset \<times> verification_request) option) prog" where
  "repo_get_active_password_reset_by_email now email =
     pool (qr_get_active_password_reset_by_email now email)
       (\<lambda>e. if errors_is e err_no_rows then ret None else fail_internal e) (\<lambda>pv. ret (Some pv))"

definition insert_reset :: "time \<Rightarrow> uuid \<times> uuid \<Rightarrow> string \<Rightarrow> time \<Rightarrow> (reset_db, uuid) prog" where
  "insert_reset now ids email expires =
     exec (qr_create_pending_password_reset now (fst ids) email expires) fail_reset (\<lambda>p.
     exec (qr_create_verification_request now (snd ids) (ps_id p)) fail_internal (\<lambda>v.
     commit fail_internal (ret (vr_id v))))"

definition create_password_reset_once :: "time \<Rightarrow> uuid \<times> uuid \<Rightarrow> string \<Rightarrow> time \<Rightarrow> (reset_db, uuid) prog" where
  "create_password_reset_once now ids email expires =
     begin_tx fail_internal
      (exec (qr_get_pending_password_reset_by_email_for_update email)
        (\<lambda>e. if errors_is e err_no_rows then insert_reset now ids email expires else fail_internal e)
        (\<lambda>(p, v).
          if \<not> reset_expired now p then ret (vr_id v)
          else exec_one (qr_expire_pending_password_reset now (ps_id p)) reset_no_longer_pending
                 (insert_reset now ids email expires)))"

text \<open>A second attempt, with its own ids and clock, when the first met the unique index.\<close>

definition repo_create_password_reset ::
  "time \<times> time \<Rightarrow> (uuid \<times> uuid) \<times> (uuid \<times> uuid) \<Rightarrow> string \<Rightarrow> time \<Rightarrow> (reset_db, uuid) prog" where
  "repo_create_password_reset nows ids email expires =
     call (create_password_reset_once (fst nows) (fst ids) email expires)
       (\<lambda>e. if is_pending_password_reset_email_conflict e
             then create_password_reset_once (snd nows) (snd ids) email expires
             else fail e)
       ret"

definition repo_get_reset_verification :: "uuid \<Rightarrow> (reset_db, verification_request \<times> password_reset) prog" where
  "repo_get_reset_verification vid =
     pool (qr_get_verification vid)
       (\<lambda>e. if errors_is e err_no_rows then fail (not_found (Some e)) else fail_internal e) ret"

definition repo_issue_reset_code ::
  "time \<Rightarrow> uuid \<Rightarrow> uuid \<Rightarrow> string \<Rightarrow> time \<Rightarrow> (reset_db, verification_request) prog" where
  "repo_issue_reset_code now cid vid hash expires =
     begin_tx fail_internal
      (exec (qr_invalidate_verification_code now vid) fail_internal (\<lambda>_.
       exec (qr_create_verification_code now cid vid hash expires) fail_reset (\<lambda>_.
       exec (qr_update_verification_request_resend now vid) fail_internal (\<lambda>v.
       commit fail_internal (ret v)))))"

definition repo_get_active_reset_code :: "time \<Rightarrow> uuid \<Rightarrow> int \<Rightarrow> (reset_db, verification_code) prog" where
  "repo_get_active_reset_code now vid max_attempts =
     pool (qr_get_active_verification_code now vid max_attempts)
       (\<lambda>e. if errors_is e err_no_rows then fail (code_unavailable_err (Some e)) else fail_internal e) ret"

definition repo_increment_reset_code_attempts :: "uuid \<Rightarrow> int \<Rightarrow> (reset_db, int) prog" where
  "repo_increment_reset_code_attempts cid max_attempts =
     pool (qr_increment_verification_code_attempts cid max_attempts)
       (\<lambda>e. if errors_is e err_no_rows then fail (code_unavailable_err (Some e)) else fail_internal e) ret"

definition repo_complete_reset_verification ::
  "time \<Rightarrow> uuid \<Rightarrow> uuid \<Rightarrow> uuid \<Rightarrow> uuid \<Rightarrow> string \<Rightarrow> time \<Rightarrow> (reset_db, reset_continuation) prog" where
  "repo_complete_reset_verification now kid cid vid pid hash expires =
     begin_tx fail_internal
      (exec_one (qr_consume_verification_code now cid) (code_unavailable_err None)
      (exec_one (qr_mark_verification_request_verified vid) request_not_pending
      (exec (qr_create_password_reset_continuation now kid pid hash expires) fail_internal (\<lambda>k.
       commit fail_internal (ret k)))))"

definition repo_get_password_reset_continuation ::
  "string \<Rightarrow> (reset_db, reset_continuation \<times> password_reset \<times> bool) prog" where
  "repo_get_password_reset_continuation hash =
     pool (qr_get_password_reset_continuation hash)
       (\<lambda>e. if errors_is e err_no_rows then fail (reset_continuation_unavailable (Some e)) else fail_internal e) ret"

record reset_params =
  up_user :: uuid
  up_hash :: string
  up_continuation :: uuid
  up_reset :: uuid

definition repo_upsert_credential_and_complete_reset :: "time \<Rightarrow> reset_params \<Rightarrow> (reset_db, unit) prog" where
  "repo_upsert_credential_and_complete_reset now p =
     begin_tx fail_internal
      (exec (qr_upsert_password_credential (up_user p) (up_hash p)) fail_internal (\<lambda>_.
       exec_one (qr_consume_password_reset_continuation now (up_continuation p)) (reset_continuation_unavailable None)
       (exec_one (qr_complete_pending_password_reset now (up_reset p)) reset_no_longer_pending
       (exec (qr_revoke_all_sessions_for_user now (up_user p)) fail_reset (\<lambda>_.
        commit fail_internal (ret ()))))))"

section \<open>Service\<close>

record request_reset_result =
  rr_verification_id :: uuid
  rr_unknown_account :: bool

text \<open>\<open>dummy\<close> is the placeholder id drawn for an address nobody holds.\<close>

definition request_password_reset ::
  "time \<Rightarrow> time \<Rightarrow> time \<times> time \<Rightarrow> (uuid \<times> uuid) \<times> (uuid \<times> uuid) \<Rightarrow> go_error + uuid \<Rightarrow> string
     \<Rightarrow> (reset_db, request_reset_result) prog" where
  "request_password_reset app_now db_now nows ids dummy email0 =
     (let email = normalize_email email0 in
      call (repo_user_exists email) fail (\<lambda>ex.
      if \<not> ex then
        (case dummy of
           Inl e \<Rightarrow> fail_internal e
         | Inr d \<Rightarrow> ret \<lparr>rr_verification_id = d, rr_unknown_account = True\<rparr>)
      else
        call (repo_get_active_password_reset_by_email db_now email) fail (\<lambda>found.
        case found of
          Some (p, v) \<Rightarrow> ret \<lparr>rr_verification_id = vr_id v, rr_unknown_account = False\<rparr>
        | None \<Rightarrow>
            call (repo_create_password_reset nows ids email (app_now + password_reset_expires_in)) fail (\<lambda>vid.
            ret \<lparr>rr_verification_id = vid, rr_unknown_account = False\<rparr>))))"

definition err_password_reset_not_pending :: go_error where
  "err_password_reset_not_pending = conflict_with ''PASSWORD_RESET_NOT_PENDING'' ''password reset is no longer pending'' None"
definition err_password_reset_expired :: go_error where
  "err_password_reset_expired = conflict_with ''PASSWORD_RESET_EXPIRED'' ''password reset has expired'' None"

text \<open>The columns \<open>expires_at\<close> are \<open>NOT NULL\<close>, so the branches for a missing expiry cannot be taken.\<close>

definition validate_reset_pending :: "time \<Rightarrow> verification_request \<Rightarrow> password_reset \<Rightarrow> go_error option" where
  "validate_reset_pending now v p =
     (if vr_status v \<noteq> VerificationRequestPending then
        Some (conflict_with ''VERIFICATION_NOT_PENDING'' ''verification request is no longer pending'' None)
      else if ps_status p \<noteq> PendingPasswordResetPending then Some err_password_reset_not_pending
      else if \<not> now < ps_expires_at p then Some err_password_reset_expired
      else None)"

definition ensure_reset_cooldown_elapsed :: "time \<Rightarrow> verification_request \<Rightarrow> go_error option" where
  "ensure_reset_cooldown_elapsed now v =
     (case vr_last_sent_at v of
        None \<Rightarrow> None
      | Some at \<Rightarrow>
          if now < at + reset_resend_cooldown then
            Some (conflict_with ''VERIFICATION_RESEND_COOLDOWN'' ''verification code was sent too recently'' None)
          else None)"

definition validate_password_reset_continuation ::
  "time \<Rightarrow> reset_continuation \<Rightarrow> password_reset \<Rightarrow> go_error option" where
  "validate_password_reset_continuation now k p =
     (if rk_consumed_at k \<noteq> None then
        Some (conflict_with ''PASSWORD_RESET_CONTINUATION_CONSUMED''
                ''password reset continuation has already been consumed'' None)
      else if \<not> now < rk_expires_at k then
        Some (conflict_with ''PASSWORD_RESET_CONTINUATION_EXPIRED'' ''password reset continuation has expired'' None)
      else if ps_status p \<noteq> PendingPasswordResetPending then Some err_password_reset_not_pending
      else if \<not> now < ps_expires_at p then Some err_password_reset_expired
      else None)"

record reset_verification_view =
  rv_verification_id :: uuid
  rv_status :: verification_status
  rv_expires_at :: time
  rv_last_sent_at :: "time option"
  rv_pin_issued_count :: int

definition get_reset_verification :: "time \<Rightarrow> uuid \<Rightarrow> (reset_db, reset_verification_view) prog" where
  "get_reset_verification app_now vid =
     call (repo_get_reset_verification vid) fail (\<lambda>(v, p).
     case validate_reset_pending app_now v p of
       Some e \<Rightarrow> fail e
     | None \<Rightarrow> ret \<lparr>rv_verification_id = vr_id v, rv_status = vr_status v, rv_expires_at = ps_expires_at p,
                   rv_last_sent_at = vr_last_sent_at v, rv_pin_issued_count = vr_pin_issued_count v\<rparr>)"

text \<open>
  \<open>issueVerificationCode\<close>, over the tables, the budgets in Redis and the mail sender; the environment and
  the two reservations are those of registration, which the feature shares its budget with.
\<close>

definition issue_reset_code ::
  "(string \<Rightarrow> string \<Rightarrow> nat list) \<Rightarrow> string \<Rightarrow> pin_email_budget \<Rightarrow> issue_env \<Rightarrow> uuid \<Rightarrow> reset_db \<times> keyspace
     \<Rightarrow> (go_error + uuid) \<times> reset_db \<times> keyspace" where
  "issue_reset_code mac secret b env vid st =
     (let (rf, rt) = ie_refund env in
      case st of (db, ks) \<Rightarrow>
      (case run (repo_get_reset_verification vid) db (ie_get_fates env) of
         (Inl e, db) \<Rightarrow> (Inl e, db, ks)
       | (Inr (v, p), db) \<Rightarrow>
      (case validate_reset_pending (ie_app_pending env) v p of
         Some e \<Rightarrow> (Inl e, db, ks)
       | None \<Rightarrow>
      (case ensure_reset_cooldown_elapsed (ie_app_cooldown env) v of
         Some e \<Rightarrow> (Inl e, db, ks)
       | None \<Rightarrow>
      (case reserve_pin_email mac secret b env (ps_email p) ks of
         (Inl e, ks) \<Rightarrow> (Inl e, db, ks)
       | (Inr _, ks) \<Rightarrow>
      (case reserve_global_pin_email mac secret b env ks of
         (Inl e, ks) \<Rightarrow> (Inl e, db, ks)
       | (Inr global, ks) \<Rightarrow>
      (case ie_code env of
         Inl e \<Rightarrow> (Inl (internal (Some e)), db, snd (refund_global mac secret rf rt (sl_admission global) ks))
       | Inr code \<Rightarrow>
      (case run (repo_issue_reset_code (ie_db_now env) (ie_code_id env) vid (ie_hash_code env code)
                   (ie_app_code env + reset_code_expires_in)) db (ie_issue_fates env) of
         (Inl e, db) \<Rightarrow> (Inl e, db, snd (refund_global mac secret rf rt (sl_admission global) ks))
       | (Inr _, db) \<Rightarrow>
      (case deliver mac secret rf rt global (ie_sent env) ks of
         (Some e, ks) \<Rightarrow>
           (Inl (service_unavailable_with_retry_after ''PIN_EMAIL_DELIVERY_FAILED''
                   ''the verification code could not be sent, please try again shortly''
                   reset_resend_cooldown (Some e)), db, ks)
       | (None, ks) \<Rightarrow> (Inr vid, db, ks))))))))))"

definition create_reset_pin ::
  "(string \<Rightarrow> string \<Rightarrow> nat list) \<Rightarrow> string \<Rightarrow> pin_email_budget \<Rightarrow> issue_env \<Rightarrow> uuid \<Rightarrow> reset_db \<times> keyspace
     \<Rightarrow> (go_error + uuid) \<times> reset_db \<times> keyspace" where
  "create_reset_pin mac secret b env vid st =
     (case issue_reset_code mac secret b env vid st of
        (Inl e, st') \<Rightarrow> (Inl e, st')
      | (Inr issued, st') \<Rightarrow> (Inr issued, st'))"

definition resend_reset_verification ::
  "(string \<Rightarrow> string \<Rightarrow> nat list) \<Rightarrow> string \<Rightarrow> pin_email_budget \<Rightarrow> issue_env \<Rightarrow> uuid \<Rightarrow> reset_db \<times> keyspace
     \<Rightarrow> (go_error + uuid) \<times> reset_db \<times> keyspace" where
  "resend_reset_verification mac secret b env vid st =
     (case issue_reset_code mac secret b env vid st of
        (Inl e, st') \<Rightarrow> (Inl e, st')
      | (Inr issued, st') \<Rightarrow> (Inr issued, st'))"

text \<open>Of \<open>verify_env\<close> the id for a new registration is not used here.\<close>

definition verify_password_reset :: "verify_env \<Rightarrow> uuid \<Rightarrow> string \<Rightarrow> (reset_db, string) prog" where
  "verify_password_reset env vid pin =
     call (repo_get_reset_verification vid) fail (\<lambda>(v, p).
     case validate_reset_pending (ve_app_now env) v p of
       Some e \<Rightarrow> fail e
     | None \<Rightarrow>
         call (repo_get_active_reset_code (ve_db_read env) vid reset_code_max_attempts) fail (\<lambda>c.
         if \<not> ve_verify env pin (vc_hash c) then
           call (repo_increment_reset_code_attempts (vc_id c) reset_code_max_attempts) fail (\<lambda>attempts.
           if attempts \<ge> reset_code_max_attempts then
             fail (conflict_with ''VERIFICATION_CODE_ATTEMPTS_EXCEEDED''
                     ''verification code attempt limit exceeded'' None)
           else fail (conflict_with ''INVALID_VERIFICATION_CODE'' ''verification code is invalid'' None))
         else
           (case ve_token env of
              Inl e \<Rightarrow> fail_internal e
            | Inr token \<Rightarrow>
                call (repo_complete_reset_verification (ve_db_write env) (ve_continuation_id env) (vc_id c) vid
                        (vr_subject v) (ve_hash_token env token)
                        (ve_app_now env + password_reset_continuation_expires_in)) fail (\<lambda>_. ret token))))"

record reset_continuation_view =
  rcv_email :: string
  rcv_has_password :: bool
  rcv_expires_at :: time

definition get_password_reset_continuation ::
  "(string \<Rightarrow> string) \<Rightarrow> time \<Rightarrow> string \<Rightarrow> (reset_db, reset_continuation_view) prog" where
  "get_password_reset_continuation hash_token app_now token =
     call (repo_get_password_reset_continuation (hash_token token)) fail (\<lambda>(k, p, has).
     case validate_password_reset_continuation app_now k p of
       Some e \<Rightarrow> fail e
     | None \<Rightarrow> ret \<lparr>rcv_email = ps_email p, rcv_has_password = has, rcv_expires_at = rk_expires_at k\<rparr>)"

definition finalize_password_reset ::
  "time \<Rightarrow> time \<Rightarrow> (string \<Rightarrow> string) \<Rightarrow> duration \<Rightarrow> (string \<Rightarrow> go_error + string) \<Rightarrow> string \<Rightarrow> string
     \<Rightarrow> (reset_db, unit) prog" where
  "finalize_password_reset app_now db_now hash_token wait hash_password token password =
     call (repo_get_password_reset_continuation (hash_token token)) fail (\<lambda>(k, p, has).
     case validate_password_reset_continuation app_now k p of
       Some e \<Rightarrow> fail e
     | None \<Rightarrow>
         call (repo_get_user_by_email (ps_email p)) fail (\<lambda>u.
         case hash_password password of
           Inl e \<Rightarrow> if errors_is e password_work_timeout
                    then fail (service_unavailable_with_retry_after ''PASSWORD_WORK_UNAVAILABLE''
                                 ''the server is busy, please try again shortly'' wait (Some e))
                    else fail_internal e
         | Inr hash \<Rightarrow>
             repo_upsert_credential_and_complete_reset db_now
               \<lparr>up_user = u_id u, up_hash = hash, up_continuation = rk_id k, up_reset = rk_reset k\<rparr>))"

end
