(* ===== verification/PasswordResetRuns.thy ===== *)
theory PasswordResetRuns
  imports PasswordReset
begin

text \<open>
  What the transactions of the password reset commit, for every schedule of faults, and the invariant of
  its tables over any sequence of calls. Each method is summed up by the change it may commit
  (interpretations of \<open>repo_method\<close>); the invariant is then a matter of these changes alone.
\<close>

section \<open>The changes\<close>

definition new_reset :: "time \<Rightarrow> uuid \<Rightarrow> string \<Rightarrow> time \<Rightarrow> password_reset" where
  "new_reset now pid email ex = \<lparr>ps_id = pid, ps_email = email, ps_status = PendingPasswordResetPending,
     ps_created_at = now, ps_expires_at = ex\<rparr>"

definition new_reset_request :: "time \<Rightarrow> uuid \<Rightarrow> uuid \<Rightarrow> verification_request" where
  "new_reset_request now vid pid = \<lparr>vr_id = vid, vr_subject_type = VerificationSubjectPendingPasswordReset,
     vr_subject = pid, vr_purpose = VerificationPurposePasswordReset, vr_status = VerificationRequestPending,
     vr_pin_issued_count = 0, vr_last_sent_at = None, vr_created_at = now\<rparr>"

definition expire_resets :: "time \<Rightarrow> uuid \<Rightarrow> reset_db \<Rightarrow> reset_db" where
  "expire_resets now pid db = db\<lparr>rs_resets :=
     update_where (expirable now pid) (\<lambda>p. p\<lparr>ps_status := PendingPasswordResetExpired\<rparr>) (rs_resets db)\<rparr>"

definition reset_added :: "time \<Rightarrow> uuid \<times> uuid \<Rightarrow> string \<Rightarrow> time \<Rightarrow> reset_db \<Rightarrow> reset_db" where
  "reset_added now ids email ex db = db\<lparr>
     rs_resets := rs_resets db @ [new_reset now (fst ids) email ex],
     rs_requests := rs_requests db @ [new_reset_request now (snd ids) (fst ids)]\<rparr>"

definition room_for_reset :: "uuid \<times> uuid \<Rightarrow> string \<Rightarrow> reset_db \<Rightarrow> bool" where
  "room_for_reset ids email db \<longleftrightarrow> fst ids \<notin> ps_id ` set (rs_resets db) \<and>
     email \<notin> ps_email ` set (filter ps_open (rs_resets db)) \<and> snd ids \<notin> vr_id ` set (rs_requests db)"

definition reset_opened :: "time \<Rightarrow> uuid \<times> uuid \<Rightarrow> string \<Rightarrow> time \<Rightarrow> reset_db \<Rightarrow> reset_db \<Rightarrow> bool" where
  "reset_opened now ids email ex d d' \<longleftrightarrow>
     (\<exists>d1. (d1 = d \<or> (\<exists>pid. d1 = expire_resets now pid d)) \<and> room_for_reset ids email d1 \<and>
        d' = reset_added now ids email ex d1)"

definition reset_code_issued :: "time \<Rightarrow> uuid \<Rightarrow> uuid \<Rightarrow> string \<Rightarrow> time \<Rightarrow> reset_db \<Rightarrow> reset_db" where
  "reset_code_issued now cid vid hash ex db = db\<lparr>
     rs_codes := update_where (\<lambda>c. vc_request c = vid \<and> code_active c) (\<lambda>c. c\<lparr>vc_invalidated_at := Some now\<rparr>) (rs_codes db)
                @ [new_code now cid vid hash ex],
     rs_requests := update_where (\<lambda>v. vr_id v = vid)
       (\<lambda>v. v\<lparr>vr_pin_issued_count := vr_pin_issued_count v + 1, vr_last_sent_at := Some now\<rparr>) (rs_requests db)\<rparr>"

definition new_reset_continuation :: "time \<Rightarrow> uuid \<Rightarrow> uuid \<Rightarrow> string \<Rightarrow> time \<Rightarrow> reset_continuation" where
  "new_reset_continuation now kid pid hash ex = \<lparr>rk_id = kid, rk_reset = pid, rk_hash = hash, rk_expires_at = ex,
     rk_consumed_at = None, rk_created_at = now\<rparr>"

definition reset_verified ::
  "time \<Rightarrow> uuid \<Rightarrow> uuid \<Rightarrow> uuid \<Rightarrow> uuid \<Rightarrow> string \<Rightarrow> time \<Rightarrow> reset_db \<Rightarrow> reset_db \<Rightarrow> bool" where
  "reset_verified now kid cid vid pid hash ex d d' \<longleftrightarrow>
     rows_where (consumable now cid) (rs_codes d) = 1 \<and> rows_where (verifiable vid) (rs_requests d) = 1 \<and>
     kid \<notin> rk_id ` set (rs_continuations d) \<and> hash \<notin> rk_hash ` set (rs_continuations d) \<and>
     pid \<in> ps_id ` set (rs_resets d) \<and>
     d' = d\<lparr>rs_codes := update_where (consumable now cid) (\<lambda>c. c\<lparr>vc_consumed_at := Some now\<rparr>) (rs_codes d),
            rs_requests := update_where (verifiable vid) (\<lambda>v. v\<lparr>vr_status := VerificationRequestVerified\<rparr>) (rs_requests d),
            rs_continuations := rs_continuations d @ [new_reset_continuation now kid pid hash ex]\<rparr>"

definition upsert_credential :: "uuid \<Rightarrow> string \<Rightarrow> password_credential list \<Rightarrow> password_credential list" where
  "upsert_credential uid hash cs =
     (if has_key pc_user uid cs then update_where (\<lambda>c. pc_user c = uid) (\<lambda>c. c\<lparr>pc_hash := hash\<rparr>) cs
      else cs @ [\<lparr>pc_user = uid, pc_hash = hash\<rparr>])"

definition password_changed :: "time \<Rightarrow> reset_params \<Rightarrow> reset_db \<Rightarrow> reset_db \<Rightarrow> bool" where
  "password_changed now p d d' \<longleftrightarrow>
     rows_where (rk_usable now (up_continuation p)) (rs_continuations d) = 1 \<and>
     rows_where (ps_completable now (up_reset p)) (rs_resets d) = 1 \<and>
     (has_key pc_user (up_user p) (rs_credentials d) \<or> has_key u_id (up_user p) (rs_users d)) \<and>
     d' = d\<lparr>rs_credentials := upsert_credential (up_user p) (up_hash p) (rs_credentials d),
            rs_continuations := update_where (rk_usable now (up_continuation p))
              (\<lambda>k. k\<lparr>rk_consumed_at := Some now\<rparr>) (rs_continuations d),
            rs_resets := update_where (ps_completable now (up_reset p))
              (\<lambda>p. p\<lparr>ps_status := PendingPasswordResetCompleted\<rparr>) (rs_resets d),
            rs_sessions := revoke_all now (up_user p) (rs_sessions d)\<rparr>"

section \<open>The methods commit nothing else\<close>

lemma wp_fail_reset [wp_intros]: "Q (Inl (map_password_reset_db_error e)) d \<Longrightarrow> wp Q (fail_reset e) d w"
  by (simp add: fail_reset_def wp_fail)

lemma inserts_reset:
  assumes "qr_create_pending_password_reset now (fst ids) email ex w = Inr (p, w1)"
    and "qr_create_verification_request now (snd ids) (ps_id p) w1 = Inr (v, w2)"
  shows "room_for_reset ids email w" and "w2 = reset_added now ids email ex w" and "vr_id v = snd ids"
  using assms by (auto simp: qr_create_pending_password_reset_def qr_create_verification_request_def room_for_reset_def
      reset_added_def new_reset_def new_reset_request_def has_key_iff Let_def split: if_splits)

lemma wp_insert_reset:
  assumes "w = d \<or> (\<exists>pid. w = expire_resets now pid d)"
  shows "wp (\<lambda>r d'. (d' = d \<and> isl r) \<or> reset_opened now ids email ex d d') (insert_reset now ids email ex) d w"
  unfolding insert_reset_def
proof (intro wp_intros; (rule disjI1, simp; fail)?)
  fix p w1 v w2
  assume q: "qr_create_pending_password_reset now (fst ids) email ex w = Inr (p, w1)"
    "qr_create_verification_request now (snd ids) (ps_id p) w1 = Inr (v, w2)"
  have "reset_opened now ids email ex d w2"
    unfolding reset_opened_def using assms inserts_reset[OF q] by blast
  then show "(w2 = d \<and> isl (Inl (internal (Some DbFault)))) \<or> reset_opened now ids email ex d w2"
    "(w2 = d \<and> isl (Inr (vr_id v))) \<or> reset_opened now ids email ex d w2" by simp_all
qed

lemma wp_create_reset_once:
  "wp (\<lambda>r d'. d' = d \<or> reset_opened now ids email ex d d') (create_password_reset_once now ids email ex) d w"
proof -
  have weaken: "wp (\<lambda>r d'. d' = d \<or> reset_opened now ids email ex d d') q d x"
    if "wp (\<lambda>r d'. (d' = d \<and> isl r) \<or> reset_opened now ids email ex d d') q d x" for q x
    by (rule wp_mono[OF that]) blast
  show ?thesis
    unfolding create_password_reset_once_def
    by (intro wp_intros wp_exec_one weaken[OF wp_insert_reset]; simp?)
      (auto simp: qr_get_pending_password_reset_by_email_for_update_def qr_expire_pending_password_reset_def expire_resets_def
        split: sum.splits)
qed

lemma wp_reset_verified:
  "wp (\<lambda>r d'. (d' = d \<and> isl r) \<or> reset_verified now kid cid vid pid hash ex d d')
     (repo_complete_reset_verification now kid cid vid pid hash ex) d w"
proof -
  have *: "reset_verified now kid cid vid pid hash ex d w3"
    if "qr_consume_verification_code now cid d = Inr (1, w1)"
      "qr_mark_verification_request_verified vid w1 = Inr (1, w2)"
      "qr_create_password_reset_continuation now kid pid hash ex w2 = Inr (k, w3)" for w1 w2 w3 k
    using that by (auto simp: qr_consume_verification_code_def qr_mark_verification_request_verified_def
        qr_create_password_reset_continuation_def reset_verified_def new_reset_continuation_def has_key_iff Let_def
        split: if_splits)
  show ?thesis
    unfolding repo_complete_reset_verification_def
    by (intro wp_intros wp_exec_one; (rule disjI1, simp; fail)?; rule disjI2; erule *)
qed

lemma wp_password_changed:
  "wp (\<lambda>r d'. (d' = d \<and> isl r) \<or> password_changed now p d d') (repo_upsert_credential_and_complete_reset now p) d w"
proof -
  have *: "password_changed now p d w4"
    if "qr_upsert_password_credential (up_user p) (up_hash p) d = Inr (x, w1)"
      "qr_consume_password_reset_continuation now (up_continuation p) w1 = Inr (1, w2)"
      "qr_complete_pending_password_reset now (up_reset p) w2 = Inr (1, w3)"
      "qr_revoke_all_sessions_for_user now (up_user p) w3 = Inr (y, w4)" for w1 w2 w3 w4 x y
    using that by (auto simp: qr_upsert_password_credential_def qr_consume_password_reset_continuation_def
        qr_complete_pending_password_reset_def qr_revoke_all_sessions_for_user_def password_changed_def
        upsert_credential_def split: if_splits)
  show ?thesis
    unfolding repo_upsert_credential_and_complete_reset_def
    by (intro wp_intros wp_exec_one; (rule disjI1, simp; fail)?; rule disjI2; erule *)
qed

interpretation reset_verification_tx: repo_method "repo_complete_reset_verification now kid cid vid pid hash ex"
    "reset_verified now kid cid vid pid hash ex" for now kid cid vid pid hash ex
  by unfold_locales (rule wp_run[OF wp_reset_verified])

interpretation reset_tx: repo_method "repo_upsert_credential_and_complete_reset now p" "password_changed now p" for now p
  by unfold_locales (rule wp_run[OF wp_password_changed])

section \<open>The invariant\<close>

definition reset_rows_ok :: "reset_db \<Rightarrow> bool" where
  "reset_rows_ok db \<longleftrightarrow> distinct (map ps_id (rs_resets db)) \<and> distinct (map ps_email (filter ps_open (rs_resets db))) \<and>
     distinct (map vr_subject (rs_requests db)) \<and> vr_subject ` set (rs_requests db) = ps_id ` set (rs_resets db) \<and>
     (\<forall>v\<in>set (rs_requests db). vr_subject_type v = VerificationSubjectPendingPasswordReset \<and>
        vr_purpose v = VerificationPurposePasswordReset)"

definition reset_continuations_ok :: "reset_db \<Rightarrow> bool" where
  "reset_continuations_ok db \<longleftrightarrow> distinct (map rk_id (rs_continuations db)) \<and>
     distinct (map rk_hash (rs_continuations db)) \<and> distinct (map rk_reset (rs_continuations db))"

text \<open>Behind a continuation stands a request of its reset that was verified with a code.\<close>

definition reset_proved :: "reset_db \<Rightarrow> uuid \<Rightarrow> bool" where
  "reset_proved db pid \<longleftrightarrow> (\<exists>v\<in>set (rs_requests db). vr_subject v = pid \<and> vr_status v = VerificationRequestVerified \<and>
     (\<exists>c\<in>set (rs_codes db). vc_request c = vr_id v \<and> vc_consumed_at c \<noteq> None))"

definition reset_proofs_ok :: "reset_db \<Rightarrow> bool" where
  "reset_proofs_ok db \<longleftrightarrow> (\<forall>k\<in>set (rs_continuations db). reset_proved db (rk_reset k))"

text \<open>A reset is completed exactly when its continuation is consumed.\<close>

definition reset_completions_ok :: "reset_db \<Rightarrow> bool" where
  "reset_completions_ok db \<longleftrightarrow>
     (\<forall>k\<in>set (rs_continuations db). rk_consumed_at k \<noteq> None \<longrightarrow>
        (\<exists>p\<in>set (rs_resets db). ps_id p = rk_reset k \<and> ps_status p = PendingPasswordResetCompleted)) \<and>
     (\<forall>p\<in>set (rs_resets db). ps_status p = PendingPasswordResetCompleted \<longrightarrow>
        (\<exists>k\<in>set (rs_continuations db). rk_reset k = ps_id p \<and> rk_consumed_at k \<noteq> None))"

definition reset_accounts_ok :: "reset_db \<Rightarrow> bool" where
  "reset_accounts_ok db \<longleftrightarrow> distinct (map u_id (rs_users db)) \<and> distinct (map u_email (rs_users db)) \<and>
     distinct (map pc_user (rs_credentials db)) \<and> pc_user ` set (rs_credentials db) \<subseteq> u_id ` set (rs_users db)"

definition reset_inv :: "reset_db \<Rightarrow> bool" where
  "reset_inv db \<longleftrightarrow> reset_rows_ok db \<and> codes_ok (rs_requests db) (rs_codes db) \<and> reset_continuations_ok db \<and>
     reset_proofs_ok db \<and> reset_completions_ok db \<and> reset_accounts_ok db \<and> session_inv (rs_sessions db)"

named_theorems reset_parts
lemmas [reset_parts] = reset_rows_ok_def reset_continuations_ok_def reset_proofs_ok_def reset_proved_def
  reset_completions_ok_def reset_accounts_ok_def

lemma revoke_all_keeps: "session_inv sdb \<Longrightarrow> session_inv (revoke_all now uid sdb)"
  unfolding session_inv_def session_keys_ok_def revoke_all_def live_tokens_def
  by (auto simp: table_simps replaced_in_session_def)

lemma reset_proved_mono:
  assumes "reset_proved d pid"
    and "\<And>v. v \<in> set (rs_requests d) \<Longrightarrow> vr_status v = VerificationRequestVerified \<Longrightarrow>
      \<exists>v'\<in>set (rs_requests d'). vr_id v' = vr_id v \<and> vr_subject v' = vr_subject v \<and> vr_status v' = VerificationRequestVerified"
    and "\<And>c. c \<in> set (rs_codes d) \<Longrightarrow> vc_consumed_at c \<noteq> None \<Longrightarrow>
      \<exists>c'\<in>set (rs_codes d'). vc_request c' = vc_request c \<and> vc_consumed_at c' \<noteq> None"
  shows "reset_proved d' pid"
proof -
  obtain v c where v: "v \<in> set (rs_requests d)" "vr_subject v = pid" "vr_status v = VerificationRequestVerified"
    and c: "c \<in> set (rs_codes d)" "vc_request c = vr_id v" "vc_consumed_at c \<noteq> None"
    using assms(1) unfolding reset_proved_def by blast
  from assms(2)[OF v(1,3)] assms(3)[OF c(1,3)] v c show ?thesis unfolding reset_proved_def by metis
qed

section \<open>The changes keep it\<close>

lemma reset_rows_ok_updated:
  assumes "reset_rows_ok d" and "rs_resets d' = rs_resets d" and "rs_requests d' = update_where p f (rs_requests d)"
    and "\<And>v. vr_subject (f v) = vr_subject v \<and> vr_subject_type (f v) = vr_subject_type v \<and> vr_purpose (f v) = vr_purpose v"
  shows "reset_rows_ok d'"
proof -
  have "map vr_subject (rs_requests d') = map vr_subject (rs_requests d)"
    unfolding assms(3) by (rule map_update_where) (use assms(4) in simp)
  moreover from this have "vr_subject ` set (rs_requests d') = vr_subject ` set (rs_requests d)" by (metis list.set_map)
  moreover have "\<forall>v\<in>set (rs_requests d'). vr_subject_type v = VerificationSubjectPendingPasswordReset \<and>
      vr_purpose v = VerificationPurposePasswordReset"
    using assms(1,4) unfolding assms(3) set_update_where by (auto simp: reset_rows_ok_def)
  ultimately show ?thesis using assms(1,2) unfolding reset_rows_ok_def by simp
qed

lemma expire_resets_keeps:
  assumes "reset_inv d"
  shows "reset_inv (expire_resets now pid d)"
proof -
  let ?d = "expire_resets now pid d"
  have p: "expirable now pid p \<Longrightarrow> ps_open p" for p by (simp add: expirable_def)
  have R: "reset_rows_ok ?d"
    using assms distinct_filter_update_where[of ps_email ps_open "rs_resets d" "expirable now pid"
        "\<lambda>p. p\<lparr>ps_status := PendingPasswordResetExpired\<rparr>"] p
    by (simp add: reset_inv_def reset_rows_ok_def expire_resets_def table_simps)
  have same: "p \<in> set (rs_resets ?d) \<longleftrightarrow> p \<in> set (rs_resets d)" if "ps_status p = PendingPasswordResetCompleted" for p
    using that p by (force simp: expire_resets_def set_update_where ps_open_def image_iff)
  have C: "reset_completions_ok ?d"
    using assms same unfolding reset_inv_def reset_completions_ok_def
    by (simp add: expire_resets_def) metis
  show ?thesis using assms R C
    by (simp add: reset_inv_def reset_proofs_ok_def reset_proved_def reset_continuations_ok_def reset_accounts_ok_def
        expire_resets_def)
qed

lemma reset_added_keeps:
  assumes I: "reset_inv d" and "room_for_reset ids email d"
  shows "reset_inv (reset_added now ids email ex d)"
proof -
  let ?d = "reset_added now ids email ex d"
  have n: "fst ids \<notin> ps_id ` set (rs_resets d)" "email \<notin> ps_email ` set (filter ps_open (rs_resets d))"
    "snd ids \<notin> vr_id ` set (rs_requests d)" using assms(2) by (simp_all add: room_for_reset_def)
  have R: "reset_rows_ok d" using I by (simp add: reset_inv_def)
  have "reset_rows_ok ?d"
    using R n by (auto simp: reset_rows_ok_def reset_added_def new_reset_def new_reset_request_def ps_open_def)
  moreover have "codes_ok (rs_requests ?d) (rs_codes ?d)"
    using I tables_snoc(2)[of "rs_requests d" "rs_codes d" "new_reset_request now (snd ids) (fst ids)"] n(3)
    by (simp add: reset_inv_def reset_added_def new_reset_request_def)
  moreover have "reset_proofs_ok ?d"
    using I by (auto simp: reset_inv_def reset_proofs_ok_def reset_proved_def reset_added_def)
  moreover have "reset_completions_ok ?d"
    using I by (auto simp: reset_inv_def reset_completions_ok_def reset_added_def new_reset_def)
  ultimately show ?thesis using I
    by (simp add: reset_inv_def reset_added_def reset_continuations_ok_def reset_accounts_ok_def)
qed

lemma reset_opened_keeps: "reset_inv d \<Longrightarrow> reset_opened now ids email ex d d' \<Longrightarrow> reset_inv d'"
  unfolding reset_opened_def by (auto intro: reset_added_keeps expire_resets_keeps)

lemma reset_code_issued_keeps:
  assumes I: "reset_inv d" and "cid \<notin> vc_id ` set (rs_codes d)" and "vid \<in> vr_id ` set (rs_requests d)"
  shows "reset_inv (reset_code_issued now cid vid hash ex d)"
proof -
  let ?d = "reset_code_issued now cid vid hash ex d"
  let ?cs = "update_where (\<lambda>c. vc_request c = vid \<and> code_active c) (\<lambda>c. c\<lparr>vc_invalidated_at := Some now\<rparr>) (rs_codes d)"
  have C: "codes_ok (rs_requests d) (rs_codes d)" using I by (simp add: reset_inv_def)
  have "codes_ok (rs_requests d) ?cs"
    by (rule codes_ok_update_codes[OF C]) (simp_all add: code_active_def codes_okD[OF C])
  moreover have "vid \<notin> vc_request ` set (filter code_active ?cs)"
  proof
    assume "vid \<in> vc_request ` set (filter code_active ?cs)"
    then obtain c where c: "c \<in> set ?cs" "code_active c" "vc_request c = vid" by auto
    from c(1) obtain b where b: "c = (if vc_request b = vid \<and> code_active b then b\<lparr>vc_invalidated_at := Some now\<rparr> else b)"
      unfolding set_update_where by blast
    have "\<not> code_active (b\<lparr>vc_invalidated_at := Some now\<rparr>)" by (simp add: code_active_def)
    with b c(2,3) show False by (cases "vc_request b = vid \<and> code_active b") auto
  qed
  ultimately have "codes_ok (rs_requests d) (?cs @ [new_code now cid vid hash ex])"
  proof (intro tables_snoc(3))
    show "vc_id (new_code now cid vid hash ex) \<notin> vc_id ` set ?cs"
      using assms(2) by (simp add: new_code_def table_simps)
  qed (use assms(3) in \<open>simp_all add: new_code_def\<close>)
  then have "codes_ok (rs_requests ?d) (rs_codes ?d)"
    unfolding reset_code_issued_def by (simp add: codes_ok_update_requests)
  moreover have "reset_rows_ok ?d"
    using I by (intro reset_rows_ok_updated[of d ?d "\<lambda>v. vr_id v = vid"
          "\<lambda>v. v\<lparr>vr_pin_issued_count := vr_pin_issued_count v + 1, vr_last_sent_at := Some now\<rparr>"])
      (simp_all add: reset_inv_def reset_code_issued_def)
  moreover have "reset_proofs_ok ?d"
  proof -
    have "reset_proved d pid \<Longrightarrow> reset_proved ?d pid" for pid
    proof (erule reset_proved_mono)
      fix v assume "v \<in> set (rs_requests d)" "vr_status v = VerificationRequestVerified"
      then show "\<exists>v'\<in>set (rs_requests ?d). vr_id v' = vr_id v \<and> vr_subject v' = vr_subject v \<and>
          vr_status v' = VerificationRequestVerified"
        by (simp add: reset_code_issued_def bex_update_where)
    next
      fix c assume "c \<in> set (rs_codes d)" "vc_consumed_at c \<noteq> None"
      then show "\<exists>c'\<in>set (rs_codes ?d). vc_request c' = vc_request c \<and> vc_consumed_at c' \<noteq> None"
        by (auto simp: reset_code_issued_def code_active_def intro!: disjI2 bex_update_where)
    qed
    then show ?thesis using I by (auto simp: reset_inv_def reset_proofs_ok_def reset_code_issued_def)
  qed
  ultimately show ?thesis using I
    by (simp add: reset_inv_def reset_code_issued_def reset_continuations_ok_def reset_accounts_ok_def
        reset_completions_ok_def)
qed

text \<open>The request a verification is about and the reset it opened belong together.\<close>

lemma reset_verified_keeps:
  assumes I: "reset_inv d" and v: "reset_verified now kid cid vid pid hash ex d d'"
    and code: "\<And>c. c \<in> set (rs_codes d) \<Longrightarrow> vc_id c = cid \<Longrightarrow> vc_request c = vid"
    and subj: "\<And>v. v \<in> set (rs_requests d) \<Longrightarrow> vr_id v = vid \<Longrightarrow> vr_subject v = pid"
  shows "reset_inv d'"
proof -
  note V = v[unfolded reset_verified_def]
  have d': "d' = d\<lparr>rs_codes := update_where (consumable now cid) (\<lambda>c. c\<lparr>vc_consumed_at := Some now\<rparr>) (rs_codes d),
            rs_requests := update_where (verifiable vid) (\<lambda>v. v\<lparr>vr_status := VerificationRequestVerified\<rparr>) (rs_requests d),
            rs_continuations := rs_continuations d @ [new_reset_continuation now kid pid hash ex]\<rparr>"
    using V by simp
  have parts: "reset_rows_ok d" "codes_ok (rs_requests d) (rs_codes d)" "reset_continuations_ok d" "reset_proofs_ok d"
    "reset_completions_ok d" using I by (simp_all add: reset_inv_def)
  obtain w where w: "w \<in> set (rs_requests d)" "verifiable vid w"
    using V rows_where_1D[of "verifiable vid" "rs_requests d"] by metis
  obtain c where c: "c \<in> set (rs_codes d)" "consumable now cid c"
    using V rows_where_1D[of "consumable now cid" "rs_codes d"] by metis
  have fresh: "pid \<notin> rk_reset ` set (rs_continuations d)"
  proof
    assume "pid \<in> rk_reset ` set (rs_continuations d)"
    then obtain v' where v': "v' \<in> set (rs_requests d)" "vr_subject v' = pid" "vr_status v' = VerificationRequestVerified"
      using parts(4) unfolding reset_proofs_ok_def reset_proved_def by blast
    have "vr_subject w = vr_subject v'" using subj[OF w(1)] w(2) v'(2) by (simp add: verifiable_def)
    moreover have "distinct (map vr_subject (rs_requests d))" using parts(1) by (simp add: reset_rows_ok_def)
    ultimately have "w = v'" using w(1) v'(1) distinct_map_filter_inj[of vr_subject "rs_requests d" w v'] by simp
    with w(2) v'(3) show False by (simp add: verifiable_def)
  qed
  have "reset_rows_ok d'"
    by (rule reset_rows_ok_updated[OF parts(1), where p = "verifiable vid" and
          f = "\<lambda>v. v\<lparr>vr_status := VerificationRequestVerified\<rparr>"]) (simp_all add: d')
  moreover have "codes_ok (rs_requests d') (rs_codes d')"
  proof -
    have "codes_ok (rs_requests d) (rs_codes d')"
      unfolding d' using codes_okD[OF parts(2)] by (auto intro!: codes_ok_update_codes[OF parts(2)] simp: consumable_def code_active_def)
    then show ?thesis unfolding d' by (simp add: codes_ok_update_requests)
  qed
  moreover have "reset_continuations_ok d'"
    using parts(3) V fresh by (auto simp: d' reset_continuations_ok_def new_reset_continuation_def)
  moreover have "reset_proofs_ok d'"
  proof -
    have old: "reset_proved d q \<Longrightarrow> reset_proved d' q" for q
    proof (erule reset_proved_mono)
      fix v assume "v \<in> set (rs_requests d)" "vr_status v = VerificationRequestVerified"
      then show "\<exists>v'\<in>set (rs_requests d'). vr_id v' = vr_id v \<and> vr_subject v' = vr_subject v \<and>
          vr_status v' = VerificationRequestVerified" by (simp add: d' bex_update_where)
    next
      fix c assume "c \<in> set (rs_codes d)" "vc_consumed_at c \<noteq> None"
      then show "\<exists>c'\<in>set (rs_codes d'). vc_request c' = vc_request c \<and> vc_consumed_at c' \<noteq> None"
        by (simp add: d' bex_update_where)
    qed
    have "w\<lparr>vr_status := VerificationRequestVerified\<rparr> \<in> set (rs_requests d')"
      "c\<lparr>vc_consumed_at := Some now\<rparr> \<in> set (rs_codes d')"
      unfolding d' using w c by (auto intro: in_update_where)
    moreover have "vc_request c = vr_id w" "vr_subject w = pid"
      using code[OF c(1)] subj[OF w(1)] c(2) w(2) by (simp_all add: consumable_def verifiable_def)
    ultimately have "reset_proved d' pid"
      unfolding reset_proved_def
      by (intro bexI[of _ "w\<lparr>vr_status := VerificationRequestVerified\<rparr>"] conjI bexI[of _ "c\<lparr>vc_consumed_at := Some now\<rparr>"])
        simp_all
    with old parts(4) show ?thesis
      by (auto simp: reset_proofs_ok_def d' new_reset_continuation_def)
  qed
  moreover have "reset_completions_ok d'"
    using parts(5) by (auto simp: d' reset_completions_ok_def new_reset_continuation_def)
  ultimately show ?thesis using I by (simp add: reset_inv_def reset_accounts_ok_def d')
qed

lemma distinct_upsert:
  "distinct (map pc_user cs) \<Longrightarrow> distinct (map pc_user (upsert_credential uid hash cs))"
  "pc_user ` set (upsert_credential uid hash cs) = insert uid (pc_user ` set cs)"
  by (auto simp: upsert_credential_def has_key_iff table_simps)

lemma password_changed_keeps:
  assumes I: "reset_inv d" and v: "password_changed now p d d'"
    and pair: "\<And>k. k \<in> set (rs_continuations d) \<Longrightarrow> rk_id k = up_continuation p \<Longrightarrow> rk_reset k = up_reset p"
  shows "reset_inv d'"
proof -
  note V = v[unfolded password_changed_def]
  have d': "d' = d\<lparr>rs_credentials := upsert_credential (up_user p) (up_hash p) (rs_credentials d),
            rs_continuations := update_where (rk_usable now (up_continuation p))
              (\<lambda>k. k\<lparr>rk_consumed_at := Some now\<rparr>) (rs_continuations d),
            rs_resets := update_where (ps_completable now (up_reset p))
              (\<lambda>p. p\<lparr>ps_status := PendingPasswordResetCompleted\<rparr>) (rs_resets d),
            rs_sessions := revoke_all now (up_user p) (rs_sessions d)\<rparr>" using V by simp
  have parts: "reset_rows_ok d" "reset_continuations_ok d" "reset_proofs_ok d" "reset_completions_ok d" "reset_accounts_ok d"
    using I by (simp_all add: reset_inv_def)
  obtain k where k: "k \<in> set (rs_continuations d)" "rk_usable now (up_continuation p) k"
    using V rows_where_1D[of "rk_usable now (up_continuation p)" "rs_continuations d"] by metis
  obtain r where r: "r \<in> set (rs_resets d)" "ps_completable now (up_reset p) r"
    using V rows_where_1D[of "ps_completable now (up_reset p)" "rs_resets d"] by metis
  have kr: "rk_reset k = ps_id r" using pair[OF k(1)] k(2) r(2) by (simp add: rk_usable_def ps_completable_def)
  have "reset_rows_ok d'"
    using parts(1) distinct_filter_update_where[of ps_email ps_open "rs_resets d" "ps_completable now (up_reset p)"
        "\<lambda>p. p\<lparr>ps_status := PendingPasswordResetCompleted\<rparr>"]
    by (simp add: d' reset_rows_ok_def table_simps ps_completable_def)
  moreover have "reset_continuations_ok d'"
    using parts(2) by (simp add: d' reset_continuations_ok_def table_simps)
  moreover have "reset_proofs_ok d'"
  proof -
    have "rk_reset ` set (rs_continuations d') = rk_reset ` set (rs_continuations d)" by (simp add: d' table_simps)
    moreover have "reset_proved d' q = reset_proved d q" for q by (simp add: d' reset_proved_def)
    ultimately show ?thesis using parts(3) unfolding reset_proofs_ok_def by (metis (no_types, lifting) imageE imageI)
  qed
  moreover have "reset_completions_ok d'"
  proof -
    have done_k: "k\<lparr>rk_consumed_at := Some now\<rparr> \<in> set (rs_continuations d')"
      and done_r: "r\<lparr>ps_status := PendingPasswordResetCompleted\<rparr> \<in> set (rs_resets d')"
      using k r by (simp_all add: d' in_update_where)
    have one_k: "x \<in> set (rs_continuations d) \<or> rk_reset x = ps_id r" if "x \<in> set (rs_continuations d')" for x
      using that pair r(2) by (auto simp: d' set_update_where rk_usable_def ps_completable_def)
    have one_r: "x \<in> set (rs_resets d) \<or> ps_id x = rk_reset k" if "x \<in> set (rs_resets d')" for x
      using that kr r(2) by (auto simp: d' set_update_where ps_completable_def)
    have keep_r: "x \<in> set (rs_resets d')" if "x \<in> set (rs_resets d)" "ps_status x = PendingPasswordResetCompleted" for x
      using that by (force simp: d' set_update_where ps_completable_def ps_open_def)
    have keep_k: "x \<in> set (rs_continuations d')" if "x \<in> set (rs_continuations d)" "rk_consumed_at x \<noteq> None" for x
      using that by (force simp: d' set_update_where rk_usable_def)
    show ?thesis
      unfolding reset_completions_ok_def
    proof (intro conjI ballI impI)
      fix x assume x: "x \<in> set (rs_continuations d')" "rk_consumed_at x \<noteq> None"
      show "\<exists>p\<in>set (rs_resets d'). ps_id p = rk_reset x \<and> ps_status p = PendingPasswordResetCompleted"
      proof (cases "rk_reset x = ps_id r")
        case True
        with done_r show ?thesis by (intro bexI[OF _ done_r]) simp
      next
        case False
        with one_k[OF x(1)] have "x \<in> set (rs_continuations d)" by simp
        with parts(4) x(2) obtain q where "q \<in> set (rs_resets d)" "ps_id q = rk_reset x" "ps_status q = PendingPasswordResetCompleted"
          unfolding reset_completions_ok_def by blast
        with keep_r show ?thesis by blast
      qed
    next
      fix x assume x: "x \<in> set (rs_resets d')" "ps_status x = PendingPasswordResetCompleted"
      show "\<exists>k\<in>set (rs_continuations d'). rk_reset k = ps_id x \<and> rk_consumed_at k \<noteq> None"
      proof (cases "ps_id x = rk_reset k")
        case True
        then show ?thesis by (intro bexI[OF _ done_k]) simp
      next
        case False
        with one_r[OF x(1)] have "x \<in> set (rs_resets d)" by simp
        with parts(4) x(2) obtain q where "q \<in> set (rs_continuations d)" "rk_reset q = ps_id x" "rk_consumed_at q \<noteq> None"
          unfolding reset_completions_ok_def by blast
        with keep_k show ?thesis by blast
      qed
    qed
  qed
  moreover have "reset_accounts_ok d'"
    using parts(5) V by (auto simp: d' reset_accounts_ok_def distinct_upsert has_key_iff)
  moreover have "session_inv (rs_sessions d')" using I by (simp add: d' reset_inv_def revoke_all_keeps)
  ultimately show ?thesis using I by (simp add: reset_inv_def d')
qed

text \<open>A wrong guess is counted, up to the limit.\<close>

definition reset_guess_counted :: "uuid \<Rightarrow> reset_db \<Rightarrow> reset_db" where
  "reset_guess_counted cid db = db\<lparr>rs_codes :=
     update_where (\<lambda>c. vc_id c = cid \<and> vc_attempts c < reset_code_max_attempts)
       (\<lambda>c. c\<lparr>vc_attempts := vc_attempts c + 1\<rparr>) (rs_codes db)\<rparr>"

lemma reset_guess_counted_keeps:
  assumes I: "reset_inv d"
  shows "reset_inv (reset_guess_counted cid d)"
proof -
  let ?d = "reset_guess_counted cid d"
  have C: "codes_ok (rs_requests d) (rs_codes d)" using I by (simp add: reset_inv_def)
  have "codes_ok (rs_requests ?d) (rs_codes ?d)"
    unfolding reset_guess_counted_def using codes_okD[OF C]
    by (auto intro!: codes_ok_update_codes[OF C] simp: code_active_def reset_code_max_attempts_def verification_code_max_attempts_def)
  moreover have "reset_proofs_ok ?d"
  proof -
    have "reset_proved d q \<Longrightarrow> reset_proved ?d q" for q
      by (erule reset_proved_mono) (auto simp: reset_guess_counted_def intro!: bex_update_where)
    then show ?thesis using I by (auto simp: reset_inv_def reset_proofs_ok_def reset_guess_counted_def)
  qed
  ultimately show ?thesis using I
    by (simp add: reset_inv_def reset_rows_ok_def reset_continuations_ok_def reset_completions_ok_def reset_accounts_ok_def
        reset_guess_counted_def)
qed

section \<open>Calls in any order\<close>

lemma reset_invalidates:
  assumes I: "reset_inv d" and q: "qr_invalidate_verification_code now vid d = Inr (x, d')"
  shows "d' = d\<lparr>rs_codes := update_where (\<lambda>c. vc_request c = vid \<and> code_active c)
                           (\<lambda>c. c\<lparr>vc_invalidated_at := Some now\<rparr>) (rs_codes d)\<rparr>"
proof -
  have T: "distinct (map vc_request (filter code_active (rs_codes d)))" "distinct (map vc_id (rs_codes d))"
    using I by (simp_all add: reset_inv_def codes_ok_def)
  from q have "d' = d\<lparr>rs_codes := case first_by newest_code (filter (\<lambda>c. vc_request c = vid \<and> code_active c) (rs_codes d)) of
      None \<Rightarrow> rs_codes d
    | Some old \<Rightarrow> update_where (\<lambda>c. vc_id c = vc_id old) (\<lambda>c. c\<lparr>vc_invalidated_at := Some now\<rparr>) (rs_codes d)\<rparr>"
    by (auto simp: qr_invalidate_verification_code_def split: option.splits)
  then show ?thesis unfolding invalidated_rows[OF T] .
qed

definition issues_reset_code :: "time \<Rightarrow> uuid \<Rightarrow> uuid \<Rightarrow> string \<Rightarrow> time \<Rightarrow> reset_db \<Rightarrow> reset_db \<Rightarrow> bool" where
  "issues_reset_code now cid vid hash ex d d' \<longleftrightarrow> cid \<notin> vc_id ` set (rs_codes d) \<and> vid \<in> vr_id ` set (rs_requests d) \<and>
     d' = reset_code_issued now cid vid hash ex d"

lemma wp_issues_reset_code:
  assumes I: "reset_inv d"
  shows "wp (\<lambda>r d'. (d' = d \<and> isl r) \<or> issues_reset_code now cid vid hash ex d d')
           (repo_issue_reset_code now cid vid hash ex) d w"
proof -
  have *: "issues_reset_code now cid vid hash ex d w3"
    if q: "qr_invalidate_verification_code now vid d = Inr (x, w1)"
      "qr_create_verification_code now cid vid hash ex w1 = Inr (c, w2)"
      "qr_update_verification_request_resend now vid w2 = Inr (v, w3)" for x w1 c w2 v w3
    using reset_invalidates[OF I q(1)] q(2,3)
    by (auto simp: qr_create_verification_code_def qr_update_verification_request_resend_def reset_code_issued_def
        issues_reset_code_def has_key_iff table_simps Let_def split: if_splits option.splits)
  show ?thesis
    unfolding repo_issue_reset_code_def
    by (intro wp_intros; (rule disjI1, simp; fail)?; rule disjI2; erule (2) *)
qed

lemma wp_create_reset:
  assumes "reset_inv d"
  shows "wp (\<lambda>_. reset_inv) (repo_create_password_reset nows ids email ex) d w"
proof -
  have once: "wp (\<lambda>_. reset_inv) (create_password_reset_once now i email ex) d w" if "reset_inv d" for now i d w
    by (rule wp_mono[OF wp_create_reset_once]) (use that reset_opened_keeps in blast)
  show ?thesis
    unfolding repo_create_password_reset_def
    by (intro wp_call_inv wp_intros once assms; assumption)
qed

lemma wp_increment_reset:
  "wp (\<lambda>r d'. d' = d \<or> d' = reset_guess_counted cid d)
     (repo_increment_reset_code_attempts cid reset_code_max_attempts) d w"
  unfolding repo_increment_reset_code_attempts_def
  by (intro wp_intros) (auto simp: qr_increment_verification_code_attempts_def reset_guess_counted_def split: option.splits)

text \<open>
  The calls that write, with the arguments the service gives them: a code, its request and its reset
  belong together, and so do a continuation and its reset, and the user is the one holding the address.
\<close>

datatype reset_call =
    CreateReset "time \<times> time" "(uuid \<times> uuid) \<times> (uuid \<times> uuid)" string time
  | IssueResetCode time uuid uuid string time
  | CountResetGuess uuid
  | CompleteResetVerification time uuid uuid uuid uuid string time
  | ChangePassword time reset_params

fun reset_call_enabled :: "reset_db \<Rightarrow> reset_call \<Rightarrow> bool" where
  "reset_call_enabled db (CompleteResetVerification now kid cid vid pid hash ex) =
     (list_all (\<lambda>c. vc_id c = cid \<longrightarrow> vc_request c = vid) (rs_codes db) \<and>
      list_all (\<lambda>v. vr_id v = vid \<longrightarrow> vr_subject v = pid) (rs_requests db))"
| "reset_call_enabled db (ChangePassword now p) =
     (list_all (\<lambda>k. rk_id k = up_continuation p \<longrightarrow> rk_reset k = up_reset p) (rs_continuations db) \<and>
      list_all (\<lambda>r. ps_id r = up_reset p \<longrightarrow> list_all (\<lambda>u. u_id u = up_user p \<longrightarrow> u_email u = ps_email r) (rs_users db))
        (rs_resets db))"
| "reset_call_enabled db _ = True"

fun run_reset_call :: "reset_call \<Rightarrow> fate list \<Rightarrow> reset_db \<Rightarrow> reset_db" where
  "run_reset_call (CreateReset nows ids email ex) fs db = snd (run (repo_create_password_reset nows ids email ex) db fs)"
| "run_reset_call (IssueResetCode now cid vid hash ex) fs db = snd (run (repo_issue_reset_code now cid vid hash ex) db fs)"
| "run_reset_call (CountResetGuess cid) fs db =
     snd (run (repo_increment_reset_code_attempts cid reset_code_max_attempts) db fs)"
| "run_reset_call (CompleteResetVerification now kid cid vid pid hash ex) fs db =
     snd (run (repo_complete_reset_verification now kid cid vid pid hash ex) db fs)"
| "run_reset_call (ChangePassword now p) fs db = snd (run (repo_upsert_credential_and_complete_reset now p) db fs)"

lemma run_reset_call_keeps: "reset_inv db \<Longrightarrow> reset_call_enabled db c \<Longrightarrow> reset_inv (run_reset_call c fs db)"
proof (cases c)
  case (CreateReset nows ids email ex)
  assume "reset_inv db"
  then show ?thesis unfolding CreateReset run_reset_call.simps
    by (rule wp_run_snd[where I = reset_inv, OF wp_create_reset])
next
  case (IssueResetCode now cid vid hash ex)
  assume I: "reset_inv db"
  have "wp (\<lambda>_. reset_inv) (repo_issue_reset_code now cid vid hash ex) db db"
    by (rule wp_mono[OF wp_issues_reset_code[OF I]]) (use I in \<open>auto simp: issues_reset_code_def intro: reset_code_issued_keeps\<close>)
  then show ?thesis unfolding IssueResetCode run_reset_call.simps by (rule wp_run_snd)
next
  case (CountResetGuess cid)
  assume I: "reset_inv db"
  have "wp (\<lambda>_. reset_inv) (repo_increment_reset_code_attempts cid reset_code_max_attempts) db db"
    by (rule wp_mono[OF wp_increment_reset]) (use I reset_guess_counted_keeps in blast)
  then show ?thesis unfolding CountResetGuess run_reset_call.simps by (rule wp_run_snd)
next
  case (CompleteResetVerification now kid cid vid pid hash ex)
  assume I: "reset_inv db" and e: "reset_call_enabled db c"
  show ?thesis
    using reset_verification_tx.outcome[of now kid cid vid pid hash ex db fs] I e
      reset_verified_keeps[OF I, of now kid cid vid pid hash ex]
    by (auto simp: CompleteResetVerification list_all_iff)
next
  case (ChangePassword now p)
  assume I: "reset_inv db" and e: "reset_call_enabled db c"
  show ?thesis
    using reset_tx.outcome[of now p db fs] I e password_changed_keeps[OF I, of now p]
    by (auto simp: ChangePassword list_all_iff)
qed

definition reset_start :: "reset_db \<Rightarrow> bool" where
  "reset_start db \<longleftrightarrow> rs_resets db = [] \<and> rs_requests db = [] \<and> rs_codes db = [] \<and> rs_continuations db = [] \<and>
     reset_accounts_ok db \<and> session_inv (rs_sessions db)"

text \<open>Between the calls, other components open accounts, set passwords and change sessions.\<close>

definition elsewhere :: "reset_db \<Rightarrow> reset_db \<Rightarrow> bool" where
  "elsewhere db db' \<longleftrightarrow> (\<exists>us cs ss. db' = db\<lparr>rs_users := rs_users db @ us, rs_credentials := cs, rs_sessions := ss\<rparr>)
     \<and> reset_accounts_ok db' \<and> session_inv (rs_sessions db')"

inductive reset_step :: "reset_db \<Rightarrow> reset_db \<Rightarrow> bool" where
  a_reset_call: "reset_call_enabled db c \<Longrightarrow> reset_step db (run_reset_call c fs db)"
| another_component: "elsewhere db db' \<Longrightarrow> reset_step db db'"

inductive_cases reset_stepE: "reset_step db db'"

lemma elsewhere_keeps:
  assumes I: "reset_inv d" and "elsewhere d d'"
  shows "reset_inv d'"
proof -
  obtain us cs ss where d': "d' = d\<lparr>rs_users := rs_users d @ us, rs_credentials := cs, rs_sessions := ss\<rparr>"
    and ok: "reset_accounts_ok d'" "session_inv (rs_sessions d')"
    using assms(2) by (auto simp: elsewhere_def)
  have "reset_proved d' q = reset_proved d q" for q by (simp add: d' reset_proved_def)
  then show ?thesis using I ok
    by (simp add: reset_inv_def reset_proofs_ok_def reset_rows_ok_def reset_continuations_ok_def reset_completions_ok_def d')
qed

interpretation resets: invariant_system reset_start reset_step reset_inv
proof unfold_locales
  show "reset_start s \<Longrightarrow> reset_inv s" for s
    by (simp add: reset_start_def reset_inv_def reset_rows_ok_def codes_ok_def reset_continuations_ok_def
        reset_proofs_ok_def reset_completions_ok_def)
  show "reset_inv s \<Longrightarrow> reset_step s t \<Longrightarrow> reset_inv t" for s t
    by (erule reset_stepE) (simp_all add: run_reset_call_keeps elsewhere_keeps)
qed

abbreviation reset_reachable :: "reset_db \<Rightarrow> bool" where
  "reset_reachable \<equiv> reachable_from reset_start reset_step"

end
