(* ===== verification/PasswordResetProps.thy ===== *)
theory PasswordResetProps
  imports PasswordResetRuns RegistrationManual SessionTokens Passwords
begin

text \<open>
  What a password reset promises: the password changes in one transaction or not at all, only for who proved
  the address, once per continuation, and it ends every session; what a request answers, and what an
  unknown address gets. The last part joins the component with the password hasher and the sessions.
\<close>

section \<open>The change of the password\<close>

lemma revoke_all_revokes:
  "list_all (\<lambda>s. s_revoked_at s \<noteq> None) (filter (\<lambda>s. s_user s = uid) (sessions (revoke_all now uid sdb)))"
  unfolding list_all_iff set_filter
proof (intro ballI, elim CollectE conjE)
  fix s assume s: "s \<in> set (sessions (revoke_all now uid sdb))" and u: "s_user s = uid"
  let ?p = "\<lambda>s. s_user s = uid \<and> s_revoked_at s = None" and ?f = "\<lambda>s. s\<lparr>s_revoked_at := Some now\<rparr>"
  from s have "s \<in> set (update_where ?p ?f (sessions sdb))" by (simp add: revoke_all_def)
  then obtain b where "s = (if ?p b then ?f b else b)"
    unfolding set_update_where image_iff by blast
  with u show "s_revoked_at s \<noteq> None" by (cases "?p b") auto
qed

lemma revoke_all_others: "filter (\<lambda>s. s_user s \<noteq> uid) (sessions (revoke_all now uid sdb)) =
    filter (\<lambda>s. s_user s \<noteq> uid) (sessions sdb)"
  unfolding revoke_all_def session_db.select_convs(1) session_db.update_convs(1)
  by (cases sdb) (simp, rule filter_update_where_same, auto)

lemma upsert_others: "filter (\<lambda>c. pc_user c \<noteq> uid) (upsert_credential uid h cs) = filter (\<lambda>c. pc_user c \<noteq> uid) cs"
  unfolding upsert_credential_def by (simp, intro impI, rule filter_update_where_same, auto)

lemma upsert_stores: "\<lparr>pc_user = uid, pc_hash = h\<rparr> \<in> set (upsert_credential uid h cs)"
proof (cases "has_key pc_user uid cs")
  case True
  then obtain c where c: "c \<in> set cs" "pc_user c = uid" by (auto simp: has_key_iff)
  from in_update_where[OF c(1), of "\<lambda>c. pc_user c = uid" "\<lambda>c. c\<lparr>pc_hash := h\<rparr>"] c(2) True show ?thesis
    by (cases c) (simp add: upsert_credential_def)
qed (simp add: upsert_credential_def)

text \<open>
  C7. A password changes together with everything else or not at all. For every state, argument and
  schedule of faults, the finalising transaction leaves the tables as they were and reports an error, or
  it stores the new hash for the user, consumes the one usable continuation, completes the one open reset and
  revokes every session of the user that was not revoked, touching nothing of anybody else; success is
  reported only in the second case.
\<close>

theorem password_reset_is_atomic:
  "case run (repo_upsert_credential_and_complete_reset now p) db fs of (r, db') \<Rightarrow>
     (db' = db \<and> isl r) \<or>
     (rows_where (rk_usable now (up_continuation p)) (rs_continuations db) = 1 \<and>
      rows_where (ps_completable now (up_reset p)) (rs_resets db) = 1 \<and>
      db' = db\<lparr>rs_credentials := upsert_credential (up_user p) (up_hash p) (rs_credentials db),
               rs_continuations := update_where (rk_usable now (up_continuation p))
                 (\<lambda>k. k\<lparr>rk_consumed_at := Some now\<rparr>) (rs_continuations db),
               rs_resets := update_where (ps_completable now (up_reset p))
                 (\<lambda>p. p\<lparr>ps_status := PendingPasswordResetCompleted\<rparr>) (rs_resets db),
               rs_sessions := revoke_all now (up_user p) (rs_sessions db)\<rparr> \<and>
      list_all (\<lambda>s. s_revoked_at s \<noteq> None) (filter (\<lambda>s. s_user s = up_user p) (sessions (rs_sessions db'))) \<and>
      filter (\<lambda>s. s_user s \<noteq> up_user p) (sessions (rs_sessions db')) =
        filter (\<lambda>s. s_user s \<noteq> up_user p) (sessions (rs_sessions db)) \<and>
      filter (\<lambda>c. pc_user c \<noteq> up_user p) (rs_credentials db') = filter (\<lambda>c. pc_user c \<noteq> up_user p) (rs_credentials db) \<and>
      \<lparr>pc_user = up_user p, pc_hash = up_hash p\<rparr> \<in> set (rs_credentials db'))"
  using reset_tx.outcome[of now p db fs]
  by (auto simp: password_changed_def revoke_all_revokes revoke_all_others upsert_others upsert_stores
        simp del: not_None_eq split: prod.split)


section \<open>A concrete run\<close>

definition demo_resets :: reset_db where
  "demo_resets = \<lparr>rs_resets = [], rs_requests = [], rs_codes = [], rs_continuations = [],
     rs_users = [\<lparr>u_id = 1, u_email = ''ada@x'', u_display_name = ''Ada'', u_email_verified_at = 0\<rparr>],
     rs_credentials = [\<lparr>pc_user = 1, pc_hash = ''old''\<rparr>],
     rs_sessions = demo_db\<rparr>"

definition demo_reset_calls :: "reset_call list" where
  "demo_reset_calls =
    [CreateReset (0, 0) ((10, 11), (12, 13)) ''ada@x'' password_reset_expires_in,
     IssueResetCode 1 14 11 ''code'' (1 + reset_code_expires_in),
     CompleteResetVerification 2 15 14 11 10 ''token'' (2 + password_reset_continuation_expires_in)]"

fun reset_calls_enabled :: "reset_call list \<Rightarrow> reset_db \<Rightarrow> bool" where
  "reset_calls_enabled [] db = True"
| "reset_calls_enabled (c # cs) db = (reset_call_enabled db c \<and> reset_calls_enabled cs (run_reset_call c [] db))"

definition run_reset_calls :: "reset_call list \<Rightarrow> reset_db \<Rightarrow> reset_db" where
  "run_reset_calls cs db = fold (\<lambda>c. run_reset_call c []) cs db"

lemma reachable_reset_calls:
  "reset_calls_enabled cs db \<Longrightarrow> reset_reachable db \<Longrightarrow> reset_reachable (run_reset_calls cs db)"
  by (induction cs arbitrary: db) (auto simp: run_reset_calls_def intro: reachable_from.next_step a_reset_call)

definition demo_proved :: reset_db where
  "demo_proved = run_reset_calls demo_reset_calls demo_resets"

definition demo_change :: reset_params where
  "demo_change = \<lparr>up_user = 1, up_hash = ''new'', up_continuation = 15, up_reset = 10\<rparr>"

lemma demo_proved_runs:
  "reset_calls_enabled demo_reset_calls demo_resets \<and> reset_call_enabled demo_proved (ChangePassword 3 demo_change) \<and>
   fst (run (repo_upsert_credential_and_complete_reset 3 demo_change) demo_proved []) = Inr () \<and>
   map pc_hash (rs_credentials (snd (run (repo_upsert_credential_and_complete_reset 3 demo_change) demo_proved []))) = [''new''] \<and>
   map pc_hash (rs_credentials demo_proved) = [''old'']"
  by code_simp

lemma demo_proved_reachable: "reset_reachable demo_proved"
proof -
  have "reset_accounts_ok demo_resets" by (simp add: reset_accounts_ok_def demo_resets_def)
  then have "reset_start demo_resets" using demo_inv by (simp add: reset_start_def demo_resets_def)
  then show ?thesis
    unfolding demo_proved_def
    by (rule reachable_reset_calls[OF conjunct1[OF demo_proved_runs] reachable_from.start])
qed

lemma demo_proved_changes: "snd (run (repo_upsert_credential_and_complete_reset 3 demo_change) demo_proved []) \<noteq> demo_proved"
  using demo_proved_runs by force


section \<open>One password per continuation\<close>

definition reset_spent :: "uuid \<Rightarrow> reset_db \<Rightarrow> bool" where
  "reset_spent kid db \<longleftrightarrow> (\<exists>k\<in>set (rs_continuations db). rk_id k = kid \<and> rk_consumed_at k \<noteq> None)"

lemma consume_spends:
  assumes "rows_where (rk_usable now kid) ks = 1"
  shows "\<exists>k\<in>set (update_where (rk_usable now kid) (\<lambda>k. k\<lparr>rk_consumed_at := Some t\<rparr>) ks). rk_id k = kid \<and> rk_consumed_at k \<noteq> None"
proof -
  obtain k where k: "k \<in> set ks" "rk_usable now kid k" using rows_where_1D[OF assms] by metis
  from in_update_where[OF k(1), of "rk_usable now kid" "\<lambda>k. k\<lparr>rk_consumed_at := Some t\<rparr>"] k(2)
  show ?thesis by (intro bexI[of _ "k\<lparr>rk_consumed_at := Some t\<rparr>"]) (simp_all add: rk_usable_def)
qed

lemma spent_updated:
  assumes "k \<in> set ks" "rk_id k = kid" "rk_consumed_at k \<noteq> None"
  shows "\<exists>k\<in>set (update_where p (\<lambda>k. k\<lparr>rk_consumed_at := Some t\<rparr>) ks). rk_id k = kid \<and> rk_consumed_at k \<noteq> None"
  by (rule bex_update_where[OF assms(1)]) (use assms(2,3) in auto)

lemma reset_created_continuations:
  "rs_continuations (snd (run (repo_create_password_reset nows ids email ex) db fs)) = rs_continuations db"
proof -
  have opened: "rs_continuations d' = rs_continuations d" if "reset_opened now i email ex d d'" for now i d d'
    using that by (auto simp: reset_opened_def reset_added_def expire_resets_def)
  have once: "wp (\<lambda>_ d'. rs_continuations d' = rs_continuations db) (create_password_reset_once now i email ex) d w"
    if "rs_continuations d = rs_continuations db" for now i d w
    by (rule wp_mono[OF wp_create_reset_once]) (use that opened in metis)
  have "wp (\<lambda>_ d'. rs_continuations d' = rs_continuations db) (repo_create_password_reset nows ids email ex) db db"
    unfolding repo_create_password_reset_def by (intro wp_call_inv wp_intros once refl; assumption)
  then show ?thesis by (rule wp_run_snd)
qed

lemma reset_step_keeps_spent:
  assumes I: "reset_inv d" and s: "reset_spent kid d" and "reset_step d d'"
  shows "reset_spent kid d'"
proof -
  obtain k where k: "k \<in> set (rs_continuations d)" "rk_id k = kid" "rk_consumed_at k \<noteq> None"
    using s unfolding reset_spent_def by blast
  from assms(3) show ?thesis
  proof cases
    case (a_reset_call c fs)
    show ?thesis
    proof (cases c)
      case (CreateReset nows ids email ex)
      then show ?thesis using s a_reset_call(1) by (simp add: reset_spent_def reset_created_continuations)
    next
      case (IssueResetCode now cid vid hash ex)
      have "wp (\<lambda>_ d'. rs_continuations d' = rs_continuations d) (repo_issue_reset_code now cid vid hash ex) d d"
        by (rule wp_mono[OF wp_issues_reset_code[OF I]]) (auto simp: issues_reset_code_def reset_code_issued_def)
      from wp_run_snd[OF this, of fs] show ?thesis
        using s unfolding a_reset_call(1) IssueResetCode by (simp add: reset_spent_def)
    next
      case (CountResetGuess cid)
      have "wp (\<lambda>_ d'. rs_continuations d' = rs_continuations d)
          (repo_increment_reset_code_attempts cid reset_code_max_attempts) d d"
        by (rule wp_mono[OF wp_increment_reset]) (auto simp: reset_guess_counted_def)
      from wp_run_snd[OF this, of fs] show ?thesis
        using s unfolding a_reset_call(1) CountResetGuess by (simp add: reset_spent_def)
    next
      case (CompleteResetVerification now kid' cid vid pid hash ex)
      show ?thesis
        using reset_verification_tx.outcome[of now kid' cid vid pid hash ex d fs] k s
        unfolding a_reset_call(1) CompleteResetVerification
        by (auto simp: reset_verified_def reset_spent_def)
    next
      case (ChangePassword now p)
      show ?thesis
        using reset_tx.outcome[of now p d fs] s spent_updated[OF k]
        unfolding a_reset_call(1) ChangePassword
        by (auto simp: password_changed_def reset_spent_def simp del: not_None_eq)
    qed
  next
    case another_component
    then show ?thesis using s by (auto simp: elsewhere_def reset_spent_def)
  qed
qed

lemma reset_steps_keep_spent:
  "reset_step\<^sup>*\<^sup>* d d' \<Longrightarrow> reset_inv d \<Longrightarrow> reset_spent kid d \<Longrightarrow> reset_spent kid d' \<and> reset_inv d'"
  by (induction rule: rtranclp_induct) (auto intro: reset_step_keeps_spent resets.inv_step)

text \<open>
  C9. A proof of the address pays for one password. Once the finalising call reported success, or changed
  anything at all, with a continuation, no later call with that continuation changes anything: in every
  state reached from there by resets, code issues, guesses, further changes of passwords and the work of other
  components, it is refused.
\<close>

theorem reset_continuation_single_use:
  assumes "reset_reachable db" and "reset_call_enabled db (ChangePassword now p)"
    and "fst (run (repo_upsert_credential_and_complete_reset now p) db fs) = Inr () \<or>
         snd (run (repo_upsert_credential_and_complete_reset now p) db fs) \<noteq> db"
    and "reset_step\<^sup>*\<^sup>* (snd (run (repo_upsert_credential_and_complete_reset now p) db fs)) later"
    and "up_continuation p' = up_continuation p"
  shows "snd (run (repo_upsert_credential_and_complete_reset now' p') later fs') = later \<and>
         isl (fst (run (repo_upsert_credential_and_complete_reset now' p') later fs'))"
proof -
  let ?db = "snd (run (repo_upsert_credential_and_complete_reset now p) db fs)"
  have I: "reset_inv db" by (rule resets.reachable_inv[OF assms(1)])
  have "reset_step db ?db" using a_reset_call[OF assms(2), of fs] by simp
  then have I': "reset_inv ?db" by (rule resets.inv_step[OF I])
  have "password_changed now p db ?db" using reset_tx.outcome[of now p db fs] assms(3) by auto
  then have "reset_spent (up_continuation p) ?db"
    using consume_spends[of now "up_continuation p" "rs_continuations db" now]
    by (auto simp: password_changed_def reset_spent_def simp del: not_None_eq)
  then have spent: "reset_spent (up_continuation p) later" and L: "reset_inv later"
    using reset_steps_keep_spent[OF assms(4) I'] by blast+
  have "\<not> password_changed now' p' later d'" for d'
  proof
    assume "password_changed now' p' later d'"
    then have "rows_where (rk_usable now' (up_continuation p)) (rs_continuations later) = 1"
      by (simp add: password_changed_def assms(5))
    then obtain k where k: "k \<in> set (rs_continuations later)" "rk_usable now' (up_continuation p) k"
      using rows_where_1D by metis
    obtain k' where k': "k' \<in> set (rs_continuations later)" "rk_id k' = up_continuation p" "rk_consumed_at k' \<noteq> None"
      using spent unfolding reset_spent_def by blast
    have "k = k'"
      using L k k' by (auto simp: reset_inv_def reset_continuations_ok_def rk_usable_def intro: distinct_map_filter_inj)
    with k k' show False by (simp add: rk_usable_def)
  qed
  then show ?thesis using reset_tx.outcome[of now' p' later fs'] by blast
qed

theorem reset_continuation_single_use_witness:
  "isl (fst (run (repo_upsert_credential_and_complete_reset 4 (demo_change\<lparr>up_hash := ''again''\<rparr>))
     (snd (run (repo_upsert_credential_and_complete_reset 3 demo_change) demo_proved [])) []))"
  using reset_continuation_single_use[OF demo_proved_reachable conjunct1[OF conjunct2[OF demo_proved_runs]]
      disjI2[OF demo_proved_changes] rtranclp.rtrancl_refl, of "demo_change\<lparr>up_hash := ''again''\<rparr>" 4 "[]"]
  by simp

section \<open>Every session ends\<close>

lemma revoking_keeps:
  "session_inv sdb \<Longrightarrow> session_inv (sdb\<lparr>sessions := update_where q (\<lambda>x. x\<lparr>s_revoked_at := Some now\<rparr>) (sessions sdb)\<rparr>)"
  unfolding session_inv_def session_keys_ok_def live_tokens_def
  by (auto simp: table_simps replaced_in_session_def)

lemma revoking_kills:
  assumes "session_inv sdb" and t: "t \<in> set (tokens sdb)" and s: "s \<in> set (sessions sdb)" "s_id s = t_session t"
    and q: "s_revoked_at s = None \<Longrightarrow> q s"
  shows "inv_dead (t_hash t) (sdb\<lparr>sessions := update_where q (\<lambda>x. x\<lparr>s_revoked_at := Some now\<rparr>) (sessions sdb)\<rparr>)"
    (is "inv_dead _ ?sdb")
proof -
  let ?f = "\<lambda>x. x\<lparr>s_revoked_at := Some now\<rparr>"
  have keys: "distinct (map t_hash (tokens sdb))" "distinct (map s_id (sessions sdb))"
    using assms(1) by (auto simp: session_inv_def session_keys_ok_def)
  have "session_revoked (t_session t) ?sdb"
    unfolding session_revoked_def
  proof (intro ballI impI)
    fix x assume x: "x \<in> set (sessions ?sdb)" and i: "s_id x = t_session t"
    from x have "x \<in> set (update_where q ?f (sessions sdb))" by simp
    then obtain b where b: "b \<in> set (sessions sdb)" "x = (if q b then ?f b else b)"
      unfolding set_update_where image_iff by blast
    then have "s_id b = s_id s" using i s(2) by (cases "q b") auto
    with b(1) s(1) keys(2) have "b = s" by (auto intro: distinct_map_filter_inj)
    with b(2) q show "s_revoked_at x \<noteq> None" by (cases "q b") auto
  qed
  moreover have "t' = t" if "t' \<in> set (tokens sdb)" "t_hash t' = t_hash t" for t'
    using keys(1) t that by (auto intro: distinct_map_filter_inj)
  ultimately have "dead_hash (t_hash t) ?sdb"
    unfolding dead_hash_def by auto
  then show ?thesis using revoking_keeps[OF assms(1)] by (simp add: inv_dead_def)
qed

text \<open>A dead token is refused by \<open>RefreshToken\<close>, after any operations that do not issue it again.\<close>

lemma dead_token_is_refused:
  assumes "inv_dead x sdb" and "no_reissue h x ops" and "h presented = x"
  shows "isl (fst (run (refresh_token_service h acc n a tid gen presented) (apply_ops h acc ops sdb) fs))"
proof -
  let ?db = "apply_ops h acc ops sdb"
  have d: "dead_hash x ?db" using apply_ops_dead[OF assms(1,2)] by (simp add: inv_dead_def)
  have "wp (\<lambda>r _. isl r) (refresh_token_service h acc n a tid gen presented) ?db ?db"
  proof (cases gen)
    case (Inl e)
    then show ?thesis by (simp add: refresh_token_service_def wp_intros)
  next
    case (Inr token)
    have refused: "wp (\<lambda>r d'. case r of Inl e \<Rightarrow> True | Inr x \<Rightarrow> False)
        (repo_refresh_token n a tid x (h token) session_idle_lifetime) ?db w" for w
      by (rule wp_mono[OF dead_refused_wp[OF d]]) auto
    show ?thesis
      unfolding refresh_token_service_def Inr sum.case assms(3)
      by (rule wp_call_cases[OF refused]) (simp_all add: wp_intros)
  qed
  then show ?thesis by (rule wp_run[OF _ surjective_pairing])
qed

text \<open>
  C10. A finished reset locks out whoever was signed in. After the finalising call reported success, every
  refresh token of the user that existed before is refused by \<open>RefreshToken\<close>, under every schedule of
  faults and after any sequence of session operations of any users that do not issue that very token again.
\<close>

theorem password_reset_ends_every_session:
  assumes "session_inv (rs_sessions db)"
    and "run (repo_upsert_credential_and_complete_reset now p) db fs = (Inr (), db')"
    and "t \<in> set (tokens (rs_sessions db))" and "s \<in> set (sessions (rs_sessions db))"
    and "s_id s = t_session t" and "s_user s = up_user p" and "no_reissue h (t_hash t) ops"
    and "h presented = t_hash t"
  shows "isl (fst (run (refresh_token_service h acc n a tid gen presented)
           (apply_ops h acc ops (rs_sessions db')) fs'))"
proof -
  have "password_changed now p db db'" by (rule reset_tx.reported[OF assms(2)])
  then have "inv_dead (t_hash t) (rs_sessions db')"
    using revoking_kills[OF assms(1,3,4,5), of "\<lambda>s. s_user s = up_user p \<and> s_revoked_at s = None" now] assms(6)
    by (auto simp: password_changed_def revoke_all_def)
  then show ?thesis using assms(7,8) by (rule dead_token_is_refused)
qed

theorem password_reset_ends_every_session_witness:
  "isl (fst (run (refresh_token_service id (\<lambda>_ _ _. Inr ''access'') 4 4 9 (Inr ''h1'') ''h0'')
     (rs_sessions (snd (run (repo_upsert_credential_and_complete_reset 3 demo_change) demo_proved []))) []))"
proof -
  let ?run = "run (repo_upsert_credential_and_complete_reset 3 demo_change) demo_proved []"
  have r: "?run = (Inr (), snd ?run)" using demo_proved_runs by (metis prod.collapse)
  have s: "rs_sessions demo_proved = demo_db" by code_simp
  have m: "demo_token \<in> set (tokens (rs_sessions demo_proved))" "demo_session \<in> set (sessions (rs_sessions demo_proved))"
    by (simp_all add: s demo_db_def)
  show ?thesis
    using password_reset_ends_every_session[OF _ r m, of id "[]" "''h0''" "\<lambda>_ _ _. Inr ''access''" 4 4 9 "Inr ''h1''" "[]"] demo_inv
    by (simp add: s demo_token_def demo_session_def demo_change_def no_reissue_def)
qed

section \<open>From the token to the new password\<close>

lemma finalize_reported:
  assumes "run (finalize_password_reset app_now db_now hash_token wait hash_password token password) db fs = (Inr (), db')"
  shows "\<exists>k\<in>set (rs_continuations db). \<exists>q\<in>set (rs_resets db). \<exists>u\<in>set (rs_users db). \<exists>hash.
     rk_hash k = hash_token token \<and> ps_id q = rk_reset k \<and> u_email u = ps_email q \<and> hash_password password = Inr hash \<and>
     password_changed db_now \<lparr>up_user = u_id u, up_hash = hash, up_continuation = rk_id k, up_reset = rk_reset k\<rparr> db db'"
    (is "?G db'")
proof -
  have last: "wp (\<lambda>r d'. case r of Inl _ \<Rightarrow> True | Inr _ \<Rightarrow> password_changed db_now p db d')
      (repo_upsert_credential_and_complete_reset db_now p) db w" for p w
    by (rule wp_mono[OF wp_password_changed]) (auto split: sum.split)
  have got: "k \<in> set (rs_continuations db) \<and> q \<in> set (rs_resets db) \<and> rk_hash k = hash_token token \<and> ps_id q = rk_reset k \<and> d' = db"
    if "qr_get_password_reset_continuation (hash_token token) db = Inr ((k, q, has), d')" for k q has d'
    using that by (auto simp: qr_get_password_reset_continuation_def split: option.splits dest!: row_with_SomeD)
  have usr: "u \<in> set (rs_users db) \<and> u_email u = ps_email q \<and> d' = db"
    if "qr_get_user_by_email (ps_email q) db = Inr (u, d')" for q u d'
    using that by (auto simp: qr_get_user_by_email_def split: option.splits dest!: row_with_SomeD)
  have fin: "wp (\<lambda>r d'. case r of Inl _ \<Rightarrow> True | Inr _ \<Rightarrow> ?G d')
      (repo_upsert_credential_and_complete_reset db_now
        \<lparr>up_user = u_id u, up_hash = hash, up_continuation = rk_id k, up_reset = rk_reset k\<rparr>) d1 db"
    if "qr_get_password_reset_continuation (hash_token token) db = Inr ((k, q, has), d0)"
      "qr_get_user_by_email (ps_email q) d0 = Inr (u, d1)" "hash_password password = Inr hash" for k q has d0 u d1 hash
  proof -
    have "d0 = db" using got[OF that(1)] by simp
    moreover from this have "d1 = db" using usr[of q u d1] that(2) by simp
    ultimately show ?thesis
      using got[OF that(1)] usr[of q u d1] that by (simp, intro wp_mono[OF last]) (simp split: sum.splits, blast)
  qed
  have "wp (\<lambda>r d'. case r of Inl _ \<Rightarrow> True | Inr _ \<Rightarrow> ?G d')
      (finalize_password_reset app_now db_now hash_token wait hash_password token password) db db"
    unfolding finalize_password_reset_def repo_get_password_reset_continuation_def repo_get_user_by_email_def
    by (simp only: call_pool call_if call_fail call_fail_internal call_ret)
      (intro wp_intros; (simp; fail)?; use fin in blast)
  from wp_run[OF this assms] show ?thesis by simp
qed

theorem unknown_address_is_told_apart:
  "let request = (\<lambda>email. run (request_password_reset 0 0 (0, 0) ((10, 11), (12, 13)) (Inr 99) email) demo_resets []) in
     request ''ada@x'' = (Inr \<lparr>rr_verification_id = 11, rr_unknown_account = False\<rparr>, snd (request ''ada@x'')) \<and>
     request ''eve@x'' = (Inr \<lparr>rr_verification_id = 99, rr_unknown_account = True\<rparr>, demo_resets) \<and>
     \<not> isl (fst (run (get_reset_verification 1 11) (snd (request ''ada@x'')) [])) \<and>
     fst (run (get_reset_verification 1 99) (snd (request ''eve@x'')) []) = Inl (not_found (Some err_no_rows))"
  by code_simp

theorem lost_continuation_blocks_the_address:
  "fst (run (request_password_reset 4 4 (4, 4) ((20, 21), (22, 23)) (Inr 99) ''ada@x'') demo_proved [])
     = Inr \<lparr>rr_verification_id = 11, rr_unknown_account = False\<rparr> \<and>
   snd (run (request_password_reset 4 4 (4, 4) ((20, 21), (22, 23)) (Inr 99) ''ada@x'') demo_proved []) = demo_proved \<and>
   fst (run (get_reset_verification 5 11) demo_proved []) =
     Inl (conflict_with ''VERIFICATION_NOT_PENDING'' ''verification request is no longer pending'' None)"
  by code_simp

text \<open>
  Who finished a reset can sign in with the new password and nobody is signed in with the old one. When
  \<open>FinalizePasswordReset\<close> reports success for a token and a password, there is an unconsumed proof for
  the address of a user with that token, the hash now stored for that user verifies the password and
  asks for no rehash, and none of the user's sessions is left unrevoked.
\<close>

theorem finished_reset_signs_in:
  assumes key_length: "\<And>p s t m l k. length (idkey p s t m l k) = unat k"
    and salt_length: "\<And>s. rand = Inr s \<Longrightarrow> length s = argon2_salt_length"
    and "run (finalize_password_reset app_now db_now hash_token wait (\<lambda>p. fst (password_hash idkey acquire rand p))
           token password) db fs = (Inr (), db')"
  shows "\<exists>k\<in>set (rs_continuations db). \<exists>q\<in>set (rs_resets db). \<exists>u\<in>set (rs_users db). \<exists>c\<in>set (rs_credentials db').
     rk_hash k = hash_token token \<and> ps_id q = rk_reset k \<and> u_email u = ps_email q \<and> pc_user c = u_id u \<and>
     fst (password_verify idkey None password (pc_hash c)) = Inr \<lparr>pw_match = True, pw_needs_rehash = False\<rparr> \<and>
     list_all (\<lambda>s. s_revoked_at s \<noteq> None) (filter (\<lambda>s. s_user s = u_id u) (sessions (rs_sessions db')))"
proof -
  obtain k q u hash where *: "k \<in> set (rs_continuations db)" "q \<in> set (rs_resets db)" "u \<in> set (rs_users db)"
    "rk_hash k = hash_token token" "ps_id q = rk_reset k" "u_email u = ps_email q"
    and h: "fst (password_hash idkey acquire rand password) = Inr hash"
    and ch: "password_changed db_now \<lparr>up_user = u_id u, up_hash = hash, up_continuation = rk_id k, up_reset = rk_reset k\<rparr> db db'"
    using finalize_reported[OF assms(3)] by blast
  obtain salt where salt: "rand = Inr salt"
    and hash: "hash = encode_phc salt (idkey password salt argon2_iterations argon2_memory argon2_parallelism argon2_key_length)"
    using h by (auto simp: password_hash_def split: option.splits sum.splits)
  have s: "salt \<noteq> ''''" using salt_length[OF salt] by (auto simp: argon2_salt_length_def)
  have ne: "idkey password salt argon2_iterations argon2_memory argon2_parallelism argon2_key_length \<noteq> ''''"
    by (rule derived_nonempty[OF key_length])
  note d = decode_encode_phc[OF s ne]
  have fresh: "\<not> needs_rehash active_params" by (simp add: needs_rehash_def active_params_def)
  have "fst (password_verify idkey None password hash) = Inr \<lparr>pw_match = True, pw_needs_rehash = False\<rparr>"
    using fresh by (simp add: hash password_verify_def d verify_decoded_def key_length Let_def active_params_def)
  moreover have "\<lparr>pc_user = u_id u, pc_hash = hash\<rparr> \<in> set (rs_credentials db')"
    "list_all (\<lambda>s. s_revoked_at s \<noteq> None) (filter (\<lambda>s. s_user s = u_id u) (sessions (rs_sessions db')))"
    using ch by (auto simp: password_changed_def upsert_stores revoke_all_revokes simp del: not_None_eq)
  ultimately show ?thesis using * by force
qed

lemma finalize_hash_cong:
  "finalize_password_reset a d ht w hp t p = finalize_password_reset a d ht w (\<lambda>_. hp p) t p"
  by (simp add: finalize_password_reset_def)

theorem finished_reset_signs_in_witness:
  "list_ex (\<lambda>c. fst (password_verify demo_idkey None ''secret'' (pc_hash c)) = Inr \<lparr>pw_match = True, pw_needs_rehash = False\<rparr>)
     (rs_credentials (snd (run (finalize_password_reset 3 3 id minute
        (\<lambda>p. fst (password_hash demo_idkey None (Inr ''0123456789abcdef'') p)) ''token'' ''secret'') demo_proved [])))"
proof -
  let ?hash = "\<lambda>p. fst (password_hash demo_idkey None (Inr ''0123456789abcdef'') p)"
  have len: "length (demo_idkey p s t m l k) = unat k" for p s t m l k by (simp add: demo_idkey_def)
  have salt: "length s = argon2_salt_length" if "Inr ''0123456789abcdef'' = (Inr s :: go_error + string)" for s
    using that by (auto simp: argon2_salt_length_def)
  have ok: "fst (run (finalize_password_reset 3 3 id minute (\<lambda>_. Inr h) ''token'' ''secret'') demo_proved []) = Inr ()" for h
    by code_simp
  obtain h where "?hash ''secret'' = Inr h" by (auto simp: password_hash_def)
  then have "fst (run (finalize_password_reset 3 3 id minute ?hash ''token'' ''secret'') demo_proved []) = Inr ()"
    using ok[of h] by (subst finalize_hash_cong) simp
  then have "run (finalize_password_reset 3 3 id minute ?hash ''token'' ''secret'') demo_proved [] =
      (Inr (), snd (run (finalize_password_reset 3 3 id minute ?hash ''token'' ''secret'') demo_proved []))"
    by (metis prod.collapse)
  from finished_reset_signs_in[OF len salt this] show ?thesis by (auto simp: list_ex_iff)
qed

section \<open>The tables\<close>

text \<open>
  The reset tables are sound in every reachable state: at most one reset is open per address, at most
  one code is active per request and at most one continuation exists per reset, and the resets that completed
  are exactly those whose continuation was consumed.
\<close>

theorem reset_tables_are_sound:
  assumes "reset_reachable db"
  shows "distinct (map ps_email (filter ps_open (rs_resets db))) \<and>
     distinct (map vc_request (filter code_active (rs_codes db))) \<and> distinct (map rk_reset (rs_continuations db)) \<and>
     ps_id ` set (filter (\<lambda>q. ps_status q = PendingPasswordResetCompleted) (rs_resets db)) =
       rk_reset ` set (filter (\<lambda>k. rk_consumed_at k \<noteq> None) (rs_continuations db))"
proof -
  note I = resets.reachable_inv[OF assms]
  have C: "reset_completions_ok db" using I by (simp add: reset_inv_def)
  have "ps_id ` set (filter (\<lambda>q. ps_status q = PendingPasswordResetCompleted) (rs_resets db)) =
       rk_reset ` set (filter (\<lambda>k. rk_consumed_at k \<noteq> None) (rs_continuations db))" (is "?A = ?B")
  proof
    show "?A \<subseteq> ?B"
    proof
      fix i assume "i \<in> ?A"
      then obtain q where "q \<in> set (rs_resets db)" "ps_status q = PendingPasswordResetCompleted" "i = ps_id q" by auto
      then obtain k where "k \<in> set (rs_continuations db)" "rk_reset k = i" "rk_consumed_at k \<noteq> None"
        using C unfolding reset_completions_ok_def by blast
      then show "i \<in> ?B" by (intro image_eqI[of _ _ k]) simp_all
    qed
    show "?B \<subseteq> ?A"
    proof
      fix i assume "i \<in> ?B"
      then obtain k where "k \<in> set (rs_continuations db)" "rk_consumed_at k \<noteq> None" "i = rk_reset k" by auto
      then obtain q where "q \<in> set (rs_resets db)" "ps_id q = i" "ps_status q = PendingPasswordResetCompleted"
        using C unfolding reset_completions_ok_def by blast
      then show "i \<in> ?A" by (intro image_eqI[of _ _ q]) simp_all
    qed
  qed
  then show ?thesis using I by (simp add: reset_inv_def reset_rows_ok_def codes_ok_def reset_continuations_ok_def)
qed

theorem reset_tables_are_sound_witness:
  "ps_id ` set (filter (\<lambda>q. ps_status q = PendingPasswordResetCompleted) (rs_resets demo_proved)) =
     rk_reset ` set (filter (\<lambda>k. rk_consumed_at k \<noteq> None) (rs_continuations demo_proved))"
  using reset_tables_are_sound[OF demo_proved_reachable] by blast

end
