(* ===== verification/Users.thy ===== *)
theory Users
  imports PasswordResetProps
begin

text \<open>
  The account of the signed-in user: \<open>internal/api/user\<close>. Reading the profile with its linked identities,
  renaming, and setting the password: a first one is inserted, an existing one is replaced only by who knows
  it, only while it is the one that was verified, and every other session of the user ends.
\<close>

section \<open>State\<close>

text \<open>The tables of registration with the column \<open>created_at\<close> that only this component reads.\<close>

record profile_user = user +
  pu_created_at :: time

record linked_identity = auth_identity +
  li_created_at :: time

record user_db =
  us_users :: "profile_user list"
  us_identities :: "linked_identity list"
  us_credentials :: "password_credential list"
  us_sessions :: session_db

section \<open>SQL statements\<close>

record profile_row =
  pf_id :: uuid
  pf_email :: string
  pf_display_name :: string
  pf_created_at :: time
  pf_has_password :: bool

definition profile_of :: "user_db \<Rightarrow> profile_user \<Rightarrow> profile_row" where
  "profile_of db u = \<lparr>pf_id = u_id u, pf_email = u_email u, pf_display_name = u_display_name u,
     pf_created_at = pu_created_at u, pf_has_password = has_key pc_user (u_id u) (us_credentials db)\<rparr>"

definition qu_get_user_profile :: "uuid \<Rightarrow> (user_db, profile_row) query" where
  "qu_get_user_profile uid db =
     (case row_with u_id uid (us_users db) of None \<Rightarrow> Inl err_no_rows | Some u \<Rightarrow> Inr (profile_of db u, db))"

record user_identity =
  ui_provider :: string
  ui_linked_at :: time
  ui_email_snapshot :: "string option"
  ui_display_name_snapshot :: "string option"

definition qu_list_auth_identities_for_user :: "uuid \<Rightarrow> (user_db, user_identity list) query" where
  "qu_list_auth_identities_for_user uid db =
     Inr (map (\<lambda>i. \<lparr>ui_provider = ai_provider i, ui_linked_at = li_created_at i, ui_email_snapshot = ai_email_snapshot i,
                    ui_display_name_snapshot = ai_display_name_snapshot i\<rparr>)
            (sort_key li_created_at (sort_key ai_id (filter (\<lambda>i. ai_user i = uid) (us_identities db)))), db)"

definition renamed :: "string \<Rightarrow> profile_user \<Rightarrow> profile_user" where
  "renamed name u = u\<lparr>u_display_name := name\<rparr>"

definition qu_update_user_display_name :: "string \<Rightarrow> uuid \<Rightarrow> (user_db, profile_row) query" where
  "qu_update_user_display_name name uid db =
     (case row_with u_id uid (us_users db) of
        None \<Rightarrow> Inl err_no_rows
      | Some u \<Rightarrow>
          Inr (profile_of db (renamed name u), db\<lparr>us_users := update_where (\<lambda>u. u_id u = uid) (renamed name) (us_users db)\<rparr>))"

definition qu_get_password_credential_for_user :: "uuid \<Rightarrow> (user_db, string) query" where
  "qu_get_password_credential_for_user uid db =
     (case row_with pc_user uid (us_credentials db) of None \<Rightarrow> Inl err_no_rows | Some c \<Rightarrow> Inr (pc_hash c, db))"

definition password_credential_primary_key :: string where
  "password_credential_primary_key = ''password_credentials_pkey''"

definition qu_create_password_credential :: "uuid \<Rightarrow> string \<Rightarrow> (user_db, unit) query" where
  "qu_create_password_credential uid hash db =
     (if has_key pc_user uid (us_credentials db) then Inl (PgError password_credential_primary_key)
      else if \<not> has_key u_id uid (us_users db) then Inl (PgError ''password_credentials_user_id_fkey'')
      else Inr ((), db\<lparr>us_credentials := us_credentials db @ [\<lparr>pc_user = uid, pc_hash = hash\<rparr>]\<rparr>))"

definition credential_unchanged :: "uuid \<Rightarrow> string \<Rightarrow> password_credential \<Rightarrow> bool" where
  "credential_unchanged uid previous c \<longleftrightarrow> pc_user c = uid \<and> pc_hash c = previous"

definition qu_update_password_credential_if_unchanged :: "string \<Rightarrow> uuid \<Rightarrow> string \<Rightarrow> (user_db, nat) query" where
  "qu_update_password_credential_if_unchanged hash uid previous db =
     Inr (rows_where (credential_unchanged uid previous) (us_credentials db),
          db\<lparr>us_credentials := update_where (credential_unchanged uid previous) (\<lambda>c. c\<lparr>pc_hash := hash\<rparr>)
               (us_credentials db)\<rparr>)"

definition other_session :: "uuid \<Rightarrow> uuid \<Rightarrow> session \<Rightarrow> bool" where
  "other_session uid kept_sid s \<longleftrightarrow> s_user s = uid \<and> s_id s \<noteq> kept_sid \<and> s_revoked_at s = None"

definition revoke_others :: "time \<Rightarrow> uuid \<Rightarrow> uuid \<Rightarrow> session_db \<Rightarrow> session_db" where
  "revoke_others now uid kept_sid ss =
     ss\<lparr>sessions := update_where (other_session uid kept_sid) (\<lambda>s. s\<lparr>s_revoked_at := Some now\<rparr>) (sessions ss)\<rparr>"

definition qu_revoke_other_sessions_for_user :: "time \<Rightarrow> uuid \<Rightarrow> uuid \<Rightarrow> (user_db, nat) query" where
  "qu_revoke_other_sessions_for_user now uid kept_sid db =
     Inr (rows_where (other_session uid kept_sid) (sessions (us_sessions db)),
          db\<lparr>us_sessions := revoke_others now uid kept_sid (us_sessions db)\<rparr>)"

section \<open>Repository\<close>

definition err_user_not_found :: "go_error option \<Rightarrow> go_error" where
  "err_user_not_found = not_found_with ''USER_NOT_FOUND'' ''user not found''"

definition repo_get_user_profile :: "uuid \<Rightarrow> (user_db, profile_row) prog" where
  "repo_get_user_profile uid =
     pool (qu_get_user_profile uid)
       (\<lambda>e. if errors_is e err_no_rows then fail (err_user_not_found (Some e)) else fail_internal e) ret"

definition repo_list_auth_identities_for_user :: "uuid \<Rightarrow> (user_db, user_identity list) prog" where
  "repo_list_auth_identities_for_user uid = pool (qu_list_auth_identities_for_user uid) fail_internal ret"

definition repo_update_user_display_name :: "uuid \<Rightarrow> string \<Rightarrow> (user_db, profile_row) prog" where
  "repo_update_user_display_name uid name =
     pool (qu_update_user_display_name name uid)
       (\<lambda>e. if errors_is e err_no_rows then fail (err_user_not_found (Some e)) else fail_internal e) ret"

definition code_password_credential_not_found :: string where
  "code_password_credential_not_found = ''PASSWORD_CREDENTIAL_NOT_FOUND''"

definition repo_get_password_credential_for_user :: "uuid \<Rightarrow> (user_db, string) prog" where
  "repo_get_password_credential_for_user uid =
     pool (qu_get_password_credential_for_user uid)
       (\<lambda>e. if errors_is e err_no_rows
             then fail (conflict_with code_password_credential_not_found ''this account has no password yet'' (Some e))
             else fail_internal e) ret"

definition repo_create_password_credential :: "uuid \<Rightarrow> string \<Rightarrow> (user_db, unit) prog" where
  "repo_create_password_credential uid hash =
     pool (qu_create_password_credential uid hash)
       (\<lambda>e. if pg_constraint e = Some password_credential_primary_key
             then fail (conflict_with ''PASSWORD_CREDENTIAL_ALREADY_EXISTS''
                          ''a password has already been set for this account'' (Some e))
             else fail_internal e) ret"

definition err_password_already_changed :: go_error where
  "err_password_already_changed =
     conflict_with ''PASSWORD_ALREADY_CHANGED'' ''the password was changed by another request; try again'' None"

definition repo_set_password_and_revoke_other_sessions ::
  "time \<Rightarrow> uuid \<Rightarrow> uuid \<Rightarrow> string \<Rightarrow> string \<Rightarrow> (user_db, unit) prog" where
  "repo_set_password_and_revoke_other_sessions now uid kept_sid previous hash =
     begin_tx fail_internal
      (exec_one (qu_update_password_credential_if_unchanged hash uid previous) err_password_already_changed
      (exec (qu_revoke_other_sessions_for_user now uid kept_sid) fail_internal (\<lambda>_.
       commit fail_internal (ret ()))))"

section \<open>Service\<close>

record user_profile =
  up_profile :: profile_row
  up_identities :: "user_identity list"

definition with_identities :: "uuid \<Rightarrow> profile_row \<Rightarrow> (user_db, user_profile) prog" where
  "with_identities uid row =
     call (repo_list_auth_identities_for_user uid) fail (\<lambda>is. ret \<lparr>up_profile = row, up_identities = is\<rparr>)"

definition get_user :: "uuid \<Rightarrow> (user_db, user_profile) prog" where
  "get_user uid = call (repo_get_user_profile uid) fail (with_identities uid)"

definition update_user :: "uuid \<Rightarrow> string \<Rightarrow> (user_db, user_profile) prog" where
  "update_user uid name = call (repo_update_user_display_name uid name) fail (with_identities uid)"

record set_password_params =
  np_user :: uuid
  np_session :: uuid
  np_current :: string
  np_new :: string

datatype set_password_result = SetPasswordCreated | SetPasswordChanged

text \<open>What a call meets: the password limiter's answers to the two operations, the salt, the clock.\<close>

record user_env =
  ue_idkey :: idkey
  ue_wait :: duration
  ue_verify_slot :: "go_error option"
  ue_hash_slot :: "go_error option"
  ue_salt :: "go_error + string"
  ue_now :: time

definition user_password_work_error :: "go_error \<Rightarrow> duration \<Rightarrow> go_error" where
  "user_password_work_error e wait =
     (if \<not> errors_is e password_work_timeout then internal (Some e)
      else service_unavailable_with_retry_after ''PASSWORD_WORK_UNAVAILABLE''
             ''the server is busy, please try again shortly'' wait (Some e))"

definition is_credential_not_found :: "go_error \<Rightarrow> bool" where
  "is_credential_not_found e \<longleftrightarrow> ae_code (from_error e) = code_password_credential_not_found"

definition new_hash :: "user_env \<Rightarrow> string \<Rightarrow> go_error + string" where
  "new_hash env password = fst (password_hash (ue_idkey env) (ue_hash_slot env) (ue_salt env) password)"

definition create_password_credential ::
  "user_env \<Rightarrow> set_password_params \<Rightarrow> (user_db, set_password_result) prog" where
  "create_password_credential env p =
     (if np_current p \<noteq> '''' then
        fail (bad_request_with ''UNEXPECTED_CURRENT_PASSWORD'' ''this account has no password yet; send new_password only'' None)
      else
        (case new_hash env (np_new p) of
           Inl e \<Rightarrow> fail (user_password_work_error e (ue_wait env))
         | Inr hash \<Rightarrow> call (repo_create_password_credential (np_user p) hash) fail (\<lambda>_. ret SetPasswordCreated)))"

definition change_password ::
  "user_env \<Rightarrow> set_password_params \<Rightarrow> string \<Rightarrow> (user_db, set_password_result) prog" where
  "change_password env p previous =
     (if np_current p = '''' then
        fail (bad_request_with ''CURRENT_PASSWORD_REQUIRED'' ''current_password is required to change an existing password'' None)
      else
        (case fst (password_verify (ue_idkey env) (ue_verify_slot env) (np_current p) previous) of
           Inl e \<Rightarrow> fail (user_password_work_error e (ue_wait env))
         | Inr v \<Rightarrow>
             if \<not> pw_match v then
               fail (unauthorized_with ''CURRENT_PASSWORD_INVALID'' ''current password is incorrect'' None)
             else
               (case new_hash env (np_new p) of
                  Inl e \<Rightarrow> fail (user_password_work_error e (ue_wait env))
                | Inr hash \<Rightarrow>
                    call (repo_set_password_and_revoke_other_sessions (ue_now env) (np_user p) (np_session p) previous hash)
                      fail (\<lambda>_. ret SetPasswordChanged))))"

definition set_password :: "user_env \<Rightarrow> set_password_params \<Rightarrow> (user_db, set_password_result) prog" where
  "set_password env p =
     call (repo_get_password_credential_for_user (np_user p))
       (\<lambda>e. if \<not> is_credential_not_found e then fail e else create_password_credential env p)
       (change_password env p)"

end
