(* ===== verification/UserProps.thy ===== *)
theory UserProps
  imports Users
begin

text \<open>
  What setting a password promises: only who knows the current one replaces it, a first one never overwrites,
  two changes of the same password do not overwrite each other, and a change signs the other devices out.
\<close>

definition first_password :: "uuid \<Rightarrow> string \<Rightarrow> user_db \<Rightarrow> user_db \<Rightarrow> bool" where
  "first_password uid hash d d' \<longleftrightarrow> uid \<notin> pc_user ` set (us_credentials d) \<and> uid \<in> u_id ` set (us_users d) \<and>
     d' = d\<lparr>us_credentials := us_credentials d @ [\<lparr>pc_user = uid, pc_hash = hash\<rparr>]\<rparr>"

definition password_replaced :: "time \<Rightarrow> uuid \<Rightarrow> uuid \<Rightarrow> string \<Rightarrow> string \<Rightarrow> user_db \<Rightarrow> user_db \<Rightarrow> bool" where
  "password_replaced now uid kept_sid previous hash d d' \<longleftrightarrow>
     rows_where (credential_unchanged uid previous) (us_credentials d) = 1 \<and>
     d' = d\<lparr>us_credentials := update_where (credential_unchanged uid previous) (\<lambda>c. c\<lparr>pc_hash := hash\<rparr>) (us_credentials d),
            us_sessions := revoke_others now uid kept_sid (us_sessions d)\<rparr>"

interpretation first_password_tx: repo_method "repo_create_password_credential uid hash" "first_password uid hash" for uid hash
proof unfold_locales
  fix d fs r d'
  assume "run (repo_create_password_credential uid hash) d fs = (r, d')"
  moreover have "wp (\<lambda>r d'. (d' = d \<and> isl r) \<or> first_password uid hash d d') (repo_create_password_credential uid hash) d d"
    unfolding repo_create_password_credential_def
    by (intro wp_intros)
      (auto simp: qu_create_password_credential_def first_password_def has_key_iff split: if_splits intro!: wp_intros)
  ultimately show "(d' = d \<and> isl r) \<or> first_password uid hash d d'" by (rule wp_run[rotated])
qed

lemma wp_password_replaced:
  "wp (\<lambda>r d'. (d' = d \<and> isl r) \<or> password_replaced now uid kept_sid previous hash d d')
     (repo_set_password_and_revoke_other_sessions now uid kept_sid previous hash) d w"
proof -
  have *: "password_replaced now uid kept_sid previous hash d d2"
    if "qu_update_password_credential_if_unchanged hash uid previous d = Inr (1, d1)"
      "qu_revoke_other_sessions_for_user now uid kept_sid d1 = Inr (x, d2)" for d1 x d2
    using that by (auto simp: qu_update_password_credential_if_unchanged_def qu_revoke_other_sessions_for_user_def
        password_replaced_def)
  show ?thesis
    unfolding repo_set_password_and_revoke_other_sessions_def
    by (intro wp_intros wp_exec_one; (rule disjI1, simp; fail)?; rule disjI2; erule *)
qed

interpretation replace_tx: repo_method "repo_set_password_and_revoke_other_sessions now uid kept_sid previous hash"
    "password_replaced now uid kept_sid previous hash" for now uid kept_sid previous hash
  by unfold_locales (rule wp_run[OF wp_password_replaced])

text \<open>
  C17. Only who knows the password replaces it. Under every state and schedule of faults, setting a
  password changes nothing and reports an error; or the account had none, none was sent, and the hash of the new
  one is inserted; or the one sent verifies against the stored hash, which is replaced by the hash of the
  new one while the user's other sessions are revoked, and nothing else changes. The answer says which.
\<close>

theorem set_password_needs_the_current_one:
  "case run (set_password env p) db fs of (r, db') \<Rightarrow>
     (db' = db \<and> isl r) \<or>
     (\<exists>hash. new_hash env (np_new p) = Inr hash \<and>
       ((np_current p = '''' \<and> first_password (np_user p) hash db db' \<and> (isl r \<or> r = Inr SetPasswordCreated)) \<or>
        (\<exists>previous v. \<lparr>pc_user = np_user p, pc_hash = previous\<rparr> \<in> set (us_credentials db) \<and>
           fst (password_verify (ue_idkey env) (ue_verify_slot env) (np_current p) previous) = Inr v \<and> pw_match v \<and>
           password_replaced (ue_now env) (np_user p) (np_session p) previous hash db db' \<and>
           (isl r \<or> r = Inr SetPasswordChanged))))"
    (is "case run (set_password env p) db fs of (r, db') \<Rightarrow> ?Q r db'")
proof -
  have replaced: "wp (\<lambda>r d'. case r of Inl e \<Rightarrow> d' = db \<or> password_replaced now uid sid prev hash db d'
       | Inr _ \<Rightarrow> password_replaced now uid sid prev hash db d')
      (repo_set_password_and_revoke_other_sessions now uid sid prev hash) db w" for now uid sid prev hash w
    by (rule wp_mono[OF wp_password_replaced]) (auto split: sum.split)
  have got: "d' = db \<and> \<lparr>pc_user = np_user p, pc_hash = h\<rparr> \<in> set (us_credentials db)"
    if "qu_get_password_credential_for_user (np_user p) db = Inr (h, d')" for h d'
    using that row_with_SomeD[of pc_user "np_user p" "us_credentials db"]
    by (auto simp: qu_get_password_credential_for_user_def split: option.splits) (metis password_credential.surjective unit.exhaust)
  have made: "first_password (np_user p) h db d'"
    if "qu_create_password_credential (np_user p) h db = Inr (u, d')" for u h d'
    using that by (auto simp: qu_create_password_credential_def first_password_def has_key_iff split: if_splits)
  have changed: "wp ?Q (call (repo_set_password_and_revoke_other_sessions (ue_now env) (np_user p) (np_session p) previous hash)
       fail (\<lambda>_. ret SetPasswordChanged)) d0 w"
    if "qu_get_password_credential_for_user (np_user p) db = Inr (previous, d0)" "new_hash env (np_new p) = Inr hash"
      "fst (password_verify (ue_idkey env) (ue_verify_slot env) (np_current p) previous) = Inr v" "pw_match v"
    for previous d0 hash v w
  proof -
    have d0: "d0 = db" using got[OF that(1)] by simp
    show ?thesis unfolding d0
      by (rule wp_call_cases[OF replaced])
        (use got[OF that(1)] that(2-4) in \<open>(intro wp_intros; simp; blast)+\<close>)
  qed
  have "wp ?Q (set_password env p) db db"
    unfolding set_password_def repo_get_password_credential_for_user_def create_password_credential_def change_password_def
      repo_create_password_credential_def
    by (simp only: call_pool call_if call_fail call_fail_internal call_ret)
      (intro wp_intros; (simp; fail)?; (auto dest!: made got; fail)?; use changed in blast)
  from wp_run[OF this surjective_pairing] show ?thesis by (simp add: split_beta)
qed

text \<open>
  C18. Two changes of the same password do not overwrite each other. After a change that replaced the hash a
  request had verified, another request that verified the same hash is refused, and it signs nobody out.
\<close>

theorem concurrent_changes_do_not_overwrite:
  assumes "distinct (map pc_user (us_credentials db))" and "hash \<noteq> previous"
    and "run (repo_set_password_and_revoke_other_sessions now uid kept_sid previous hash) db fs = (Inr (), db')"
  shows "snd (run (repo_set_password_and_revoke_other_sessions now' uid kept_sid' previous hash') db' fs') = db' \<and>
         isl (fst (run (repo_set_password_and_revoke_other_sessions now' uid kept_sid' previous hash') db' fs'))"
proof -
  let ?f = "\<lambda>c. c\<lparr>pc_hash := hash\<rparr>"
  have r: "rows_where (credential_unchanged uid previous) (us_credentials db) = 1"
    and db': "us_credentials db' = update_where (credential_unchanged uid previous) ?f (us_credentials db)"
    using replace_tx.reported[OF assms(3)] by (simp_all add: password_replaced_def)
  obtain c where c: "c \<in> set (us_credentials db)" "credential_unchanged uid previous c" using rows_where_1D[OF r] by metis
  have "\<not> credential_unchanged uid previous x" if x: "x \<in> set (us_credentials db')" for x
  proof
    assume ux: "credential_unchanged uid previous x"
    obtain b where b: "b \<in> set (us_credentials db)" "x = (if credential_unchanged uid previous b then ?f b else b)"
      using x unfolding db' set_update_where image_iff by blast
    have "pc_user b = pc_user c"
      using ux b(2) c(2) by (cases "credential_unchanged uid previous b") (auto simp: credential_unchanged_def)
    with b(1) c(1) assms(1) have "b = c" by (auto intro: distinct_map_filter_inj)
    with ux b(2) c(2) assms(2) show False by (simp add: credential_unchanged_def)
  qed
  then have "rows_where (credential_unchanged uid previous) (us_credentials db') = 0" by (simp add: rows_where_0)
  then have "\<not> password_replaced now' uid kept_sid' previous hash' db' d" for d by (simp add: password_replaced_def)
  then show ?thesis using replace_tx.outcome[of now' uid kept_sid' previous hash' db' fs'] by blast
qed

text \<open>
  C19. A changed password signs the other devices out and keeps the one it was changed on. After a reported
  change, every refresh token of another session of the user is refused by \<open>RefreshToken\<close>, after any
  session operations and under any faults; the caller's session and everybody else's are as they were.
\<close>

theorem password_change_signs_out_other_devices:
  assumes "session_inv (us_sessions db)"
    and "run (repo_set_password_and_revoke_other_sessions now uid kept_sid previous hash) db fs = (Inr (), db')"
    and "t \<in> set (tokens (us_sessions db))" and "s \<in> set (sessions (us_sessions db))"
    and "s_id s = t_session t" and "s_user s = uid" and "s_id s \<noteq> kept_sid" and "no_reissue h (t_hash t) ops"
    and "h presented = t_hash t"
  shows "isl (fst (run (refresh_token_service h acc n a tid gen presented) (apply_ops h acc ops (us_sessions db')) fs')) \<and>
         filter (\<lambda>s. s_id s = kept_sid \<or> s_user s \<noteq> uid) (sessions (us_sessions db')) =
           filter (\<lambda>s. s_id s = kept_sid \<or> s_user s \<noteq> uid) (sessions (us_sessions db))"
proof
  have s': "us_sessions db' = revoke_others now uid kept_sid (us_sessions db)"
    using replace_tx.reported[OF assms(2)] by (simp add: password_replaced_def)
  have "inv_dead (t_hash t) (us_sessions db')"
    using revoking_kills[OF assms(1,3,4,5), of "other_session uid kept_sid" now] assms(6,7)
    by (simp add: s' revoke_others_def other_session_def)
  then show "isl (fst (run (refresh_token_service h acc n a tid gen presented) (apply_ops h acc ops (us_sessions db')) fs'))"
    using assms(8,9) by (rule dead_token_is_refused)
  show "filter (\<lambda>s. s_id s = kept_sid \<or> s_user s \<noteq> uid) (sessions (us_sessions db')) =
      filter (\<lambda>s. s_id s = kept_sid \<or> s_user s \<noteq> uid) (sessions (us_sessions db))"
    unfolding s' revoke_others_def by (cases "us_sessions db") (simp, rule filter_update_where_same, auto simp: other_session_def)
qed

section \<open>Concrete instances\<close>

definition demo_user_db :: user_db where
  "demo_user_db = \<lparr>us_users = [], us_identities = [], us_credentials = [\<lparr>pc_user = 1, pc_hash = ''old''\<rparr>], us_sessions = demo_db\<rparr>"

lemma demo_user_change: "fst (run (repo_set_password_and_revoke_other_sessions 5 1 8 ''old'' ''new'') demo_user_db []) = Inr ()"
  by code_simp

lemma demo_user_run:
  "run (repo_set_password_and_revoke_other_sessions 5 1 8 ''old'' ''new'') demo_user_db [] =
     (Inr (), snd (run (repo_set_password_and_revoke_other_sessions 5 1 8 ''old'' ''new'') demo_user_db []))"
  by (metis demo_user_change prod.collapse)

theorem concurrent_changes_do_not_overwrite_witness:
  "isl (fst (run (repo_set_password_and_revoke_other_sessions 6 1 9 ''old'' ''other'')
     (snd (run (repo_set_password_and_revoke_other_sessions 5 1 8 ''old'' ''new'') demo_user_db [])) []))"
  using concurrent_changes_do_not_overwrite[OF _ _ demo_user_run] by (simp add: demo_user_db_def)

theorem password_change_signs_out_other_devices_witness:
  "isl (fst (run (refresh_token_service id (\<lambda>_ _ _. Inr ''access'') 6 6 9 (Inr ''h1'') ''h0'')
     (us_sessions (snd (run (repo_set_password_and_revoke_other_sessions 5 1 8 ''old'' ''new'') demo_user_db []))) []))"
proof -
  have s: "us_sessions demo_user_db = demo_db" by (simp add: demo_user_db_def)
  have m: "demo_token \<in> set (tokens (us_sessions demo_user_db))" "demo_session \<in> set (sessions (us_sessions demo_user_db))"
    by (simp_all add: s demo_db_def)
  show ?thesis
    using password_change_signs_out_other_devices[OF _ demo_user_run m, of id "[]" "''h0''" "\<lambda>_ _ _. Inr ''access''" 6 6 9 "Inr ''h1''" "[]"]
      demo_inv by (simp add: s demo_token_def demo_session_def no_reissue_def)
qed

end
