(* ===== verification/Search.thy ===== *)
theory Search
  imports LibraryTables Complex_Main "HOL-Library.Sublist"
begin

text \<open>
  Search: \<open>internal/api/search\<close>, the two SQL statements with their \<open>ILIKE\<close> patterns and their score, the
  repository and the service. \<open>word_similarity\<close> of the extension \<open>pg_trgm\<close> is an argument; scores are
  exact rationals where the database computes \<open>float8\<close>.
\<close>

section \<open>\<open>ILIKE\<close>\<close>

text \<open>
  A pattern and a text, both in lower case: \<open>%\<close> matches any text, \<open>_\<close> any character, a backslash takes the
  next character literally. A pattern that ends with a lone backslash is an error of the server, and does
  not occur here, where every pattern ends with \<open>%\<close>.
\<close>

fun like :: "string \<Rightarrow> string \<Rightarrow> bool" where
  "like [] s \<longleftrightarrow> s = []"
| "like (p # ps) [] \<longleftrightarrow> p = CHR ''%'' \<and> like ps []"
| "like (p # ps) (c # s) \<longleftrightarrow>
     (if p = CHR ''%'' then like ps (c # s) \<or> like (p # ps) s
      else if p = CHR ''_'' then like ps s
      else if p = CHR 0x5C then (case ps of [] \<Rightarrow> False | q # qs \<Rightarrow> q = c \<and> like qs s)
      else p = c \<and> like ps s)"

definition ilike :: "string \<Rightarrow> string \<Rightarrow> bool" where
  "ilike pattern s = like (to_lower pattern) (to_lower s)"

text \<open>\<open>x ILIKE '%' || query || '%'\<close>; on \<open>NULL\<close> it is not true.\<close>

definition contains_pattern :: "string \<Rightarrow> string option \<Rightarrow> bool" where
  "contains_pattern query x = (case x of None \<Rightarrow> False | Some s \<Rightarrow> ilike (''%'' @ query @ ''%'') s)"

type_synonym similarity = "string \<Rightarrow> string \<Rightarrow> rat"

definition coalesce_text :: "string option \<Rightarrow> string" where
  "coalesce_text x = (case x of None \<Rightarrow> '''' | Some s \<Rightarrow> s)"

section \<open>SQL statements\<close>

record search_saved_item =
  ss_id :: uuid
  ss_title :: "string option"
  ss_url :: string
  ss_domain :: "string option"
  ss_image_url :: "string option"
  ss_status :: string
  ss_collection :: uuid
  ss_collection_name :: string
  ss_created_at :: time
  ss_score :: rat

record search_collection =
  sc_id :: uuid
  sc_name :: string
  sc_score :: rat

definition has_substring :: "string \<Rightarrow> string option \<Rightarrow> string option \<Rightarrow> string \<Rightarrow> bool" where
  "has_substring query title domain url \<longleftrightarrow>
     contains_pattern query title \<or> contains_pattern query domain \<or> contains_pattern query (Some url)"

definition text_score :: "similarity \<Rightarrow> string \<Rightarrow> string option \<Rightarrow> string option \<Rightarrow> string \<Rightarrow> rat" where
  "text_score ws query title domain url =
     (if has_substring query title domain url then 10 else 0)
     + 1 * ws query (coalesce_text title) + 8/10 * ws query (coalesce_text domain) + 6/10 * ws query url"

definition text_matches :: "similarity \<Rightarrow> string \<Rightarrow> string option \<Rightarrow> string option \<Rightarrow> string \<Rightarrow> bool" where
  "text_matches ws query title domain url \<longleftrightarrow> has_substring query title domain url \<or>
     ws query (coalesce_text title) > 3/10 \<or> ws query (coalesce_text domain) > 3/10 \<or> ws query url > 3/10"

definition searched_item :: "similarity \<Rightarrow> string \<Rightarrow> saved_item \<Rightarrow> collection \<Rightarrow> search_saved_item" where
  "searched_item ws query i c =
     \<lparr>ss_id = si_id i, ss_title = si_title i, ss_url = si_url i, ss_domain = si_domain i, ss_image_url = si_image_url i,
      ss_status = si_status i, ss_collection = si_collection i, ss_collection_name = c_name c,
      ss_created_at = si_created_at i, ss_score = text_score ws query (si_title i) (si_domain i) (si_url i)\<rparr>"

text \<open>The join with the item's collection, of the same user.\<close>

definition searched_items :: "similarity \<Rightarrow> uuid \<Rightarrow> string \<Rightarrow> library_db \<Rightarrow> search_saved_item list" where
  "searched_items ws uid query db =
     concat (map (\<lambda>i. map (searched_item ws query i)
              (filter (\<lambda>c. c_id c = si_collection i \<and> c_user c = si_user i) (lib_collections db)))
       (filter (\<lambda>i. si_user i = uid \<and> text_matches ws query (si_title i) (si_domain i) (si_url i)) (lib_items db)))"

text \<open>\<open>ORDER BY score DESC, created_at DESC, id DESC\<close>.\<close>

definition item_rank :: "search_saved_item \<Rightarrow> rat \<times> newest_first" where
  "item_rank i = (- ss_score i, NewestFirst (ss_created_at i) (ss_id i))"

definition q_search_saved_items ::
  "similarity \<Rightarrow> uuid \<Rightarrow> string \<Rightarrow> int \<Rightarrow> (library_db, search_saved_item list) query" where
  "q_search_saved_items ws uid query result_limit =
     reading (\<lambda>db. limit_rows result_limit (sort_key item_rank (searched_items ws uid query db)))"

definition collection_matches :: "similarity \<Rightarrow> string \<Rightarrow> collection \<Rightarrow> bool" where
  "collection_matches ws query c \<longleftrightarrow> contains_pattern query (Some (c_name c)) \<or> ws query (c_name c) > 3/10"

definition collection_score :: "similarity \<Rightarrow> string \<Rightarrow> collection \<Rightarrow> rat" where
  "collection_score ws query c = (if contains_pattern query (Some (c_name c)) then 10 else 0) + 95/100 * ws query (c_name c)"

definition q_search_collections ::
  "similarity \<Rightarrow> uuid \<Rightarrow> string \<Rightarrow> int \<Rightarrow> (library_db, search_collection list) query" where
  "q_search_collections ws uid query result_limit =
     reading (\<lambda>db. limit_rows result_limit
       (map (\<lambda>c. \<lparr>sc_id = c_id c, sc_name = c_name c, sc_score = collection_score ws query c\<rparr>)
         (sort_key (\<lambda>c. (- collection_score ws query c, newest_key c))
           (filter (\<lambda>c. c_user c = uid \<and> collection_matches ws query c) (lib_collections db)))))"

section \<open>Repository\<close>

definition repo_search_saved_items ::
  "similarity \<Rightarrow> uuid \<Rightarrow> string \<Rightarrow> int \<Rightarrow> (library_db, search_saved_item list) prog" where
  "repo_search_saved_items ws uid query limit = pool (q_search_saved_items ws uid query limit) fail_internal ret"

definition repo_search_collections ::
  "similarity \<Rightarrow> uuid \<Rightarrow> string \<Rightarrow> int \<Rightarrow> (library_db, search_collection list) prog" where
  "repo_search_collections ws uid query limit = pool (q_search_collections ws uid query limit) fail_internal ret"

section \<open>Service\<close>

definition query_min_length :: nat where "query_min_length = 2"
definition query_max_length :: nat where "query_max_length = 128"
definition saved_item_default_limit :: int where "saved_item_default_limit = 20"
definition saved_item_max_limit :: int where "saved_item_max_limit = 50"
definition collection_limit :: int where "collection_limit = 5"

definition invalid_search_query :: "string \<Rightarrow> go_error" where
  "invalid_search_query message = bad_request_with ''INVALID_SEARCH_QUERY'' message None"

definition normalize_query :: "string \<Rightarrow> go_error + string" where
  "normalize_query query =
     (let trimmed = trim_space query; n = rune_count trimmed in
      if trimmed = '''' then Inl (invalid_search_query ''search query must not be blank'')
      else if n < query_min_length then Inl (invalid_search_query ''search query is too short'')
      else if n > query_max_length then Inl (invalid_search_query ''search query is too long'')
      else Inr trimmed)"

definition normalize_saved_item_limit :: "int \<Rightarrow> int" where
  "normalize_saved_item_limit limit =
     (if limit \<le> 0 then saved_item_default_limit
      else if limit > saved_item_max_limit then saved_item_max_limit
      else limit)"

record search_result =
  sr_saved_items :: "search_saved_item list"
  sr_collections :: "search_collection list"
  sr_limit :: int

definition search :: "similarity \<Rightarrow> uuid \<Rightarrow> string \<Rightarrow> int \<Rightarrow> (library_db, search_result) prog" where
  "search ws uid query limit =
     (case normalize_query query of
        Inl e \<Rightarrow> fail e
      | Inr q \<Rightarrow>
          (let n = normalize_saved_item_limit limit in
           call (repo_search_saved_items ws uid q n) fail (\<lambda>items.
           call (repo_search_collections ws uid q collection_limit) fail (\<lambda>cols.
           ret \<lparr>sr_saved_items = items, sr_collections = cols, sr_limit = n\<rparr>))))"

section \<open>What a pattern matches\<close>

lemma like_any: "like [CHR ''%''] s"
  by (induction s) auto

text \<open>A pattern without special characters.\<close>

definition plain :: "string \<Rightarrow> bool" where
  "plain q \<longleftrightarrow> CHR ''%'' \<notin> set q \<and> CHR ''_'' \<notin> set q \<and> CHR 0x5C \<notin> set q"

lemma like_plain_prefix: "plain q \<Longrightarrow> like (q @ ''%'') s \<longleftrightarrow> (\<exists>b. s = q @ b)"
proof (induction q arbitrary: s)
  case Nil
  then show ?case by (simp add: like_any)
next
  case (Cons p q)
  have "plain q" using Cons.prems by (simp add: plain_def)
  with Cons show ?case by (cases s) (auto simp: plain_def)
qed

lemma like_contains: "plain q \<Longrightarrow> like (CHR ''%'' # q @ ''%'') s \<longleftrightarrow> (\<exists>a b. s = a @ q @ b)"
proof (induction s)
  case Nil
  show ?case using like_plain_prefix[OF Nil, of "[]"] by simp
next
  case (Cons c s)
  have "like (CHR ''%'' # q @ ''%'') (c # s) \<longleftrightarrow> (\<exists>b. c # s = q @ b) \<or> (\<exists>a b. s = a @ q @ b)"
    using like_plain_prefix[OF Cons.prems, of "c # s"] Cons by simp
  also have "\<dots> \<longleftrightarrow> (\<exists>a b. c # s = a @ q @ b)" by (metis append_Cons append_Nil list.exhaust list.inject)
  finally show ?case .
qed

lemma lower_special:
  assumes "ascii_lower c = x" and "x \<in> {CHR ''%'', CHR ''_'', CHR 0x5C}"
  shows "c = x"
proof (rule ccontr)
  assume n: "c \<noteq> x"
  let ?k = "of_char c :: nat"
  have k: "65 \<le> ?k" "?k \<le> 90" and x: "x = char_of (?k + 32)"
    using assms(1) n by (auto simp: ascii_lower_def Let_def split: if_splits)
  have "of_char x = ?k + 32" using k by (simp add: x)
  moreover have "of_char x \<in> {37, 95, 92::nat}" using assms(2) by auto
  ultimately show False using k by auto
qed

lemma plain_lower: "plain q \<Longrightarrow> plain (to_lower q)"
  unfolding plain_def to_lower_def by (auto dest: lower_special[OF sym])

lemma lower_pattern: "to_lower (''%'' @ q @ ''%'') = CHR ''%'' # to_lower q @ ''%''"
  by (simp add: to_lower_def ascii_lower_def)

text \<open>
  A query without \<open>%\<close>, \<open>_\<close> and backslash is what the code says it is: a text matches exactly when it
  contains the query, whatever the case of either.
\<close>

theorem plain_query_matches_substrings:
  assumes "plain q"
  shows "contains_pattern q (Some s) \<longleftrightarrow> sublist (to_lower q) (to_lower s)"
  using like_contains[OF plain_lower[OF assms], of "to_lower s"]
  by (simp add: contains_pattern_def ilike_def lower_pattern sublist_def del: append.simps)

theorem plain_query_matches_substrings_witness:
  "contains_pattern ''go'' (Some ''Learn Go'') \<and> \<not> contains_pattern ''go'' (Some ''Learn C'')"
proof -
  have p: "plain ''go''" by (simp add: plain_def)
  have "sublist (to_lower ''go'') (to_lower ''Learn Go'')" "\<not> sublist (to_lower ''go'') (to_lower ''Learn C'')"
    by code_simp+
  then show ?thesis using plain_query_matches_substrings[OF p] by simp
qed

text \<open>
  The query is put into the pattern as it was typed. A percent sign finds everything, an underscore any
  character, and a query that ends with a backslash does not find the text it spells.
\<close>

lemma wildcards_of_the_query_are_not_escaped:
  "normalize_query ''%%'' = Inr ''%%'' \<and> contains_pattern ''%%'' (Some s) \<and> contains_pattern ''c_t'' (Some ''cat'') \<and>
   \<not> contains_pattern [CHR ''a'', CHR 0x5C] (Some [CHR ''a'', CHR 0x5C])"
proof -
  have "normalize_query ''%%'' = Inr ''%%''" "contains_pattern ''c_t'' (Some ''cat'')"
    "\<not> contains_pattern [CHR ''a'', CHR 0x5C] (Some [CHR ''a'', CHR 0x5C])" by code_simp+
  moreover have "like ''%%%%'' x" for x by (cases x) (simp_all add: like_any)
  then have "contains_pattern ''%%'' (Some s)"
    by (simp add: contains_pattern_def ilike_def to_lower_def ascii_lower_def)
  ultimately show ?thesis by simp
qed

section \<open>What a search returns\<close>

abbreviation result_contains :: "string \<Rightarrow> search_saved_item \<Rightarrow> bool" where
  "result_contains q r \<equiv> has_substring q (ss_title r) (ss_domain r) (ss_url r)"

lemma score_of_match:
  assumes "\<And>a b. 0 \<le> ws a b \<and> ws a b \<le> 1"
  shows "has_substring q t d u \<longleftrightarrow> 10 \<le> text_score ws q t d u"
proof -
  let ?t = "ws q (coalesce_text t)" and ?d = "ws q (coalesce_text d)" and ?u = "ws q u"
  have "0 \<le> ?t" "?t \<le> 1" "0 \<le> ?d" "?d \<le> 1" "0 \<le> ?u" "?u \<le> 1" using assms by auto
  then show ?thesis by (auto simp: text_score_def)
qed

definition result_of :: "similarity \<Rightarrow> uuid \<Rightarrow> string \<Rightarrow> library_db \<Rightarrow> search_saved_item \<Rightarrow> bool" where
  "result_of ws uid q db r \<longleftrightarrow> text_matches ws q (ss_title r) (ss_domain r) (ss_url r) \<and>
     (\<exists>i\<in>set (lib_items db). \<exists>c\<in>set (lib_collections db). si_user i = uid \<and> c_user c = uid \<and>
        c_id c = si_collection i \<and> r = searched_item ws q i c)"

lemma searched_row: "r \<in> set (searched_items ws uid q db) \<Longrightarrow> result_of ws uid q db r"
  by (auto simp: searched_items_def result_of_def searched_item_def)

lemma result_score:
  "result_of ws uid q db r \<Longrightarrow> ss_score r = text_score ws q (ss_title r) (ss_domain r) (ss_url r)"
  by (auto simp: result_of_def searched_item_def)

lemma search_runs:
  assumes "run (search ws uid query limit) db fs = (Inr res, db')"
  shows "db' = db \<and> (\<exists>q. normalize_query query = Inr q \<and>
    sr_saved_items res = take (nat (normalize_saved_item_limit limit)) (sort_key item_rank (searched_items ws uid q db)) \<and>
    sr_limit res = normalize_saved_item_limit limit \<and> length (sr_collections res) \<le> nat collection_limit)"
proof (cases "normalize_query query")
  case (Inl e)
  have "wp (\<lambda>r d'. isl r) (search ws uid query limit) db db" by (simp add: search_def Inl wp_intros)
  from wp_run[OF this assms] show ?thesis by simp
next
  case (Inr q)
  let ?n = "normalize_saved_item_limit limit"
  have n: "0 \<le> ?n" by (simp add: normalize_saved_item_limit_def saved_item_default_limit_def saved_item_max_limit_def)
  have i: "x = take (nat ?n) (sort_key item_rank (searched_items ws uid q db)) \<and> d = db"
    if "q_search_saved_items ws uid q ?n db = Inr (x, d)" for x d
    using that n by (auto simp: q_search_saved_items_def reading_def limit_rows_def)
  have c: "length x \<le> nat collection_limit \<and> d = db" if "q_search_collections ws uid q collection_limit db = Inr (x, d)" for x d
    using that by (auto simp: q_search_collections_def reading_def limit_rows_def split: if_splits)
  have "wp (\<lambda>r d'. case r of Inl _ \<Rightarrow> True | Inr res \<Rightarrow> d' = db \<and>
      sr_saved_items res = take (nat ?n) (sort_key item_rank (searched_items ws uid q db)) \<and> sr_limit res = ?n \<and>
      length (sr_collections res) \<le> nat collection_limit) (search ws uid query limit) db db"
    unfolding search_def Inr sum.case Let_def repo_search_saved_items_def repo_search_collections_def
    by (simp only: call_pool call_fail call_fail_internal call_ret) (intro wp_intros; (simp; fail)?; use i c in fastforce)
  from wp_run[OF this assms] Inr show ?thesis by simp
qed


definition no_similarity :: similarity where "no_similarity a b = 0"

definition search_demo_db :: library_db where
  "search_demo_db = \<lparr>lib_users = [1],
     lib_collections = [\<lparr>c_id = 5, c_user = 1, c_name = ''Gophers'', c_type = ''user'', c_system_key = None,
                         c_created_at = 0, c_updated_at = 0\<rparr>],
     lib_items = [\<lparr>si_id = 7, si_user = 1, si_url = ''https://go.dev'', si_domain = None, si_platform = None,
                   si_title = Some ''Learn Go'', si_description = None, si_image_url = None, si_collection = 5,
                   si_status = ''completed'', si_last_enriched_at = None, si_created_at = 3, si_updated_at = 3\<rparr>]\<rparr>"

lemma search_demo_run:
  "run (search no_similarity 1 '' GO '' 0) search_demo_db [] =
     (Inr (projr (fst (run (search no_similarity 1 '' GO '' 0) search_demo_db []))), search_demo_db) \<and>
   map ss_id (sr_saved_items (projr (fst (run (search no_similarity 1 '' GO '' 0) search_demo_db [])))) = [7]"
  by code_simp


end
