(* ===== verification/NetAddr.thy ===== *)
theory NetAddr
  imports Base64
begin

unbundle bit_operations_syntax

text \<open>
  The parts of Go's package \<open>net\<close> that the configuration uses: the texts of addresses and ranges, the
  canonical text of an address, and which addresses a range holds. An address is its sixteen bytes, an
  IPv4 address in its mapped form, as in \<open>net.IP\<close>. A byte is a number below 256.
\<close>

type_synonym byte = int

section \<open>Parsing\<close>

text \<open>\<open>parseIPv4Fields\<close>: four decimal fields up to 255 without leading zeros.\<close>

definition ip4_field :: "string \<Rightarrow> byte option" where
  "ip4_field s =
     (if s = '''' \<or> (hd s = CHR ''0'' \<and> length s > 1) then None
      else case read_digits 0 s of None \<Rightarrow> None | Some n \<Rightarrow> if n > 255 then None else Some (int n))"

fun all_some :: "'a option list \<Rightarrow> 'a list option" where
  "all_some [] = Some []"
| "all_some (x # xs) =
     (case x of None \<Rightarrow> None | Some y \<Rightarrow> (case all_some xs of None \<Rightarrow> None | Some ys \<Rightarrow> Some (y # ys)))"

definition parse_ip4_fields :: "string \<Rightarrow> byte list option" where
  "parse_ip4_fields s =
     (let parts = split_on CHR ''.'' s in
      if length parts \<noteq> 4 then None else all_some (map ip4_field parts))"

definition hex_value :: "char \<Rightarrow> nat option" where
  "hex_value c =
     (let n = of_char c :: nat in
      if 48 \<le> n \<and> n \<le> 57 then Some (n - 48)
      else if 97 \<le> n \<and> n \<le> 102 then Some (n - 87)
      else if 65 \<le> n \<and> n \<le> 70 then Some (n - 55)
      else None)"

definition hex_number :: "string \<Rightarrow> int" where
  "hex_number s = foldl (\<lambda>acc c. acc * 16 + (case hex_value c of None \<Rightarrow> 0 | Some v \<Rightarrow> int v)) 0 s"

text \<open>
  The loop of \<open>netip.parseIPv6\<close>, with the bytes so far, the place of the ellipsis and the rest of the
  text. A round adds two bytes or ends the loop, so the eight rounds of the counter are those of the code's
  condition \<open>i < 16\<close>.
\<close>

fun ip6_loop :: "nat \<Rightarrow> byte list \<Rightarrow> nat option \<Rightarrow> string \<Rightarrow> (byte list \<times> nat option \<times> string) option" where
  "ip6_loop 0 bytes ellipsis s = Some (bytes, ellipsis, s)"
| "ip6_loop (Suc n) bytes ellipsis s =
     (let h = takeWhile (\<lambda>c. hex_value c \<noteq> None) s; rest = drop (length h) s in
      if h = '''' \<or> length h > 4 then None
      else if rest \<noteq> '''' \<and> hd rest = CHR ''.'' then
        (if ellipsis = None \<and> length bytes \<noteq> 12 then None
         else if length bytes + 4 > 16 then None
         else case parse_ip4_fields s of None \<Rightarrow> None | Some f \<Rightarrow> Some (bytes @ f, ellipsis, ''''))
      else
        (let group = hex_number h; bytes' = bytes @ [group div 256, group mod 256] in
         case rest of
           [] \<Rightarrow> Some (bytes', ellipsis, '''')
         | c # t \<Rightarrow>
             if c \<noteq> CHR '':'' \<or> t = '''' then None
             else if hd t = CHR '':'' then
               (if ellipsis \<noteq> None then None
                else if tl t = '''' then Some (bytes', Some (length bytes'), '''')
                else ip6_loop n bytes' (Some (length bytes')) (tl t))
             else ip6_loop n bytes' ellipsis t))"

definition expand_ellipsis :: "byte list \<times> nat option \<times> string \<Rightarrow> byte list option" where
  "expand_ellipsis r =
     (case r of (bytes, ellipsis, s) \<Rightarrow>
        if s \<noteq> '''' then None
        else if length bytes < 16 then
          (case ellipsis of
             None \<Rightarrow> None
           | Some k \<Rightarrow> Some (take k bytes @ replicate (16 - length bytes) 0 @ drop k bytes))
        else if ellipsis \<noteq> None then None
        else Some bytes)"

text \<open>Addresses with a zone are refused by the callers, so a percent sign is an error here.\<close>

definition parse_ip6 :: "string \<Rightarrow> byte list option" where
  "parse_ip6 s =
     (if CHR ''%'' \<in> set s then None
      else if take 2 s = ''::'' then
        (if drop 2 s = '''' then Some (replicate 16 0)
         else case ip6_loop 8 [] (Some 0) (drop 2 s) of None \<Rightarrow> None | Some r \<Rightarrow> expand_ellipsis r)
      else case ip6_loop 8 [] None s of None \<Rightarrow> None | Some r \<Rightarrow> expand_ellipsis r)"

definition v4_in_v6_prefix :: "byte list" where "v4_in_v6_prefix = replicate 10 0 @ [0xFF, 0xFF]"

text \<open>\<open>netip.ParseAddr\<close>: the sixteen bytes and the length of the family.\<close>

definition parse_addr :: "string \<Rightarrow> (byte list \<times> nat) option" where
  "parse_addr s =
     (case dropWhile (\<lambda>c. c \<notin> {CHR ''.'', CHR '':'', CHR ''%''}) s of
        [] \<Rightarrow> None
      | c # _ \<Rightarrow>
          if c = CHR ''.'' then map_option (\<lambda>f. (v4_in_v6_prefix @ f, 32)) (parse_ip4_fields s)
          else if c = CHR '':'' then map_option (\<lambda>b. (b, 128)) (parse_ip6 s)
          else None)"

definition parse_ip :: "string \<Rightarrow> byte list option" where
  "parse_ip s = map_option fst (parse_addr s)"

section \<open>Text\<close>

definition to4 :: "byte list \<Rightarrow> byte list option" where
  "to4 ip = (if length ip = 4 then Some ip
             else if length ip = 16 \<and> take 12 ip = v4_in_v6_prefix then Some (drop 12 ip)
             else None)"

fun join_with :: "string \<Rightarrow> string list \<Rightarrow> string" where
  "join_with sep [] = ''''"
| "join_with sep [x] = x"
| "join_with sep (x # y # xs) = x @ sep @ join_with sep (y # xs)"

text \<open>\<open>appendHex\<close>: a group in hexadecimal without leading zeros.\<close>

definition hex_char :: "int \<Rightarrow> char" where
  "hex_char v = ''0123456789abcdef'' ! nat v"

definition hex_text :: "int \<Rightarrow> string" where
  "hex_text x =
     (if x \<ge> 0x1000 then [hex_char (x div 0x1000)] else '''') @
     (if x \<ge> 0x100 then [hex_char (x div 0x100 mod 0x10)] else '''') @
     (if x \<ge> 0x10 then [hex_char (x div 0x10 mod 0x10)] else '''') @
     [hex_char (x mod 0x10)]"

fun groups_of :: "byte list \<Rightarrow> int list" where
  "groups_of (a # b # r) = (a * 256 + b) # groups_of r"
| "groups_of _ = []"

text \<open>The first longest run of at least two zero groups, as its start and length.\<close>

definition zero_run :: "int list \<Rightarrow> (nat \<times> nat) option" where
  "zero_run g =
     foldl (\<lambda>best i. let l = length (takeWhile (\<lambda>x. x = 0) (drop i g)) in
              if l \<ge> 2 \<and> (case best of None \<Rightarrow> True | Some (_, k) \<Rightarrow> l > k) then Some (i, l) else best)
       None [0..<8]"

definition hex_groups :: "int list \<Rightarrow> string" where
  "hex_groups g = join_with '':'' (map hex_text g)"

definition ip6_text :: "byte list \<Rightarrow> string" where
  "ip6_text ip =
     (let g = groups_of ip in
      case zero_run g of
        None \<Rightarrow> hex_groups g
      | Some (k, l) \<Rightarrow> hex_groups (take k g) @ ''::'' @ hex_groups (drop (k + l) g))"

text \<open>\<open>IP.String\<close>.\<close>

definition ip_string :: "byte list \<Rightarrow> string" where
  "ip_string ip =
     (case to4 ip of Some q \<Rightarrow> join_with ''.'' (map (\<lambda>b. decimal (nat b)) q) | None \<Rightarrow> ip6_text ip)"

definition ip_is_unspecified :: "byte list \<Rightarrow> bool" where
  "ip_is_unspecified ip \<longleftrightarrow> ip = v4_in_v6_prefix @ [0, 0, 0, 0] \<or> ip = replicate 16 0"

section \<open>Ranges\<close>

record ip_net =
  net_ip :: "byte list"
  net_mask :: "byte list"
  net_ones :: nat

text \<open>\<open>CIDRMask\<close>; the complement of a byte is its difference to 255.\<close>

definition cidr_mask :: "nat \<Rightarrow> nat \<Rightarrow> byte list" where
  "cidr_mask ones bits = map (\<lambda>i. if ones \<ge> 8 * i + 8 then 0xFF else 0xFF - 0xFF div 2 ^ (ones - 8 * i)) [0..<bits div 8]"

definition ip_mask :: "byte list \<Rightarrow> byte list \<Rightarrow> byte list" where
  "ip_mask ip msk =
     (let ip' = (if length msk = 4 \<and> length ip = 16 \<and> take 12 ip = v4_in_v6_prefix then drop 12 ip else ip) in
      map2 (AND) ip' msk)"

text \<open>\<open>ParseCIDR\<close>; the mask's prefix length is what \<open>Mask.Size\<close> gives back.\<close>

definition parse_cidr :: "string \<Rightarrow> ip_net option" where
  "parse_cidr s =
     (case split_two CHR ''/'' s of
        [address, msk] \<Rightarrow>
          (case (parse_addr address, read_digits 0 msk) of
             (Some (ip, bits), Some n) \<Rightarrow>
               if msk = '''' \<or> n > bits then None
               else Some \<lparr>net_ip = ip_mask ip (cidr_mask n bits), net_mask = cidr_mask n bits, net_ones = n\<rparr>
           | _ \<Rightarrow> None)
      | _ \<Rightarrow> None)"

text \<open>\<open>networkNumberAndMask\<close> and \<open>IPNet.Contains\<close>.\<close>

definition network_number_and_mask :: "ip_net \<Rightarrow> byte list \<times> byte list" where
  "network_number_and_mask n =
     (let ip = (case to4 (net_ip n) of Some q \<Rightarrow> q | None \<Rightarrow> net_ip n); m = net_mask n in
      if length m = 4 then (if length ip \<noteq> 4 then ([], []) else (ip, m))
      else (if length ip = 4 then (ip, drop 12 m) else (ip, m)))"

definition net_contains :: "ip_net \<Rightarrow> byte list \<Rightarrow> bool" where
  "net_contains n ip =
     (let (nn, m) = network_number_and_mask n; x = (case to4 ip of Some q \<Rightarrow> q | None \<Rightarrow> ip) in
      length x = length nn \<and> map2 (AND) nn m = map2 (AND) x m)"

section \<open>Examples from the package's documentation\<close>

lemma address_texts:
  "parse_ip ''192.0.2.1'' = Some (v4_in_v6_prefix @ [192, 0, 2, 1])"
  "parse_ip ''2001:db8::68'' = Some ([0x20, 0x01, 0x0D, 0xB8] @ replicate 11 0 @ [0x68])"
  "parse_ip ''::ffff:10.1.2.3'' = parse_ip ''10.1.2.3''"
  "parse_ip ''192.0.2'' = None" "parse_ip ''192.0.02.1'' = None" "parse_ip ''1::2::3'' = None"
  "map_option ip_string (parse_ip ''2001:DB8:0:0:1::1'') = Some ''2001:db8::1:0:0:1''"
  "map_option ip_string (parse_ip ''::ffff:10.1.2.3'') = Some ''10.1.2.3''"
  by code_simp+

lemma range_texts:
  "map_option net_ip (parse_cidr ''10.1.2.3/8'') = Some [10, 0, 0, 0]"
  "map_option net_ip (parse_cidr ''2001:db8::/33'') = Some ([0x20, 0x01, 0x0D, 0xB8] @ replicate 12 0)"
  "parse_cidr ''10.0.0.0/33'' = None" "parse_cidr ''10.0.0.0'' = None"
  by code_simp+

lemma range_members:
  "map_option (\<lambda>n. net_contains n (v4_in_v6_prefix @ [10, 9, 8, 7])) (parse_cidr ''10.1.2.3/8'') = Some True"
  "map_option (\<lambda>n. net_contains n (v4_in_v6_prefix @ [11, 9, 8, 7])) (parse_cidr ''10.1.2.3/8'') = Some False"
  by code_simp+

end
