(* ===== verification/Configuration.thy ===== *)
theory Configuration
  imports NetAddr EmailBudget PasswordWork
begin

text \<open>
  Configuration: \<open>internal/config\<close>, the settings the API and the worker read from the environment, and what
  they build from them. \<open>godotenv.Load\<close> is an argument: it gives an error or the environment it leaves. An
  unset variable is the empty text, as \<open>os.Getenv\<close> gives it.
\<close>

type_synonym env = "string \<Rightarrow> string"

datatype env_file_error = EnvFileMissing | EnvFileBroken string

type_synonym load_env_file = "string \<Rightarrow> env \<Rightarrow> env_file_error + env"

text \<open>The errors, one constructor for a message, with what the message quotes.\<close>

datatype config_error =
    EnvFileFailed string env_file_error
  | SettingRequired string
  | NotAWholeNumber string
  | OutOfRange string int int int
  | UnknownClientIPSource string
  | ProxiesWithoutProxySource
  | HeaderWithoutProxySource
  | ProxySourceWithoutProxies
  | ProxyIsNoAddress string
  | ProxyIsUnspecified string
  | ProxyIsNotCanonical string string
  | ProxyRangeTooBroad string
  | WindowOutOfRange
  | PerEmailExceedsGlobal int int

section \<open>Numbers\<close>

text \<open>\<open>strconv.Atoi\<close>; its two errors are not told apart.\<close>

definition atoi :: "string \<Rightarrow> int option" where
  "atoi s =
     (let negative = (s \<noteq> '''' \<and> hd s = CHR ''-'');
          digits = (if s \<noteq> '''' \<and> (hd s = CHR ''-'' \<or> hd s = CHR ''+'') then tl s else s) in
      if digits = '''' then None
      else case read_digits 0 digits of
             None \<Rightarrow> None
           | Some n \<Rightarrow>
               (let v = (if negative then - int n else int n) in
                if - (2 ^ 63) \<le> v \<and> v < 2 ^ 63 then Some v else None))"

definition load_bounded_int :: "env \<Rightarrow> string \<Rightarrow> int \<Rightarrow> int \<Rightarrow> int \<Rightarrow> config_error + int" where
  "load_bounded_int env name fallback minimum maximum =
     (if env name = '''' then Inr fallback
      else case atoi (env name) of
             None \<Rightarrow> Inl (NotAWholeNumber name)
           | Some value \<Rightarrow>
               if value < minimum \<or> value > maximum then Inl (OutOfRange name minimum maximum value)
               else Inr value)"

section \<open>Password work\<close>

definition default_password_work_concurrency :: int where "default_password_work_concurrency = 1"
definition min_password_work_concurrency :: int where "min_password_work_concurrency = 1"
definition max_password_work_concurrency :: int where "max_password_work_concurrency = 64"
definition default_password_work_wait_ms :: int where "default_password_work_wait_ms = 1000"
definition min_password_work_wait_ms :: int where "min_password_work_wait_ms = 0"
definition max_password_work_wait_ms :: int where "max_password_work_wait_ms = 60000"

definition bind_sum :: "'e + 'a \<Rightarrow> ('a \<Rightarrow> 'e + 'b) \<Rightarrow> 'e + 'b" where
  "bind_sum x f = (case x of Inl e \<Rightarrow> Inl e | Inr a \<Rightarrow> f a)"

definition load_password_work :: "env \<Rightarrow> config_error + int \<times> duration" where
  "load_password_work env =
     bind_sum (load_bounded_int env ''PASSWORD_WORK_CONCURRENCY'' default_password_work_concurrency
                 min_password_work_concurrency max_password_work_concurrency) (\<lambda>concurrency.
     bind_sum (load_bounded_int env ''PASSWORD_WORK_WAIT_MS'' default_password_work_wait_ms
                 min_password_work_wait_ms max_password_work_wait_ms) (\<lambda>wait_ms.
     Inr (concurrency, wait_ms * millisecond)))"

section \<open>The PIN email budget\<close>

definition default_per_email_max :: int where "default_per_email_max = 10"
definition min_per_email_max :: int where "min_per_email_max = 1"
definition max_per_email_max :: int where "max_per_email_max = 100"
definition default_global_max :: int where "default_global_max = 250"
definition min_global_max :: int where "min_global_max = 1"
definition max_global_max :: int where "max_global_max = 1000000"
definition default_window_seconds :: int where "default_window_seconds = 86400"
definition min_window_seconds :: int where "min_window_seconds = 1"
definition max_window_seconds :: int where "max_window_seconds = 30 * 86400"

record budget_config =
  bc_per_email_max :: int
  bc_per_email_window :: duration
  bc_global_max :: int
  bc_global_window :: duration

definition default_pin_email_budget :: budget_config where
  "default_pin_email_budget =
     \<lparr>bc_per_email_max = default_per_email_max, bc_per_email_window = default_window_seconds * second,
      bc_global_max = default_global_max, bc_global_window = default_window_seconds * second\<rparr>"

definition window_in_range :: "duration \<Rightarrow> bool" where
  "window_in_range window \<longleftrightarrow> \<not> (window < min_window_seconds * second \<or> window > max_window_seconds * second)"

definition validate_budget :: "budget_config \<Rightarrow> config_error option" where
  "validate_budget b =
     (if bc_per_email_max b < min_per_email_max \<or> bc_per_email_max b > max_per_email_max then
        Some (OutOfRange ''PIN_EMAIL_BUDGET_PER_EMAIL_MAX'' min_per_email_max max_per_email_max (bc_per_email_max b))
      else if bc_global_max b < min_global_max \<or> bc_global_max b > max_global_max then
        Some (OutOfRange ''PIN_EMAIL_BUDGET_GLOBAL_MAX'' min_global_max max_global_max (bc_global_max b))
      else if \<not> window_in_range (bc_per_email_window b) then Some WindowOutOfRange
      else if \<not> window_in_range (bc_global_window b) then Some WindowOutOfRange
      else if bc_per_email_max b > bc_global_max b then
        Some (PerEmailExceedsGlobal (bc_per_email_max b) (bc_global_max b))
      else None)"

definition load_pin_email_budget :: "env \<Rightarrow> config_error + budget_config" where
  "load_pin_email_budget env =
     bind_sum (load_bounded_int env ''PIN_EMAIL_BUDGET_PER_EMAIL_MAX'' default_per_email_max
                 min_per_email_max max_per_email_max) (\<lambda>per_email.
     bind_sum (load_bounded_int env ''PIN_EMAIL_BUDGET_GLOBAL_MAX'' default_global_max
                 min_global_max max_global_max) (\<lambda>global.
     bind_sum (load_bounded_int env ''PIN_EMAIL_BUDGET_WINDOW_SECONDS'' default_window_seconds
                 min_window_seconds max_window_seconds) (\<lambda>secs.
     (let budget = \<lparr>bc_per_email_max = per_email, bc_per_email_window = secs * second,
                    bc_global_max = global, bc_global_window = secs * second\<rparr> in
      case validate_budget budget of Some e \<Rightarrow> Inl e | None \<Rightarrow> Inr budget))))"

text \<open>\<open>NewPINEmailBudget\<close>, as \<open>cmd/api\<close> calls it.\<close>

definition new_pin_email_budget :: "budget_config \<Rightarrow> pin_email_budget" where
  "new_pin_email_budget b =
     \<lparr>b_per_email = \<lparr>sp_max = bc_per_email_max b, sp_window = bc_per_email_window b\<rparr>,
      b_global = \<lparr>sp_max = bc_global_max b, sp_window = bc_global_window b\<rparr>\<rparr>"

section \<open>Where the client address comes from\<close>

datatype client_ip_source = SourcePeer | SourceProxy

definition default_trusted_proxy_header :: string where
  "default_trusted_proxy_header = ''X-Forwarded-For''"

definition split_list :: "string \<Rightarrow> string list" where
  "split_list value = filter (\<lambda>s. s \<noteq> '''') (map trim_space (split_on CHR '','' value))"

definition minimum_prefix :: nat where "minimum_prefix = 8"

definition validate_proxy_network :: "string \<Rightarrow> config_error option" where
  "validate_proxy_network entry =
     (case parse_cidr entry of
        None \<Rightarrow> Some (ProxyIsNoAddress entry)
      | Some network \<Rightarrow> if net_ones network < minimum_prefix then Some (ProxyRangeTooBroad entry) else None)"

definition validate_proxy_entry :: "string \<Rightarrow> config_error option" where
  "validate_proxy_entry entry =
     (if parse_cidr entry \<noteq> None then validate_proxy_network entry
      else case parse_ip entry of
             None \<Rightarrow> Some (ProxyIsNoAddress entry)
           | Some ip \<Rightarrow>
               if ip_is_unspecified ip then Some (ProxyIsUnspecified entry)
               else if ip_string ip \<noteq> entry then Some (ProxyIsNotCanonical entry (ip_string ip))
               else None)"

fun first_error :: "config_error option list \<Rightarrow> config_error option" where
  "first_error [] = None"
| "first_error (Some e # es) = Some e"
| "first_error (None # es) = first_error es"

definition parse_source :: "string \<Rightarrow> client_ip_source option" where
  "parse_source s = (if s = ''peer'' then Some SourcePeer else if s = ''proxy'' then Some SourceProxy else None)"

definition load_client_ip :: "env \<Rightarrow> config_error + client_ip_source \<times> string list \<times> string" where
  "load_client_ip env =
     (let given = to_lower (trim_space (env ''CLIENT_IP_SOURCE''));
          name = (if given = '''' then ''peer'' else given);
          proxies = split_list (env ''TRUSTED_PROXIES'');
          header = trim_space (env ''TRUSTED_PROXY_HEADER'') in
      case parse_source name of
        None \<Rightarrow> Inl (UnknownClientIPSource name)
      | Some SourcePeer \<Rightarrow>
          if proxies \<noteq> [] then Inl ProxiesWithoutProxySource
          else if header \<noteq> '''' then Inl HeaderWithoutProxySource
          else Inr (SourcePeer, [], '''')
      | Some SourceProxy \<Rightarrow>
          if proxies = [] then Inl ProxySourceWithoutProxies
          else (case first_error (map validate_proxy_entry proxies) of
                  Some e \<Rightarrow> Inl e
                | None \<Rightarrow> Inr (SourceProxy, proxies, if header = '''' then default_trusted_proxy_header else header)))"

section \<open>The configuration of the API\<close>

record api_config =
  cf_app_env :: string
  cf_database_url :: string
  cf_verification_code_secret :: string
  cf_access_token_secret :: string
  cf_google_client_id :: string
  cf_google_desktop_client_id :: string
  cf_redis_url :: string
  cf_client_ip_source :: client_ip_source
  cf_trusted_proxies :: "string list"
  cf_trusted_proxy_header :: string
  cf_password_work_concurrency :: int
  cf_password_work_wait :: duration
  cf_pin_email_budget :: budget_config
  cf_session_cleanup_secret :: string

definition required :: "env \<Rightarrow> string \<Rightarrow> config_error + string" where
  "required env name = (if env name = '''' then Inl (SettingRequired name) else Inr (env name))"

definition app_env :: "env \<Rightarrow> string" where
  "app_env env = (if env ''APP_ENV'' = '''' then ''development'' else env ''APP_ENV'')"

definition load_config :: "load_env_file \<Rightarrow> env \<Rightarrow> config_error + api_config" where
  "load_config load_file env0 =
     (let envfile = ''.env.'' @ app_env env0 in
      case load_file envfile env0 of
        Inl e \<Rightarrow> Inl (EnvFileFailed envfile e)
      | Inr env \<Rightarrow>
          bind_sum (required env ''DATABASE_URL'') (\<lambda>database_url.
          bind_sum (required env ''VERIFICATION_CODE_SECRET'') (\<lambda>code_secret.
          bind_sum (required env ''ACCESS_TOKEN_SECRET'') (\<lambda>token_secret.
          bind_sum (required env ''GOOGLE_CLIENT_ID'') (\<lambda>google_client_id.
          bind_sum (required env ''REDIS_URL'') (\<lambda>redis_url.
          bind_sum (load_client_ip env) (\<lambda>(src, proxies, header).
          bind_sum (load_password_work env) (\<lambda>(concurrency, wait).
          bind_sum (load_pin_email_budget env) (\<lambda>budget.
          Inr \<lparr>cf_app_env = app_env env0, cf_database_url = database_url, cf_verification_code_secret = code_secret,
               cf_access_token_secret = token_secret, cf_google_client_id = google_client_id,
               cf_google_desktop_client_id = env ''GOOGLE_DESKTOP_CLIENT_ID'', cf_redis_url = redis_url,
               cf_client_ip_source = src, cf_trusted_proxies = proxies, cf_trusted_proxy_header = header,
               cf_password_work_concurrency = concurrency, cf_password_work_wait = wait, cf_pin_email_budget = budget,
               cf_session_cleanup_secret = env ''SESSION_CLEANUP_SECRET''\<rparr>)))))))))"

record proxy_config =
  px_trust_proxy :: bool
  px_proxies :: "string list"
  px_header :: string
  px_validation :: bool

definition proxy_settings :: "api_config \<Rightarrow> proxy_config" where
  "proxy_settings c =
     (if cf_client_ip_source c \<noteq> SourceProxy \<or> length (cf_trusted_proxies c) = 0
      then \<lparr>px_trust_proxy = False, px_proxies = [], px_header = '''', px_validation = False\<rparr>
      else \<lparr>px_trust_proxy = True, px_proxies = cf_trusted_proxies c, px_header = cf_trusted_proxy_header c,
            px_validation = True\<rparr>)"

section \<open>The configuration of the worker\<close>

definition default_worker_concurrency :: int where "default_worker_concurrency = 5"
definition min_worker_concurrency :: int where "min_worker_concurrency = 1"
definition max_worker_concurrency :: int where "max_worker_concurrency = 20"

record worker_config =
  wc_app_env :: string
  wc_database_url :: string
  wc_redis_url :: string
  wc_concurrency :: int

definition load_worker_concurrency :: "env \<Rightarrow> config_error + int" where
  "load_worker_concurrency env =
     (if env ''WORKER_CONCURRENCY'' = '''' then Inr default_worker_concurrency
      else case atoi (env ''WORKER_CONCURRENCY'') of
             None \<Rightarrow> Inl (NotAWholeNumber ''WORKER_CONCURRENCY'')
           | Some value \<Rightarrow>
               if value < min_worker_concurrency \<or> value > max_worker_concurrency
               then Inl (OutOfRange ''WORKER_CONCURRENCY'' min_worker_concurrency max_worker_concurrency value)
               else Inr value)"

definition load_worker :: "load_env_file \<Rightarrow> env \<Rightarrow> config_error + worker_config" where
  "load_worker load_file env0 =
     (let envfile = ''.env.'' @ app_env env0 in
      bind_sum (case load_file envfile env0 of
                  Inr env \<Rightarrow> Inr env
                | Inl EnvFileMissing \<Rightarrow> Inr env0
                | Inl e \<Rightarrow> Inl (EnvFileFailed envfile e)) (\<lambda>env.
      bind_sum (load_worker_concurrency env) (\<lambda>concurrency.
      bind_sum (required env ''DATABASE_URL'') (\<lambda>database_url.
      bind_sum (required env ''REDIS_URL'') (\<lambda>redis_url.
      Inr \<lparr>wc_app_env = app_env env0, wc_database_url = database_url, wc_redis_url = redis_url,
           wc_concurrency = concurrency\<rparr>)))))"

end
