(* ===== verification/ConfigurationProps.thy ===== *)
theory ConfigurationProps
  imports Configuration
begin

text \<open>
  What an accepted configuration promises the components built from it, and where the check of the proxy
  ranges has a gap.
\<close>

section \<open>Accepted values are in range\<close>

lemma bind_sum_Inr: "bind_sum x f = Inr b \<longleftrightarrow> (\<exists>a. x = Inr a \<and> f a = Inr b)"
  by (cases x) (simp_all add: bind_sum_def)

lemma required_Inr: "required env name = Inr v \<longleftrightarrow> v = env name \<and> v \<noteq> ''''"
  by (auto simp: required_def)

lemma bounded_int_range:
  assumes "load_bounded_int env name fallback lo hi = Inr v" and "lo \<le> fallback" and "fallback \<le> hi"
  shows "lo \<le> v \<and> v \<le> hi"
  using assms by (auto simp: load_bounded_int_def split: if_splits option.splits)

lemma worker_concurrency_range: "load_worker_concurrency env = Inr v \<Longrightarrow> 1 \<le> v \<and> v \<le> 20"
  by (auto simp: load_worker_concurrency_def default_worker_concurrency_def min_worker_concurrency_def
      max_worker_concurrency_def split: if_splits option.splits)

lemma password_work_range:
  assumes "load_password_work env = Inr (n, wait)"
  shows "1 \<le> n \<and> n \<le> 64 \<and> 0 \<le> wait \<and> wait \<le> 60 * second"
proof -
  obtain ms where n: "load_bounded_int env ''PASSWORD_WORK_CONCURRENCY'' default_password_work_concurrency
        min_password_work_concurrency max_password_work_concurrency = Inr n"
    and w: "load_bounded_int env ''PASSWORD_WORK_WAIT_MS'' default_password_work_wait_ms
        min_password_work_wait_ms max_password_work_wait_ms = Inr ms" and wait: "wait = ms * millisecond"
    using assms by (auto simp: load_password_work_def bind_sum_Inr)
  have "1 \<le> n \<and> n \<le> 64" "0 \<le> ms \<and> ms \<le> 60000"
    using bounded_int_range[OF n] bounded_int_range[OF w]
    by (simp_all add: default_password_work_concurrency_def min_password_work_concurrency_def
        max_password_work_concurrency_def default_password_work_wait_ms_def min_password_work_wait_ms_def
        max_password_work_wait_ms_def)
  then show ?thesis by (simp add: wait)
qed

lemma email_budget_range:
  assumes "load_pin_email_budget env = Inr b"
  shows "1 \<le> bc_per_email_max b \<and> bc_per_email_max b \<le> bc_global_max b \<and>
    second \<le> bc_global_window b \<and> bc_global_window b \<le> 30 * 86400 * second \<and>
    bc_per_email_window b = bc_global_window b"
proof -
  have "validate_budget b = None" "bc_per_email_window b = bc_global_window b"
    using assms by (auto simp: load_pin_email_budget_def bind_sum_Inr Let_def split: option.splits)
  then show ?thesis
    by (auto simp: validate_budget_def window_in_range_def min_per_email_max_def min_window_seconds_def
        max_window_seconds_def split: if_splits)
qed

lemma first_error_None: "first_error es = None \<longleftrightarrow> list_all (\<lambda>e. e = None) es"
  by (induction es rule: first_error.induct) simp_all

definition names_proxies :: "string \<Rightarrow> bool" where
  "names_proxies entry \<longleftrightarrow>
     (\<exists>n. parse_cidr entry = Some n \<and> 8 \<le> net_ones n) \<or>
     (\<exists>ip. parse_ip entry = Some ip \<and> ip_string ip = entry \<and> \<not> ip_is_unspecified ip)"

lemma accepted_entry: "validate_proxy_entry entry = None \<Longrightarrow> names_proxies entry"
  by (auto simp: validate_proxy_entry_def validate_proxy_network_def names_proxies_def minimum_prefix_def
      split: if_splits option.splits)

lemma client_ip_accepted:
  assumes "load_client_ip env = Inr (src, proxies, header)"
  shows "if src = SourceProxy then proxies \<noteq> [] \<and> header \<noteq> '''' \<and> list_all names_proxies proxies
         else proxies = [] \<and> header = ''''"
  using assms accepted_entry
  by (auto simp: load_client_ip_def Let_def default_trusted_proxy_header_def first_error_None list_all_iff
      split: option.splits client_ip_source.splits if_splits)

lemma load_config_parts:
  assumes "load_config load_file env0 = Inr c"
  obtains env where
    "load_password_work env = Inr (cf_password_work_concurrency c, cf_password_work_wait c)"
    "load_pin_email_budget env = Inr (cf_pin_email_budget c)"
    "load_client_ip env = Inr (cf_client_ip_source c, cf_trusted_proxies c, cf_trusted_proxy_header c)"
    "'''' \<notin> set [cf_database_url c, cf_verification_code_secret c, cf_access_token_secret c,
                  cf_google_client_id c, cf_redis_url c]"
  using assms by (auto simp: load_config_def Let_def bind_sum_Inr required_Inr split: sum.splits)

text \<open>
  C39. A configuration the API accepts can be enforced. The secrets and addresses it needs are there; the
  password limiter accepts the concurrency and the wait; the two PIN email policies are accepted by the
  rolling-window limiter, no address may hold more than the deployment, and both measure the same window,
  of at most thirty days.
\<close>

theorem accepted_configuration_can_be_enforced:
  assumes "load_config load_file env = Inr c"
  shows "'''' \<notin> set [cf_database_url c, cf_verification_code_secret c, cf_access_token_secret c,
           cf_google_client_id c, cf_redis_url c] \<and>
    new_password_work_limiter (cf_password_work_concurrency c) (cf_password_work_wait c) =
      Inr (nat (cf_password_work_concurrency c), cf_password_work_wait c) \<and>
    cf_password_work_concurrency c \<le> 64 \<and> cf_password_work_wait c \<le> 60 * second \<and>
    (case new_pin_email_budget (cf_pin_email_budget c) of b \<Rightarrow>
       sliding_policy_error (b_per_email b) = None \<and> sliding_policy_error (b_global b) = None \<and>
       sp_max (b_per_email b) \<le> sp_max (b_global b) \<and> sp_window (b_per_email b) = sp_window (b_global b) \<and>
       sp_window (b_global b) \<le> 30 * 86400 * second)"
proof -
  obtain e where parts: "load_password_work e = Inr (cf_password_work_concurrency c, cf_password_work_wait c)"
      "load_pin_email_budget e = Inr (cf_pin_email_budget c)"
      "'''' \<notin> set [cf_database_url c, cf_verification_code_secret c, cf_access_token_secret c,
           cf_google_client_id c, cf_redis_url c]"
    using load_config_parts[OF assms] by metis
  show ?thesis
    using password_work_range[OF parts(1)] email_budget_range[OF parts(2)] parts(3)
    by (simp add: new_password_work_limiter_def new_pin_email_budget_def sliding_policy_error_def)
qed

text \<open>
  C40. A forwarded address is believed only from listed proxies. With an accepted configuration the
  framework trusts a header exactly when the proxy source was declared, and then a header is named, its
  addresses are validated, and there is a list whose every entry is a range of at least eight bits or an
  address in the canonical text a peer is compared by; otherwise no header and no proxy is handed over.
\<close>

theorem forwarded_addresses_need_listed_proxies:
  assumes "load_config load_file env = Inr c"
  shows "(px_trust_proxy (proxy_settings c) \<longleftrightarrow> cf_client_ip_source c = SourceProxy) \<and>
    (if px_trust_proxy (proxy_settings c)
     then px_proxies (proxy_settings c) \<noteq> [] \<and> list_all names_proxies (px_proxies (proxy_settings c)) \<and>
       px_header (proxy_settings c) \<noteq> '''' \<and> px_validation (proxy_settings c)
     else px_proxies (proxy_settings c) = [] \<and> px_header (proxy_settings c) = '''')"
proof -
  obtain e where "load_client_ip e = Inr (cf_client_ip_source c, cf_trusted_proxies c, cf_trusted_proxy_header c)"
    using load_config_parts[OF assms] by metis
  from client_ip_accepted[OF this] show ?thesis
    by (simp add: proxy_settings_def split: if_splits)
qed

section \<open>An example\<close>

definition demo_environment :: env where
  "demo_environment name =
     (if name = ''APP_ENV'' then ''production''
      else if name = ''CLIENT_IP_SOURCE'' then '' Proxy''
      else if name = ''TRUSTED_PROXIES'' then ''10.0.0.0/8, 2001:db8::1,''
      else if name = ''PIN_EMAIL_BUDGET_PER_EMAIL_MAX'' then ''+5''
      else if name = ''PASSWORD_WORK_CONCURRENCY'' then ''4''
      else if name \<in> {''DATABASE_URL'', ''VERIFICATION_CODE_SECRET'', ''ACCESS_TOKEN_SECRET'', ''GOOGLE_CLIENT_ID'',
                      ''REDIS_URL''} then ''given''
      else '''')"

definition demo_load_file :: load_env_file where "demo_load_file envfile e = Inr e"

lemma demo_config:
  "case load_config demo_load_file demo_environment of
     Inl _ \<Rightarrow> False
   | Inr c \<Rightarrow> cf_client_ip_source c = SourceProxy \<and> cf_trusted_proxies c = [''10.0.0.0/8'', ''2001:db8::1''] \<and>
       cf_trusted_proxy_header c = ''X-Forwarded-For'' \<and> cf_password_work_concurrency c = 4 \<and>
       bc_per_email_max (cf_pin_email_budget c) = 5"
  by code_simp

lemma demo_config_accepted:
  obtains c where "load_config demo_load_file demo_environment = Inr c" "cf_client_ip_source c = SourceProxy"
    "cf_trusted_proxies c = [''10.0.0.0/8'', ''2001:db8::1'']" "cf_password_work_concurrency c = 4"
  using demo_config by (auto split: sum.splits)

theorem accepted_configuration_can_be_enforced_witness:
  "\<exists>c. load_config demo_load_file demo_environment = Inr c \<and>
     new_password_work_limiter 4 (cf_password_work_wait c) = Inr (4, cf_password_work_wait c)"
proof -
  obtain c where c: "load_config demo_load_file demo_environment = Inr c" "cf_password_work_concurrency c = 4"
    using demo_config_accepted by metis
  show ?thesis using accepted_configuration_can_be_enforced[OF c(1)] c by auto
qed

theorem forwarded_addresses_need_listed_proxies_witness: "names_proxies ''2001:db8::1''"
proof -
  obtain c where c: "load_config demo_load_file demo_environment = Inr c" "cf_client_ip_source c = SourceProxy"
      "cf_trusted_proxies c = [''10.0.0.0/8'', ''2001:db8::1'']"
    using demo_config_accepted by metis
  show ?thesis
    using forwarded_addresses_need_listed_proxies[OF c(1)] c(2,3) by (simp add: proxy_settings_def)
qed

section \<open>A range that names everybody\<close>

text \<open>
  The floor of eight bits is meant to refuse ranges that cover most of the internet. A range of mapped
  addresses passes it with ninety-six bits and holds every IPv4 peer, as \<open>IPNet.Contains\<close> compares only the
  last four bytes of such a range.
\<close>

lemma mapped_range_accepted:
  "validate_proxy_entry ''::ffff:0.0.0.0/96'' = None" "validate_proxy_entry ''0.0.0.0/0'' \<noteq> None"
  "map_option network_number_and_mask (parse_cidr ''::ffff:0.0.0.0/96'') = Some ([0, 0, 0, 0], [0, 0, 0, 0])"
  by code_simp+

lemma to4_mapped: "to4 (v4_in_v6_prefix @ [a, b, c, d]) = Some [a, b, c, d]"
  by (simp add: to4_def v4_in_v6_prefix_def)

lemma mapped_range_trusts_every_ipv4_peer:
  "validate_proxy_entry ''::ffff:0.0.0.0/96'' = None \<and>
   (case parse_cidr ''::ffff:0.0.0.0/96'' of
      None \<Rightarrow> False | Some n \<Rightarrow> net_contains n (v4_in_v6_prefix @ [a, b, c, d]))"
  using mapped_range_accepted by (auto simp: net_contains_def to4_mapped split: option.splits)

end
