(* ===== verification/Routes.thy ===== *)
theory Routes
  imports Access
begin

text \<open>
  The routes of the API: what each module's \<open>Routes\<close> registers, with which middleware and which budgets, and
  what a request meets on its way to a handler. The router of Fiber, which picks the route, is not
  modelled; the theorems are about every route.
\<close>

section \<open>Guards and routes\<close>

datatype http_method = Get | Post | Put | Patch | Delete

text \<open>The middleware a route mounts before its handler.\<close>

datatype guard =
    Authenticate
  | IPLimit string policy
  | UserLimit string policy
  | CleanupGuard

datatype endpoint =
    DoRefreshToken | DoLogout | DoListSessions | DoRevokeSession
  | DoRegisterManual | DoGetRegistrationVerification | DoInitiateManualRecovery | DoCreateRegistrationPIN
  | DoResendRegistrationPIN | DoVerifyRegistration | DoGetRegistrationContinuation | DoFinalizeManualRegistration
  | DoFinalizeSocialRegistration | DoLoginManual | DoLoginGoogle | DoGetAccountLink
  | DoConfirmAccountLink | DoRequestPasswordReset | DoGetResetVerification | DoCreateResetPIN
  | DoResendResetPIN | DoVerifyPasswordReset | DoGetResetContinuation | DoFinalizePasswordReset
  | DoGetUser | DoUpdateUser | DoSetPassword | DoCreateSavedItem
  | DoListSavedItems | DoGetSavedItem | DoDeleteSavedItem | DoPutSavedItem
  | DoListCollections | DoListCollectionItems | DoDeleteCollection | DoSearch
  | DoEnrichSavedItem | DoCleanupSessions | DoCheckHealth

record route =
  r_method :: http_method
  r_path :: string
  r_guards :: "guard list"
  r_endpoint :: endpoint

text \<open>\<open>app.Group(prefix)\<close>.\<close>

definition in_group :: "string \<Rightarrow> route \<Rightarrow> route" where
  "in_group prefix r = r\<lparr>r_path := prefix @ (if r_path r = ''/'' then '''' else r_path r)\<rparr>"

section \<open>The budgets\<close>

definition refresh_ip_limit :: guard where
  "refresh_ip_limit = IPLimit ''refresh-ip'' \<lparr>p_max = 60, p_window = 10 * minute\<rparr>"
definition registration_pin_ip_limit :: guard where
  "registration_pin_ip_limit = IPLimit ''pin-ip'' \<lparr>p_max = 20, p_window = 10 * minute\<rparr>"
definition registration_verify_ip_limit :: guard where
  "registration_verify_ip_limit = IPLimit ''verify-ip'' \<lparr>p_max = 20, p_window = 10 * minute\<rparr>"
definition registration_finalize_ip_limit :: guard where
  "registration_finalize_ip_limit = IPLimit ''finalize-ip'' \<lparr>p_max = 10, p_window = 15 * minute\<rparr>"
definition login_ip_limit :: guard where
  "login_ip_limit = IPLimit ''login-ip'' \<lparr>p_max = 30, p_window = 10 * minute\<rparr>"
definition google_auth_ip_limit :: guard where
  "google_auth_ip_limit = IPLimit ''google-auth-ip'' \<lparr>p_max = 60, p_window = 10 * minute\<rparr>"
definition reset_request_ip_limit :: guard where
  "reset_request_ip_limit = IPLimit ''password-reset-request-ip'' \<lparr>p_max = 10, p_window = 10 * minute\<rparr>"
definition reset_status_ip_limit :: guard where
  "reset_status_ip_limit = IPLimit ''password-reset-status-ip'' \<lparr>p_max = 60, p_window = 10 * minute\<rparr>"
definition reset_pin_ip_limit :: guard where
  "reset_pin_ip_limit = IPLimit ''password-reset-pin-ip'' \<lparr>p_max = 20, p_window = 10 * minute\<rparr>"
definition reset_verify_ip_limit :: guard where
  "reset_verify_ip_limit = IPLimit ''password-reset-verify-ip'' \<lparr>p_max = 20, p_window = 10 * minute\<rparr>"
definition reset_finalize_ip_limit :: guard where
  "reset_finalize_ip_limit = IPLimit ''password-reset-finalize-ip'' \<lparr>p_max = 10, p_window = 15 * minute\<rparr>"
definition password_user_limit :: guard where
  "password_user_limit = UserLimit ''user-password-user'' \<lparr>p_max = 5, p_window = 15 * minute\<rparr>"
definition create_user_limit :: guard where
  "create_user_limit = UserLimit ''saved-item-create-user'' \<lparr>p_max = 60, p_window = 10 * minute\<rparr>"
definition search_user_limit :: guard where
  "search_user_limit = UserLimit ''search-user'' \<lparr>p_max = 30, p_window = minute\<rparr>"
definition enrich_user_limit :: guard where
  "enrich_user_limit = UserLimit ''saved-item-enrich-user'' \<lparr>p_max = 10, p_window = minute\<rparr>"

section \<open>The routes of each module\<close>

definition session_routes :: "route list" where
  "session_routes = map (in_group ''/auth'')
    [\<lparr>r_method = Post, r_path = ''/refresh'', r_guards = [refresh_ip_limit], r_endpoint = DoRefreshToken\<rparr>,
     \<lparr>r_method = Post, r_path = ''/logout'', r_guards = [Authenticate], r_endpoint = DoLogout\<rparr>,
     \<lparr>r_method = Get, r_path = ''/sessions'', r_guards = [Authenticate], r_endpoint = DoListSessions\<rparr>,
     \<lparr>r_method = Delete, r_path = ''/sessions/:session_id'', r_guards = [Authenticate], r_endpoint = DoRevokeSession\<rparr>]"

definition registration_routes :: "route list" where
  "registration_routes = map (in_group ''/auth'')
    [\<lparr>r_method = Post, r_path = ''/register/manual'', r_guards = [], r_endpoint = DoRegisterManual\<rparr>,
     \<lparr>r_method = Get, r_path = ''/register/verification/:verification_id'', r_guards = [], r_endpoint = DoGetRegistrationVerification\<rparr>,
     \<lparr>r_method = Post, r_path = ''/register/recovery/manual'', r_guards = [registration_pin_ip_limit], r_endpoint = DoInitiateManualRecovery\<rparr>,
     \<lparr>r_method = Post, r_path = ''/register/verification/:verification_id/pin'', r_guards = [registration_pin_ip_limit], r_endpoint = DoCreateRegistrationPIN\<rparr>,
     \<lparr>r_method = Post, r_path = ''/register/verification/:verification_id/resend'', r_guards = [registration_pin_ip_limit], r_endpoint = DoResendRegistrationPIN\<rparr>,
     \<lparr>r_method = Post, r_path = ''/register/verification/:verification_id/verify'', r_guards = [registration_verify_ip_limit], r_endpoint = DoVerifyRegistration\<rparr>,
     \<lparr>r_method = Get, r_path = ''/register/continuation'', r_guards = [], r_endpoint = DoGetRegistrationContinuation\<rparr>,
     \<lparr>r_method = Post, r_path = ''/register/finalize/manual'', r_guards = [registration_finalize_ip_limit], r_endpoint = DoFinalizeManualRegistration\<rparr>,
     \<lparr>r_method = Post, r_path = ''/register/finalize/social'', r_guards = [], r_endpoint = DoFinalizeSocialRegistration\<rparr>]"

definition login_routes :: "route list" where
  "login_routes = map (in_group ''/auth'')
    [\<lparr>r_method = Post, r_path = ''/login'', r_guards = [login_ip_limit], r_endpoint = DoLoginManual\<rparr>,
     \<lparr>r_method = Post, r_path = ''/login/google'', r_guards = [google_auth_ip_limit], r_endpoint = DoLoginGoogle\<rparr>,
     \<lparr>r_method = Get, r_path = ''/login/google/account-link/:confirmation_id'', r_guards = [google_auth_ip_limit], r_endpoint = DoGetAccountLink\<rparr>,
     \<lparr>r_method = Post, r_path = ''/login/google/account-link/:confirmation_id/confirm'', r_guards = [google_auth_ip_limit], r_endpoint = DoConfirmAccountLink\<rparr>]"

definition password_reset_routes :: "route list" where
  "password_reset_routes = map (in_group ''/auth'')
    [\<lparr>r_method = Post, r_path = ''/password-reset'', r_guards = [reset_request_ip_limit], r_endpoint = DoRequestPasswordReset\<rparr>,
     \<lparr>r_method = Get, r_path = ''/password-reset/verification/:verification_id'', r_guards = [reset_status_ip_limit], r_endpoint = DoGetResetVerification\<rparr>,
     \<lparr>r_method = Post, r_path = ''/password-reset/verification/:verification_id/pin'', r_guards = [reset_pin_ip_limit], r_endpoint = DoCreateResetPIN\<rparr>,
     \<lparr>r_method = Post, r_path = ''/password-reset/verification/:verification_id/resend'', r_guards = [reset_pin_ip_limit], r_endpoint = DoResendResetPIN\<rparr>,
     \<lparr>r_method = Post, r_path = ''/password-reset/verification/:verification_id/verify'', r_guards = [reset_verify_ip_limit], r_endpoint = DoVerifyPasswordReset\<rparr>,
     \<lparr>r_method = Get, r_path = ''/password-reset/continuation'', r_guards = [], r_endpoint = DoGetResetContinuation\<rparr>,
     \<lparr>r_method = Post, r_path = ''/password-reset/finalize'', r_guards = [reset_finalize_ip_limit], r_endpoint = DoFinalizePasswordReset\<rparr>]"

definition user_routes :: "route list" where
  "user_routes = map (in_group ''/users'')
    [\<lparr>r_method = Get, r_path = ''/me'', r_guards = [Authenticate], r_endpoint = DoGetUser\<rparr>,
     \<lparr>r_method = Patch, r_path = ''/me'', r_guards = [Authenticate], r_endpoint = DoUpdateUser\<rparr>,
     \<lparr>r_method = Put, r_path = ''/me/password'', r_guards = [Authenticate, password_user_limit], r_endpoint = DoSetPassword\<rparr>]"

definition saved_item_routes :: "route list" where
  "saved_item_routes = map (in_group ''/saved-items'')
    [\<lparr>r_method = Post, r_path = ''/'', r_guards = [Authenticate, create_user_limit], r_endpoint = DoCreateSavedItem\<rparr>,
     \<lparr>r_method = Get, r_path = ''/'', r_guards = [Authenticate], r_endpoint = DoListSavedItems\<rparr>,
     \<lparr>r_method = Get, r_path = ''/:id'', r_guards = [Authenticate], r_endpoint = DoGetSavedItem\<rparr>,
     \<lparr>r_method = Delete, r_path = ''/:id'', r_guards = [Authenticate], r_endpoint = DoDeleteSavedItem\<rparr>]"

definition organize_routes :: "route list" where
  "organize_routes = map (in_group ''/saved-items'')
    [\<lparr>r_method = Put, r_path = ''/:id/collection'', r_guards = [Authenticate], r_endpoint = DoPutSavedItem\<rparr>]"

definition collection_routes :: "route list" where
  "collection_routes = map (in_group ''/collections'')
    [\<lparr>r_method = Get, r_path = ''/'', r_guards = [Authenticate], r_endpoint = DoListCollections\<rparr>,
     \<lparr>r_method = Get, r_path = ''/:id/saved-items'', r_guards = [Authenticate], r_endpoint = DoListCollectionItems\<rparr>,
     \<lparr>r_method = Delete, r_path = ''/:id'', r_guards = [Authenticate], r_endpoint = DoDeleteCollection\<rparr>]"

definition search_routes :: "route list" where
  "search_routes = map (in_group ''/search'')
    [\<lparr>r_method = Get, r_path = ''/'', r_guards = [Authenticate, search_user_limit], r_endpoint = DoSearch\<rparr>]"

definition enrichment_routes :: "route list" where
  "enrichment_routes = map (in_group ''/saved-items'')
    [\<lparr>r_method = Post, r_path = ''/:id/enrich'', r_guards = [Authenticate, enrich_user_limit], r_endpoint = DoEnrichSavedItem\<rparr>]"

definition maintenance_routes :: "route list" where
  "maintenance_routes = map (in_group ''/internal/maintenance'')
    [\<lparr>r_method = Post, r_path = ''/sessions/cleanup'', r_guards = [CleanupGuard], r_endpoint = DoCleanupSessions\<rparr>]"

definition health_routes :: "route list" where
  "health_routes = [\<lparr>r_method = Get, r_path = ''/livez'', r_guards = [], r_endpoint = DoCheckHealth\<rparr>]"

text \<open>\<open>auth.RegisterModule\<close>, and what \<open>cmd/api\<close> registers.\<close>

definition auth_routes :: "route list" where
  "auth_routes = session_routes @ maintenance_routes @ registration_routes @ login_routes @ password_reset_routes"

definition api_routes :: "route list" where
  "api_routes = health_routes @ auth_routes @ user_routes @ saved_item_routes @ organize_routes @ collection_routes @
     search_routes @ enrichment_routes"

section \<open>On the way to a handler\<close>

record http_request =
  hr_authorization :: string
  hr_ip :: string
  hr_cleanup_secret :: string
  hr_time :: int

text \<open>What the API was built with: the limiter's keyed hash and secret, the address form, the verifier, the secret.\<close>

record api =
  api_mac :: "string \<Rightarrow> string \<Rightarrow> nat list"
  api_secret :: string
  api_norm_ip :: "string \<Rightarrow> string option"
  api_verify :: "time \<Rightarrow> string \<Rightarrow> go_error + claims"
  api_cleanup_secret :: string

definition code_cleanup_secret_invalid :: string where
  "code_cleanup_secret_invalid = ''CLEANUP_SECRET_INVALID''"

definition cleanup_guard :: "string \<Rightarrow> string \<Rightarrow> go_error option" where
  "cleanup_guard expected presented =
     (if expected \<noteq> '''' \<and> presented = expected then None
      else Some (unauthorized_with code_cleanup_secret_invalid ''missing or invalid cleanup secret'' None))"

definition authenticates :: "api \<Rightarrow> http_request \<Rightarrow> go_error + claims" where
  "authenticates a rq = auth_middleware (api_verify a (hr_time rq * millisecond)) (hr_authorization rq)"

definition keeping :: "claims option \<Rightarrow> go_error option \<times> keyspace \<Rightarrow> (go_error + claims option) \<times> keyspace" where
  "keeping cl r = (case r of (Some e, ks) \<Rightarrow> (Inl e, ks) | (None, ks) \<Rightarrow> (Inr cl, ks))"

text \<open>One guard: it answers, or lets the request on, with the claims stored so far. \<open>f\<close> is the fate of its script.\<close>

fun guard_step ::
  "api \<Rightarrow> fate \<Rightarrow> http_request \<Rightarrow> guard \<Rightarrow> claims option \<Rightarrow> keyspace \<Rightarrow> (go_error + claims option) \<times> keyspace" where
  "guard_step a f rq Authenticate cl ks =
     (case authenticates a rq of Inl e \<Rightarrow> (Inl e, ks) | Inr c \<Rightarrow> (Inr (Some c), ks))"
| "guard_step a f rq (IPLimit namespace pol) cl ks =
     keeping cl (ip_rate_limit (api_mac a) (api_secret a) (api_norm_ip a) namespace pol f (hr_time rq) (hr_ip rq) ks)"
| "guard_step a f rq (UserLimit namespace pol) cl ks =
     keeping cl (user_rate_limit (api_mac a) (api_secret a) namespace pol f (hr_time rq) cl ks)"
| "guard_step a f rq CleanupGuard cl ks =
     keeping cl (cleanup_guard (api_cleanup_secret a) (hr_cleanup_secret rq), ks)"

text \<open>The chain of a route, \<open>c.Next\<close> by \<open>c.Next\<close>; a missing fate is \<open>StmtOk\<close>.\<close>

fun through ::
  "api \<Rightarrow> fate list \<Rightarrow> http_request \<Rightarrow> guard list \<Rightarrow> claims option \<Rightarrow> keyspace
     \<Rightarrow> (go_error + claims option) \<times> keyspace" where
  "through a fs rq [] cl ks = (Inr cl, ks)"
| "through a fs rq (g # gs) cl ks =
     (case guard_step a (case fs of [] \<Rightarrow> StmtOk | f # _ \<Rightarrow> f) rq g cl ks of
        (Inl e, ks') \<Rightarrow> (Inl e, ks')
      | (Inr cl', ks') \<Rightarrow> through a (tl fs) rq gs cl' ks')"

definition arrives :: "api \<Rightarrow> fate list \<Rightarrow> http_request \<Rightarrow> route \<Rightarrow> keyspace \<Rightarrow> claims option option" where
  "arrives a fs rq r ks = (case fst (through a fs rq (r_guards r) None ks) of Inl e \<Rightarrow> None | Inr cl \<Rightarrow> Some cl)"

section \<open>Which route needs what\<close>

text \<open>Handlers that act for the user of the access token read its claims without a check of their own.\<close>

definition acts_for_user :: "endpoint \<Rightarrow> bool" where
  "acts_for_user e \<longleftrightarrow> e \<in> {DoLogout, DoListSessions, DoRevokeSession, DoGetUser, DoUpdateUser, DoSetPassword,
     DoCreateSavedItem, DoListSavedItems, DoGetSavedItem, DoDeleteSavedItem, DoPutSavedItem, DoListCollections,
     DoListCollectionItems, DoDeleteCollection, DoSearch, DoEnrichSavedItem}"

text \<open>Handlers that derive a key, check a code or a token, send mail, or fetch from the network.\<close>

definition costly :: "endpoint \<Rightarrow> bool" where
  "costly e \<longleftrightarrow> e \<in> {DoLoginManual, DoFinalizeManualRegistration, DoFinalizePasswordReset, DoSetPassword,
     DoCreateRegistrationPIN, DoResendRegistrationPIN, DoVerifyRegistration, DoCreateResetPIN, DoResendResetPIN,
     DoVerifyPasswordReset, DoRequestPasswordReset, DoLoginGoogle, DoConfirmAccountLink, DoRefreshToken,
     DoCreateSavedItem, DoSearch, DoEnrichSavedItem}"

section \<open>The chain\<close>

lemma guard_step_claims:
  assumes "guard_step a f rq g cl ks = (Inr cl', ks')"
  shows "if g = Authenticate then \<exists>c. cl' = Some c \<and> authenticates a rq = Inr c else cl' = cl"
  using assms
  by (cases g) (auto simp: keeping_def split: sum.splits prod.splits option.splits)

lemma through_keeps_claims:
  assumes "through a fs rq gs cl ks = (Inr cl', ks')" and "\<exists>c. cl = Some c \<and> authenticates a rq = Inr c"
  shows "\<exists>c. cl' = Some c \<and> authenticates a rq = Inr c"
  using assms
proof (induction a fs rq gs cl ks rule: through.induct)
  case (2 a fs rq g gs cl ks)
  obtain cl1 ks1 where s: "guard_step a (case fs of [] \<Rightarrow> StmtOk | f # _ \<Rightarrow> f) rq g cl ks = (Inr cl1, ks1)"
    using "2.prems"(1) by (auto split: prod.splits sum.splits)
  have "\<exists>c. cl1 = Some c \<and> authenticates a rq = Inr c"
    using guard_step_claims[OF s] "2.prems"(2) by (auto split: if_splits)
  then show ?case using "2.IH"[OF s[symmetric] refl] "2.prems"(1) s by simp
qed simp

lemma through_authenticated:
  assumes "through a fs rq gs cl ks = (Inr cl', ks')" and "Authenticate \<in> set gs"
  shows "\<exists>c. cl' = Some c \<and> authenticates a rq = Inr c"
  using assms
proof (induction a fs rq gs cl ks rule: through.induct)
  case (2 a fs rq g gs cl ks)
  obtain cl1 ks1 where s: "guard_step a (case fs of [] \<Rightarrow> StmtOk | f # _ \<Rightarrow> f) rq g cl ks = (Inr cl1, ks1)"
    using "2.prems"(1) by (auto split: prod.splits sum.splits)
  have r: "through a (tl fs) rq gs cl1 ks1 = (Inr cl', ks')" using "2.prems"(1) s by simp
  show ?case
  proof (cases "g = Authenticate")
    case True
    then show ?thesis using guard_step_claims[OF s] through_keeps_claims[OF r] by simp
  next
    case False
    then show ?thesis using "2.IH"[OF s[symmetric] refl] r "2.prems"(2) by simp
  qed
qed simp

text \<open>Every guard of a chain that was passed let the request on, with no claims but those of its token.\<close>

definition honest_claims :: "api \<Rightarrow> http_request \<Rightarrow> claims option \<Rightarrow> bool" where
  "honest_claims a rq cl \<longleftrightarrow> (case cl of None \<Rightarrow> True | Some c \<Rightarrow> authenticates a rq = Inr c)"

lemma guard_step_honest:
  "guard_step a f rq g cl ks = (Inr cl', ks') \<Longrightarrow> honest_claims a rq cl \<Longrightarrow> honest_claims a rq cl'"
  using guard_step_claims[of a f rq g cl ks cl' ks'] by (auto simp: honest_claims_def split: if_splits)

lemma through_passes:
  assumes "through a fs rq gs cl ks = (Inr cl', ks')" and "g \<in> set gs" and "honest_claims a rq cl"
  shows "\<exists>f cl1 ks1 cl2 ks2. guard_step a f rq g cl1 ks1 = (Inr cl2, ks2) \<and> honest_claims a rq cl1"
  using assms
proof (induction a fs rq gs cl ks rule: through.induct)
  case (2 a fs rq g' gs cl ks)
  let ?f = "case fs of [] \<Rightarrow> StmtOk | f # _ \<Rightarrow> f"
  obtain cl1 ks1 where s: "guard_step a ?f rq g' cl ks = (Inr cl1, ks1)"
    using "2.prems"(1) by (auto split: prod.splits sum.splits)
  have r: "through a (tl fs) rq gs cl1 ks1 = (Inr cl', ks')" using "2.prems"(1) s by simp
  show ?case
  proof (cases "g = g'")
    case True
    then show ?thesis using s "2.prems"(3) by blast
  next
    case False
    then show ?thesis using "2.IH"[OF s[symmetric] refl r] "2.prems"(2) guard_step_honest[OF s "2.prems"(3)] by simp
  qed
qed simp

fun is_limit :: "guard \<Rightarrow> bool" where
  "is_limit (IPLimit _ _) = True"
| "is_limit (UserLimit _ _) = True"
| "is_limit _ = False"

text \<open>A budget admitted the request: its counter, for the request's address or user, was at most the maximum.\<close>

fun admitted_by :: "api \<Rightarrow> http_request \<Rightarrow> guard \<Rightarrow> bool" where
  "admitted_by a rq (IPLimit namespace pol) \<longleftrightarrow>
     (\<exists>ip f ks res ks'. api_norm_ip a (hr_ip rq) = Some ip \<and>
        allow (api_mac a) (api_secret a) f (hr_time rq) namespace ip pol ks = (Inr res, ks') \<and> r_count res \<le> p_max pol)"
| "admitted_by a rq (UserLimit namespace pol) \<longleftrightarrow>
     (\<exists>c f ks res ks'. authenticates a rq = Inr c \<and>
        allow (api_mac a) (api_secret a) f (hr_time rq) namespace (subject c) pol ks = (Inr res, ks') \<and> r_count res \<le> p_max pol)"
| "admitted_by a rq _ \<longleftrightarrow> False"

lemma allow_allowed: "allow mac secret f t namespace s pol ks = (Inr res, ks') \<Longrightarrow> r_allowed res \<Longrightarrow> r_count res \<le> p_max pol"
  by (auto simp: allow_def split: option.splits prod.splits sum.splits reply.splits list.splits)

lemma limit_passed:
  assumes "guard_step a f rq g cl ks = (Inr cl', ks')" and "is_limit g" and "honest_claims a rq cl"
  shows "admitted_by a rq g"
proof (cases g)
  case (IPLimit namespace pol)
  then show ?thesis
    using assms(1) allow_allowed
    by (fastforce simp: keeping_def ip_rate_limit_def limit_answer_def split: option.splits prod.splits sum.splits if_splits)
next
  case (UserLimit namespace pol)
  then show ?thesis
    using assms(1,3) allow_allowed
    by (fastforce simp: keeping_def user_rate_limit_def limit_answer_def honest_claims_def
        split: option.splits prod.splits sum.splits if_splits)
qed (use assms(2) in simp_all)

lemma limit_unreachable:
  assumes "f \<noteq> StmtOk" and "is_limit g"
  shows "\<exists>e ks'. guard_step a f rq g cl ks = (Inl e, ks')"
proof (cases g)
  case (IPLimit namespace pol)
  then show ?thesis
    using assms(1) by (cases f)
      (auto simp: keeping_def ip_rate_limit_def limit_answer_def allow_def run_script_def split: option.splits prod.splits sum.splits)
next
  case (UserLimit namespace pol)
  then show ?thesis
    using assms(1) by (cases f)
      (auto simp: keeping_def user_rate_limit_def limit_answer_def allow_def run_script_def split: option.splits prod.splits sum.splits)
qed (use assms(2) in simp_all)

section \<open>What the table promises\<close>

lemma route_table:
  "list_all (\<lambda>r. acts_for_user (r_endpoint r) \<longrightarrow> Authenticate \<in> set (r_guards r)) api_routes"
  "list_all (\<lambda>r. costly (r_endpoint r) \<longrightarrow> list_ex is_limit (r_guards r)) api_routes"
  "list_all (\<lambda>r. r_endpoint r = DoCleanupSessions \<longrightarrow> CleanupGuard \<in> set (r_guards r)) api_routes"
  by code_simp+

text \<open>
  C33. Nothing is done for a user without a verified token. Whatever the limiter meets, a request reaches a
  handler that acts for a user only with the claims of the token in its own header, which the verifier
  accepted at that time.
\<close>

theorem user_routes_need_a_verified_token:
  assumes "r \<in> set api_routes" and "acts_for_user (r_endpoint r)" and "arrives a fs rq r ks = Some cl"
  shows "\<exists>c. cl = Some c \<and> authenticates a rq = Inr c"
proof -
  obtain ks' where "through a fs rq (r_guards r) None ks = (Inr cl, ks')"
    using assms(3) by (auto simp: arrives_def split: sum.splits) (metis prod.collapse)
  moreover have "Authenticate \<in> set (r_guards r)" using route_table(1) assms(1,2) by (auto simp: list_all_iff)
  ultimately show ?thesis by (rule through_authenticated)
qed


lemma cleanup_needs_the_secret:
  assumes "r \<in> set api_routes" and "r_endpoint r = DoCleanupSessions" and "arrives a fs rq r ks = Some cl"
  shows "api_cleanup_secret a \<noteq> '''' \<and> hr_cleanup_secret rq = api_cleanup_secret a"
proof -
  obtain ks' where t: "through a fs rq (r_guards r) None ks = (Inr cl, ks')"
    using assms(3) by (auto simp: arrives_def split: sum.splits) (metis prod.collapse)
  have "CleanupGuard \<in> set (r_guards r)" using route_table(3) assms(1,2) by (auto simp: list_all_iff)
  from through_passes[OF t this] show ?thesis
    by (auto simp: keeping_def cleanup_guard_def honest_claims_def split: if_splits)
qed

text \<open>A namespace is one flow's budget: two limits that share one are the same limit.\<close>

lemma one_budget_per_namespace:
  "let limits = remdups (filter is_limit (concat (map r_guards api_routes)));
       name = (\<lambda>g. case g of IPLimit n _ \<Rightarrow> n | UserLimit n _ \<Rightarrow> n | _ \<Rightarrow> '''')
   in distinct (map name limits) \<and> length limits = 15"
  by code_simp

section \<open>An example\<close>

definition demo_claims :: claims where
  "demo_claims = \<lparr>subject = ''u1'', issued_at = Some 0, expires_at = Some 900, session_id = 7\<rparr>"

definition demo_api :: api where
  "demo_api = \<lparr>api_mac = demo_mac, api_secret = ''s'', api_norm_ip = Some,
     api_verify = (\<lambda>t token. if token = ''good'' then Inr demo_claims else Inl DbFault), api_cleanup_secret = ''''\<rparr>"

definition demo_http :: http_request where
  "demo_http = \<lparr>hr_authorization = ''Bearer good'', hr_ip = ''10.0.0.1'', hr_cleanup_secret = '''', hr_time = 5\<rparr>"

definition set_password_route :: route where
  "set_password_route = \<lparr>r_method = Put, r_path = ''/users/me/password'',
     r_guards = [Authenticate, password_user_limit], r_endpoint = DoSetPassword\<rparr>"

lemma set_password_route_registered: "set_password_route \<in> set api_routes"
proof -
  have "set_password_route = user_routes ! 2" "length user_routes = 3" by code_simp+
  then have "set_password_route \<in> set user_routes" by (metis nth_mem lessI numeral_2_eq_2 numeral_3_eq_3)
  then show ?thesis by (simp add: api_routes_def)
qed

lemma demo_arrives: "arrives demo_api [] demo_http set_password_route (\<lambda>_. None) = Some (Some demo_claims)"
  by code_simp

theorem user_routes_need_a_verified_token_witness: "authenticates demo_api demo_http = Inr demo_claims"
  using user_routes_need_a_verified_token[OF set_password_route_registered _ demo_arrives]
  by (simp add: set_password_route_def acts_for_user_def)


end
