(* ===== verification/Httpx.thy ===== *)
theory Httpx
  imports Routes
begin

text \<open>
  What handlers share: \<open>internal/httpx/bind.go\<close>, and reading the user from the claims and ids from the path. A
  handler is a program that calls the service. \<open>uuid.Parse\<close> and Fiber's binder with the validator are
  arguments.
\<close>

section \<open>Binding\<close>

record failed_field =
  ff_field :: string
  ff_tag :: string

text \<open>What the binder answers: the value, the validator's errors, or another error.\<close>

datatype 'a bound = Bound 'a | Invalid "failed_field list" go_error | Malformed go_error

definition validation_message :: "string \<Rightarrow> string" where
  "validation_message tag =
     (if tag = ''required'' then ''is required''
      else if tag = ''email'' then ''must be a valid email address''
      else if tag = ''min'' then ''is too small''
      else if tag = ''max'' then ''is too large''
      else if tag = ''oneof'' then ''is not one of the supported values''
      else ''is invalid'')"

definition bind_body :: "'a bound \<Rightarrow> go_error + 'a" where
  "bind_body b =
     (case b of
        Bound x \<Rightarrow> Inr x
      | Invalid fs e \<Rightarrow>
          Inl (validation_error (Some (map (\<lambda>f. (ff_field f, validation_message (ff_tag f))) fs)) (Some e))
      | Malformed e \<Rightarrow> Inl (bad_request (Some e)))"

text \<open>\<open>BindQuery\<close> differs from \<open>BindBody\<close> in what it asks the binder for.\<close>

definition bind_query :: "'a bound \<Rightarrow> go_error + 'a" where
  "bind_query b = bind_body b"

section \<open>Claims and ids\<close>

text \<open>\<open>uuid.Parse\<close> of the subject: a failure is internal, the subject having passed the verifier.\<close>

definition claims_user :: "(string \<Rightarrow> go_error + uuid) \<Rightarrow> claims \<Rightarrow> go_error + uuid" where
  "claims_user parse_uuid cl = (case parse_uuid (subject cl) of Inl e \<Rightarrow> Inl (internal (Some e)) | Inr uid \<Rightarrow> Inr uid)"

definition path_id :: "(string \<Rightarrow> go_error + uuid) \<Rightarrow> string \<Rightarrow> string \<Rightarrow> go_error + uuid" where
  "path_id parse_uuid message param =
     (case parse_uuid param of Inl e \<Rightarrow> Inl (bad_request_with '''' message (Some e)) | Inr i \<Rightarrow> Inr i)"

text \<open>\<open>if err != nil { return err }\<close>.\<close>

definition or_fail :: "go_error + 'x \<Rightarrow> ('x \<Rightarrow> ('d, 'a) prog) \<Rightarrow> ('d, 'a) prog" where
  "or_fail r k = (case r of Inl e \<Rightarrow> fail e | Inr x \<Rightarrow> k x)"

text \<open>
  A handler that reads the claims where the chain stored none panics (the type assertion in the code); the
  recovery middleware turns that into the default error of the framework.
\<close>

definition err_panic :: go_error where "err_panic = Sentinel ''interface conversion: interface {} is nil''"

definition with_claims :: "claims option \<Rightarrow> (claims \<Rightarrow> ('d, 'a) prog) \<Rightarrow> ('d, 'a) prog" where
  "with_claims cl h = (case cl of None \<Rightarrow> fail err_panic | Some c \<Rightarrow> h c)"

section \<open>Lemmas\<close>

lemma claims_of_route:
  assumes "r \<in> set api_routes" and "acts_for_user (r_endpoint r)"
    and "through a gfs rq (r_guards r) None ks = (Inr cl, ks')"
  shows "\<exists>c. cl = Some c \<and> authenticates a rq = Inr c"
proof -
  have "Authenticate \<in> set (r_guards r)" using route_table(1) assms(1,2) by (auto simp: list_all_iff)
  with assms(3) show ?thesis by (rule through_authenticated)
qed

text \<open>A call whose outcome is known as one relation.\<close>

lemma wp_call_related:
  assumes "wp R p d w"
    and "\<And>e d' w'. R (Inl e) d' \<Longrightarrow> wp Q (on_err e) d' w'" and "\<And>x d' w'. R (Inr x) d' \<Longrightarrow> wp Q (k x) d' w'"
  shows "wp Q (call p on_err k) d w"
  by (rule wp_call, rule wp_mono[OF assms(1)]) (use assms(2,3) in \<open>auto split: sum.splits\<close>)

lemma wp_or_fail: "(\<And>e. r = Inl e \<Longrightarrow> Q (Inl e) d) \<Longrightarrow> (\<And>x. r = Inr x \<Longrightarrow> wp Q (k x) d w) \<Longrightarrow> wp Q (or_fail r k) d w"
  by (cases r) (auto simp: or_fail_def intro: wp_fail)

lemma claims_user_Inr: "claims_user parse_uuid cl = Inr uid \<longleftrightarrow> parse_uuid (subject cl) = Inr uid"
  by (auto simp: claims_user_def split: sum.splits)

lemma path_id_Inr: "path_id parse_uuid message param = Inr i \<longleftrightarrow> parse_uuid param = Inr i"
  by (auto simp: path_id_def split: sum.splits)

end
