(* ===== verification/SessionHttp.thy ===== *)
theory SessionHttp
  imports Httpx PasswordResetProps
begin

text \<open>
  The HTTP layer of sessions: \<open>handler.go\<close>, \<open>routes.go\<close> and \<open>metadata.go\<close> of \<open>internal/api/auth/session\<close>. A
  request goes through its route first.
\<close>

section \<open>Session metadata\<close>

record metadata_headers =
  mh_platform :: string
  mh_installation_id :: string
  mh_device_name :: string
  mh_user_agent :: string

definition header_text :: "string \<Rightarrow> string option" where
  "header_text s = (if s \<noteq> '''' then Some s else None)"

definition extract_metadata :: "(string \<Rightarrow> go_error + uuid) \<Rightarrow> metadata_headers \<Rightarrow> go_error + session_metadata" where
  "extract_metadata parse_uuid h =
     (let md = (\<lambda>i. \<lparr>md_platform = mh_platform h, md_installation = i, md_device_name = header_text (mh_device_name h),
                    md_user_agent = header_text (mh_user_agent h)\<rparr>) in
      if mh_installation_id h \<noteq> '''' then
        (case parse_uuid (mh_installation_id h) of
           Inl e \<Rightarrow> Inl (bad_request_with ''INVALID_INSTALLATION_ID'' ''invalid installation id'' (Some e))
         | Inr i \<Rightarrow> Inr (md (Some i)))
      else Inr (md None))"

section \<open>Handlers\<close>

text \<open>What the handlers and the service below them are given.\<close>

record session_env =
  se_parse_uuid :: "string \<Rightarrow> go_error + uuid"
  se_hash_token :: "string \<Rightarrow> string"
  se_access_token :: "uuid \<Rightarrow> uuid \<Rightarrow> duration \<Rightarrow> go_error + string"
  se_db_now :: time
  se_app_now :: time
  se_new_tid :: uuid
  se_generated :: "go_error + string"
  se_batches :: "nat \<Rightarrow> time \<times> uuid list"

record session_view =
  sv_session :: session
  sv_is_current :: bool

datatype session_answer =
    TokensRefreshed refresh_token_result
  | LoggedOut
  | SessionsListed "session_view list" int int int int
  | SessionRevoked
  | SessionsCleaned int

definition handle_refresh_token :: "session_env \<Rightarrow> string bound \<Rightarrow> (session_db, session_answer) prog" where
  "handle_refresh_token env body =
     (case bind_body body of
        Inl e \<Rightarrow> fail e
      | Inr presented \<Rightarrow>
          call (refresh_token_service (se_hash_token env) (se_access_token env) (se_db_now env) (se_app_now env)
                  (se_new_tid env) (se_generated env) presented) fail (\<lambda>r. ret (TokensRefreshed r)))"

definition handle_logout :: "session_env \<Rightarrow> claims \<Rightarrow> (session_db, session_answer) prog" where
  "handle_logout env cl =
     (case se_parse_uuid env (subject cl) of
        Inl e \<Rightarrow> fail_internal e
      | Inr uid \<Rightarrow> call (logout (se_db_now env) uid (session_id cl)) fail (\<lambda>_. ret LoggedOut))"

definition handle_list_sessions ::
  "session_env \<Rightarrow> claims \<Rightarrow> (int \<times> int) bound \<Rightarrow> (session_db, session_answer) prog" where
  "handle_list_sessions env cl query =
     (case se_parse_uuid env (subject cl) of
        Inl e \<Rightarrow> fail_internal e
      | Inr uid \<Rightarrow>
          (case bind_query query of
             Inl e \<Rightarrow> fail e
           | Inr (page, limit) \<Rightarrow>
               call (list_sessions uid page limit) fail (\<lambda>r.
               ret (SessionsListed (map (\<lambda>s. \<lparr>sv_session = s, sv_is_current = (s_id s = session_id cl)\<rparr>) (ls_sessions r))
                      (ls_page r) (ls_limit r) (ls_total r) (ls_total_pages r)))))"

definition handle_revoke_session :: "session_env \<Rightarrow> claims \<Rightarrow> string \<Rightarrow> (session_db, session_answer) prog" where
  "handle_revoke_session env cl param =
     (case se_parse_uuid env (subject cl) of
        Inl e \<Rightarrow> fail_internal e
      | Inr uid \<Rightarrow>
          (case se_parse_uuid env param of
             Inl e \<Rightarrow> fail (bad_request_with '''' ''invalid session id'' (Some e))
           | Inr sid \<Rightarrow> call (revoke_session_for_user (se_db_now env) uid sid) fail (\<lambda>_. ret SessionRevoked)))"

definition handle_cleanup_sessions :: "session_env \<Rightarrow> (session_db, session_answer) prog" where
  "handle_cleanup_sessions env = call (cleanup_sessions (se_batches env)) fail (\<lambda>r. ret (SessionsCleaned (cl_deleted r)))"

section \<open>Requests\<close>

datatype session_request =
    RefreshRequest "string bound"
  | LogoutRequest
  | ListRequest "(int \<times> int) bound"
  | RevokeRequest string
  | CleanupRequest

fun request_endpoint :: "session_request \<Rightarrow> endpoint" where
  "request_endpoint (RefreshRequest _) = DoRefreshToken"
| "request_endpoint LogoutRequest = DoLogout"
| "request_endpoint (ListRequest _) = DoListSessions"
| "request_endpoint (RevokeRequest _) = DoRevokeSession"
| "request_endpoint CleanupRequest = DoCleanupSessions"

fun session_handler :: "session_env \<Rightarrow> claims option \<Rightarrow> session_request \<Rightarrow> (session_db, session_answer) prog" where
  "session_handler env cl (RefreshRequest body) = handle_refresh_token env body"
| "session_handler env cl LogoutRequest = with_claims cl (handle_logout env)"
| "session_handler env cl (ListRequest query) = with_claims cl (\<lambda>c. handle_list_sessions env c query)"
| "session_handler env cl (RevokeRequest param) = with_claims cl (\<lambda>c. handle_revoke_session env c param)"
| "session_handler env cl CleanupRequest = handle_cleanup_sessions env"

text \<open>A request at its route \<open>r\<close>: the chain, then the handler. \<open>gfs\<close> are the fates of the limiter, \<open>fs\<close> of the database.\<close>

definition serve_session ::
  "api \<Rightarrow> session_env \<Rightarrow> fate list \<Rightarrow> fate list \<Rightarrow> http_request \<Rightarrow> route \<Rightarrow> session_request
     \<Rightarrow> keyspace \<times> session_db \<Rightarrow> (go_error + session_answer) \<times> keyspace \<times> session_db" where
  "serve_session a env gfs fs rq r sr st =
     (case st of (ks, db) \<Rightarrow>
       (case through a gfs rq (r_guards r) None ks of
          (Inl e, ks') \<Rightarrow> (Inl e, ks', db)
        | (Inr cl, ks') \<Rightarrow> (case run (session_handler env cl sr) db fs of (res, db') \<Rightarrow> (res, ks', db'))))"

section \<open>Properties\<close>

lemma wp_revocation:
  "wp (\<lambda>r d. others_untouched uid sid db d) (logout now uid sid) db db"
  "wp (\<lambda>r d. others_untouched uid sid db d) (revoke_session_for_user now uid sid) db db"
  unfolding logout_def repo_revoke_session_def revoke_session_for_user_def repo_revoke_session_for_user_def
  by (intro wp_intros;
      auto simp: q_revoke_session_def q_revoke_session_for_user_def others_untouched_refl others_untouched_revoke
        split: if_splits)+

lemma wp_logged_out:
  "wp (\<lambda>r d. isl r \<or> d = db\<lparr>sessions := update_where (revoke_matches sid uid) (\<lambda>s. s\<lparr>s_revoked_at := Some now\<rparr>) (sessions db)\<rparr>)
     (logout now uid sid) db db"
  unfolding logout_def repo_revoke_session_def by (intro wp_intros) (auto simp: q_revoke_session_def)

lemma wp_handle_logout:
  "wp (\<lambda>r d. d = db \<or> (\<exists>uid. se_parse_uuid env (subject c) = Inr uid \<and> others_untouched uid (session_id c) db d))
     (handle_logout env c) db db"
  unfolding handle_logout_def
  by (cases "se_parse_uuid env (subject c)")
    (auto intro!: wp_intros wp_call_related[OF wp_revocation(1)])

lemma wp_handle_revoke_session:
  "wp (\<lambda>r d. d = db \<or> (\<exists>uid sid. se_parse_uuid env (subject c) = Inr uid \<and> se_parse_uuid env p = Inr sid \<and>
       others_untouched uid sid db d))
     (handle_revoke_session env c p) db db"
  unfolding handle_revoke_session_def
  by (cases "se_parse_uuid env (subject c)"; cases "se_parse_uuid env p")
    (auto intro!: wp_intros wp_call_related[OF wp_revocation(2)])

lemma wp_handle_list_sessions: "wp (\<lambda>r d. d = db) (handle_list_sessions env c qu) db db"
proof -
  have l: "wp (\<lambda>r d. d = db) (list_sessions uid page limit) db db" for uid page limit
    unfolding list_sessions_def Let_def repo_list_sessions_def repo_count_sessions_def
    by (simp only: call_pool call_fail call_fail_internal call_ret)
      (intro wp_intros; auto simp: q_list_sessions_def q_count_sessions_def split: if_splits)
  show ?thesis
    unfolding handle_list_sessions_def
    by (cases "se_parse_uuid env (subject c)"; cases "bind_query qu")
      (auto intro!: wp_intros wp_call_related[OF l])
qed

text \<open>
  C35. A session request changes at most what its sender may change. Under every schedule of faults of the
  limiter and the database: listing changes nothing; logging out and revoking change nothing, or set the
  revocation time of the token's own session or the named one, and that only if it is the token's user's;
  cleanup changes something only for who presents the configured secret.
\<close>

theorem session_requests_are_confined:
  assumes "r \<in> set api_routes" and "r_endpoint r = request_endpoint sr"
  shows "case serve_session a env gfs fs rq r sr (ks, db) of (res, ks', db') \<Rightarrow> db' = db \<or>
     (case sr of
        RefreshRequest _ \<Rightarrow> \<exists>g\<in>set (r_guards r). admitted_by a rq g
      | LogoutRequest \<Rightarrow> \<exists>c uid. authenticates a rq = Inr c \<and> se_parse_uuid env (subject c) = Inr uid \<and>
          others_untouched uid (session_id c) db db'
      | ListRequest _ \<Rightarrow> False
      | RevokeRequest p \<Rightarrow> \<exists>c uid sid. authenticates a rq = Inr c \<and> se_parse_uuid env (subject c) = Inr uid \<and>
          se_parse_uuid env p = Inr sid \<and> others_untouched uid sid db db'
      | CleanupRequest \<Rightarrow> api_cleanup_secret a \<noteq> '''' \<and> hr_cleanup_secret rq = api_cleanup_secret a)"
proof (cases "through a gfs rq (r_guards r) None ks")
  case (Pair x ks')
  show ?thesis
  proof (cases x)
    case (Inl e)
    then show ?thesis by (simp add: serve_session_def Pair)
  next
    case (Inr cl)
    have t: "through a gfs rq (r_guards r) None ks = (Inr cl, ks')" using Pair Inr by simp
    note user = claims_of_route[OF assms(1) _ t]
    let ?db' = "snd (run (session_handler env cl sr) db fs)"
    have s: "serve_session a env gfs fs rq r sr (ks, db) = (fst (run (session_handler env cl sr) db fs), ks', ?db')"
      by (simp add: serve_session_def t split: prod.splits)
    show ?thesis
    proof (cases sr)
      case (RefreshRequest body)
      have "costly (r_endpoint r)" using assms(2) RefreshRequest by (simp add: costly_def)
      then obtain g where g: "g \<in> set (r_guards r)" "is_limit g"
        using route_table(2) assms(1) by (auto simp: list_all_iff list_ex_iff)
      from through_passes[OF t g(1)] have "admitted_by a rq g"
        using limit_passed[OF _ g(2)] by (auto simp: honest_claims_def)
      with g(1) show ?thesis unfolding s by (auto simp: RefreshRequest)
    next
      case LogoutRequest
      then obtain c where c: "cl = Some c" "authenticates a rq = Inr c"
        using user assms(2) by (auto simp: acts_for_user_def)
      from wp_run_snd[OF wp_handle_logout[where db = db and env = env and c = c], of fs] c show ?thesis
        unfolding s by (auto simp: LogoutRequest with_claims_def)
    next
      case (ListRequest qu)
      then obtain c where c: "cl = Some c" using user assms(2) by (auto simp: acts_for_user_def)
      from wp_run_snd[OF wp_handle_list_sessions[where db = db and env = env and c = c and qu = qu], of fs] c show ?thesis
        unfolding s by (auto simp: ListRequest with_claims_def)
    next
      case (RevokeRequest p)
      then obtain c where c: "cl = Some c" "authenticates a rq = Inr c"
        using user assms(2) by (auto simp: acts_for_user_def)
      from wp_run_snd[OF wp_handle_revoke_session[where db = db and env = env and c = c and p = p], of fs] c show ?thesis
        unfolding s by (auto simp: RevokeRequest with_claims_def)
    next
      case CleanupRequest
      have "arrives a gfs rq r ks = Some cl" by (simp add: arrives_def t)
      from cleanup_needs_the_secret[OF assms(1) _ this] assms(2) CleanupRequest show ?thesis unfolding s by simp
    qed
  qed
qed

text \<open>
  A logout ends the session. Once a logout request has been answered with success, every refresh token of
  the session its access token names is refused by \<open>RefreshToken\<close>, after any session operations of any users
  and under any faults.
\<close>

theorem logout_request_ends_its_session:
  assumes "session_inv db"
    and "serve_session a env gfs fs rq r LogoutRequest (ks, db) = (Inr ans, ks', db')"
    and "r \<in> set api_routes" and "r_endpoint r = DoLogout"
    and "authenticates a rq = Inr c" and "se_parse_uuid env (subject c) = Inr (s_user s)" and "session_id c = s_id s"
    and "t \<in> set (tokens db)" and "s \<in> set (sessions db)" and "s_id s = t_session t"
    and "no_reissue h (t_hash t) ops" and "h presented = t_hash t"
  shows "isl (fst (run (refresh_token_service h acc n m tid gen presented) (apply_ops h acc ops db') fs'))"
proof -
  obtain cl where t: "through a gfs rq (r_guards r) None ks = (Inr cl, ks')"
    and run: "run (session_handler env cl LogoutRequest) db fs = (Inr ans, db')"
    using assms(2) by (auto simp: serve_session_def split: prod.splits sum.splits)
  have cl: "cl = Some c" using claims_of_route[OF assms(3) _ t] assms(4,5) by (simp add: acts_for_user_def)
  have "wp (\<lambda>r d. isl r \<or> d = db\<lparr>sessions :=
      update_where (revoke_matches (s_id s) (s_user s)) (\<lambda>x. x\<lparr>s_revoked_at := Some (se_db_now env)\<rparr>) (sessions db)\<rparr>)
      (handle_logout env c) db db"
    unfolding handle_logout_def assms(6) assms(7) sum.case
    by (rule wp_call_related[OF wp_logged_out]) (auto intro!: wp_intros)
  from wp_run[OF this] run cl have "db' = db\<lparr>sessions :=
      update_where (revoke_matches (s_id s) (s_user s)) (\<lambda>x. x\<lparr>s_revoked_at := Some (se_db_now env)\<rparr>) (sessions db)\<rparr>"
    by (fastforce simp: with_claims_def)
  moreover have "inv_dead (t_hash t) (db\<lparr>sessions :=
      update_where (revoke_matches (s_id s) (s_user s)) (\<lambda>x. x\<lparr>s_revoked_at := Some (se_db_now env)\<rparr>) (sessions db)\<rparr>)"
    using assms(1,8,9,10) by (rule revoking_kills) (simp add: revoke_matches_def)
  ultimately have "inv_dead (t_hash t) db'" by simp
  then show ?thesis using assms(11,12) by (rule dead_token_is_refused)
qed

section \<open>An example\<close>

definition demo_session_env :: session_env where
  "demo_session_env = \<lparr>se_parse_uuid = (\<lambda>s. if s = ''u1'' then Inr 1 else Inl DbFault), se_hash_token = id,
     se_access_token = (\<lambda>_ _ _. Inr ''access''), se_db_now = 3, se_app_now = 3, se_new_tid = 9,
     se_generated = Inr ''h9'', se_batches = (\<lambda>_. (3, []))\<rparr>"

definition logout_route :: route where
  "logout_route = \<lparr>r_method = Post, r_path = ''/auth/logout'', r_guards = [Authenticate], r_endpoint = DoLogout\<rparr>"

lemma logout_route_registered: "logout_route \<in> set api_routes"
proof -
  have "logout_route = session_routes ! 1" "length session_routes = 4" by code_simp+
  then have "logout_route \<in> set session_routes" by (metis nth_mem one_less_numeral_iff semiring_norm(76))
  then show ?thesis by (simp add: api_routes_def auth_routes_def)
qed

theorem session_requests_are_confined_witness:
  "case serve_session demo_api demo_session_env [] [] demo_http logout_route LogoutRequest (\<lambda>_. None, demo_db) of
     (res, _, db') \<Rightarrow> db' = demo_db \<or> others_untouched 1 7 demo_db db'"
proof -
  have e: "r_endpoint logout_route = request_endpoint LogoutRequest" by (simp add: logout_route_def)
  have a: "authenticates demo_api demo_http = Inr demo_claims" by code_simp
  show ?thesis
    using session_requests_are_confined[OF logout_route_registered e, where a = demo_api and env = demo_session_env
        and gfs = "[]" and fs = "[]" and rq = demo_http and ks = "\<lambda>_. None" and db = demo_db] a
    by (auto simp: demo_session_env_def demo_claims_def split: if_splits)
qed

definition demo_logout :: "(go_error + session_answer) \<times> keyspace \<times> session_db" where
  "demo_logout = serve_session demo_api demo_session_env [] [] demo_http logout_route LogoutRequest (\<lambda>_. None, demo_db)"

lemma demo_logged_out: "fst demo_logout = Inr LoggedOut"
  by code_simp

theorem logout_request_ends_its_session_witness:
  "isl (fst (run (refresh_token_service id (\<lambda>_ _ _. Inr ''access'') 4 4 9 (Inr ''h1'') ''h0'')
     (apply_ops id (\<lambda>_ _ _. Inr ''access'') [] (snd (snd demo_logout))) []))"
proof -
  have r: "serve_session demo_api demo_session_env [] [] demo_http logout_route LogoutRequest (\<lambda>_. None, demo_db) =
      (Inr LoggedOut, fst (snd demo_logout), snd (snd demo_logout))"
    using demo_logged_out by (simp add: demo_logout_def prod_eq_iff)
  have m: "demo_token \<in> set (tokens demo_db)" "demo_session \<in> set (sessions demo_db)" by (simp_all add: demo_db_def)
  have a: "authenticates demo_api demo_http = Inr demo_claims" by code_simp
  show ?thesis
    using logout_request_ends_its_session[OF demo_inv r logout_route_registered _ a _ _ m, of id "[]" "''h0''"]
    by (simp add: logout_route_def demo_session_env_def demo_claims_def demo_session_def demo_token_def no_reissue_def)
qed

end
