(* ===== verification/LibraryIsolation.thy ===== *)
theory LibraryIsolation
  imports LibraryProps
begin

text \<open>
  Users do not reach each other's libraries: whatever a call of \<open>internal/api/saved_item\<close>,
  \<open>internal/api/collection\<close>, \<open>internal/api/enrichment\<close> or a worker's task does, it does it to the rows of one user.
\<close>

section \<open>The rows of everybody else\<close>

definition others :: "uuid \<Rightarrow> library_db \<Rightarrow> collection list \<times> saved_item list" where
  "others u d = (filter (\<lambda>c. c_user c \<noteq> u) (lib_collections d), filter (\<lambda>i. si_user i \<noteq> u) (lib_items d))"

definition others_are :: "uuid \<Rightarrow> collection list \<times> saved_item list \<Rightarrow> library_db \<Rightarrow> bool" where
  "others_are u X d \<longleftrightarrow> others u d = X"

text \<open>The user a call acts for: the one it names, for an enrichment task the owner of the item.\<close>

fun acting_user :: "library_call \<Rightarrow> library_db \<Rightarrow> uuid option" where
  "acting_user (OpenLibrary now cid uid) d = Some uid"
| "acting_user (CreateSavedItem now iid parse_host enqueuer uid url) d = Some uid"
| "acting_user (DeleteSavedItem uid iid) d = Some uid"
| "acting_user (PutSavedItem now cid uid iid name intent) d = Some uid"
| "acting_user (DeleteCollection now p) d = Some (dp_user p)"
| "acting_user (EnrichItem enricher now uid iid) d = Some uid"
| "acting_user (EnrichTask enricher organizer now payload) d =
     (case payload of Inl e \<Rightarrow> None | Inr iid \<Rightarrow> map_option si_user (row_with si_id iid (lib_items d)))"
| "acting_user (OrganizeTask now cid payload) d = (case payload of Inl e \<Rightarrow> None | Inr (iid, uid) \<Rightarrow> Some uid)"

section \<open>Statements\<close>

named_theorems isolated \<open>statements and methods that leave the other users' rows as they are\<close>

lemma kept_others_reading [isolated]: "kept (others_are u X) (reading f)"
  by (rule keptI) (simp add: reading_Inr)

lemma others_update_items:
  "others_are u X d \<Longrightarrow> (\<And>i. p i \<Longrightarrow> si_user i = u \<and> si_user (f i) = u) \<Longrightarrow>
     others_are u X (d\<lparr>lib_items := update_where p f (lib_items d)\<rparr>)"
  by (simp add: others_are_def others_def filter_update_where_same)

lemma others_remove_items:
  "others_are u X d \<Longrightarrow> (\<And>i. \<not> q i \<Longrightarrow> si_user i = u) \<Longrightarrow>
     others_are u X (d\<lparr>lib_items := filter q (lib_items d)\<rparr>)"
  by (auto simp: others_are_def others_def intro!: filter_cong)

lemma others_remove_collections:
  "others_are u X d \<Longrightarrow> (\<And>c. \<not> q c \<Longrightarrow> c_user c = u) \<Longrightarrow>
     others_are u X (d\<lparr>lib_collections := filter q (lib_collections d)\<rparr>)"
  by (auto simp: others_are_def others_def intro!: filter_cong)

lemma others_add:
  "others_are u X d \<Longrightarrow> si_user i = u \<Longrightarrow> others_are u X (d\<lparr>lib_items := lib_items d @ [i]\<rparr>)"
  "others_are u X d \<Longrightarrow> c_user c = u \<Longrightarrow> others_are u X (d\<lparr>lib_collections := lib_collections d @ [c]\<rparr>)"
  by (simp_all add: others_are_def others_def)

lemmas others_intros = others_update_items others_remove_items others_remove_collections others_add

lemma kept_others_statements [isolated]:
  "kept (others_are u X) (q_create_saved_item now iid u url domain platform title cid)"
  "kept (others_are u X) (q_delete_saved_item iid u)"
  "kept (others_are u X) (q_delete_saved_items cid u)"
  "kept (others_are u X) (q_move_saved_item now cid iid u)"
  "kept (others_are u X) (q_move_saved_items now target cid u)"
  "kept (others_are u X) (q_delete_collection cid u)"
  "kept (others_are u X) (q_create_user_collection now cid u name)"
  "kept (others_are u X) (q_create_system_collection now cid u name key)"
  "kept (others_are u X) (q_move_for_organization now cid iid u)"
  unfolding q_create_saved_item_def q_delete_saved_item_def q_delete_saved_items_def q_move_saved_item_def
    q_move_saved_items_def q_delete_collection_def q_create_user_collection_def q_create_system_collection_def
    q_move_for_organization_def
  by (rule keptI; auto simp: filed_def Let_def split: if_splits sum.splits intro!: others_intros)+

lemma kept_others_open [isolated]: "kept (others_are u X) (q_open_library now cid u)"
  by (rule keptI) (auto simp: q_open_library_def q_create_unsorted_def others_are_def others_def split: if_splits)

lemma kept_others_update:
  "(\<And>i. si_user (f i) = si_user i) \<Longrightarrow> kept (others_are u X) (update_item (\<lambda>i. si_id i = iid \<and> si_user i = u) f)"
  by (rule keptI) (auto simp: update_item_def split: sum.splits intro!: others_intros)

lemma kept_others_enrichment [isolated]:
  "kept (others_are u X) (q_complete_enrichment now p iid u)"
  "kept (others_are u X) (q_fail_enrichment now iid u)"
  unfolding q_complete_enrichment_def q_fail_enrichment_def
  by (rule kept_others_update; simp add: enriched_def enrich_failed_def)+

section \<open>Methods and services\<close>

lemma create_saved_item_isolated:
  "others_are u X d \<Longrightarrow> wp (\<lambda>_. others_are u X) (create_saved_item now iid parse_host enqueuer u url) d w"
  unfolding create_saved_item_def repo_get_unsorted_collection_def repo_create_saved_item_def q_get_unsorted_collection_def
  by (intro wp_intros wp_call_inv wp_pool_kept isolated; assumption)

lemma delete_saved_item_isolated:
  "others_are u X d \<Longrightarrow> wp (\<lambda>_. others_are u X) (delete_saved_item u iid) d w"
  unfolding delete_saved_item_def repo_delete_saved_item_def repo_count_saved_items_def Let_def
    repo_get_collection_system_key_def q_count_saved_items_def q_get_collection_system_key_def
  by (intro wp_intros wp_call_inv wp_pool_kept isolated; assumption)

lemma file_into_isolated:
  "others_are u X d \<Longrightarrow> others_are u X w \<Longrightarrow> wp (\<lambda>_. others_are u X) (file_into now iid u locked created c) d w"
  unfolding file_into_def by (intro wp_intros wp_exec_kept isolated; assumption)

lemma put_saved_item_isolated:
  assumes "others_are u X d"
  shows "wp (\<lambda>_. others_are u X) (put_saved_item now cid u iid raw intent) d w"
proof -
  have "wp (\<lambda>_. others_are u X) (repo_put_saved_item now cid u iid name intent) d w"
    if "others_are u X d" for name d w
    unfolding repo_put_saved_item_flat q_lock_saved_item_def q_get_collection_by_name_def
    by (intro wp_begin_tx wp_fail wp_fail_internal wp_if wp_on_no_rows wp_exec_kept isolated file_into_isolated that; assumption)
  note r = this
  show ?thesis unfolding put_saved_item_def by (intro wp_intros wp_call_inv r assms; assumption)
qed

lemma delete_collection_isolated:
  assumes "others_are (dp_user p) X d"
  shows "wp (\<lambda>_. others_are (dp_user p) X) (delete_collection now p) d w"
proof -
  have "wp (\<lambda>_. others_are (dp_user p) X) (repo_delete_collection now p) d w" if "others_are (dp_user p) X d" for d w
    unfolding repo_delete_collection_def delete_source_def q_get_collection_def
    by (intro wp_begin_tx wp_fail wp_fail_internal wp_if wp_on_no_rows wp_exec_kept wp_commit wp_ret isolated that; assumption)
  note r = this
  show ?thesis unfolding delete_collection_def by (intro wp_intros wp_call_inv r assms; assumption)
qed

lemma enrich_item_isolated:
  "others_are u X d \<Longrightarrow> wp (\<lambda>_. others_are u X) (enrich_item_now enricher now u iid) d w"
  unfolding enrich_item_now_def repo_get_url_for_enrichment_def repo_complete_enrichment_def repo_fail_enrichment_def
    q_get_url_for_enrichment_def
  by (intro wp_intros wp_call_inv wp_pool_kept isolated; assumption)

lemma organize_into_isolated:
  "others_are u X d \<Longrightarrow> others_are u X w \<Longrightarrow> wp (\<lambda>_. others_are u X) (organize_into now iid u locked created c) d w"
  unfolding organize_into_def by (intro wp_intros wp_exec_kept isolated; assumption)

lemma organize_task_isolated:
  assumes "others_are u X d"
  shows "wp (\<lambda>_. others_are u X) (handle_organize_task now cid (Inr (iid, u))) d w"
proof -
  have "wp (\<lambda>_. others_are u X) (repo_organize_saved_item now cid iid u) d w" if "others_are u X d" for d w
    unfolding repo_organize_saved_item_def organize_platform_flat organize_platform_def q_lock_for_organization_def
      q_get_collection_for_organization_def
    by (intro wp_begin_tx wp_fail wp_fail_internal wp_if wp_on_no_rows wp_exec_kept wp_commit wp_ret isolated
        organize_into_isolated that; assumption)
  note r = this
  show ?thesis unfolding handle_organize_task_def organize_saved_item_def sum.case prod.case
    by (intro wp_intros wp_call_inv r assms; assumption)
qed

text \<open>The worker's statements name the item only, so its owner is carried along.\<close>

definition others_and_owner :: "uuid \<Rightarrow> uuid \<Rightarrow> collection list \<times> saved_item list \<Rightarrow> library_db \<Rightarrow> bool" where
  "others_and_owner iid u X d \<longleftrightarrow> others_are u X d \<and> (\<forall>i\<in>set (lib_items d). si_id i = iid \<longrightarrow> si_user i = u)"

lemma kept_owner_update:
  assumes "\<And>i. si_user (f i) = si_user i \<and> si_id (f i) = si_id i"
  shows "kept (others_and_owner iid u X) (update_item (\<lambda>i. si_id i = iid) f)"
proof (rule keptI)
  fix d x d' assume o: "others_and_owner iid u X d" and q: "update_item (\<lambda>i. si_id i = iid) f d = Inr (x, d')"
  have d': "d' = d\<lparr>lib_items := update_where (\<lambda>i. si_id i = iid) f (lib_items d)\<rparr>"
    using q by (auto simp: update_item_def split: sum.splits)
  have "update_where (\<lambda>i. si_id i = iid) f (lib_items d) =
      update_where (\<lambda>i. si_id i = iid \<and> si_user i = u) f (lib_items d)"
    using o unfolding others_and_owner_def update_where_def by (intro map_cong) auto
  then show "others_and_owner iid u X d'"
    using o assms unfolding others_and_owner_def
    by (auto simp: d' set_update_where intro!: others_update_items)
qed

lemma enrich_task_keeps:
  assumes "\<And>p. kept I (update_item (\<lambda>i. si_id i = iid) (enriched now p))"
    and "kept I (update_item (\<lambda>i. si_id i = iid) (enrich_failed now))" and "I d"
  shows "wp (\<lambda>_. I) (handle_enrich_task enricher organizer now (Inr iid)) d w"
proof -
  have "wp (\<lambda>_. I) (enrich_saved_item enricher organizer now iid) d w" if "I d" for d w
    unfolding enrich_saved_item_def repo_get_for_background_def repo_complete_background_def repo_fail_background_def
      q_get_for_background_enrichment_def q_complete_background_enrichment_def q_fail_background_enrichment_def
    by (intro wp_intros wp_call_inv wp_pool_kept kept_reading kept_map_sum assms(1,2) that; assumption)
  note r = this
  show ?thesis unfolding handle_enrich_task_def sum.case by (intro wp_intros wp_call_inv r assms(3); assumption)
qed

lemma enrich_task_isolated:
  "others_and_owner iid u X d \<Longrightarrow>
     wp (\<lambda>_. others_and_owner iid u X) (handle_enrich_task enricher organizer now (Inr iid)) d w"
  by (intro enrich_task_keeps kept_owner_update; simp add: enriched_def enrich_failed_def)

lemma enrich_task_no_item:
  assumes "row_with si_id iid (lib_items d) = None"
  shows "wp (\<lambda>_ d'. d' = d) (handle_enrich_task enricher organizer now (Inr iid)) d w"
proof -
  have "kept (\<lambda>d'. d' = d) (update_item (\<lambda>i. si_id i = iid) f)" for f
    using assms by (intro keptI) (auto simp: update_item_def row_with_None_iff dest!: first_row_Inr split: sum.splits)
  then show ?thesis by (intro enrich_task_keeps refl)
qed

lemma run_ret: "run (ret x) d fs = (Inr x, d)"
  by (simp add: run_def ret_def conn_of_def)

section \<open>Isolation\<close>

text \<open>
  C36. A call touches one user's library. In every reachable library and under every schedule of faults, a call
  changes no collection and no saved item of a user other than the one it acts for: the user of the token,
  or for a task the owner of the item; a task without a readable payload or item changes nothing.
\<close>

theorem library_calls_touch_one_user:
  assumes "library_reachable d"
  shows "case acting_user x d of
      None \<Rightarrow> run_library x fs d = d
    | Some u \<Rightarrow> others u (run_library x fs d) = others u d"
proof -
  have ok: "library_ok d" by (rule library.reachable_inv[OF assms])
  have o: "others_are u (others u d) d" for u by (simp add: others_are_def)
  have fin: "others u (snd (run p d fs)) = others u d" if "wp (\<lambda>_. others_are u (others u d)) p d d" for u p
    using wp_run_snd[OF that] by (simp add: others_are_def)
  show ?thesis
  proof (cases x)
    case (OpenLibrary now cid uid)
    have "wp (\<lambda>_. others_are uid (others uid d)) (pool (q_open_library now cid uid) fail_internal ret) d d"
      by (intro wp_pool_kept isolated o wp_fail_internal wp_ret; assumption)
    then show ?thesis using fin OpenLibrary by simp
  next
    case (EnrichTask enricher organizer now payload)
    show ?thesis
    proof (cases payload)
      case (Inl e)
      then show ?thesis by (simp add: EnrichTask handle_enrich_task_def run_ret)
    next
      case (Inr iid)
      show ?thesis
      proof (cases "row_with si_id iid (lib_items d)")
        case None
        from wp_run_snd[OF enrich_task_no_item[OF this]] None show ?thesis by (simp add: EnrichTask Inr)
      next
        case (Some i)
        then have "others_and_owner iid (si_user i) (others (si_user i) d) d"
          using library_okD(3)[OF ok] o by (auto simp: others_and_owner_def dest: row_with_distinct)
        from wp_run_snd[OF enrich_task_isolated[OF this]] show ?thesis
          by (simp add: EnrichTask Inr Some others_and_owner_def others_are_def)
      qed
    qed
  next
    case (OrganizeTask now cid payload)
    show ?thesis
      using fin[OF organize_task_isolated[OF o]]
      by (cases payload) (auto simp: OrganizeTask handle_organize_task_def run_ret split: prod.splits)
  qed (simp_all add: fin create_saved_item_isolated delete_saved_item_isolated put_saved_item_isolated
      delete_collection_isolated enrich_item_isolated o)
qed

theorem library_calls_touch_one_user_witness:
  "filter (\<lambda>i. si_user i \<noteq> 2) (lib_items (run_library (DeleteSavedItem 2 21) [] demo_library)) = lib_items demo_library"
proof -
  have "filter (\<lambda>i. si_user i \<noteq> 2) (lib_items demo_library) = lib_items demo_library" by code_simp
  then show ?thesis
    using library_calls_touch_one_user[OF demo_library_reachable, of "DeleteSavedItem 2 21" "[]"] by (simp add: others_def)
qed

end
