(* ===== verification/Spec2Isabelle.thy ===== *)
theory Spec2Isabelle
  imports SessionTokens PasswordWork EmailBudget RegistrationManual RegistrationCodes LibraryProps JobProps Passwords Access
    LoginProps UserProps Search ConfigurationProps SessionHttp LibraryIsolation
begin

text \<open>
  Verification of the stash-it backend, a Go service that stores links for its users.

  \<^bold>\<open>The program.\<close> An HTTP API (\<open>cmd/api\<close>) and a worker process (\<open>cmd/worker\<close>) over one PostgreSQL
  database and one Redis server. A package under \<open>internal/api\<close> is a component with a handler, a service
  and a repository: the handler reads the request, the service decides, the repository runs SQL that
  \<open>sqlc\<close> generated from the queries beside it. Shared packages hold the error type, sessions' and
  registrations' rate limits, password work, email and pagination.

  \<^bold>\<open>How it is modelled.\<close> A database is a record of tables and a table the list of its rows. A SQL
  statement is a function from the tables to an error or a value and new tables, with the constraints of
  \<open>internal/database/baseline/schema.sql\<close> that it can violate. A repository method is a program of
  \<open>DbTx\<close> whose every round trip may work, fail, or be carried out with the answer lost; theorems
  about such programs hold for every schedule of these fates. A service is a program that calls them.
  Ids the database generates, clocks, token and code generators, hash functions, mail senders and the
  network are arguments. A repository method is a transaction and runs without interleaving, which is what
  the locking reads and unique indexes of the code are there for; calls of different requests interleave
  freely in the step relations.

  \<^bold>\<open>Theories.\<close>
  \<^item> \<open>Prelude\<close>: tables, the newest-first order, invariants of transition systems (locale
    \<open>invariant_system\<close>). \<open>GoStrings\<close>: string functions. \<open>AppErrors\<close>: \<open>internal/apperror\<close> and the error
    handler of \<open>internal/httpx\<close>. \<open>DbTx\<close>: programs, faults, the rules that walk them (\<open>wp\<close>), and the
    contract of a repository method (locale \<open>repo_method\<close>).
  \<^item> \<open>Sessions\<close>, \<open>SessionTokens\<close>: \<open>internal/api/auth/session\<close>, its tables, rotation of refresh tokens,
    revocation, listing, cleanup; the cleanup loop carries the number of batches left as its fuel, which is
    the cap \<open>SessionCleanupMaxBatches\<close> of the code.
  \<^item> \<open>Registration\<close>, \<open>RegistrationTables\<close>, \<open>RegistrationInv\<close>, \<open>RegistrationRuns\<close>, \<open>RegistrationProps\<close>,
    \<open>RegistrationManual\<close>, \<open>RegistrationCodes\<close>: \<open>internal/api/auth/registration\<close>, from the statements to
    all runs.
  \<^item> \<open>PasswordReset\<close>, \<open>PasswordResetRuns\<close>, \<open>PasswordResetProps\<close>: \<open>internal/api/auth/password_reset\<close> in the
    same way, over the tables of registration's requests and codes, the accounts and the sessions.
  \<^item> \<open>Login\<close>, \<open>LoginProps\<close>: \<open>internal/api/auth/login\<close>, the password and Google logins and the linking of an
    identity, over registration's accounts, the sessions, the failure budget and the password work.
  \<^item> \<open>Users\<close>, \<open>UserProps\<close>: \<open>internal/api/user\<close>, the profile and the setting of a password by the signed-in
    user. \<open>Search\<close>: \<open>internal/api/search\<close>, its two statements with their patterns and scores, over the
    tables of the library.
  \<^item> \<open>Redis\<close>, \<open>FixedWindow\<close>, \<open>SlidingWindow\<close>, \<open>EmailBudget\<close>: the Lua scripts of \<open>internal/ratelimit\<close> over
    a keyspace with expiry, the two limiters, and the PIN email budgets of \<open>internal/email\<close> on top.
    \<open>PasswordWork\<close>: the limiter of \<open>internal/security\<close> as a step relation of goroutines.
  \<^item> \<open>Base64\<close>: base64 over an alphabet (locale \<open>base64_alphabet\<close>, interpreted on the two alphabets the
    program uses), decimal numbers, splitting. \<open>Passwords\<close>: \<open>internal/security/password.go\<close>, the stored
    form of a hash and the three operations with the slots and derivations they cause. \<open>Access\<close>: tokens,
    codes and access tokens of \<open>internal/security\<close>, and the middleware of \<open>internal/middleware\<close>.
  \<^item> \<open>LibraryTables\<close>, \<open>SavedItems\<close>, \<open>Collections\<close>: \<open>internal/api/saved_item\<close> and
    \<open>internal/api/collection\<close>; \<open>LibraryInv\<close>: the invariant of the library and all runs; \<open>Cursor\<close>:
    \<open>internal/pagination\<close>; \<open>Keyset\<close>: keyset pagination as an interface (locale \<open>keyset_listing\<close>), and
    \<open>LibraryPages\<close> its interpretations by the three listings; \<open>LibraryProps\<close>: what the library promises.
  \<^item> \<open>NetAddr\<close>, \<open>Configuration\<close>, \<open>ConfigurationProps\<close>: \<open>internal/config\<close>, the settings of the API and the
    worker with their checks, over the address and range functions of Go's \<open>net\<close> that the proxy list uses.
  \<^item> \<open>Enrichment\<close>: \<open>internal/enrichment\<close>, from the tokens of a page to its metadata. \<open>LibraryJobs\<close>:
    \<open>internal/api/enrichment\<close>, \<open>internal/worker/enrichment\<close>, \<open>internal/worker/organization\<close> and the retry
    delay of \<open>internal/worker/queue\<close>; \<open>JobProps\<close>: what the jobs do to the library. \<open>OutboundFetch\<close>: the
    guard of \<open>internal/security/outbound_fetch.go\<close> and the address form of \<open>internal/ratelimit/ip.go\<close>.

  \<^bold>\<open>What the lemmas show.\<close> Each component has an invariant that every call keeps under every fault
  schedule (interpretations of \<open>invariant_system\<close>), its transactions are all-or-nothing (interpretations
  of \<open>repo_method\<close>), and its calls are characterised branch by branch. On top stand the properties the
  program exists for: refresh tokens are single-use and replay revokes the session, an account has a
  proved address, guesses of a code are limited, limits and budgets hold, no saved item is lost, and
  listings are complete; metadata is what the page declares first, jobs settle truthfully and file an item
  once, the outbound guard reaches public hosts only; a stored hash verifies its password and cannot
  overspend, and only verified tokens pass; a password reset needs a proved address, happens once, and ends
  every session; only the password or the linked Google identity opens a session, guesses are limited per
  address, and an unknown address looks like a wrong password; a password is replaced only by who knows it,
  once, and the other devices are signed out; a search ranks every item that contains the query before the
  merely similar ones; an accepted configuration is one the limiters can enforce, and believes forwarded
  addresses only from listed proxies. Lemmas that state a defect of the code say so.

  \<^bold>\<open>Not modelled.\<close> HTTP handlers, routes and JSON mapping, whose content is glue; Argon2id, JWT, HMAC and
  SHA-256, JSON, HTML tokens, URL, MIME and address parsing and RFC 3339 formatting, which are library calls
  and arguments here (the configuration's addresses apart), as are \<open>word_similarity\<close>, \<open>.env\<close> files and the
  monotonic clock; mail transport; process wiring,
  logging and generated documentation. Case mapping, collation and the patterns of \<open>ILIKE\<close> are those of
  ASCII bytes, and search scores are rationals where the database rounds. The manifest lists every part.
\<close>

end
